(* ===== verification/Prelude.thy ===== *)
theory Prelude
  imports Main "HOL-Library.AList"
begin

text \<open>
  Shared ground of the development: the model's types (time, durations, strings), the parts
  of Go's standard library that several components use (\<^verbatim>\<open>strings\<close>, \<^verbatim>\<open>strconv\<close>, map
  operations), and the generic lemmas on them.

  Time is the number of nanoseconds since Go's zero \<^verbatim>\<open>time.Time\<close>, so \<^verbatim>\<open>t.IsZero()\<close> is
  \<open>t = 0\<close>, \<^verbatim>\<open>t.Before(u)\<close> is \<open>t < u\<close> and \<^verbatim>\<open>t.Add(d)\<close> is \<open>t + d\<close>. A Go string is a
  list of bytes; case mapping is the ASCII one. A Go map is an association list with distinct
  keys: \<open>map_of\<close> looks a key up, \<open>AList.update\<close> stores, \<open>AList.delete\<close> deletes and
  \<open>length\<close> is \<^verbatim>\<open>len\<close>.
\<close>

named_theorems go_simps \<open>equations of the modelled Go standard library\<close>

section \<open>Types\<close>

type_synonym time = int
type_synonym duration = int
type_synonym 'v gomap = "(string \<times> 'v) list"

abbreviation millisecond :: duration where "millisecond \<equiv> 1000000"
abbreviation second :: duration where "second \<equiv> 1000000000"
abbreviation minute :: duration where "minute \<equiv> 60000000000"
abbreviation hour :: duration where "hour \<equiv> 3600000000000"

section \<open>Go's truncating integer division\<close>

definition go_div :: "int \<Rightarrow> int \<Rightarrow> int" where
  "go_div a b = sgn a * sgn b * (\<bar>a\<bar> div \<bar>b\<bar>)"

lemma go_div_nonneg [go_simps]: "0 \<le> a \<Longrightarrow> 0 < b \<Longrightarrow> go_div a b = a div b"
  by (cases "a = 0") (simp_all add: go_div_def)

section \<open>64-bit integers\<close>

text \<open>Go's \<^verbatim>\<open>int\<close> on the supported platforms: two's complement, arithmetic wraps.\<close>

definition int64 :: "int \<Rightarrow> int" where
  "int64 x = (x + 2 ^ 63) mod 2 ^ 64 - 2 ^ 63"

lemma int64_id [simp]: "- (2 ^ 63) \<le> x \<Longrightarrow> x < 2 ^ 63 \<Longrightarrow> int64 x = x"
  by (simp add: int64_def)

section \<open>Errors\<close>

text \<open>A Go error value: a package-level sentinel (identified by its qualified name), any other
  error, or a wrapped error (\<^verbatim>\<open>fmt.Errorf("msg: %w", err)\<close>). \<open>Is\<close> is \<^verbatim>\<open>errors.Is\<close>.\<close>

datatype go_err = Sentinel string | Opaque string | Wrap string go_err

fun Is :: "go_err \<Rightarrow> go_err \<Rightarrow> bool" where
  "Is (Wrap m e) target = (Wrap m e = target \<or> Is e target)"
| "Is e target = (e = target)"

section \<open>Strings\<close>

definition ord_char :: "char \<Rightarrow> nat" where
  "ord_char c = of_char c"

definition is_upper_char :: "char \<Rightarrow> bool" where
  "is_upper_char c \<longleftrightarrow> 65 \<le> ord_char c \<and> ord_char c \<le> 90"

definition is_lower_char :: "char \<Rightarrow> bool" where
  "is_lower_char c \<longleftrightarrow> 97 \<le> ord_char c \<and> ord_char c \<le> 122"

definition to_lower_char :: "char \<Rightarrow> char" where
  "to_lower_char c = (if is_upper_char c then char_of (ord_char c + 32) else c)"

definition to_upper_char :: "char \<Rightarrow> char" where
  "to_upper_char c = (if is_lower_char c then char_of (ord_char c - 32) else c)"

definition ToLower :: "string \<Rightarrow> string" where
  "ToLower s = map to_lower_char s"

definition HasPrefix :: "string \<Rightarrow> string \<Rightarrow> bool" where
  "HasPrefix s p \<longleftrightarrow> take (length p) s = p"

definition TrimPrefix :: "string \<Rightarrow> string \<Rightarrow> string" where
  "TrimPrefix s p = (if HasPrefix s p then drop (length p) s else s)"

definition HasSuffix :: "string \<Rightarrow> string \<Rightarrow> bool" where
  "HasSuffix s p \<longleftrightarrow> HasPrefix (rev s) (rev p)"

definition TrimSuffix :: "string \<Rightarrow> string \<Rightarrow> string" where
  "TrimSuffix s p = (if HasSuffix s p then take (length s - length p) s else s)"

fun Contains :: "string \<Rightarrow> string \<Rightarrow> bool" where
  "Contains s p = (HasPrefix s p \<or> (case s of [] \<Rightarrow> False | _ # s' \<Rightarrow> Contains s' p))"

fun Join :: "string list \<Rightarrow> string \<Rightarrow> string" where
  "Join [] sep = []"
| "Join [x] sep = x"
| "Join (x # y # xs) sep = x @ sep @ Join (y # xs) sep"

text \<open>\<^verbatim>\<open>strings.Split\<close> with a one-byte separator: never empty, an empty input gives one empty
  part.\<close>

fun Split :: "string \<Rightarrow> char \<Rightarrow> string list" where
  "Split [] sep = [[]]"
| "Split (c # s) sep =
     (if c = sep then [] # Split s sep
      else (case Split s sep of [] \<Rightarrow> [[c]] | p # ps \<Rightarrow> (c # p) # ps))"

definition is_space :: "char \<Rightarrow> bool" where
  "is_space c \<longleftrightarrow> ord_char c \<in> {9, 10, 11, 12, 13, 32}"

definition trim_by :: "(char \<Rightarrow> bool) \<Rightarrow> string \<Rightarrow> string" where
  "trim_by P s = rev (dropWhile P (rev (dropWhile P s)))"

definition TrimSpace :: "string \<Rightarrow> string" where
  "TrimSpace s = trim_by is_space s"

text \<open>\<^verbatim>\<open>strconv.Itoa\<close> and \<^verbatim>\<open>%d\<close>.\<close>

definition digit :: "nat \<Rightarrow> char" where
  "digit d = char_of (48 + d)"

fun nat_str :: "nat \<Rightarrow> string" where
  "nat_str n = (if n < 10 then [digit n] else nat_str (n div 10) @ [digit (n mod 10)])"

declare nat_str.simps [simp del]

definition Itoa :: "int \<Rightarrow> string" where
  "Itoa i = (if i < 0 then CHR ''-'' # nat_str (nat (- i)) else nat_str (nat i))"

text \<open>Reading decimal digits.\<close>

definition is_digit :: "char \<Rightarrow> bool" where
  "is_digit c \<longleftrightarrow> 48 \<le> ord_char c \<and> ord_char c \<le> 57"

definition dec_number :: "string \<Rightarrow> nat" where
  "dec_number s = fold (\<lambda>c n. n * 10 + (ord_char c - 48)) s 0"

lemma ord_char_less [simp]: "ord_char c < 256"
  by (simp add: ord_char_def)

lemma ord_digit [simp]: "d < 10 \<Longrightarrow> ord_char (digit d) = 48 + d"
  by (simp add: ord_char_def digit_def)

lemma is_digit_digit [simp]: "d < 10 \<Longrightarrow> is_digit (digit d)"
  by (simp add: is_digit_def)

lemma dec_number_snoc [simp]: "dec_number (s @ [c]) = dec_number s * 10 + (ord_char c - 48)"
  by (simp add: dec_number_def)

lemma nat_str_digits: "x \<in> set (nat_str n) \<Longrightarrow> is_digit x"
  by (induction n rule: nat_str.induct) (subst (asm) (2) nat_str.simps, auto split: if_splits)

lemma nat_str_not_Nil [simp]: "nat_str n \<noteq> []"
  by (subst nat_str.simps) simp

lemma dec_number_nat_str [simp]: "dec_number (nat_str n) = n"
proof (induction n rule: nat_str.induct)
  case (1 n)
  show ?case
  proof (cases "n < 10")
    case True
    then show ?thesis by (subst nat_str.simps) (simp add: dec_number_def)
  next
    case False
    then have "dec_number (nat_str n) = dec_number (nat_str (n div 10)) * 10 + n mod 10"
      by (subst nat_str.simps) simp
    then show ?thesis using 1 False by simp
  qed
qed

text \<open>No leading zeros.\<close>

lemma nat_str_hd: "0 < n \<Longrightarrow> ord_char (hd (nat_str n)) \<noteq> 48"
proof (induction n rule: nat_str.induct)
  case (1 n)
  show ?case
  proof (cases "n < 10")
    case True
    then show ?thesis using 1 by (subst nat_str.simps) simp
  next
    case False
    then have "0 < n div 10" "hd (nat_str n) = hd (nat_str (n div 10))"
      by (simp_all add: nat_str.simps [of n] div_greater_zero_iff)
    then show ?thesis using 1 False by simp
  qed
qed

lemma nat_str_inj: "nat_str m = nat_str n \<Longrightarrow> m = n"
  by (metis dec_number_nat_str)

text \<open>\<^verbatim>\<open>fmt.Errorf("msg: %w", err)\<close> on error texts.\<close>

definition wrap :: "string \<Rightarrow> string \<Rightarrow> string" where
  "wrap msg e = msg @ '': '' @ e"

text \<open>\<^verbatim>\<open>net.JoinHostPort\<close>: an IPv6 host is bracketed.\<close>

definition JoinHostPort :: "string \<Rightarrow> string \<Rightarrow> string" where
  "JoinHostPort host port =
     (if CHR '':'' \<in> set host then ''['' @ host @ '']:'' @ port else host @ '':'' @ port)"

lemma HasPrefix_append [simp]: "HasPrefix (p @ s) p"
  by (simp add: HasPrefix_def)

lemma TrimPrefix_append [simp]: "TrimPrefix (p @ s) p = s"
  by (simp add: TrimPrefix_def)

lemma HasPrefix_iff: "HasPrefix s p \<longleftrightarrow> (\<exists>r. s = p @ r)"
  by (metis HasPrefix_append HasPrefix_def append_take_drop_id)

lemma HasSuffix_iff: "HasSuffix s p \<longleftrightarrow> (\<exists>r. s = r @ p)"
  unfolding HasSuffix_def HasPrefix_iff by (metis rev_append rev_rev_ident)

lemma TrimSuffix_append [simp]: "TrimSuffix (s @ p) p = s"
  by (auto simp: TrimSuffix_def HasSuffix_iff)

lemma Contains_iff: "Contains s p \<longleftrightarrow> (\<exists>a b. s = a @ p @ b)"
proof (induction s)
  case Nil
  then show ?case by (auto simp: HasPrefix_def)
next
  case (Cons c s)
  have "(\<exists>a b. c # s = a @ p @ b) \<longleftrightarrow> HasPrefix (c # s) p \<or> (\<exists>a b. s = a @ p @ b)"
    unfolding HasPrefix_iff by (metis append_Cons append_Nil append_eq_Cons_conv)
  then show ?case using Cons by auto
qed

declare Contains.simps [simp del]

lemma prefix_clash: "a @ s = b @ t \<Longrightarrow> length a \<le> length b \<Longrightarrow> take (length a) b = a"
  by (metis append_eq_append_conv_if)

text \<open>Joining parts that do not hold the separator and splitting again gives the parts back.\<close>

lemma Split_no_sep [simp]: "sep \<notin> set s \<Longrightarrow> Split s sep = [s]"
  by (induction s) auto

lemma Split_append_sep: "sep \<notin> set x \<Longrightarrow> Split (x @ sep # s) sep = x # Split s sep"
  by (induction x) auto

lemma Join_chars: "c \<in> set (Join xs sep) \<Longrightarrow> c \<in> set sep \<or> (\<exists>x \<in> set xs. c \<in> set x)"
  by (induction xs sep rule: Join.induct) auto

lemma Split_Join:
  "\<forall>x \<in> set xs. sep \<notin> set x \<Longrightarrow> xs \<noteq> [] \<Longrightarrow> Split (Join xs [sep]) sep = xs"
  by (induction xs "[sep]" rule: Join.induct) (auto simp: Split_append_sep)

lemma Split_not_Nil [simp]: "Split s sep \<noteq> []"
  by (induction s) (auto split: list.splits)

lemma Split_parts: "p \<in> set (Split s sep) \<Longrightarrow> sep \<notin> set p"
proof (induction s arbitrary: p)
  case (Cons c s)
  obtain q qs where q: "Split s sep = q # qs" using Split_not_Nil [of s sep] by (cases "Split s sep") auto
  then show ?case using Cons by (auto split: if_splits)
qed simp

lemma Join_Split: "Join (Split s sep) [sep] = s"
proof (induction s)
  case (Cons c s)
  obtain q qs where q: "Split s sep = q # qs" using Split_not_Nil [of s sep] by (cases "Split s sep") auto
  then show ?case using Cons by (cases qs) auto
qed simp

section \<open>Go maps\<close>

abbreviation wf_gomap :: "'v gomap \<Rightarrow> bool" where
  "wf_gomap m \<equiv> distinct (map fst m)"

text \<open>A \<^verbatim>\<open>for k, v := range m { if P(v) { delete(m, k) } }\<close> loop.\<close>

definition gomap_purge :: "('v \<Rightarrow> bool) \<Rightarrow> 'v gomap \<Rightarrow> 'v gomap" where
  "gomap_purge P m = filter (\<lambda>(k, v). \<not> P v) m"

lemma wf_update [simp]: "wf_gomap m \<Longrightarrow> wf_gomap (AList.update k v m)"
  by (simp add: distinct_update)

lemma wf_delete [simp]: "wf_gomap m \<Longrightarrow> wf_gomap (AList.delete k m)"
  by (simp add: distinct_delete)

lemma wf_purge [simp]: "wf_gomap m \<Longrightarrow> wf_gomap (gomap_purge P m)"
  by (simp add: gomap_purge_def distinct_map_filter)

lemma map_of_update [simp]: "map_of (AList.update k v m) = (map_of m)(k \<mapsto> v)"
  by (simp add: update_conv')

lemma map_of_delete [simp]: "map_of (AList.delete k m) = (map_of m)(k := None)"
  by (simp add: delete_conv')

lemma map_of_purge:
  "wf_gomap m \<Longrightarrow> map_of (gomap_purge P m) k =
     (case map_of m k of None \<Rightarrow> None | Some v \<Rightarrow> if P v then None else Some v)"
proof (induction m)
  case Nil
  then show ?case by (simp add: gomap_purge_def)
next
  case (Cons x m)
  obtain a b where x: "x = (a, b)" by (cases x)
  have "map_of m a = None" using Cons.prems x by (auto simp: map_of_eq_None_iff)
  then show ?case using Cons x by (auto simp: gomap_purge_def split: option.splits)
qed

lemma length_purge_le: "length (gomap_purge P m) \<le> length m"
  by (simp add: gomap_purge_def)

end
