(* ===== verification/Cache.thy ===== *)
theory Cache
  imports Prelude
begin

text \<open>
  The cache layer: the \<^verbatim>\<open>Cacher\<close> interface of \<^verbatim>\<open>internal/domain/repository/cache.go\<close>, its
  in-process implementation \<^verbatim>\<open>internal/repository/memory/cache.go\<close> and its Redis
  implementation \<^verbatim>\<open>internal/repository/redis/cache.go\<close>.

  Stored bytes are modelled by the JSON document they spell (\<open>JBad\<close> for bytes that do not
  parse). The values the program caches are a string (reset token), an int (password version)
  and a \<^verbatim>\<open>refreshSession\<close>; \<open>GoOpaque\<close> is a value \<^verbatim>\<open>json.Marshal\<close> rejects.

  The locale \<open>cacher\<close> states what a use case may rely on whatever the backend does (a failing
  write has acted on each of its keys or not, a failing \<^verbatim>\<open>Get\<close> is a miss); \<open>reliable_cacher\<close> adds
  that no command fails. The memory cache interprets the latter.
\<close>

section \<open>JSON values\<close>

datatype json = JNull | JNum int | JStr string | JObj "(string \<times> json) list" | JBad

datatype gval = GoString string | GoInt int | GoSession string int | GoOpaque

datatype gotype = TString | TInt | TSession

text \<open>The struct \<^verbatim>\<open>refreshSession\<close> has the JSON keys \<^verbatim>\<open>sub\<close> and \<^verbatim>\<open>ver\<close>
  (\<^verbatim>\<open>internal/usecase/auth_usecase.go\<close>).\<close>

fun marshal :: "gval \<Rightarrow> json option" where
  "marshal (GoString s) = Some (JStr s)"
| "marshal (GoInt n) = Some (JNum n)"
| "marshal (GoSession sub ver) = Some (JObj [(''sub'', JStr sub), (''ver'', JNum ver)])"
| "marshal GoOpaque = None"

text \<open>Decoding an object into the struct: keys match case-insensitively, unknown keys are
  skipped, \<^verbatim>\<open>null\<close> leaves the field, a value of another type is an error.\<close>

fun unmarshal_session :: "(string \<times> json) list \<Rightarrow> string \<Rightarrow> int \<Rightarrow> gval option" where
  "unmarshal_session [] sub ver = Some (GoSession sub ver)"
| "unmarshal_session ((k, v) # fs) sub ver =
     (if ToLower k = ''sub'' then
        (case v of JStr s \<Rightarrow> unmarshal_session fs s ver
                 | JNull \<Rightarrow> unmarshal_session fs sub ver | _ \<Rightarrow> None)
      else if ToLower k = ''ver'' then
        (case v of JNum n \<Rightarrow> unmarshal_session fs sub n
                 | JNull \<Rightarrow> unmarshal_session fs sub ver | _ \<Rightarrow> None)
      else unmarshal_session fs sub ver)"

fun unmarshal :: "json \<Rightarrow> gotype \<Rightarrow> gval option" where
  "unmarshal (JStr s) TString = Some (GoString s)"
| "unmarshal (JNum n) TInt = Some (GoInt n)"
| "unmarshal (JObj fs) TSession = unmarshal_session fs [] 0"
| "unmarshal JNull TString = Some (GoString [])"
| "unmarshal JNull TInt = Some (GoInt 0)"
| "unmarshal JNull TSession = Some (GoSession [] 0)"
| "unmarshal _ _ = None"

section \<open>The interface\<close>

datatype cache_err = ErrCacheMiss | CacheSetMarshal | CacheGetUnmarshal | CacheBackend string

record 's Cacher =
  cSet :: "'s \<Rightarrow> time \<Rightarrow> string \<Rightarrow> gval \<Rightarrow> duration \<Rightarrow> cache_err option \<times> 's"
  cGet :: "'s \<Rightarrow> time \<Rightarrow> string \<Rightarrow> gotype \<Rightarrow> (cache_err + gval) \<times> 's"
  cDel :: "'s \<Rightarrow> time \<Rightarrow> string list \<Rightarrow> cache_err option \<times> 's"
  cExists :: "'s \<Rightarrow> time \<Rightarrow> string \<Rightarrow> (cache_err + bool) \<times> 's"

section \<open>The memory cache\<close>

record entry =
  data :: json
  expiresAt :: time

record MemCacher =
  mc_ns :: string
  mc_m :: "entry gomap"

abbreviation sweepThreshold :: nat where "sweepThreshold \<equiv> 1024"

definition New_mem :: "string \<Rightarrow> MemCacher" where
  "New_mem ns = \<lparr>mc_ns = ns, mc_m = []\<rparr>"

definition prefixed :: "string \<Rightarrow> string \<Rightarrow> string" where
  "prefixed ns key = (if ns = [] then key else ns @ '':'' @ key)"

definition entry_expired :: "time \<Rightarrow> entry \<Rightarrow> bool" where
  "entry_expired now e \<longleftrightarrow> expiresAt e \<noteq> 0 \<and> \<not> now < expiresAt e"

definition sweepLocked :: "MemCacher \<Rightarrow> time \<Rightarrow> MemCacher" where
  "sweepLocked c now = c\<lparr>mc_m := gomap_purge (entry_expired now) (mc_m c)\<rparr>"

definition mem_Set ::
  "MemCacher \<Rightarrow> time \<Rightarrow> string \<Rightarrow> gval \<Rightarrow> duration \<Rightarrow> cache_err option \<times> MemCacher" where
  "mem_Set c now key value ttl =
     (case marshal value of
        None \<Rightarrow> (Some CacheSetMarshal, c)
      | Some b \<Rightarrow>
          let e = \<lparr>data = b, expiresAt = (if ttl > 0 then now + ttl else 0)\<rparr>;
              c' = (if length (mc_m c) \<ge> sweepThreshold then sweepLocked c now else c)
          in (None, c'\<lparr>mc_m := AList.update (prefixed (mc_ns c) key) e (mc_m c')\<rparr>))"

text \<open>\<^verbatim>\<open>Get\<close> takes the read lock for the lookup and, when the entry has expired, the write lock
  for the deletion: two critical sections.\<close>

definition mem_read :: "MemCacher \<Rightarrow> string \<Rightarrow> entry option" where
  "mem_read c full = map_of (mc_m c) full"

definition mem_purge :: "MemCacher \<Rightarrow> string \<Rightarrow> MemCacher" where
  "mem_purge c full = c\<lparr>mc_m := AList.delete full (mc_m c)\<rparr>"

definition mem_Get ::
  "MemCacher \<Rightarrow> time \<Rightarrow> string \<Rightarrow> gotype \<Rightarrow> (cache_err + gval) \<times> MemCacher" where
  "mem_Get c now key ty =
     (let full = prefixed (mc_ns c) key in
      case mem_read c full of
        None \<Rightarrow> (Inl ErrCacheMiss, c)
      | Some e \<Rightarrow>
          if entry_expired now e then (Inl ErrCacheMiss, mem_purge c full)
          else (case unmarshal (data e) ty of
                  None \<Rightarrow> (Inl CacheGetUnmarshal, c)
                | Some v \<Rightarrow> (Inr v, c)))"

fun del_keys :: "string \<Rightarrow> string list \<Rightarrow> entry gomap \<Rightarrow> entry gomap" where
  "del_keys ns [] m = m"
| "del_keys ns (k # ks) m = del_keys ns ks (AList.delete (prefixed ns k) m)"

definition mem_Del ::
  "MemCacher \<Rightarrow> time \<Rightarrow> string list \<Rightarrow> cache_err option \<times> MemCacher" where
  "mem_Del c now keys = (None, c\<lparr>mc_m := del_keys (mc_ns c) keys (mc_m c)\<rparr>)"

definition mem_Exists ::
  "MemCacher \<Rightarrow> time \<Rightarrow> string \<Rightarrow> (cache_err + bool) \<times> MemCacher" where
  "mem_Exists c now key =
     (let full = prefixed (mc_ns c) key in
      case mem_read c full of
        None \<Rightarrow> (Inr False, c)
      | Some e \<Rightarrow>
          if entry_expired now e then (Inr False, mem_purge c full) else (Inr True, c))"

definition MemoryCacher :: "MemCacher Cacher" where
  "MemoryCacher = \<lparr>cSet = mem_Set, cGet = mem_Get, cDel = mem_Del, cExists = mem_Exists\<rparr>"

section \<open>The Redis cache\<close>

text \<open>The go-redis client and the server behind it are third-party: a record of commands over
  an abstract server state, \<open>Inl\<close> for a transport error; \<^verbatim>\<open>redis.Nil\<close> is \<open>Inr None\<close>.\<close>

record 'r redis_client =
  r_SET :: "'r \<Rightarrow> time \<Rightarrow> string \<Rightarrow> json \<Rightarrow> duration \<Rightarrow> string option \<times> 'r"
  r_GET :: "'r \<Rightarrow> time \<Rightarrow> string \<Rightarrow> (string + json option) \<times> 'r"
  r_DEL :: "'r \<Rightarrow> time \<Rightarrow> string list \<Rightarrow> string option \<times> 'r"
  r_EXISTS :: "'r \<Rightarrow> time \<Rightarrow> string \<Rightarrow> (string + int) \<times> 'r"

definition redis_Set ::
  "'r redis_client \<Rightarrow> string \<Rightarrow> 'r \<Rightarrow> time \<Rightarrow> string \<Rightarrow> gval \<Rightarrow> duration \<Rightarrow> cache_err option \<times> 'r" where
  "redis_Set R ns s now key value ttl =
     (case marshal value of
        None \<Rightarrow> (Some CacheSetMarshal, s)
      | Some b \<Rightarrow> (case r_SET R s now (prefixed ns key) b ttl of
           (e, s') \<Rightarrow> (map_option CacheBackend e, s')))"

definition redis_Get ::
  "'r redis_client \<Rightarrow> string \<Rightarrow> 'r \<Rightarrow> time \<Rightarrow> string \<Rightarrow> gotype \<Rightarrow> (cache_err + gval) \<times> 'r" where
  "redis_Get R ns s now key ty =
     (case r_GET R s now (prefixed ns key) of
        (Inr None, s') \<Rightarrow> (Inl ErrCacheMiss, s')
      | (Inl e, s') \<Rightarrow> (Inl ErrCacheMiss, s')
      | (Inr (Some b), s') \<Rightarrow>
          (case unmarshal b ty of
             None \<Rightarrow> (Inl CacheGetUnmarshal, s')
           | Some v \<Rightarrow> (Inr v, s')))"

definition redis_Del ::
  "'r redis_client \<Rightarrow> string \<Rightarrow> 'r \<Rightarrow> time \<Rightarrow> string list \<Rightarrow> cache_err option \<times> 'r" where
  "redis_Del R ns s now keys =
     (case r_DEL R s now (map (prefixed ns) keys) of
        (e, s') \<Rightarrow> (map_option CacheBackend e, s'))"

definition redis_Exists ::
  "'r redis_client \<Rightarrow> string \<Rightarrow> 'r \<Rightarrow> time \<Rightarrow> string \<Rightarrow> (cache_err + bool) \<times> 'r" where
  "redis_Exists R ns s now key =
     (case r_EXISTS R s now (prefixed ns key) of
        (Inl e, s') \<Rightarrow> (Inl (CacheBackend e), s')
      | (Inr n, s') \<Rightarrow> (Inr (n > 0), s'))"

definition RedisCacher :: "'r redis_client \<Rightarrow> string \<Rightarrow> 'r Cacher" where
  "RedisCacher R ns = \<lparr>cSet = redis_Set R ns, cGet = redis_Get R ns,
     cDel = redis_Del R ns, cExists = redis_Exists R ns\<rparr>"


section \<open>The contract of the interface\<close>

definition decode :: "json option \<Rightarrow> gotype \<Rightarrow> cache_err + gval" where
  "decode r ty = (case r of None \<Rightarrow> Inl ErrCacheMiss
     | Some d \<Rightarrow> (case unmarshal d ty of None \<Rightarrow> Inl CacheGetUnmarshal | Some v \<Rightarrow> Inr v))"

text \<open>\<open>peek s t k\<close> is the document a \<^verbatim>\<open>Get\<close> of \<open>k\<close> at instant \<open>t\<close> finds; \<open>okTTL\<close> the
  time-to-live values the backend keeps exactly.\<close>

locale cacher =
  fixes C :: "'s Cacher"
    and peek :: "'s \<Rightarrow> time \<Rightarrow> string \<Rightarrow> json option"
    and inv :: "'s \<Rightarrow> bool"
    and okTTL :: "duration \<Rightarrow> bool"
  assumes inv_get: "inv s \<Longrightarrow> inv (snd (cGet C s t k ty))"
    and inv_set: "inv s \<Longrightarrow> inv (snd (cSet C s t k v ttl))"
    and inv_del: "inv s \<Longrightarrow> inv (snd (cDel C s t ks))"
    and inv_exists: "inv s \<Longrightarrow> inv (snd (cExists C s t k))"
    and get_result: "inv s \<Longrightarrow>
      fst (cGet C s t k ty) = Inl ErrCacheMiss \<or> fst (cGet C s t k ty) = decode (peek s t k) ty"
    and get_frame: "inv s \<Longrightarrow> t \<le> t' \<Longrightarrow> peek (snd (cGet C s t k ty)) t' = peek s t'"
    and set_ok: "inv s \<Longrightarrow> 0 \<le> t \<Longrightarrow> okTTL ttl \<Longrightarrow> fst (cSet C s t k v ttl) = None \<Longrightarrow> t \<le> t' \<Longrightarrow>
      peek (snd (cSet C s t k v ttl)) t' =
        (peek s t')(k := if ttl \<le> 0 \<or> t' < t + ttl then marshal v else None)"
    and set_other: "inv s \<Longrightarrow> 0 \<le> t \<Longrightarrow> t \<le> t' \<Longrightarrow> k' \<noteq> k \<Longrightarrow>
      peek (snd (cSet C s t k v ttl)) t' k' = peek s t' k'"
    and set_fail: "inv s \<Longrightarrow> 0 \<le> t \<Longrightarrow> okTTL ttl \<Longrightarrow> fst (cSet C s t k v ttl) \<noteq> None \<Longrightarrow> t \<le> t' \<Longrightarrow>
      peek (snd (cSet C s t k v ttl)) t' k = peek s t' k \<or>
      peek (snd (cSet C s t k v ttl)) t' k = (if ttl \<le> 0 \<or> t' < t + ttl then marshal v else None)"
    and del_ok: "inv s \<Longrightarrow> fst (cDel C s t ks) = None \<Longrightarrow> t \<le> t' \<Longrightarrow>
      peek (snd (cDel C s t ks)) t' k = (if k \<in> set ks then None else peek s t' k)"
    and del_fail: "inv s \<Longrightarrow> fst (cDel C s t ks) \<noteq> None \<Longrightarrow> t \<le> t' \<Longrightarrow>
      peek (snd (cDel C s t ks)) t' k = peek s t' k \<or> k \<in> set ks \<and> peek (snd (cDel C s t ks)) t' k = None"
    and exists_result: "inv s \<Longrightarrow> fst (cExists C s t k) = Inr b \<Longrightarrow> b = (peek s t k \<noteq> None)"
    and exists_frame: "inv s \<Longrightarrow> t \<le> t' \<Longrightarrow> peek (snd (cExists C s t k)) t' = peek s t'"
    and peek_fade: "inv s \<Longrightarrow> t \<le> t' \<Longrightarrow> peek s t' k = None \<or> peek s t' k = peek s t k"
begin

lemma peek_later: "inv s \<Longrightarrow> t \<le> t' \<Longrightarrow> peek s t k = None \<Longrightarrow> peek s t' k = None"
  using peek_fade by metis

lemma get_miss:
  assumes "inv s" "peek s t k = None"
  shows "fst (cGet C s t k ty) = Inl ErrCacheMiss"
  using get_result [OF assms(1), of t k ty] assms(2) by (auto simp: decode_def)

lemma get_Inr:
  assumes "inv s" "fst (cGet C s t k ty) = Inr v"
  shows "\<exists>d. peek s t k = Some d \<and> unmarshal d ty = Some v"
  using get_result [OF assms(1), of t k ty] assms(2)
  by (auto simp: decode_def split: option.splits)

text \<open>A key that no later write restores stays absent.\<close>

lemma get_miss_later:
  assumes "inv s" "peek s t k = None" "t \<le> t'"
  shows "fst (cGet C s t' k ty) = Inl ErrCacheMiss"
  by (rule get_miss [OF assms(1) peek_later [OF assms(1,3,2)]])

end

locale reliable_cacher = cacher +
  assumes get_total: "inv s \<Longrightarrow> fst (cGet C s t k ty) = decode (peek s t k) ty"
    and set_total: "inv s \<Longrightarrow> marshal v \<noteq> None \<Longrightarrow> fst (cSet C s t k v ttl) = None"
    and del_total: "inv s \<Longrightarrow> fst (cDel C s t ks) = None"
    and exists_total: "inv s \<Longrightarrow> fst (cExists C s t k) = Inr (peek s t k \<noteq> None)"
begin

lemma get_after_set:
  assumes "inv s" "0 \<le> t" "okTTL ttl" "marshal v = Some d" "unmarshal d ty = Some w"
    and "t \<le> t'" "ttl \<le> 0 \<or> t' < t + ttl"
  shows "fst (cGet C (snd (cSet C s t k v ttl)) t' k ty) = Inr w"
proof -
  have "fst (cSet C s t k v ttl) = None" using assms(1,4) by (simp add: set_total)
  then have "peek (snd (cSet C s t k v ttl)) t' k = Some d"
    using assms by (simp add: set_ok)
  then show ?thesis using assms(1,5) by (simp add: get_total inv_set decode_def)
qed

lemma get_after_set_expired:
  assumes "inv s" "0 \<le> t" "okTTL ttl" "marshal v \<noteq> None" "0 < ttl" "t + ttl \<le> t'"
  shows "fst (cGet C (snd (cSet C s t k v ttl)) t' k ty) = Inl ErrCacheMiss"
proof -
  have "fst (cSet C s t k v ttl) = None" using assms(1,4) by (simp add: set_total)
  then have "peek (snd (cSet C s t k v ttl)) t' k = None"
    using assms by (simp add: set_ok)
  then show ?thesis using assms(1) by (simp add: get_total inv_set decode_def)
qed

lemma get_after_del:
  assumes "inv s" "t \<le> t'" "k \<in> set ks"
  shows "fst (cGet C (snd (cDel C s t ks)) t' k ty) = Inl ErrCacheMiss"
  using assms by (simp add: get_total inv_del del_ok del_total decode_def)

end

section \<open>The memory cache keeps the contract\<close>

definition mem_inv :: "MemCacher \<Rightarrow> bool" where
  "mem_inv c \<longleftrightarrow> wf_gomap (mc_m c)"

definition mem_peek :: "MemCacher \<Rightarrow> time \<Rightarrow> string \<Rightarrow> json option" where
  "mem_peek c t k = (case map_of (mc_m c) (prefixed (mc_ns c) k) of
     None \<Rightarrow> None | Some e \<Rightarrow> if entry_expired t e then None else Some (data e))"

lemma marshal_unmarshal:
  "unmarshal (JStr s) TString = Some (GoString s)"
  "unmarshal (JNum n) TInt = Some (GoInt n)"
  "unmarshal (JObj [(''sub'', JStr sub), (''ver'', JNum ver)]) TSession = Some (GoSession sub ver)"
  by (simp_all add: ToLower_def to_lower_char_def is_upper_char_def ord_char_def)

lemma session_roundtrip:
  "marshal (GoSession sub ver) = Some d \<Longrightarrow> unmarshal d TSession = Some (GoSession sub ver)"
  using marshal_unmarshal(3) [of sub ver] by simp

lemma prefixed_inject [simp]: "prefixed ns a = prefixed ns b \<longleftrightarrow> a = b"
  by (simp add: prefixed_def)

lemma expired_mono: "entry_expired t e \<Longrightarrow> t \<le> t' \<Longrightarrow> entry_expired t' e"
  by (simp add: entry_expired_def)

lemma wf_del_keys [simp]: "wf_gomap m \<Longrightarrow> wf_gomap (del_keys ns ks m)"
  by (induction ks arbitrary: m) simp_all

lemma map_of_del_keys:
  "map_of (del_keys ns ks m) (prefixed ns k) =
     (if k \<in> set ks then None else map_of m (prefixed ns k))"
  by (induction ks arbitrary: m) auto

lemma mem_inv_ops:
  "mem_inv c \<Longrightarrow> mem_inv (snd (mem_Get c t k ty))"
  "mem_inv c \<Longrightarrow> mem_inv (snd (mem_Set c t k v ttl))"
  "mem_inv c \<Longrightarrow> mem_inv (snd (mem_Del c t ks))"
  "mem_inv c \<Longrightarrow> mem_inv (snd (mem_Exists c t k))"
  by (auto simp: mem_inv_def mem_Get_def mem_Set_def mem_Del_def mem_Exists_def mem_purge_def
        sweepLocked_def Let_def split: option.splits)

lemma mem_Get_result: "fst (mem_Get c t k ty) = decode (mem_peek c t k) ty"
  by (auto simp: mem_Get_def mem_peek_def decode_def mem_read_def Let_def split: option.splits)

lemma mem_Exists_result: "fst (mem_Exists c t k) = Inr (mem_peek c t k \<noteq> None)"
  by (auto simp: mem_Exists_def mem_peek_def mem_read_def Let_def split: option.splits)

lemma mem_peek_purge:
  assumes "map_of (mc_m c) (prefixed (mc_ns c) k) = Some e" "entry_expired t e" "t \<le> t'"
  shows "mem_peek (mem_purge c (prefixed (mc_ns c) k)) t' = mem_peek c t'"
  using assms expired_mono [OF assms(2,3)] by (auto simp: mem_peek_def mem_purge_def fun_eq_iff)

lemma mem_Get_frame: "t \<le> t' \<Longrightarrow> mem_peek (snd (mem_Get c t k ty)) t' = mem_peek c t'"
  by (auto simp: mem_Get_def mem_read_def Let_def mem_peek_purge split: option.splits)

lemma mem_Exists_frame: "t \<le> t' \<Longrightarrow> mem_peek (snd (mem_Exists c t k)) t' = mem_peek c t'"
  by (auto simp: mem_Exists_def mem_read_def Let_def mem_peek_purge split: option.splits)

text \<open>Sweeping is invisible: it only drops what no later \<^verbatim>\<open>Get\<close> could return.\<close>

lemma mem_peek_sweep:
  assumes "mem_inv c" "t \<le> t'"
  shows "mem_peek (sweepLocked c t) t' k = mem_peek c t' k"
  using assms expired_mono [OF _ assms(2)]
  by (auto simp: mem_peek_def sweepLocked_def mem_inv_def map_of_purge split: option.splits)

lemma mem_Set_peek:
  assumes "mem_inv c" "0 \<le> t" "t \<le> t'" "marshal v = Some d"
  shows "mem_peek (snd (mem_Set c t k v ttl)) t' =
    (mem_peek c t')(k := if ttl \<le> 0 \<or> t' < t + ttl then Some d else None)"
proof
  fix k'
  let ?c = "if length (mc_m c) \<ge> sweepThreshold then sweepLocked c t else c"
  have ns: "mc_ns ?c = mc_ns c" by (simp add: sweepLocked_def)
  have old: "mem_peek ?c t' k' = mem_peek c t' k'" using assms mem_peek_sweep by simp
  show "mem_peek (snd (mem_Set c t k v ttl)) t' k' =
      ((mem_peek c t')(k := if ttl \<le> 0 \<or> t' < t + ttl then Some d else None)) k'"
  proof (cases "k' = k")
    case True
    then show ?thesis using assms ns
      by (simp add: mem_Set_def Let_def mem_peek_def entry_expired_def sweepLocked_def)
  next
    case False
    then have "mem_peek (snd (mem_Set c t k v ttl)) t' k' = mem_peek ?c t' k'"
      using assms(4) ns by (simp add: mem_Set_def Let_def mem_peek_def sweepLocked_def)
    then show ?thesis using False old by simp
  qed
qed

lemma mem_Set_other:
  assumes "mem_inv c" "0 \<le> t" "t \<le> t'" "k' \<noteq> k"
  shows "mem_peek (snd (mem_Set c t k v ttl)) t' k' = mem_peek c t' k'"
  using mem_Set_peek [OF assms(1-3), of v] assms(4) by (cases "marshal v") (simp_all add: mem_Set_def)

lemma mem_Del_peek:
  "mem_peek (snd (mem_Del c t ks)) t' k = (if k \<in> set ks then None else mem_peek c t' k)"
  by (simp add: mem_Del_def mem_peek_def map_of_del_keys)

lemma mem_peek_fade: "t \<le> t' \<Longrightarrow> mem_peek c t' k = None \<or> mem_peek c t' k = mem_peek c t k"
  by (auto simp: mem_peek_def dest: expired_mono split: option.splits if_splits)

lemma mem_Set_fst: "fst (mem_Set c t k v ttl) = (if marshal v = None then Some CacheSetMarshal else None)"
  by (simp add: mem_Set_def Let_def split: option.split)

lemma mem_Set_fail: "marshal v = None \<Longrightarrow> snd (mem_Set c t k v ttl) = c"
  by (simp add: mem_Set_def)

lemma mem_Del_fst: "fst (mem_Del c t ks) = None"
  by (simp add: mem_Del_def)

lemmas mem_ops = mem_inv_ops mem_Get_result mem_Exists_result mem_Get_frame mem_Exists_frame
  mem_Set_peek mem_Set_other mem_Set_fst mem_Set_fail mem_Del_peek mem_Del_fst mem_peek_fade

interpretation mc: reliable_cacher MemoryCacher mem_peek mem_inv "\<lambda>_. True"
  by unfold_locales (auto simp: MemoryCacher_def mem_ops split: if_splits)

section \<open>The Redis cache keeps the contract when the server does\<close>

text \<open>What the program relies on of Redis: a command that succeeds acts as documented; one that fails, say because the
  answer did not arrive in time, has acted on each of its keys or has not, and on no other. A key set with a positive time to live (kept to the millisecond) is gone
  from then on. \<open>view s t k\<close> is what the server answers for \<open>k\<close> at \<open>t\<close>.\<close>

definition redis_ttl :: "duration \<Rightarrow> bool" where
  "redis_ttl ttl \<longleftrightarrow> 0 \<le> ttl \<and> ttl mod millisecond = 0"

definition redis_get_ok where
  "redis_get_ok R view \<longleftrightarrow> (\<forall>s t k.
     (case fst (r_GET R s t k) of Inl _ \<Rightarrow> True | Inr r \<Rightarrow> r = view s t k) \<and>
     (\<forall>t'\<ge>t. view (snd (r_GET R s t k)) t' = view s t'))"

definition redis_set_ok where
  "redis_set_ok R view \<longleftrightarrow> (\<forall>s t k d ttl. \<forall>t'\<ge>t.
     (fst (r_SET R s t k d ttl) \<noteq> None \<and> redis_ttl ttl \<longrightarrow>
        view (snd (r_SET R s t k d ttl)) t' k = view s t' k \<or>
        view (snd (r_SET R s t k d ttl)) t' k = (if ttl = 0 \<or> t' < t + ttl then Some d else None)) \<and>
     (\<forall>k'. k' \<noteq> k \<longrightarrow> view (snd (r_SET R s t k d ttl)) t' k' = view s t' k') \<and>
     (fst (r_SET R s t k d ttl) = None \<and> redis_ttl ttl \<longrightarrow>
        view (snd (r_SET R s t k d ttl)) t' =
          (view s t')(k := if ttl = 0 \<or> t' < t + ttl then Some d else None)))"

definition redis_del_ok where
  "redis_del_ok R view \<longleftrightarrow> (\<forall>s t ks. \<forall>t'\<ge>t.
     (fst (r_DEL R s t ks) \<noteq> None \<longrightarrow> (\<forall>k. view (snd (r_DEL R s t ks)) t' k = view s t' k \<or>
        k \<in> set ks \<and> view (snd (r_DEL R s t ks)) t' k = None)) \<and>
     (fst (r_DEL R s t ks) = None \<longrightarrow> view (snd (r_DEL R s t ks)) t' =
        (\<lambda>k. if k \<in> set ks then None else view s t' k)))"

definition redis_exists_ok where
  "redis_exists_ok R view \<longleftrightarrow> (\<forall>s t k.
     (case fst (r_EXISTS R s t k) of Inl _ \<Rightarrow> True
        | Inr n \<Rightarrow> n = (if view s t k = None then 0 else 1)) \<and>
     (\<forall>t'\<ge>t. view (snd (r_EXISTS R s t k)) t' = view s t'))"

definition redis_ok :: "'r redis_client \<Rightarrow> ('r \<Rightarrow> time \<Rightarrow> string \<Rightarrow> json option) \<Rightarrow> bool" where
  "redis_ok R view \<longleftrightarrow> redis_get_ok R view \<and> redis_set_ok R view \<and> redis_del_ok R view \<and>
     redis_exists_ok R view \<and>
     (\<forall>s k t. \<forall>t'\<ge>t. view s t' k = None \<or> view s t' k = view s t k)"

lemma redis_get_law:
  assumes "redis_ok R view"
  shows "(case fst (r_GET R s t k) of Inl _ \<Rightarrow> True | Inr r \<Rightarrow> r = view s t k)"
    and "t \<le> t' \<Longrightarrow> view (snd (r_GET R s t k)) t' = view s t'"
  using assms unfolding redis_ok_def redis_get_ok_def by auto

lemma redis_set_law:
  assumes "redis_ok R view" "t \<le> t'"
  shows "fst (r_SET R s t k d ttl) \<noteq> None \<Longrightarrow> redis_ttl ttl \<Longrightarrow>
      view (snd (r_SET R s t k d ttl)) t' k = view s t' k \<or>
      view (snd (r_SET R s t k d ttl)) t' k = (if ttl = 0 \<or> t' < t + ttl then Some d else None)"
    and "fst (r_SET R s t k d ttl) = None \<Longrightarrow> redis_ttl ttl \<Longrightarrow>
      view (snd (r_SET R s t k d ttl)) t' =
        (view s t')(k := if ttl = 0 \<or> t' < t + ttl then Some d else None)"
    and "k' \<noteq> k \<Longrightarrow> view (snd (r_SET R s t k d ttl)) t' k' = view s t' k'"
  using assms unfolding redis_ok_def redis_set_ok_def by blast+

lemma redis_del_law:
  assumes "redis_ok R view" "t \<le> t'"
  shows "fst (r_DEL R s t ks) \<noteq> None \<Longrightarrow> view (snd (r_DEL R s t ks)) t' k = view s t' k \<or>
      k \<in> set ks \<and> view (snd (r_DEL R s t ks)) t' k = None"
    and "fst (r_DEL R s t ks) = None \<Longrightarrow>
      view (snd (r_DEL R s t ks)) t' k = (if k \<in> set ks then None else view s t' k)"
  using assms unfolding redis_ok_def redis_del_ok_def by auto

lemma redis_exists_law:
  assumes "redis_ok R view"
  shows "(case fst (r_EXISTS R s t k) of Inl _ \<Rightarrow> True
       | Inr n \<Rightarrow> n = (if view s t k = None then 0 else 1))"
    and "t \<le> t' \<Longrightarrow> view (snd (r_EXISTS R s t k)) t' = view s t'"
  using assms unfolding redis_ok_def redis_exists_ok_def by auto

lemma redis_view_fade:
  "redis_ok R view \<Longrightarrow> t \<le> t' \<Longrightarrow> view s t' k = None \<or> view s t' k = view s t k"
  unfolding redis_ok_def by blast

abbreviation redis_peek where
  "redis_peek view ns \<equiv> \<lambda>s t k. view s t (prefixed ns k)"

lemma prefixed_image [simp]: "prefixed ns k \<in> prefixed ns ` set ks \<longleftrightarrow> k \<in> set ks"
  by auto

lemma redis_Get_result:
  assumes "redis_ok R view"
  shows "fst (redis_Get R ns s t k ty) = Inl ErrCacheMiss \<or>
         fst (redis_Get R ns s t k ty) = decode (redis_peek view ns s t k) ty"
  using redis_get_law(1) [OF assms, of s t "prefixed ns k"]
  by (auto simp: redis_Get_def decode_def split: prod.splits sum.splits option.splits)

lemma redis_Get_snd: "snd (redis_Get R ns s t k ty) = snd (r_GET R s t (prefixed ns k))"
  by (auto simp: redis_Get_def split: prod.splits sum.splits option.splits)

lemma redis_Set_split:
  "marshal v = Some d \<Longrightarrow> redis_Set R ns s t k v ttl =
     apfst (map_option CacheBackend) (r_SET R s t (prefixed ns k) d ttl)"
  "marshal v = None \<Longrightarrow> redis_Set R ns s t k v ttl = (Some CacheSetMarshal, s)"
  by (auto simp: redis_Set_def split: prod.splits)

lemma redis_Del_split:
  "redis_Del R ns s t ks = apfst (map_option CacheBackend) (r_DEL R s t (map (prefixed ns) ks))"
  by (simp add: redis_Del_def split: prod.splits)

lemma redis_Exists_result:
  assumes "redis_ok R view" "fst (redis_Exists R ns s t k) = Inr b"
  shows "b = (redis_peek view ns s t k \<noteq> None)"
  using redis_exists_law(1) [OF assms(1), of s t "prefixed ns k"] assms(2)
  by (auto simp: redis_Exists_def split: prod.splits sum.splits if_splits)

lemma redis_Exists_snd: "snd (redis_Exists R ns s t k) = snd (r_EXISTS R s t (prefixed ns k))"
  by (auto simp: redis_Exists_def split: prod.splits sum.splits)

lemma redis_Set_peek:
  assumes "redis_ok R view" "t \<le> t'"
  shows "fst (redis_Set R ns s t k v ttl) = None \<Longrightarrow> redis_ttl ttl \<Longrightarrow>
      redis_peek view ns (snd (redis_Set R ns s t k v ttl)) t' =
        (redis_peek view ns s t')(k := if ttl \<le> 0 \<or> t' < t + ttl then marshal v else None)"
    and "fst (redis_Set R ns s t k v ttl) \<noteq> None \<Longrightarrow> redis_ttl ttl \<Longrightarrow>
      redis_peek view ns (snd (redis_Set R ns s t k v ttl)) t' k = redis_peek view ns s t' k \<or>
      redis_peek view ns (snd (redis_Set R ns s t k v ttl)) t' k = (if ttl \<le> 0 \<or> t' < t + ttl then marshal v else None)"
proof -
  show "redis_peek view ns (snd (redis_Set R ns s t k v ttl)) t' =
      (redis_peek view ns s t')(k := if ttl \<le> 0 \<or> t' < t + ttl then marshal v else None)"
    if "fst (redis_Set R ns s t k v ttl) = None" "redis_ttl ttl"
    using redis_set_law(2) [OF assms] that by (cases "marshal v"; force simp: redis_Set_split redis_ttl_def fun_eq_iff)
next
  assume f: "fst (redis_Set R ns s t k v ttl) \<noteq> None" "redis_ttl ttl"
  show "redis_peek view ns (snd (redis_Set R ns s t k v ttl)) t' k = redis_peek view ns s t' k \<or>
      redis_peek view ns (snd (redis_Set R ns s t k v ttl)) t' k = (if ttl \<le> 0 \<or> t' < t + ttl then marshal v else None)"
  proof (cases "marshal v")
    case (Some d)
    have "fst (r_SET R s t (prefixed ns k) d ttl) \<noteq> None" "ttl \<le> 0 \<longleftrightarrow> ttl = 0"
      using f Some by (auto simp: redis_Set_split redis_ttl_def)
    then show ?thesis using redis_set_law(1) [OF assms _ f(2), of s "prefixed ns k" d] Some by (auto simp: redis_Set_split split: if_splits)
  qed (simp add: redis_Set_split)
qed

lemma redis_Set_other:
  assumes "redis_ok R view" "t \<le> t'" "k' \<noteq> k"
  shows "redis_peek view ns (snd (redis_Set R ns s t k v ttl)) t' k' = redis_peek view ns s t' k'"
  using redis_set_law(3) [OF assms(1,2)] assms(3) by (cases "marshal v") (simp_all add: redis_Set_split)

lemma redis_Del_peek:
  assumes "redis_ok R view" "t \<le> t'"
  shows "fst (redis_Del R ns s t ks) = None \<Longrightarrow>
      redis_peek view ns (snd (redis_Del R ns s t ks)) t' k =
        (if k \<in> set ks then None else redis_peek view ns s t' k)"
    and "fst (redis_Del R ns s t ks) \<noteq> None \<Longrightarrow>
      redis_peek view ns (snd (redis_Del R ns s t ks)) t' k = redis_peek view ns s t' k \<or>
      k \<in> set ks \<and> redis_peek view ns (snd (redis_Del R ns s t ks)) t' k = None"
  using redis_del_law(2) [OF assms, of s "map (prefixed ns) ks"] redis_del_law(1) [OF assms, of s "map (prefixed ns) ks" "prefixed ns k"]
  by (auto simp: redis_Del_split fun_eq_iff)

lemma redis_cacher:
  assumes "redis_ok R view"
  shows "cacher (RedisCacher R ns) (redis_peek view ns) (\<lambda>_. True) redis_ttl"
  by unfold_locales
    (simp_all add: RedisCacher_def redis_Get_snd redis_Exists_snd redis_Get_result [OF assms]
       redis_get_law(2) [OF assms] redis_exists_law(2) [OF assms] redis_Set_peek [OF assms]
       redis_Set_other [OF assms] redis_Del_peek [OF assms] redis_Exists_result [OF assms] redis_view_fade [OF assms]
       del: not_None_eq)

text \<open>A concrete server, used as the instance of the parameter: a keyspace with expiry times
  and a flag that makes every command fail while the server is down.\<close>

record redis_server =
  rs_up :: bool
  rs_kv :: "(json \<times> time) gomap"

definition rs_view :: "redis_server \<Rightarrow> time \<Rightarrow> string \<Rightarrow> json option" where
  "rs_view s t k = (case map_of (rs_kv s) k of None \<Rightarrow> None
     | Some (d, e) \<Rightarrow> if e = 0 \<or> t < e then Some d else None)"

definition redis_table :: "redis_server redis_client" where
  "redis_table = \<lparr>
     r_SET = (\<lambda>s t k d ttl. if \<not> rs_up s then (Some ''down'', s)
        else if ttl > 0 \<and> t + ttl = 0 then (Some ''invalid expire time'', s)
        else (None, s\<lparr>rs_kv := AList.update k (d, if ttl > 0 then t + ttl else 0) (rs_kv s)\<rparr>)),
     r_GET = (\<lambda>s t k. if rs_up s then (Inr (rs_view s t k), s) else (Inl ''down'', s)),
     r_DEL = (\<lambda>s t ks. if rs_up s then (None, s\<lparr>rs_kv := fold AList.delete ks (rs_kv s)\<rparr>)
        else (Some ''down'', s)),
     r_EXISTS = (\<lambda>s t k. if rs_up s then (Inr (if rs_view s t k = None then 0 else 1), s)
        else (Inl ''down'', s))\<rparr>"

lemma map_of_fold_delete:
  "map_of (fold AList.delete ks m) k = (if k \<in> set ks then None else map_of m k)"
  by (induction ks arbitrary: m) auto

lemma redis_table_ok: "redis_ok redis_table rs_view"
proof -
  have "redis_get_ok redis_table rs_view"
    by (simp add: redis_get_ok_def redis_table_def)
  moreover have "redis_set_ok redis_table rs_view"
    by (auto simp: redis_set_ok_def redis_table_def rs_view_def redis_ttl_def fun_eq_iff)
  moreover have "redis_del_ok redis_table rs_view"
    by (auto simp: redis_del_ok_def redis_table_def rs_view_def fun_eq_iff map_of_fold_delete)
  moreover have "redis_exists_ok redis_table rs_view"
    by (simp add: redis_exists_ok_def redis_table_def)
  ultimately show ?thesis
    by (auto simp: redis_ok_def rs_view_def split: option.splits if_splits)
qed

interpretation rc: cacher "RedisCacher redis_table ns" "redis_peek rs_view ns" "\<lambda>_. True" redis_ttl
  for ns by (rule redis_cacher [OF redis_table_ok])

section \<open>Refinement: the memory cache is a map with expiry times\<close>

datatype cache_op = OSet string gval duration | OGet string gotype | ODel "string list" | OExists string

datatype cache_out = RSet "cache_err option" | RGet "cache_err + gval" | RDel "cache_err option"
  | RExists "cache_err + bool"

fun mem_step :: "MemCacher \<Rightarrow> time \<Rightarrow> cache_op \<Rightarrow> cache_out \<times> MemCacher" where
  "mem_step c t (OSet k v ttl) = apfst RSet (mem_Set c t k v ttl)"
| "mem_step c t (OGet k ty) = apfst RGet (mem_Get c t k ty)"
| "mem_step c t (ODel ks) = apfst RDel (mem_Del c t ks)"
| "mem_step c t (OExists k) = apfst RExists (mem_Exists c t k)"

fun mem_run :: "MemCacher \<Rightarrow> (time \<times> cache_op) list \<Rightarrow> cache_out list" where
  "mem_run c [] = []"
| "mem_run c ((t, op) # ops) = (case mem_step c t op of (r, c') \<Rightarrow> r # mem_run c' ops)"

text \<open>The specification: no namespace, no sweep, no deletion of expired entries; a key maps to
  its document and the instant it expires, if any.\<close>

type_synonym ttl_map = "string \<rightharpoonup> json \<times> time option"

definition tm_peek :: "ttl_map \<Rightarrow> time \<Rightarrow> string \<Rightarrow> json option" where
  "tm_peek A t k = (case A k of None \<Rightarrow> None | Some (d, None) \<Rightarrow> Some d
     | Some (d, Some e) \<Rightarrow> if t < e then Some d else None)"

fun tm_step :: "ttl_map \<Rightarrow> time \<Rightarrow> cache_op \<Rightarrow> cache_out \<times> ttl_map" where
  "tm_step A t (OSet k v ttl) = (case marshal v of None \<Rightarrow> (RSet (Some CacheSetMarshal), A)
     | Some d \<Rightarrow> (RSet None, A(k \<mapsto> (d, if ttl > 0 then Some (t + ttl) else None))))"
| "tm_step A t (OGet k ty) = (RGet (decode (tm_peek A t k) ty), A)"
| "tm_step A t (ODel ks) = (RDel None, A |` (- set ks))"
| "tm_step A t (OExists k) = (RExists (Inr (tm_peek A t k \<noteq> None)), A)"

fun tm_run :: "ttl_map \<Rightarrow> (time \<times> cache_op) list \<Rightarrow> cache_out list" where
  "tm_run A [] = []"
| "tm_run A ((t, op) # ops) = (case tm_step A t op of (r, A') \<Rightarrow> r # tm_run A' ops)"

text \<open>The clock of a run: instants from \<open>t0\<close> on that do not go backwards.\<close>

fun clock_ok :: "time \<Rightarrow> (time \<times> 'a) list \<Rightarrow> bool" where
  "clock_ok t0 [] = True"
| "clock_ok t0 ((t, _) # xs) = (t0 \<le> t \<and> clock_ok t xs)"

definition tm_rel :: "time \<Rightarrow> MemCacher \<Rightarrow> ttl_map \<Rightarrow> bool" where
  "tm_rel t c A \<longleftrightarrow> mem_inv c \<and> (\<forall>t'\<ge>t. mem_peek c t' = tm_peek A t')"

lemma tm_rel_init: "tm_rel t (New_mem ns) Map.empty"
  by (simp add: tm_rel_def New_mem_def mem_inv_def mem_peek_def tm_peek_def fun_eq_iff)

lemma tm_sim_set:
  assumes "tm_rel t0 c A" "0 \<le> t0" "t0 \<le> t"
  shows "fst (mem_step c t (OSet k v ttl)) = fst (tm_step A t (OSet k v ttl)) \<and>
         tm_rel t (snd (mem_step c t (OSet k v ttl))) (snd (tm_step A t (OSet k v ttl)))"
proof (cases "marshal v")
  case None
  then show ?thesis using assms by (simp add: mem_Set_def tm_rel_def)
next
  case (Some d)
  then have "\<forall>t'\<ge>t. mem_peek (snd (mem_Set c t k v ttl)) t' =
      tm_peek (A(k \<mapsto> (d, if ttl > 0 then Some (t + ttl) else None))) t'"
    using assms by (auto simp: tm_rel_def mem_Set_peek tm_peek_def fun_eq_iff)
  then show ?thesis using assms Some by (simp add: tm_rel_def mem_inv_ops mem_Set_fst)
qed

lemma tm_sim:
  assumes "tm_rel t0 c A" "0 \<le> t0" "t0 \<le> t"
  shows "fst (mem_step c t op) = fst (tm_step A t op) \<and>
         tm_rel t (snd (mem_step c t op)) (snd (tm_step A t op))"
proof (cases op)
  case (OSet k v ttl)
  then show ?thesis using tm_sim_set [OF assms] by simp
next
  case (OGet k ty)
  then show ?thesis using assms by (auto simp: tm_rel_def mem_ops)
next
  case (ODel ks)
  then show ?thesis using assms
    by (auto simp: tm_rel_def mem_ops fun_eq_iff tm_peek_def restrict_map_def)
next
  case (OExists k)
  then show ?thesis using assms by (auto simp: tm_rel_def mem_ops)
qed

lemma mem_run_sim:
  "tm_rel t0 c A \<Longrightarrow> 0 \<le> t0 \<Longrightarrow> clock_ok t0 ops \<Longrightarrow> mem_run c ops = tm_run A ops"
proof (induction ops arbitrary: t0 c A)
  case Nil
  then show ?case by simp
next
  case (Cons x ops)
  obtain t op where x: "x = (t, op)" by (cases x)
  then have t: "t0 \<le> t" "clock_ok t ops" using Cons.prems by auto
  show ?case using tm_sim [OF Cons.prems(1,2) t(1), of op] Cons.IH [OF _ _ t(2)] Cons.prems(2) t x
    by (auto split: prod.splits)
qed


section \<open>Properties\<close>

text \<open>C4. Refinement of the in-process cache: whatever the namespace, every sequence of Set, Get,
  Del and Exists calls made under a clock that does not go backwards returns exactly what a plain
  map with expiry times returns. Namespacing, the sweep past 1024 entries and the purge of expired
  entries on read are invisible.\<close>

theorem mem_cache_refines_ttl_map:
  assumes "clock_ok 0 ops"
  shows "mem_run (New_mem ns) ops = tm_run Map.empty ops"
  by (rule mem_run_sim [OF tm_rel_init _ assms]) simp

theorem mem_cache_refines_ttl_map_witness:
  "clock_ok 0 [(5, OSet ''k'' (GoInt 7) 10), (14, OGet ''k'' TInt), (15, OGet ''k'' TInt)] \<and>
   mem_run (New_mem ''wapgo'')
     [(5, OSet ''k'' (GoInt 7) 10), (14, OGet ''k'' TInt), (15, OGet ''k'' TInt)] =
   [RSet None, RGet (Inr (GoInt 7)), RGet (Inl ErrCacheMiss)]"
  using mem_cache_refines_ttl_map
    [of "[(5, OSet ''k'' (GoInt 7) 10), (14, OGet ''k'' TInt), (15, OGet ''k'' TInt)]" "''wapgo''"]
  by (simp add: tm_peek_def decode_def)

text \<open>The Redis cache keeps the \<^verbatim>\<open>Cacher\<close> contract whenever the server keeps its documented
  one: a Get returns the live document or a miss (also when the server is unreachable), a Set or
  Del that reports success has exactly its effect on the namespaced keys, one that reports an
  error has none, and no expired key comes back.\<close>

lemma redis_cacher_contract:
  assumes "redis_ok R view"
  shows "cacher (RedisCacher R ns) (\<lambda>s t k. view s t (prefixed ns k)) (\<lambda>_. True) redis_ttl"
  by (rule redis_cacher [OF assms])

text \<open>A lost write: \<^verbatim>\<open>Get\<close> releases the read lock before it takes the write lock to purge an
  expired entry, so a \<^verbatim>\<open>Set\<close> of the same key that runs in between succeeds, is visible, and is
  then deleted by the purge although it has not expired.\<close>

lemma mem_get_purge_loses_set:
  assumes "mem_inv c" "0 \<le> t" "0 < ttl" "marshal v = Some d"
    and "mem_read c (prefixed (mc_ns c) k) = Some e" "entry_expired t e"
    and "mem_Set c t k v ttl = (r, c1)"
    and "c2 = mem_purge c1 (prefixed (mc_ns c) k)"
  shows "r = None \<and> mem_peek c1 t k = Some d \<and> mem_peek c2 t k = None"
proof -
  have c1: "c1 = snd (mem_Set c t k v ttl)" and r: "r = fst (mem_Set c t k v ttl)"
    using assms(7) by simp_all
  have ns: "mc_ns c1 = mc_ns c"
    using assms(4) by (simp add: c1 mem_Set_def Let_def sweepLocked_def)
  then have "mem_peek c2 t k = None" by (simp add: assms(8) mem_purge_def mem_peek_def)
  moreover have "r = None" using assms(4) by (simp add: r mem_Set_fst)
  moreover have "mem_peek c1 t k = Some d"
    using mem_Set_peek [OF assms(1,2) order_refl assms(4), of k ttl] assms(3) by (simp add: c1)
  ultimately show ?thesis by simp
qed

end
