(* ===== verification/Auth_Token.thy ===== *)
theory Auth_Token
  imports Cache
begin

text \<open>
  \<^verbatim>\<open>pkg/auth\<close>: signing and verifying JWTs (\<^verbatim>\<open>jwt.go\<close>, \<^verbatim>\<open>claims.go\<close>), the token blacklist in
  process memory and in Redis (\<^verbatim>\<open>memory_blacklist.go\<close>, \<^verbatim>\<open>blacklist.go\<close>), and the Fiber
  middlewares (\<^verbatim>\<open>middleware.go\<close>).

  The library golang-jwt is third-party: the record \<open>jwt_lib\<close> holds the three functions the code
  calls, \<open>jwt_lib_ok\<close> what the code relies on of them. Random bytes and the clock are arguments.
\<close>

section \<open>Claims and configuration\<close>

record Config =
  Secret :: string
  Issuer :: string
  Audience :: string
  Expiry :: duration

record Claims =
  ID :: string
  Subject :: string
  iss :: string
  aud :: "string list"
  IssuedAt :: "time option"
  NotBefore :: "time option"
  ExpiresAt :: "time option"
  Roles :: "string list"
  TokenType :: string

datatype token_err = ErrWeakSecret | SigningJwt string | InvalidTokenErr string | InvalidTokenClaims

record parser_opts =
  validMethods :: "string list"
  withIssuer :: string
  withAudience :: string
  expRequired :: bool
  verifyIat :: bool

text \<open>\<^verbatim>\<open>SignedString\<close> (method, key, claims), \<^verbatim>\<open>ParseWithClaims\<close> (options, clock, key function,
  token; the claims and the token's \<^verbatim>\<open>Valid\<close> flag) and \<^verbatim>\<open>NewNumericDate\<close>.\<close>

record jwt_lib =
  SignedString :: "string \<Rightarrow> string \<Rightarrow> Claims \<Rightarrow> string + string"
  ParseWithClaims :: "parser_opts \<Rightarrow> time \<Rightarrow> (string \<Rightarrow> string + string) \<Rightarrow> string \<Rightarrow> string + Claims \<times> bool"
  NewNumericDate :: "time \<Rightarrow> time"

section \<open>Signing and verifying\<close>

definition hex_digit :: "nat \<Rightarrow> char" where
  "hex_digit d = (if d < 10 then char_of (48 + d) else char_of (87 + d))"

definition newJTI :: "nat list \<Rightarrow> string" where
  "newJTI b = concat (map (\<lambda>x. [hex_digit (x div 16), hex_digit (x mod 16)]) b)"

definition Sign ::
  "jwt_lib \<Rightarrow> time \<Rightarrow> nat list \<Rightarrow> string \<Rightarrow> string list \<Rightarrow> string \<Rightarrow> Config \<Rightarrow> token_err + string \<times> string" where
  "Sign L now rnd subject roles tokenType cfg =
     (if length (Secret cfg) < 32 then Inl ErrWeakSecret
      else
        let expiry = (if Expiry cfg = 0 then 24 * hour else Expiry cfg);
            jti = newJTI rnd;
            c = \<lparr>ID = jti, Subject = subject, iss = Issuer cfg, aud = [Audience cfg],
                 IssuedAt = Some (NewNumericDate L now), NotBefore = Some (NewNumericDate L now),
                 ExpiresAt = Some (NewNumericDate L (now + expiry)),
                 Roles = roles, TokenType = tokenType\<rparr>
        in (case SignedString L ''HS256'' (Secret cfg) c of
              Inl e \<Rightarrow> Inl (SigningJwt e)
            | Inr signed \<Rightarrow> Inr (signed, jti)))"

definition verify_opts :: "Config \<Rightarrow> parser_opts" where
  "verify_opts cfg = \<lparr>validMethods = [''HS256''], withIssuer = Issuer cfg,
     withAudience = Audience cfg, expRequired = True, verifyIat = True\<rparr>"

text \<open>The key function: only the HMAC family gets the secret.\<close>

definition verify_key :: "Config \<Rightarrow> string \<Rightarrow> string + string" where
  "verify_key cfg alg = (if alg \<in> {''HS256'', ''HS384'', ''HS512''} then Inr (Secret cfg)
     else Inl (''unexpected signing method: '' @ alg))"

definition Verify :: "jwt_lib \<Rightarrow> time \<Rightarrow> string \<Rightarrow> Config \<Rightarrow> token_err + Claims" where
  "Verify L now tokenStr cfg =
     (if length (Secret cfg) < 32 then Inl ErrWeakSecret
      else case ParseWithClaims L (verify_opts cfg) now (verify_key cfg) tokenStr of
             Inl e \<Rightarrow> Inl (InvalidTokenErr e)
           | Inr (c, valid) \<Rightarrow> if \<not> valid then Inl InvalidTokenClaims else Inr c)"

section \<open>Blacklists\<close>

record 'b Blacklist =
  bRevoke :: "'b \<Rightarrow> time \<Rightarrow> string \<Rightarrow> duration \<Rightarrow> string option \<times> 'b"
  bIsRevoked :: "'b \<Rightarrow> time \<Rightarrow> string \<Rightarrow> (string + bool) \<times> 'b"

type_synonym MemBlacklist = "time gomap"

definition NewMemoryBlacklist :: MemBlacklist where
  "NewMemoryBlacklist = []"

definition mem_Revoke :: "MemBlacklist \<Rightarrow> time \<Rightarrow> string \<Rightarrow> duration \<Rightarrow> string option \<times> MemBlacklist" where
  "mem_Revoke b now jti ttl =
     (if jti = [] then (Some ''revoke: empty jti'', b)
      else
        let b' = (if length b \<ge> 1024 then gomap_purge (\<lambda>exp. \<not> now < exp) b else b)
        in (None, AList.update jti (now + ttl) b'))"

definition mem_IsRevoked :: "MemBlacklist \<Rightarrow> time \<Rightarrow> string \<Rightarrow> (string + bool) \<times> MemBlacklist" where
  "mem_IsRevoked b now jti =
     (if jti = [] then (Inr False, b)
      else case map_of b jti of
             None \<Rightarrow> (Inr False, b)
           | Some exp \<Rightarrow> if \<not> now < exp then (Inr False, AList.delete jti b) else (Inr True, b))"

definition MemoryBlacklist :: "MemBlacklist Blacklist" where
  "MemoryBlacklist = \<lparr>bRevoke = mem_Revoke, bIsRevoked = mem_IsRevoked\<rparr>"

definition blacklistKeyPrefix :: string where
  "blacklistKeyPrefix = ''jwt:bl:''"

definition redis_Revoke ::
  "'r redis_client \<Rightarrow> 'r \<Rightarrow> time \<Rightarrow> string \<Rightarrow> duration \<Rightarrow> string option \<times> 'r" where
  "redis_Revoke R s now jti ttl =
     (if jti = [] then (Some ''revoke: empty jti'', s)
      else case r_SET R s now (blacklistKeyPrefix @ jti) (JNum 1) ttl of
             (e, s') \<Rightarrow> (map_option (wrap ''revoke token'') e, s'))"

definition redis_IsRevoked :: "'r redis_client \<Rightarrow> 'r \<Rightarrow> time \<Rightarrow> string \<Rightarrow> (string + bool) \<times> 'r" where
  "redis_IsRevoked R s now jti =
     (if jti = [] then (Inr False, s)
      else case r_EXISTS R s now (blacklistKeyPrefix @ jti) of
             (Inl e, s') \<Rightarrow> (Inl (wrap ''blacklist check'' e), s')
           | (Inr n, s') \<Rightarrow> (Inr (n > 0), s'))"

definition RedisBlacklist :: "'r redis_client \<Rightarrow> 'r Blacklist" where
  "RedisBlacklist R = \<lparr>bRevoke = redis_Revoke R, bIsRevoked = redis_IsRevoked R\<rparr>"

section \<open>Fiber middlewares\<close>

text \<open>A middleware either answers with an error or calls the next handler. \<open>Locals\<close> of the
  request context holds the verified claims.\<close>

datatype fiber_err = ErrUnauthorized | ErrForbidden | FiberNotFound

text \<open>\<open>bls\<close> is the variadic argument; a nil interface value in it is \<open>None\<close>.\<close>

definition Middleware ::
  "jwt_lib \<Rightarrow> Config \<Rightarrow> 'b Blacklist option list \<Rightarrow> 'b \<Rightarrow> time \<Rightarrow> string \<Rightarrow> (fiber_err + Claims) \<times> 'b" where
  "Middleware L cfg bls s now raw =
     (if \<not> HasPrefix raw ''Bearer '' then (Inl ErrUnauthorized, s)
      else case Verify L now (TrimPrefix raw ''Bearer '') cfg of
        Inl _ \<Rightarrow> (Inl ErrUnauthorized, s)
      | Inr claims \<Rightarrow>
          if TokenType claims \<noteq> [] \<and> TokenType claims \<noteq> ''access'' then (Inl ErrUnauthorized, s)
          else (case bls of
                  Some bl # _ \<Rightarrow>
                    if ID claims \<noteq> [] then
                      (case bIsRevoked bl s now (ID claims) of
                         (Inl e, s') \<Rightarrow> (Inr claims, s')
                       | (Inr revoked, s') \<Rightarrow>
                           if revoked then (Inl ErrUnauthorized, s') else (Inr claims, s'))
                    else (Inr claims, s)
                | _ \<Rightarrow> (Inr claims, s)))"

definition GetClaims :: "Claims option \<Rightarrow> Claims option" where
  "GetClaims locals = locals"

fun role_allowed :: "string list \<Rightarrow> string list \<Rightarrow> bool" where
  "role_allowed allowed [] = False"
| "role_allowed allowed (r # rs) = (if r \<in> set allowed then True else role_allowed allowed rs)"

definition RequireRole :: "string list \<Rightarrow> Claims option \<Rightarrow> fiber_err + unit" where
  "RequireRole roles locals =
     (case GetClaims locals of
        None \<Rightarrow> Inl ErrUnauthorized
      | Some claims \<Rightarrow> if role_allowed roles (Roles claims) then Inr () else Inl ErrForbidden)"


section \<open>What the code relies on of golang-jwt\<close>

definition claims_valid :: "parser_opts \<Rightarrow> time \<Rightarrow> Claims \<Rightarrow> bool" where
  "claims_valid opts now c \<longleftrightarrow>
     (case ExpiresAt c of None \<Rightarrow> \<not> expRequired opts | Some e \<Rightarrow> now < e) \<and>
     (case NotBefore c of None \<Rightarrow> True | Some n \<Rightarrow> n \<le> now) \<and>
     (case IssuedAt c of None \<Rightarrow> True | Some i \<Rightarrow> verifyIat opts \<longrightarrow> i \<le> now) \<and>
     (withIssuer opts \<noteq> [] \<longrightarrow> iss c = withIssuer opts) \<and>
     (withAudience opts \<noteq> [] \<longrightarrow> withAudience opts \<in> set (aud c))"

definition ascii :: "string \<Rightarrow> bool" where
  "ascii s \<longleftrightarrow> list_all (\<lambda>c. ord_char c < 128) s"

text \<open>Claims that survive the JSON encoding unchanged: ASCII strings, dates of the library's
  precision.\<close>

definition encodable :: "jwt_lib \<Rightarrow> Claims \<Rightarrow> bool" where
  "encodable L c \<longleftrightarrow> list_all ascii (ID c # Subject c # iss c # TokenType c # aud c @ Roles c) \<and>
     list_all (\<lambda>d. case d of None \<Rightarrow> True | Some t \<Rightarrow> NewNumericDate L t = t)
       [IssuedAt c, NotBefore c, ExpiresAt c]"

text \<open>Documented behaviour: a token that parses has the claims validated under the options and
  the \<^verbatim>\<open>Valid\<close> flag set; the claims are the token's payload, whatever options and key it is
  parsed with; a token signed with the key the key function returns, under a method in the list,
  parses to the claims signed; a numeric date is the time cut to the second.\<close>

definition jwt_lib_ok :: "jwt_lib \<Rightarrow> bool" where
  "jwt_lib_ok L \<longleftrightarrow>
     (\<forall>opts t kf tok c v. ParseWithClaims L opts t kf tok = Inr (c, v) \<longrightarrow> v \<and> claims_valid opts t c) \<and>
     (\<forall>opts t kf opts' t' kf' tok c v c' v'. ParseWithClaims L opts t kf tok = Inr (c, v) \<longrightarrow>
        ParseWithClaims L opts' t' kf' tok = Inr (c', v') \<longrightarrow> c = c') \<and>
     (\<forall>opts t kf alg key c tok. SignedString L alg key c = Inr tok \<longrightarrow> encodable L c \<longrightarrow>
        alg \<in> set (validMethods opts) \<longrightarrow> kf alg = Inr key \<longrightarrow> claims_valid opts t c \<longrightarrow>
        ParseWithClaims L opts t kf tok = Inr (c, True)) \<and>
     (\<forall>t. NewNumericDate L t \<le> t \<and> t < NewNumericDate L t + second \<and>
        NewNumericDate L (NewNumericDate L t) = NewNumericDate L t)"

lemma jwt_parse_sound:
  "jwt_lib_ok L \<Longrightarrow> ParseWithClaims L opts t kf tok = Inr (c, v) \<Longrightarrow> v \<and> claims_valid opts t c"
  unfolding jwt_lib_ok_def by metis

lemma jwt_parse_payload:
  "jwt_lib_ok L \<Longrightarrow> ParseWithClaims L opts t kf tok = Inr (c, v) \<Longrightarrow>
   ParseWithClaims L opts' t' kf' tok = Inr (c', v') \<Longrightarrow> c = c'"
  unfolding jwt_lib_ok_def by blast

lemma jwt_parse_complete:
  "jwt_lib_ok L \<Longrightarrow> SignedString L alg key c = Inr tok \<Longrightarrow> encodable L c \<Longrightarrow>
   alg \<in> set (validMethods opts) \<Longrightarrow> kf alg = Inr key \<Longrightarrow> claims_valid opts t c \<Longrightarrow>
   ParseWithClaims L opts t kf tok = Inr (c, True)"
  unfolding jwt_lib_ok_def by blast

lemma jwt_numeric_date:
  "jwt_lib_ok L \<Longrightarrow> NewNumericDate L t \<le> t"
  "jwt_lib_ok L \<Longrightarrow> t < NewNumericDate L t + second"
  "jwt_lib_ok L \<Longrightarrow> NewNumericDate L (NewNumericDate L t) = NewNumericDate L t"
  unfolding jwt_lib_ok_def by blast+

text \<open>A concrete library for witnesses: it signs the claims of a finite table of tokens and
  rejects every other string.\<close>

definition numeric_date :: "time \<Rightarrow> time" where
  "numeric_date t = t - t mod second"

definition jwt_table :: "(string \<times> string \<times> string \<times> Claims) list \<Rightarrow> jwt_lib" where
  "jwt_table T = \<lparr>
     SignedString = (\<lambda>alg key c. case find (\<lambda>(tok, a, k, d). a = alg \<and> k = key \<and> d = c) T of
        None \<Rightarrow> Inl ''not in table'' | Some (tok, _) \<Rightarrow> Inr tok),
     ParseWithClaims = (\<lambda>opts t kf tok. case map_of T tok of
        None \<Rightarrow> Inl ''token is malformed''
      | Some (alg, key, c) \<Rightarrow>
          if alg \<in> set (validMethods opts) \<and> kf alg = Inr key \<and> claims_valid opts t c
          then Inr (c, True) else Inl ''token is unverifiable''),
     NewNumericDate = numeric_date\<rparr>"

lemma numeric_date:
  "numeric_date t \<le> t" "t < numeric_date t + second" "numeric_date (numeric_date t) = numeric_date t"
proof -
  have "0 \<le> t mod second" "t mod second < second" by simp_all
  then show "numeric_date t \<le> t" "t < numeric_date t + second" by (auto simp: numeric_date_def)
  have "(t - t mod second) mod second = 0" by (simp add: mod_diff_eq)
  then show "numeric_date (numeric_date t) = numeric_date t" by (simp add: numeric_date_def)
qed

lemma jwt_table_ok:
  assumes "wf_gomap T"
  shows "jwt_lib_ok (jwt_table T)"
proof -
  have "map_of T tok = Some (alg, key, c)"
    if "SignedString (jwt_table T) alg key c = Inr tok" for alg key c tok
  proof -
    have "find (\<lambda>(tok, a, k, d). a = alg \<and> k = key \<and> d = c) T = Some (tok, alg, key, c)"
      using that by (auto simp: jwt_table_def find_Some_iff split: option.splits)
    then have "(tok, alg, key, c) \<in> set T" unfolding find_Some_iff by (metis nth_mem)
    then show ?thesis using assms by simp
  qed
  then show ?thesis
    unfolding jwt_lib_ok_def
    by (auto simp: jwt_table_def numeric_date split: option.splits if_splits)
qed

section \<open>Signing and verifying: lemmas\<close>

abbreviation eff_expiry :: "Config \<Rightarrow> duration" where
  "eff_expiry cfg \<equiv> (if Expiry cfg = 0 then 24 * hour else Expiry cfg)"

text \<open>The claims \<^verbatim>\<open>Sign\<close> puts into a token.\<close>

definition signed_claims :: "jwt_lib \<Rightarrow> time \<Rightarrow> nat list \<Rightarrow> string \<Rightarrow> string list \<Rightarrow> string \<Rightarrow> Config \<Rightarrow> Claims" where
  "signed_claims L now rnd subject roles tokenType cfg =
     \<lparr>ID = newJTI rnd, Subject = subject, iss = Issuer cfg, aud = [Audience cfg],
      IssuedAt = Some (NewNumericDate L now), NotBefore = Some (NewNumericDate L now),
      ExpiresAt = Some (NewNumericDate L (now + eff_expiry cfg)),
      Roles = roles, TokenType = tokenType\<rparr>"

lemma Sign_Inr:
  assumes "Sign L now rnd subject roles typ cfg = Inr (tok, jti)"
  shows "32 \<le> length (Secret cfg)" "jti = newJTI rnd"
    "SignedString L ''HS256'' (Secret cfg) (signed_claims L now rnd subject roles typ cfg) = Inr tok"
  using assms by (auto simp: Sign_def signed_claims_def Let_def split: if_splits sum.splits)

lemma Verify_Inr:
  assumes "Verify L now tok cfg = Inr c"
  shows "32 \<le> length (Secret cfg)"
    and "\<exists>v. ParseWithClaims L (verify_opts cfg) now (verify_key cfg) tok = Inr (c, v)"
  using assms by (auto simp: Verify_def split: if_splits sum.splits)

lemma Verify_claims_valid:
  assumes "jwt_lib_ok L" "Verify L now tok cfg = Inr c"
  shows "claims_valid (verify_opts cfg) now c"
  using Verify_Inr(2) [OF assms(2)] jwt_parse_sound [OF assms(1)] by blast

lemma Verify_ExpiresAt:
  assumes "jwt_lib_ok L" "Verify L now tok cfg = Inr c"
  shows "\<exists>e. ExpiresAt c = Some e \<and> now < e"
  using Verify_claims_valid [OF assms]
  by (auto simp: claims_valid_def verify_opts_def split: option.splits)

text \<open>The claims are a function of the token: any two successful verifications agree.\<close>

lemma Verify_payload:
  assumes "jwt_lib_ok L" "Verify L t tok cfg = Inr c" "Verify L t' tok cfg' = Inr c'"
  shows "c = c'"
  using Verify_Inr(2) [OF assms(2)] Verify_Inr(2) [OF assms(3)] jwt_parse_payload [OF assms(1)]
  by blast

lemma Verify_expired:
  assumes "jwt_lib_ok L" "Verify L t tok cfg = Inr c" "ExpiresAt c = Some e" "e \<le> t'"
  shows "\<exists>err. Verify L t' tok cfg' = Inl err"
proof (cases "Verify L t' tok cfg'")
  case (Inr c')
  then have "ExpiresAt c' = Some e" using Verify_payload [OF assms(1,2) Inr] assms(3) by simp
  then show ?thesis using Verify_ExpiresAt [OF assms(1) Inr] assms(4) by auto
qed simp

lemma ord_hex_digit: "d < 16 \<Longrightarrow> ord_char (hex_digit d) = (if d < 10 then 48 + d else 87 + d)"
  by (simp add: hex_digit_def ord_char_def)

lemma ascii_newJTI: "list_all (\<lambda>x. x < 256) rnd \<Longrightarrow> ascii (newJTI rnd)"
  by (induction rnd) (auto simp: newJTI_def ascii_def ord_hex_digit)

lemma hex_digit_inject: "a < 16 \<Longrightarrow> b < 16 \<Longrightarrow> hex_digit a = hex_digit b \<Longrightarrow> a = b"
proof -
  assume ab: "a < 16" "b < 16" and "hex_digit a = hex_digit b"
  then have "ord_char (hex_digit a) = ord_char (hex_digit b)" by (simp only:)
  then show "a = b" using ab by (simp add: ord_hex_digit split: if_splits)
qed

lemma newJTI_Cons: "newJTI (x # xs) = hex_digit (x div 16) # hex_digit (x mod 16) # newJTI xs"
  by (simp add: newJTI_def)

lemma newJTI_length: "length (newJTI rnd) = 2 * length rnd"
  by (induction rnd) (simp_all add: newJTI_def)

text \<open>Different random bytes give different token identifiers.\<close>

lemma newJTI_inject:
  "list_all (\<lambda>x. x < 256) a \<Longrightarrow> list_all (\<lambda>x. x < 256) b \<Longrightarrow> newJTI a = newJTI b \<Longrightarrow> a = b"
proof (induction a arbitrary: b)
  case Nil
  then show ?case using newJTI_length [of b] by (simp add: newJTI_def)
next
  case (Cons x xs)
  then obtain y ys where b: "b = y # ys"
    by (cases b) (auto simp: newJTI_def)
  then have "x div 16 = y div 16" "x mod 16 = y mod 16"
    using Cons.prems by (auto simp: newJTI_Cons intro!: hex_digit_inject)
  then have "x = y" by (metis div_mult_mod_eq)
  then show ?case using Cons b by (simp add: newJTI_Cons)
qed


lemma signed_claims_valid:
  assumes "jwt_lib_ok L" "now \<le> t" "t < NewNumericDate L (now + eff_expiry cfg)"
    and "Issuer cfg' = Issuer cfg" "Audience cfg' = Audience cfg"
  shows "claims_valid (verify_opts cfg') t (signed_claims L now rnd subject roles typ cfg)"
  using assms jwt_numeric_date(1) [OF assms(1), of now]
  by (auto simp: claims_valid_def verify_opts_def signed_claims_def)

lemma signed_claims_encodable:
  assumes "jwt_lib_ok L" "list_all (\<lambda>x. x < 256) rnd"
    and "list_all ascii (subject # Issuer cfg # Audience cfg # typ # roles)"
  shows "encodable L (signed_claims L now rnd subject roles typ cfg)"
  using assms by (auto simp: encodable_def signed_claims_def ascii_newJTI jwt_numeric_date)

text \<open>A signed token verifies, under any configuration with the same secret, issuer and audience,
  from the instant of signing until the instant before its expiry date.\<close>

lemma Sign_Verify:
  assumes "jwt_lib_ok L" "Sign L now rnd subject roles typ cfg = Inr (tok, jti)"
    and "list_all (\<lambda>x. x < 256) rnd" "list_all ascii (subject # Issuer cfg # Audience cfg # typ # roles)"
    and "now \<le> t" "t < NewNumericDate L (now + eff_expiry cfg)"
    and "Secret cfg' = Secret cfg" "Issuer cfg' = Issuer cfg" "Audience cfg' = Audience cfg"
  shows "Verify L t tok cfg' = Inr (signed_claims L now rnd subject roles typ cfg)"
proof -
  note S = Sign_Inr [OF assms(2)]
  have "ParseWithClaims L (verify_opts cfg') t (verify_key cfg') tok =
      Inr (signed_claims L now rnd subject roles typ cfg, True)"
    by (rule jwt_parse_complete [OF assms(1) S(3) signed_claims_encodable [OF assms(1,3,4)]])
      (use assms(7) signed_claims_valid [OF assms(1,5,6,8,9)] in
        \<open>simp_all add: verify_opts_def verify_key_def\<close>)
  then show ?thesis using S(1) assms(7) by (simp add: Verify_def)
qed

section \<open>The blacklist contract\<close>

locale blacklist =
  fixes B :: "'b Blacklist"
    and revoked :: "'b \<Rightarrow> time \<Rightarrow> string \<Rightarrow> bool"
    and inv :: "'b \<Rightarrow> bool"
    and okTTL :: "duration \<Rightarrow> bool"
  assumes inv_revoke: "inv s \<Longrightarrow> inv (snd (bRevoke B s t j ttl))"
    and inv_isrevoked: "inv s \<Longrightarrow> inv (snd (bIsRevoked B s t j))"
    and revoke_ok: "inv s \<Longrightarrow> okTTL ttl \<Longrightarrow> 0 < ttl \<Longrightarrow> fst (bRevoke B s t j ttl) = None \<Longrightarrow> t \<le> t' \<Longrightarrow>
      revoked (snd (bRevoke B s t j ttl)) t' j' = (if j' = j then t' < t + ttl else revoked s t' j')"
    and revoke_fail: "inv s \<Longrightarrow> okTTL ttl \<Longrightarrow> 0 < ttl \<Longrightarrow> fst (bRevoke B s t j ttl) \<noteq> None \<Longrightarrow> t \<le> t' \<Longrightarrow>
      revoked (snd (bRevoke B s t j ttl)) t' j' = revoked s t' j' \<or>
      j' = j \<and> revoked (snd (bRevoke B s t j ttl)) t' j' = (t' < t + ttl)"
    and revoke_empty: "fst (bRevoke B s t [] ttl) \<noteq> None"
    and isrevoked_result: "inv s \<Longrightarrow> j \<noteq> [] \<Longrightarrow> fst (bIsRevoked B s t j) = Inr b \<Longrightarrow> b = revoked s t j"
    and isrevoked_frame: "inv s \<Longrightarrow> t \<le> t' \<Longrightarrow> revoked (snd (bIsRevoked B s t j)) t' = revoked s t'"

locale reliable_blacklist = blacklist +
  assumes revoke_total: "inv s \<Longrightarrow> j \<noteq> [] \<Longrightarrow> fst (bRevoke B s t j ttl) = None"
    and isrevoked_total: "inv s \<Longrightarrow> j \<noteq> [] \<Longrightarrow> fst (bIsRevoked B s t j) = Inr (revoked s t j)"
begin

text \<open>The middleware turns away every token whose identifier is revoked.\<close>

lemma middleware_revoked:
  assumes "inv s" "Verify L t tok cfg = Inr c" "ID c \<noteq> []" "revoked s t (ID c)"
  shows "fst (Middleware L cfg [Some B] s t (''Bearer '' @ tok)) = Inl ErrUnauthorized"
proof -
  obtain r s' where b: "bIsRevoked B s t (ID c) = (r, s')" by fastforce
  then have "r = Inr True" using isrevoked_total [OF assms(1,3), of t] assms(4) by simp
  then show ?thesis using assms b TrimPrefix_append [of "''Bearer ''" tok] HasPrefix_append [of "''Bearer ''" tok]
    by (simp add: Middleware_def)
qed

end

definition mbl_revoked :: "MemBlacklist \<Rightarrow> time \<Rightarrow> string \<Rightarrow> bool" where
  "mbl_revoked b t j = (case map_of b j of None \<Rightarrow> False | Some e \<Rightarrow> t < e)"

lemma mem_Revoke_revoked:
  assumes "wf_gomap b" "j \<noteq> []" "t \<le> t'"
  shows "mbl_revoked (snd (mem_Revoke b t j ttl)) t' j' =
    (if j' = j then t' < t + ttl else mbl_revoked b t' j')"
  using assms by (auto simp: mem_Revoke_def mbl_revoked_def Let_def map_of_purge split: option.splits)

lemma mem_IsRevoked_frame: "t \<le> t' \<Longrightarrow> mbl_revoked (snd (mem_IsRevoked b t j)) t' = mbl_revoked b t'"
  by (auto simp: mem_IsRevoked_def mbl_revoked_def fun_eq_iff split: option.splits)

lemma mem_IsRevoked_result: "j \<noteq> [] \<Longrightarrow> fst (mem_IsRevoked b t j) = Inr (mbl_revoked b t j)"
  by (auto simp: mem_IsRevoked_def mbl_revoked_def split: option.splits)

lemma mem_Revoke_fst: "fst (mem_Revoke b t j ttl) = (if j = [] then Some ''revoke: empty jti'' else None)"
  by (simp add: mem_Revoke_def Let_def)

lemma mem_bl_wf:
  "wf_gomap b \<Longrightarrow> wf_gomap (snd (mem_Revoke b t j ttl))"
  "wf_gomap b \<Longrightarrow> wf_gomap (snd (mem_IsRevoked b t j))"
  by (auto simp: mem_Revoke_def mem_IsRevoked_def Let_def split: option.splits)

lemma mem_Revoke_empty: "snd (mem_Revoke b t [] ttl) = b"
  by (simp add: mem_Revoke_def)

interpretation mbl: reliable_blacklist MemoryBlacklist mbl_revoked wf_gomap "\<lambda>_. True"
  by unfold_locales
    (auto simp: MemoryBlacklist_def mem_bl_wf mem_Revoke_revoked mem_Revoke_fst
       mem_IsRevoked_result mem_IsRevoked_frame mem_Revoke_empty split: if_splits)

text \<open>The Redis blacklist keeps the weaker contract, given the documented behaviour of Redis.\<close>

definition rbl_revoked :: "('r \<Rightarrow> time \<Rightarrow> string \<Rightarrow> json option) \<Rightarrow> 'r \<Rightarrow> time \<Rightarrow> string \<Rightarrow> bool" where
  "rbl_revoked view s t j \<longleftrightarrow> view s t (blacklistKeyPrefix @ j) \<noteq> None"

lemma redis_Revoke_split:
  "j \<noteq> [] \<Longrightarrow> redis_Revoke R s t j ttl = apfst (map_option (wrap ''revoke token''))
     (r_SET R s t (blacklistKeyPrefix @ j) (JNum 1) ttl)"
  "redis_Revoke R s t [] ttl = (Some ''revoke: empty jti'', s)"
  by (auto simp: redis_Revoke_def split: prod.splits)

lemma redis_IsRevoked_snd:
  "snd (redis_IsRevoked R s t j) =
     (if j = [] then s else snd (r_EXISTS R s t (blacklistKeyPrefix @ j)))"
  by (auto simp: redis_IsRevoked_def split: prod.splits sum.splits)

lemma redis_IsRevoked_result:
  assumes "redis_ok R view" "j \<noteq> []" "fst (redis_IsRevoked R s t j) = Inr b"
  shows "b = rbl_revoked view s t j"
  using redis_exists_law(1) [OF assms(1), of s t "blacklistKeyPrefix @ j"] assms(2,3)
  by (auto simp: redis_IsRevoked_def rbl_revoked_def split: prod.splits sum.splits if_splits)

lemma redis_Revoke_revoked:
  assumes "redis_ok R view" "redis_ttl ttl" "0 < ttl" "t \<le> t'" "fst (redis_Revoke R s t j ttl) = None"
  shows "rbl_revoked view (snd (redis_Revoke R s t j ttl)) t' j' =
    (if j' = j then t' < t + ttl else rbl_revoked view s t' j')"
proof -
  have j: "j \<noteq> []" using assms(5) by (auto simp: redis_Revoke_split)
  then have "fst (r_SET R s t (blacklistKeyPrefix @ j) (JNum 1) ttl) = None"
    using assms(5) by (simp add: redis_Revoke_split)
  then show ?thesis using redis_set_law(2) [OF assms(1,4) _ assms(2)] assms(3) j
    by (simp add: redis_Revoke_split rbl_revoked_def)
qed

lemma redis_Revoke_failed:
  assumes "redis_ok R view" "redis_ttl ttl" "0 < ttl" "t \<le> t'" "fst (redis_Revoke R s t j ttl) \<noteq> None"
  shows "rbl_revoked view (snd (redis_Revoke R s t j ttl)) t' j' = rbl_revoked view s t' j' \<or>
    j' = j \<and> rbl_revoked view (snd (redis_Revoke R s t j ttl)) t' j' = (t' < t + ttl)"
proof (cases "j = []")
  case False
  let ?s = "r_SET R s t (blacklistKeyPrefix @ j) (JNum 1) ttl"
  have f: "fst ?s \<noteq> None" using assms(5) False by (simp add: redis_Revoke_split)
  show ?thesis
    using redis_set_law(1) [OF assms(1,4) f assms(2)] redis_set_law(3) [OF assms(1,4), of "blacklistKeyPrefix @ j'" "blacklistKeyPrefix @ j"]
      assms(3) False
    by (cases "j' = j") (auto simp: redis_Revoke_split rbl_revoked_def split: if_splits)
qed (simp add: redis_Revoke_split)

lemma redis_IsRevoked_unchanged:
  assumes "redis_ok R view" "t \<le> t'"
  shows "rbl_revoked view (snd (redis_IsRevoked R s t j)) t' = rbl_revoked view s t'"
  using redis_exists_law(2) [OF assms] by (simp add: redis_IsRevoked_snd rbl_revoked_def fun_eq_iff)

lemma redis_blacklist:
  assumes "redis_ok R view"
  shows "blacklist (RedisBlacklist R) (rbl_revoked view) (\<lambda>_. True) redis_ttl"
  by unfold_locales
    (simp_all add: RedisBlacklist_def redis_IsRevoked_unchanged [OF assms]
       redis_Revoke_failed [OF assms] redis_Revoke_revoked [OF assms]
       redis_IsRevoked_result [OF assms] redis_Revoke_split(2) del: not_None_eq)

interpretation rbl: blacklist "RedisBlacklist redis_table" "rbl_revoked rs_view" "\<lambda>_. True" redis_ttl
  by (rule redis_blacklist [OF redis_table_ok])

lemma signed_claims_Roles: "Roles (signed_claims L now rnd subject roles typ cfg) = roles"
  by (simp add: signed_claims_def)

text \<open>A request the middleware lets through has a bearer token that verifies, of type access, whose
  identifier the blacklist, asked, did not report.\<close>

lemma Middleware_Inr:
  assumes "fst (Middleware L cfg bls s now raw) = Inr c"
  shows "HasPrefix raw ''Bearer ''" "Verify L now (TrimPrefix raw ''Bearer '') cfg = Inr c"
    "TokenType c \<in> {[], ''access''}"
    "bls = Some B # bs \<Longrightarrow> ID c \<noteq> [] \<Longrightarrow> fst (bIsRevoked B s now (ID c)) \<noteq> Inr True"
  using assms by (auto simp: Middleware_def split: if_splits sum.splits prod.splits list.splits option.splits)

end
