(* ===== verification/Pagination.thy ===== *)
theory Pagination
  imports Prelude
begin

text \<open>
  \<^verbatim>\<open>pkg/pagination/pagination.go\<close>: bounds on the page parameters of a query string, the SQL
  window they select and the page count; and the page count of \<^verbatim>\<open>pkg/response\<close>, which the user
  handler reports. Page numbers and sizes are Go ints, so the offset is computed modulo \<open>2 ^ 64\<close>.
\<close>

definition defaultPage :: int where [simp]: "defaultPage = 1"
definition defaultSize :: int where [simp]: "defaultSize = 20"
definition maxSize :: int where [simp]: "maxSize = 100"

definition defaultSortCol :: string where "defaultSortCol = ''created_at''"
definition defaultOrder :: string where "defaultOrder = ''desc''"

record Request =
  Page :: int
  Size :: int
  Sort :: string
  Order :: string

definition PageNum :: "Request \<Rightarrow> int" where
  "PageNum r = (if Page r < 1 then defaultPage else Page r)"

definition PageSize :: "Request \<Rightarrow> int" where
  "PageSize r = (if Size r < 1 then defaultSize else if Size r > maxSize then maxSize else Size r)"

definition SortColumn :: "Request \<Rightarrow> string" where
  "SortColumn r = (if Sort r = [] then defaultSortCol else Sort r)"

definition SortOrder :: "Request \<Rightarrow> string" where
  "SortOrder r = (if Order r = ''asc'' then ''asc'' else defaultOrder)"

definition Offset :: "Request \<Rightarrow> int" where
  "Offset r = int64 ((PageNum r - 1) * PageSize r)"

text \<open>\<^verbatim>\<open>Scope\<close> sets three clauses of a GORM query: ORDER BY, LIMIT and OFFSET.\<close>

record query_scope =
  sc_order :: string
  sc_limit :: int
  sc_offset :: int

definition Scope :: "Request \<Rightarrow> query_scope" where
  "Scope r = \<lparr>sc_order = SortColumn r @ '' '' @ SortOrder r, sc_limit = PageSize r,
     sc_offset = Offset r\<rparr>"

text \<open>\<^verbatim>\<open>math.Ceil(float64(total) / float64(size))\<close>: for totals below \<open>2 ^ 53\<close> the rounded quotient
  has the exact quotient's ceiling, since that is at least \<open>1 / size\<close> away from the integer below.\<close>

definition ceil_div :: "int \<Rightarrow> int \<Rightarrow> int" where
  "ceil_div a b = - ((- a) div b)"

record 'a Result =
  res_Data :: "'a list"
  res_Page :: int
  res_Size :: int
  res_Total :: int
  res_TotalPages :: int

definition NewResult :: "'a list \<Rightarrow> int \<Rightarrow> Request \<Rightarrow> 'a Result" where
  "NewResult xs tot r =
     (let totalPages = ceil_div tot (PageSize r);
          totalPages' = (if totalPages < 1 then 0 else totalPages)
      in \<lparr>res_Data = xs, res_Page = PageNum r, res_Size = PageSize r, res_Total = tot,
          res_TotalPages = totalPages'\<rparr>)"

text \<open>The page count of \<^verbatim>\<open>response.Paginated\<close>: rounding up by integer arithmetic.\<close>

definition paginated_total_pages :: "int \<Rightarrow> int \<Rightarrow> int" where
  "paginated_total_pages perPage tot =
     (if perPage > 0 then go_div (int64 (tot + perPage - 1)) perPage else 0)"

text \<open>The rows a query with LIMIT and OFFSET returns from an ordered result.\<close>

definition sql_window :: "query_scope \<Rightarrow> 'a list \<Rightarrow> 'a list" where
  "sql_window sc xs = take (nat (sc_limit sc)) (drop (nat (sc_offset sc)) xs)"

text \<open>\<^verbatim>\<open>FromQuery\<close> drops the error of Fiber's query parser, the parameter: the fields it has filled
  in before the error stay.\<close>

definition FromQuery :: "('q \<Rightarrow> Request \<Rightarrow> Request \<times> bool) \<Rightarrow> 'q \<Rightarrow> Request" where
  "FromQuery queryParser c =
     fst (queryParser c \<lparr>Page = 0, Size = 0, Sort = [], Order = []\<rparr>)"

text \<open>The text of the ORDER BY clause names one column when the client asks for one; \<^verbatim>\<open>Scope\<close> does not check that it does.\<close>

definition column_char :: "char \<Rightarrow> bool" where
  "column_char c \<longleftrightarrow> is_digit c \<or> is_lower_char c \<or> is_upper_char c \<or> c = CHR ''_''"

definition plain_sort :: "Request \<Rightarrow> bool" where
  "plain_sort r \<longleftrightarrow> list_all column_char (Sort r)"

definition plain_order :: "query_scope \<Rightarrow> bool" where
  "plain_order sc \<longleftrightarrow> (let col = takeWhile column_char (sc_order sc) in
     col \<noteq> [] \<and> drop (length col) (sc_order sc) \<in> {'' asc'', '' desc''})"

section \<open>Lemmas\<close>

lemma column_chars: "list_all column_char ''created_at''" "\<not> column_char (CHR '' '')"
  by code_simp+

lemma Scope_plain:
  assumes "plain_sort r"
  shows "plain_order (Scope r)"
proof -
  have c: "SortColumn r \<noteq> []" "list_all column_char (SortColumn r)"
    using assms column_chars(1) by (auto simp: SortColumn_def plain_sort_def defaultSortCol_def)
  have "takeWhile column_char (SortColumn r @ '' '' @ SortOrder r) = SortColumn r"
    using c(2) column_chars(2) by (induction "SortColumn r") (auto simp: list_all_iff takeWhile_append)
  then show ?thesis using c(1) by (simp add: plain_order_def Scope_def SortOrder_def defaultOrder_def)
qed

lemma PageNum_ge1: "1 \<le> PageNum r"
  by (simp add: PageNum_def)

lemma PageSize_bounds: "1 \<le> PageSize r \<and> PageSize r \<le> 100"
  by (simp add: PageSize_def)

lemma Offset_exact: "PageNum r \<le> 2 ^ 56 \<Longrightarrow> Offset r = (PageNum r - 1) * PageSize r"
proof -
  assume p: "PageNum r \<le> 2 ^ 56"
  have "(PageNum r - 1) * PageSize r \<le> 2 ^ 56 * 100"
    by (rule mult_mono) (use p PageNum_ge1 [of r] PageSize_bounds [of r] in auto)
  moreover have "0 \<le> (PageNum r - 1) * PageSize r"
    using PageNum_ge1 [of r] PageSize_bounds [of r] by simp
  ultimately show ?thesis by (simp add: Offset_def)
qed

lemma ceil_div_eq: "0 \<le> a \<Longrightarrow> 0 < b \<Longrightarrow> ceil_div a b = (a + b - 1) div b"
proof -
  assume a: "0 \<le> a" and b: "(0::int) < b"
  let ?q = "(a + b - 1) div b" and ?r = "(a + b - 1) mod b"
  have eq: "a + b - 1 = b * ?q + ?r" by simp
  have r: "0 \<le> ?r" "?r < b" using b by simp_all
  have "- a = b * (- ?q) + (b - 1 - ?r)" using eq by (simp add: algebra_simps)
  then have "(- a) div b = - ?q"
    using r by (intro int_div_pos_eq [where r = "b - 1 - ?r"]) linarith+
  then show ?thesis by (simp add: ceil_div_def)
qed

text \<open>Consecutive windows of one size tile the list.\<close>

lemma windows_tile:
  "0 < s \<Longrightarrow> length xs \<le> n * s \<Longrightarrow>
   concat (map (\<lambda>p. take s (drop (p * s) xs)) [0..<n]) = xs"
proof (induction n arbitrary: xs)
  case 0
  then show ?case by simp
next
  case (Suc n)
  have shift: "map (\<lambda>p. take s (drop (p * s) xs)) [1..<Suc n] =
      map (\<lambda>p. take s (drop (p * s) (drop s xs))) [0..<n]"
    by (rule nth_equalityI) (auto simp del: upt_Suc simp: add.commute)
  have IH: "concat (map (\<lambda>p. take s (drop (p * s) (drop s xs))) [0..<n]) = drop s xs"
    using Suc by (intro Suc.IH) auto
  have "[0..<Suc n] = 0 # [1..<Suc n]" by (simp add: upt_conv_Cons)
  then have "concat (map (\<lambda>p. take s (drop (p * s) xs)) [0..<Suc n]) = take s xs @ drop s xs"
    using shift IH by (simp del: upt_Suc)
  then show ?case by simp
qed

lemma TotalPages_eq:
  assumes "0 \<le> tot"
  shows "res_TotalPages (NewResult d tot r) = (tot + PageSize r - 1) div PageSize r"
proof -
  have "ceil_div tot (PageSize r) = (tot + PageSize r - 1) div PageSize r"
    using assms PageSize_bounds [of r] by (intro ceil_div_eq) auto
  moreover have "0 \<le> (tot + PageSize r - 1) div PageSize r"
    using assms PageSize_bounds [of r] by (intro pos_imp_zdiv_nonneg_iff [THEN iffD2]) auto
  ultimately show ?thesis by (simp add: NewResult_def Let_def)
qed

lemma TotalPages_enough:
  assumes "0 \<le> tot"
  shows "tot \<le> res_TotalPages (NewResult d tot r) * PageSize r"
proof -
  let ?s = "PageSize r" and ?t = "tot + PageSize r - 1"
  have "?t = ?t div ?s * ?s + ?t mod ?s" by simp
  moreover have "?t mod ?s < ?s" using PageSize_bounds [of r] by simp
  ultimately have "tot \<le> ?t div ?s * ?s" by linarith
  then show ?thesis using assms by (simp only: TotalPages_eq)
qed

lemma TotalPages_le:
  assumes "0 \<le> tot"
  shows "res_TotalPages (NewResult d tot r) \<le> tot"
proof -
  have "(tot + PageSize r - 1) div PageSize r \<le> tot"
  proof (cases "tot = 0")
    case True
    then show ?thesis using PageSize_bounds [of r] by simp
  next
    case False
    have "tot + PageSize r - 1 \<le> tot * PageSize r"
    proof -
      have "0 \<le> (tot - 1) * (PageSize r - 1)" using assms False PageSize_bounds [of r] by simp
      then show ?thesis by (simp add: algebra_simps)
    qed
    then have "(tot + PageSize r - 1) div PageSize r \<le> tot * PageSize r div PageSize r"
      using PageSize_bounds [of r] by (intro zdiv_mono1) auto
    then show ?thesis using PageSize_bounds [of r] by simp
  qed
  then show ?thesis using assms by (simp only: TotalPages_eq)
qed

lemma Scope_window:
  assumes "int p + 1 \<le> 2 ^ 56"
  shows "sql_window (Scope (r\<lparr>Page := int p + 1\<rparr>)) xs =
     take (nat (PageSize r)) (drop (p * nat (PageSize r)) xs)"
proof -
  have "PageNum (r\<lparr>Page := int p + 1\<rparr>) = int p + 1" "PageSize (r\<lparr>Page := int p + 1\<rparr>) = PageSize r"
    by (simp_all add: PageNum_def PageSize_def)
  moreover have "nat (int p * PageSize r) = p * nat (PageSize r)"
    by (simp add: nat_mult_distrib)
  ultimately show ?thesis using assms by (simp add: sql_window_def Scope_def Offset_exact)
qed

section \<open>Properties\<close>

text \<open>C25. The pages a client walks through, from 1 to the reported number of pages, give every row
  exactly once and in order: the windows that \<^verbatim>\<open>Scope\<close> selects tile the ordered result, whatever size
  the query string asks for.\<close>

theorem pages_tile_rows:
  assumes len: "int (length xs) < 2 ^ 53"
  shows "concat (map (\<lambda>p. sql_window (Scope (r\<lparr>Page := int p + 1\<rparr>)) xs)
           [0..<nat (res_TotalPages (NewResult d (int (length xs)) r))]) = xs"
proof -
  let ?n = "res_TotalPages (NewResult d (int (length xs)) r)"
  have le: "?n \<le> int (length xs)" by (rule TotalPages_le) simp
  have "map (\<lambda>p. sql_window (Scope (r\<lparr>Page := int p + 1\<rparr>)) xs) [0..<nat ?n] =
      map (\<lambda>p. take (nat (PageSize r)) (drop (p * nat (PageSize r)) xs)) [0..<nat ?n]"
    using le len by (intro map_cong refl Scope_window) auto
  moreover have "length xs \<le> nat ?n * nat (PageSize r)"
  proof -
    have "int (length xs) \<le> ?n * PageSize r" by (rule TotalPages_enough) simp
    then have "length xs \<le> nat (?n * PageSize r)" by simp
    then show ?thesis using PageSize_bounds [of r] nat_mult_distrib [of "PageSize r" ?n]
      by (simp add: mult.commute)
  qed
  moreover have "0 < nat (PageSize r)" using PageSize_bounds [of r] by simp
  ultimately show ?thesis by (simp only: windows_tile)
qed

theorem pages_tile_rows_witness:
  "concat (map (\<lambda>p. sql_window (Scope (\<lparr>Page = 1, Size = 2, Sort = [], Order = []\<rparr>\<lparr>Page := int p + 1\<rparr>))
       [10, 20, 30, 40, 50 :: nat])
     [0..<nat (res_TotalPages (NewResult [] (int (length [10, 20, 30, 40, 50 :: nat]))
        \<lparr>Page = 1, Size = 2, Sort = [], Order = []\<rparr>))]) = [10, 20, 30, 40, 50]"
  by (rule pages_tile_rows) simp

text \<open>The two page counts the API reports agree: \<^verbatim>\<open>pagination.NewResult\<close> rounds a floating-point
  quotient up, \<^verbatim>\<open>response.Paginated\<close> computes \<open>(total + perPage - 1) / perPage\<close> with Go's truncated
  division, and no sum overflows.\<close>

lemma page_counts_agree:
  assumes "0 \<le> tot" and "tot < 2 ^ 53"
  shows "res_TotalPages (NewResult d tot r) = paginated_total_pages (PageSize r) tot"
proof -
  have "int64 (tot + PageSize r - 1) = tot + PageSize r - 1"
    using assms PageSize_bounds [of r] by (intro int64_id) auto
  then show ?thesis
    using assms PageSize_bounds [of r]
    by (simp add: TotalPages_eq paginated_total_pages_def go_div_nonneg)
qed

end
