(* ===== verification/User_Repo.thy ===== *)
theory User_Repo
  imports Pagination "HOL-Library.Word" "HOL-Library.Multiset"
begin

text \<open>
  The user entity (\<^verbatim>\<open>internal/domain/entity/user.go\<close>), the \<^verbatim>\<open>UserRepository\<close> interface
  (\<^verbatim>\<open>internal/domain/repository/user_repository.go\<close>) and its GORM implementation
  (\<^verbatim>\<open>internal/repository/db/user_repository.go\<close>).

  GORM and the database behind it are third-party: the record \<open>gorm\<close> holds the queries the code
  issues, over an abstract database state; \<open>gorm_ok\<close> is what the code relies on of them. The
  locale \<open>user_store\<close> is the contract of the interface, and \<open>userRepository\<close> keeps it for every
  GORM that does what it documents.
\<close>

section \<open>The entity\<close>

type_synonym uuid = "128 word"

record User =
  u_ID :: uuid
  u_Name :: string
  u_Email :: string
  u_Password :: string
  u_CreatedAt :: time
  u_UpdatedAt :: time
  u_DeletedAt :: "time option"

text \<open>\<open>rnd\<close> is the value \<^verbatim>\<open>uuid.New()\<close> draws; \<^verbatim>\<open>uuid.Nil\<close> is \<open>0\<close>.\<close>

definition BeforeCreate :: "uuid \<Rightarrow> User \<Rightarrow> User" where
  "BeforeCreate rnd u = (if u_ID u = 0 then u\<lparr>u_ID := rnd\<rparr> else u)"

definition TableName :: "User \<Rightarrow> string" where
  "TableName u = ''users''"

definition ErrRecordNotFound :: go_err where
  "ErrRecordNotFound = Sentinel ''record not found''"

section \<open>The interface\<close>

record 'd UserRepository =
  rFindByID :: "'d \<Rightarrow> uuid \<Rightarrow> (go_err + User) \<times> 'd"
  rFindAll :: "'d \<Rightarrow> (go_err + User list) \<times> 'd"
  rFindAllPaged :: "'d \<Rightarrow> Request \<Rightarrow> (go_err + User list \<times> int) \<times> 'd"
  rCreate :: "'d \<Rightarrow> time \<Rightarrow> uuid \<Rightarrow> User \<Rightarrow> (go_err + User) \<times> 'd"
  rUpdate :: "'d \<Rightarrow> time \<Rightarrow> User \<Rightarrow> (go_err + User) \<times> 'd"
  rDelete :: "'d \<Rightarrow> time \<Rightarrow> uuid \<Rightarrow> go_err option \<times> 'd"
  rExistsByEmail :: "'d \<Rightarrow> string \<Rightarrow> (go_err + bool) \<times> 'd"
  rFindByEmail :: "'d \<Rightarrow> string \<Rightarrow> (go_err + User) \<times> 'd"

section \<open>The GORM implementation\<close>

datatype where_clause = WhereID uuid | WhereEmail string | NoWhere

text \<open>\<open>g_Create\<close> and \<open>g_Save\<close> return the struct the pointer refers to after the call (GORM writes
  the timestamps through it).\<close>

record 'd gorm =
  g_First :: "'d \<Rightarrow> where_clause \<Rightarrow> (go_err + User) \<times> 'd"
  g_Find :: "'d \<Rightarrow> query_scope option \<Rightarrow> (go_err + User list) \<times> 'd"
  g_Count :: "'d \<Rightarrow> where_clause \<Rightarrow> (go_err + int) \<times> 'd"
  g_Create :: "'d \<Rightarrow> time \<Rightarrow> User \<Rightarrow> (go_err + User) \<times> 'd"
  g_Save :: "'d \<Rightarrow> time \<Rightarrow> User \<Rightarrow> (go_err + User) \<times> 'd"
  g_Delete :: "'d \<Rightarrow> time \<Rightarrow> where_clause \<Rightarrow> go_err option \<times> 'd"

definition FindByID :: "'d gorm \<Rightarrow> 'd \<Rightarrow> uuid \<Rightarrow> (go_err + User) \<times> 'd" where
  "FindByID G s uid = (case g_First G s (WhereID uid) of
     (Inl e, s') \<Rightarrow>
       (if Is e ErrRecordNotFound then (Inl ErrRecordNotFound, s')
        else (Inl (Wrap ''find user by id'' e), s'))
   | (Inr u, s') \<Rightarrow> (Inr u, s'))"

definition FindAll :: "'d gorm \<Rightarrow> 'd \<Rightarrow> (go_err + User list) \<times> 'd" where
  "FindAll G s = (case g_Find G s None of
     (Inl e, s') \<Rightarrow> (Inl (Wrap ''find all users'' e), s')
   | (Inr us, s') \<Rightarrow> (Inr us, s'))"

definition FindAllPaged :: "'d gorm \<Rightarrow> 'd \<Rightarrow> Request \<Rightarrow> (go_err + User list \<times> int) \<times> 'd" where
  "FindAllPaged G s req = (case g_Count G s NoWhere of
     (Inl e, s1) \<Rightarrow> (Inl (Wrap ''count users'' e), s1)
   | (Inr n, s1) \<Rightarrow> (case g_Find G s1 (Some (Scope req)) of
        (Inl e, s2) \<Rightarrow> (Inl (Wrap ''find all users paged'' e), s2)
      | (Inr us, s2) \<Rightarrow> (Inr (us, n), s2)))"

text \<open>GORM calls the hook \<^verbatim>\<open>BeforeCreate\<close> before it inserts.\<close>

definition Create :: "'d gorm \<Rightarrow> 'd \<Rightarrow> time \<Rightarrow> uuid \<Rightarrow> User \<Rightarrow> (go_err + User) \<times> 'd" where
  "Create G s now rnd u = (case g_Create G s now (BeforeCreate rnd u) of
     (Inl e, s') \<Rightarrow> (Inl (Wrap ''create user'' e), s')
   | (Inr u', s') \<Rightarrow> (Inr u', s'))"

definition Update :: "'d gorm \<Rightarrow> 'd \<Rightarrow> time \<Rightarrow> User \<Rightarrow> (go_err + User) \<times> 'd" where
  "Update G s now u = (case g_Save G s now u of
     (Inl e, s') \<Rightarrow> (Inl (Wrap ''update user'' e), s')
   | (Inr u', s') \<Rightarrow> (Inr u', s'))"

definition Delete :: "'d gorm \<Rightarrow> 'd \<Rightarrow> time \<Rightarrow> uuid \<Rightarrow> go_err option \<times> 'd" where
  "Delete G s now uid = (case g_Delete G s now (WhereID uid) of
     (Some e, s') \<Rightarrow> (Some (Wrap ''delete user'' e), s')
   | (None, s') \<Rightarrow> (None, s'))"

definition ExistsByEmail :: "'d gorm \<Rightarrow> 'd \<Rightarrow> string \<Rightarrow> (go_err + bool) \<times> 'd" where
  "ExistsByEmail G s email = (case g_Count G s (WhereEmail email) of
     (Inl e, s') \<Rightarrow> (Inl (Wrap ''check email existence'' e), s')
   | (Inr n, s') \<Rightarrow> (Inr (n > 0), s'))"

definition FindByEmail :: "'d gorm \<Rightarrow> 'd \<Rightarrow> string \<Rightarrow> (go_err + User) \<times> 'd" where
  "FindByEmail G s email = (case g_First G s (WhereEmail email) of
     (Inl e, s') \<Rightarrow>
       (if Is e ErrRecordNotFound then (Inl ErrRecordNotFound, s')
        else (Inl (Wrap ''find user by email'' e), s'))
   | (Inr u, s') \<Rightarrow> (Inr u, s'))"

definition NewUserRepository :: "'d gorm \<Rightarrow> 'd UserRepository" where
  "NewUserRepository G = \<lparr>rFindByID = FindByID G, rFindAll = FindAll G,
     rFindAllPaged = FindAllPaged G, rCreate = Create G, rUpdate = Update G, rDelete = Delete G,
     rExistsByEmail = ExistsByEmail G, rFindByEmail = FindByEmail G\<rparr>"

section \<open>The contract of the interface\<close>

text \<open>\<open>live s\<close> are the users a query can see (soft-deleted rows excluded). Any
  operation may fail and then leaves them. Instants have the precision of the columns.\<close>

locale user_store =
  fixes U :: "'d UserRepository"
    and live :: "'d \<Rightarrow> User list"
  assumes find_id: "fst (rFindByID U s i) = Inr u \<Longrightarrow> u \<in> set (live s) \<and> u_ID u = i"
    and find_id_none: "fst (rFindByID U s i) = Inl e \<Longrightarrow> Is e ErrRecordNotFound \<Longrightarrow>
      i \<notin> u_ID ` set (live s)"
    and find_id_frame: "live (snd (rFindByID U s i)) = live s"
    and find_email: "fst (rFindByEmail U s m) = Inr u \<Longrightarrow> u \<in> set (live s) \<and> u_Email u = m"
    and find_email_none: "fst (rFindByEmail U s m) = Inl e \<Longrightarrow> Is e ErrRecordNotFound \<Longrightarrow>
      m \<notin> u_Email ` set (live s)"
    and find_email_frame: "live (snd (rFindByEmail U s m)) = live s"
    and exists_email: "fst (rExistsByEmail U s m) = Inr b \<Longrightarrow> b \<longleftrightarrow> m \<in> u_Email ` set (live s)"
    and exists_email_frame: "live (snd (rExistsByEmail U s m)) = live s"
    and find_all: "fst (rFindAll U s) = Inr us \<Longrightarrow> mset us = mset (live s)"
    and find_all_frame: "live (snd (rFindAll U s)) = live s"
    and find_paged: "fst (rFindAllPaged U s req) = Inr (us, n) \<Longrightarrow> plain_sort req \<Longrightarrow>
      n = int (length (live s)) \<and> (\<exists>xs. mset xs = mset (live s) \<and> us = sql_window (Scope req) xs)"
    and find_paged_frame: "plain_sort req \<Longrightarrow> live (snd (rFindAllPaged U s req)) = live s"
    and create_ok: "fst (rCreate U s t rnd u) = Inr u' \<Longrightarrow> u_DeletedAt u = None \<Longrightarrow>
      live (snd (rCreate U s t rnd u)) = live s @ [u'] \<and> u_ID u' = u_ID (BeforeCreate rnd u) \<and>
      u_Name u' = u_Name u \<and> u_Email u' = u_Email u \<and> u_Password u' = u_Password u \<and>
      u_ID u' \<notin> u_ID ` set (live s)"
    and create_fail: "fst (rCreate U s t rnd u) = Inl e \<Longrightarrow> live (snd (rCreate U s t rnd u)) = live s"
    and update_ok: "fst (rUpdate U s t u) = Inr u' \<Longrightarrow> u_DeletedAt u = None \<Longrightarrow>
      u_ID u \<in> u_ID ` set (live s) \<Longrightarrow> u' = u\<lparr>u_UpdatedAt := t\<rparr> \<and>
      live (snd (rUpdate U s t u)) = map (\<lambda>v. if u_ID v = u_ID u then u' else v) (live s)"
    and update_fail: "fst (rUpdate U s t u) = Inl e \<Longrightarrow> live (snd (rUpdate U s t u)) = live s"
    and delete_ok: "fst (rDelete U s t i) = None \<Longrightarrow>
      live (snd (rDelete U s t i)) = filter (\<lambda>v. u_ID v \<noteq> i) (live s)"
    and delete_fail: "fst (rDelete U s t i) = Some e \<Longrightarrow> live (snd (rDelete U s t i)) = live s"
    and live_live: "u \<in> set (live s) \<Longrightarrow> u_DeletedAt u = None"

section \<open>What the code relies on of GORM\<close>

fun clause_matches :: "where_clause \<Rightarrow> User \<Rightarrow> bool" where
  "clause_matches (WhereID i) u = (u_ID u = i)"
| "clause_matches (WhereEmail m) u = (u_Email u = m)"
| "clause_matches NoWhere u = True"

definition live_rows :: "User list \<Rightarrow> User list" where
  "live_rows us = filter (\<lambda>u. u_DeletedAt u = None) us"

text \<open>A query fails, or answers for the rows that are not soft-deleted; a write that fails leaves
  the table (each runs in a transaction); \<^verbatim>\<open>id\<close> is the primary key. GORM puts the text of an
  ORDER BY clause into the statement as it is, so nothing is known of a query with any other text than a column and a direction.\<close>

definition gorm_first_ok where
  "gorm_first_ok G rows \<longleftrightarrow> (\<forall>s w. rows (snd (g_First G s w)) = rows s \<and>
     (case fst (g_First G s w) of
        Inr u \<Rightarrow> u \<in> set (live_rows (rows s)) \<and> clause_matches w u
      | Inl e \<Rightarrow> Is e ErrRecordNotFound \<longrightarrow> (\<forall>u \<in> set (live_rows (rows s)). \<not> clause_matches w u)))"

definition gorm_find_ok where
  "gorm_find_ok G rows \<longleftrightarrow> (\<forall>s sc. (case sc of None \<Rightarrow> True | Some w \<Rightarrow> plain_order w) \<longrightarrow> rows (snd (g_Find G s sc)) = rows s \<and>
     (case fst (g_Find G s sc) of
        Inl e \<Rightarrow> True
      | Inr us \<Rightarrow> \<exists>xs. mset xs = mset (live_rows (rows s)) \<and>
          us = (case sc of None \<Rightarrow> xs | Some w \<Rightarrow> sql_window w xs)))"

definition gorm_count_ok where
  "gorm_count_ok G rows \<longleftrightarrow> (\<forall>s w. rows (snd (g_Count G s w)) = rows s \<and>
     (case fst (g_Count G s w) of
        Inl e \<Rightarrow> True
      | Inr n \<Rightarrow> n = int (length (filter (clause_matches w) (live_rows (rows s))))))"

definition gorm_create_ok where
  "gorm_create_ok G rows \<longleftrightarrow> (\<forall>s t u.
     (case fst (g_Create G s t u) of
        Inl e \<Rightarrow> rows (snd (g_Create G s t u)) = rows s
      | Inr u' \<Rightarrow> u_ID u \<notin> u_ID ` set (rows s) \<and> rows (snd (g_Create G s t u)) = rows s @ [u'] \<and>
          u' = u\<lparr>u_CreatedAt := (if u_CreatedAt u = 0 then t else u_CreatedAt u),
                 u_UpdatedAt := (if u_UpdatedAt u = 0 then t else u_UpdatedAt u)\<rparr>))"

definition gorm_save_ok where
  "gorm_save_ok G rows \<longleftrightarrow> (\<forall>s t u.
     (case fst (g_Save G s t u) of
        Inl e \<Rightarrow> rows (snd (g_Save G s t u)) = rows s
      | Inr u' \<Rightarrow> u' = u\<lparr>u_UpdatedAt := t\<rparr> \<and>
          (u_ID u \<in> u_ID ` set (live_rows (rows s)) \<longrightarrow> rows (snd (g_Save G s t u)) =
             map (\<lambda>v. if u_ID v = u_ID u \<and> u_DeletedAt v = None then u' else v) (rows s))))"

definition gorm_delete_ok where
  "gorm_delete_ok G rows \<longleftrightarrow> (\<forall>s t w.
     (case fst (g_Delete G s t w) of
        Some e \<Rightarrow> rows (snd (g_Delete G s t w)) = rows s
      | None \<Rightarrow> rows (snd (g_Delete G s t w)) =
          map (\<lambda>v. if clause_matches w v \<and> u_DeletedAt v = None
            then v\<lparr>u_DeletedAt := Some t\<rparr> else v) (rows s)))"

definition gorm_ok :: "'d gorm \<Rightarrow> ('d \<Rightarrow> User list) \<Rightarrow> bool" where
  "gorm_ok G rows \<longleftrightarrow> gorm_first_ok G rows \<and> gorm_find_ok G rows \<and> gorm_count_ok G rows \<and>
     gorm_create_ok G rows \<and> gorm_save_ok G rows \<and> gorm_delete_ok G rows"

text \<open>The unique index on \<^verbatim>\<open>users (email)\<close> of \<^verbatim>\<open>migrations/000001_init.up.sql\<close>: it covers every
  row, the soft-deleted ones too.\<close>

definition email_index :: "'d gorm \<Rightarrow> ('d \<Rightarrow> User list) \<Rightarrow> bool" where
  "email_index G rows \<longleftrightarrow> (\<forall>s t u. u_Email u \<in> u_Email ` set (rows s) \<longrightarrow>
     (\<exists>e. fst (g_Create G s t u) = Inl (Opaque e)))"

section \<open>The repository keeps the contract\<close>

lemma live_rows_append [simp]: "live_rows (xs @ ys) = live_rows xs @ live_rows ys"
  by (simp add: live_rows_def)

lemma live_rows_save:
  assumes "u_DeletedAt u' = None"
  shows "live_rows (map (\<lambda>v. if u_ID v = i \<and> u_DeletedAt v = None then u' else v) us) =
    map (\<lambda>v. if u_ID v = i then u' else v) (live_rows us)"
  using assms by (induction us) (auto simp: live_rows_def)

lemma live_rows_delete:
  "live_rows (map (\<lambda>v. if clause_matches (WhereID i) v \<and> u_DeletedAt v = None
      then v\<lparr>u_DeletedAt := Some t\<rparr> else v) us) = filter (\<lambda>v. u_ID v \<noteq> i) (live_rows us)"
  by (induction us) (auto simp: live_rows_def)

lemma in_live_rows: "u \<in> set (live_rows us) \<Longrightarrow> u \<in> set us \<and> u_DeletedAt u = None"
  by (simp add: live_rows_def)

lemma Is_ErrRecordNotFound [simp]:
  "Is ErrRecordNotFound ErrRecordNotFound"
  "Is (Wrap m e) ErrRecordNotFound \<longleftrightarrow> Is e ErrRecordNotFound"
  "Wrap m e \<noteq> ErrRecordNotFound"
  by (simp_all add: ErrRecordNotFound_def)

lemma gorm_first_law:
  assumes "gorm_ok G rows"
  shows "rows (snd (g_First G s w)) = rows s"
    and "fst (g_First G s w) = Inr u \<Longrightarrow> u \<in> set (live_rows (rows s)) \<and> clause_matches w u"
    and "fst (g_First G s w) = Inl e \<Longrightarrow> Is e ErrRecordNotFound \<Longrightarrow>
      u \<in> set (live_rows (rows s)) \<Longrightarrow> \<not> clause_matches w u"
  using assms by (auto simp: gorm_ok_def gorm_first_ok_def split: sum.splits)

lemma gorm_find_law:
  assumes "gorm_ok G rows" "case sc of None \<Rightarrow> True | Some w \<Rightarrow> plain_order w"
  shows "rows (snd (g_Find G s sc)) = rows s"
    and "fst (g_Find G s sc) = Inr us \<Longrightarrow> \<exists>xs. mset xs = mset (live_rows (rows s)) \<and>
      us = (case sc of None \<Rightarrow> xs | Some w \<Rightarrow> sql_window w xs)"
  using assms gorm_find_ok_def [THEN iffD1, rule_format, of G rows sc s] by (auto simp: gorm_ok_def split: sum.splits)

lemma gorm_count_law:
  assumes "gorm_ok G rows"
  shows "rows (snd (g_Count G s w)) = rows s"
    and "fst (g_Count G s w) = Inr n \<Longrightarrow>
      n = int (length (filter (clause_matches w) (live_rows (rows s))))"
  using assms by (auto simp: gorm_ok_def gorm_count_ok_def split: sum.splits)

lemma gorm_create_law:
  assumes "gorm_ok G rows"
  shows "fst (g_Create G s t u) = Inl e \<Longrightarrow> rows (snd (g_Create G s t u)) = rows s"
    and "fst (g_Create G s t u) = Inr u' \<Longrightarrow> u_ID u \<notin> u_ID ` set (rows s) \<and>
      rows (snd (g_Create G s t u)) = rows s @ [u'] \<and>
      u' = u\<lparr>u_CreatedAt := (if u_CreatedAt u = 0 then t else u_CreatedAt u),
             u_UpdatedAt := (if u_UpdatedAt u = 0 then t else u_UpdatedAt u)\<rparr>"
  using assms gorm_create_ok_def [THEN iffD1, rule_format, of G rows s t u]
  by (simp_all add: gorm_ok_def)

lemma gorm_save_law:
  assumes "gorm_ok G rows"
  shows "fst (g_Save G s t u) = Inl e \<Longrightarrow> rows (snd (g_Save G s t u)) = rows s"
    and "fst (g_Save G s t u) = Inr u' \<Longrightarrow> u' = u\<lparr>u_UpdatedAt := t\<rparr>"
    and "fst (g_Save G s t u) = Inr u' \<Longrightarrow> u_ID u \<in> u_ID ` set (live_rows (rows s)) \<Longrightarrow>
      rows (snd (g_Save G s t u)) =
        map (\<lambda>v. if u_ID v = u_ID u \<and> u_DeletedAt v = None then u' else v) (rows s)"
  using assms gorm_save_ok_def [THEN iffD1, rule_format, of G rows s t u]
  by (simp_all add: gorm_ok_def)

lemma gorm_delete_law:
  assumes "gorm_ok G rows"
  shows "fst (g_Delete G s t w) = Some e \<Longrightarrow> rows (snd (g_Delete G s t w)) = rows s"
    and "fst (g_Delete G s t w) = None \<Longrightarrow> rows (snd (g_Delete G s t w)) =
      map (\<lambda>v. if clause_matches w v \<and> u_DeletedAt v = None
        then v\<lparr>u_DeletedAt := Some t\<rparr> else v) (rows s)"
  using assms gorm_delete_ok_def [THEN iffD1, rule_format, of G rows s t w]
  by (simp_all add: gorm_ok_def)

text \<open>The state after each repository call, and its result in terms of GORM's.\<close>

lemma repo_snd:
  "snd (FindByID G s i) = snd (g_First G s (WhereID i))"
  "snd (FindByEmail G s m) = snd (g_First G s (WhereEmail m))"
  "snd (ExistsByEmail G s m) = snd (g_Count G s (WhereEmail m))"
  "snd (FindAll G s) = snd (g_Find G s None)"
  "snd (Create G s t rnd u) = snd (g_Create G s t (BeforeCreate rnd u))"
  "snd (Update G s t u) = snd (g_Save G s t u)"
  "snd (Delete G s t i) = snd (g_Delete G s t (WhereID i))"
  by (auto simp: FindByID_def FindByEmail_def ExistsByEmail_def FindAll_def Create_def Update_def
        Delete_def split: prod.splits sum.splits option.splits)

lemma repo_Inr:
  "fst (FindByID G s i) = Inr u \<longleftrightarrow> fst (g_First G s (WhereID i)) = Inr u"
  "fst (FindByEmail G s m) = Inr u \<longleftrightarrow> fst (g_First G s (WhereEmail m)) = Inr u"
  "fst (ExistsByEmail G s m) = Inr b \<longleftrightarrow> (\<exists>n. fst (g_Count G s (WhereEmail m)) = Inr n \<and> b = (n > 0))"
  "fst (FindAll G s) = Inr us \<longleftrightarrow> fst (g_Find G s None) = Inr us"
  "fst (Create G s t rnd u) = Inr u' \<longleftrightarrow> fst (g_Create G s t (BeforeCreate rnd u)) = Inr u'"
  "fst (Update G s t u) = Inr u' \<longleftrightarrow> fst (g_Save G s t u) = Inr u'"
  "fst (Delete G s t i) = None \<longleftrightarrow> fst (g_Delete G s t (WhereID i)) = None"
  by (auto simp: FindByID_def FindByEmail_def ExistsByEmail_def FindAll_def Create_def Update_def
        Delete_def split: prod.splits sum.splits option.splits)

lemma repo_Inl:
  "fst (FindByID G s i) = Inl e \<Longrightarrow> \<exists>e'. fst (g_First G s (WhereID i)) = Inl e' \<and>
     (Is e ErrRecordNotFound \<longleftrightarrow> Is e' ErrRecordNotFound)"
  "fst (FindByEmail G s m) = Inl e \<Longrightarrow> \<exists>e'. fst (g_First G s (WhereEmail m)) = Inl e' \<and>
     (Is e ErrRecordNotFound \<longleftrightarrow> Is e' ErrRecordNotFound)"
  "fst (Create G s t rnd u) = Inl e \<Longrightarrow> \<exists>e'. fst (g_Create G s t (BeforeCreate rnd u)) = Inl e'"
  "fst (Update G s t u) = Inl e \<Longrightarrow> \<exists>e'. fst (g_Save G s t u) = Inl e'"
  "fst (Delete G s t i) = Some e \<Longrightarrow> \<exists>e'. fst (g_Delete G s t (WhereID i)) = Some e'"
  by (auto simp: FindByID_def FindByEmail_def Create_def Update_def
        Delete_def split: prod.splits sum.splits option.splits if_splits)

lemma FindAllPaged_snd:
  assumes "gorm_ok G rows" "plain_sort req"
  shows "rows (snd (FindAllPaged G s req)) = rows s"
proof -
  obtain r s1 where c: "g_Count G s NoWhere = (r, s1)" by fastforce
  then have "rows s1 = rows s" using gorm_count_law(1) [OF assms(1), of s NoWhere] by simp
  moreover have "rows (snd (g_Find G s1 (Some (Scope req)))) = rows s1"
    by (rule gorm_find_law(1) [OF assms(1)]) (simp add: Scope_plain [OF assms(2)])
  ultimately show ?thesis using c by (auto simp: FindAllPaged_def split: prod.splits sum.splits)
qed

lemma FindAllPaged_Inr:
  assumes "gorm_ok G rows" "fst (FindAllPaged G s req) = Inr (us, n)" "plain_sort req"
  shows "n = int (length (live_rows (rows s)))"
    and "\<exists>xs. mset xs = mset (live_rows (rows s)) \<and> us = sql_window (Scope req) xs"
proof -
  obtain r s1 where c: "g_Count G s NoWhere = (r, s1)" by fastforce
  have same: "rows s1 = rows s" using gorm_count_law(1) [OF assms(1), of s NoWhere] c by simp
  from assms(2) c have r: "r = Inr n" and f: "fst (g_Find G s1 (Some (Scope req))) = Inr us"
    by (auto simp: FindAllPaged_def split: prod.splits sum.splits)
  show "n = int (length (live_rows (rows s)))"
    using gorm_count_law(2) [OF assms(1), of s NoWhere n] c r by simp
  show "\<exists>xs. mset xs = mset (live_rows (rows s)) \<and> us = sql_window (Scope req) xs"
    using gorm_find_law(2) [OF assms(1) _ f] same Scope_plain [OF assms(3)] by simp
qed

lemma BeforeCreate_fields [simp]:
  "u_Name (BeforeCreate rnd u) = u_Name u" "u_Email (BeforeCreate rnd u) = u_Email u"
  "u_Password (BeforeCreate rnd u) = u_Password u" "u_DeletedAt (BeforeCreate rnd u) = u_DeletedAt u"
  by (simp_all add: BeforeCreate_def)

lemma Create_live:
  assumes "gorm_ok G rows" "fst (Create G s t rnd u) = Inr u'" "u_DeletedAt u = None"
  shows "live_rows (rows (snd (Create G s t rnd u))) = live_rows (rows s) @ [u']"
    and "u_ID u' = u_ID (BeforeCreate rnd u)" "u_Name u' = u_Name u" "u_Email u' = u_Email u"
      "u_Password u' = u_Password u" "u_ID u' \<notin> u_ID ` set (live_rows (rows s))"
proof -
  have created: "fst (g_Create G s t (BeforeCreate rnd u)) = Inr u'" using assms(2) by (simp add: repo_Inr)
  note law = gorm_create_law(2) [OF assms(1) created]
  show same: "u_ID u' = u_ID (BeforeCreate rnd u)" "u_Name u' = u_Name u" "u_Email u' = u_Email u"
      "u_Password u' = u_Password u"
    using law by simp_all
  have "u_DeletedAt u' = None" using law assms(3) by simp
  then show "live_rows (rows (snd (Create G s t rnd u))) = live_rows (rows s) @ [u']"
    using law by (simp add: repo_snd live_rows_def)
  have "u_ID u' \<notin> u_ID ` set (rows s)" using law same(1) by simp
  then show "u_ID u' \<notin> u_ID ` set (live_rows (rows s))" using in_live_rows by blast
qed

lemma Update_live:
  assumes "gorm_ok G rows" "fst (Update G s t u) = Inr u'" "u_DeletedAt u = None"
    and "u_ID u \<in> u_ID ` set (live_rows (rows s))"
  shows "u' = u\<lparr>u_UpdatedAt := t\<rparr>"
    and "live_rows (rows (snd (Update G s t u))) =
      map (\<lambda>v. if u_ID v = u_ID u then u' else v) (live_rows (rows s))"
proof -
  have saved: "fst (g_Save G s t u) = Inr u'" using assms(2) by (simp add: repo_Inr)
  show u': "u' = u\<lparr>u_UpdatedAt := t\<rparr>" by (rule gorm_save_law(2) [OF assms(1) saved])
  then have "u_DeletedAt u' = None" using assms(3) by simp
  then show "live_rows (rows (snd (Update G s t u))) =
      map (\<lambda>v. if u_ID v = u_ID u then u' else v) (live_rows (rows s))"
    using gorm_save_law(3) [OF assms(1) saved assms(4)] by (simp add: repo_snd live_rows_save)
qed

lemma Delete_live:
  assumes "gorm_ok G rows" "fst (Delete G s t i) = None"
  shows "live_rows (rows (snd (Delete G s t i))) = filter (\<lambda>v. u_ID v \<noteq> i) (live_rows (rows s))"
  using gorm_delete_law(2) [OF assms(1), of s t "WhereID i"] assms(2) live_rows_delete [of i t "rows s"]
  by (simp add: repo_snd repo_Inr)

lemma repo_fail:
  assumes "gorm_ok G rows"
  shows "fst (Create G s t rnd u) = Inl e \<Longrightarrow> rows (snd (Create G s t rnd u)) = rows s"
    and "fst (Update G s t u) = Inl e \<Longrightarrow> rows (snd (Update G s t u)) = rows s"
    and "fst (Delete G s t i) = Some e \<Longrightarrow> rows (snd (Delete G s t i)) = rows s"
  using gorm_create_law(1) [OF assms] gorm_save_law(1) [OF assms] gorm_delete_law(1) [OF assms]
  by (auto simp: repo_snd dest!: repo_Inl)

lemma ExistsByEmail_Inr:
  assumes "gorm_ok G rows" "fst (ExistsByEmail G s m) = Inr b"
  shows "b \<longleftrightarrow> m \<in> u_Email ` set (live_rows (rows s))"
proof -
  obtain n where "fst (g_Count G s (WhereEmail m)) = Inr n" "b = (n > 0)"
    using assms(2) by (auto simp: repo_Inr)
  then show ?thesis using gorm_count_law(2) [OF assms(1), of s "WhereEmail m" n]
    by (auto simp: filter_empty_conv)
qed

text \<open>The repository over any GORM that behaves as documented is a user store.\<close>

lemma gorm_user_store:
  assumes "gorm_ok G rows"
  shows "user_store (NewUserRepository G) (\<lambda>s. live_rows (rows s))"
proof -
  note first = gorm_first_law [OF assms]
  show ?thesis
    unfolding NewUserRepository_def
    apply (unfold_locales, simp_all only: UserRepository.simps)
    subgoal using first(2) by (force simp: repo_Inr)
    subgoal using first(3) by (force dest: repo_Inl(1))
    subgoal by (simp add: repo_snd first(1))
    subgoal using first(2) by (force simp: repo_Inr)
    subgoal using first(3) by (force dest: repo_Inl(2))
    subgoal by (simp add: repo_snd first(1))
    subgoal by (rule ExistsByEmail_Inr [OF assms])
    subgoal by (simp add: repo_snd gorm_count_law(1) [OF assms])
    subgoal using gorm_find_law(2) [OF assms, of None] by (force simp: repo_Inr)
    subgoal by (simp add: repo_snd gorm_find_law(1) [OF assms])
    subgoal using FindAllPaged_Inr [OF assms] by blast
    subgoal by (simp add: FindAllPaged_snd [OF assms])
    subgoal by (intro conjI Create_live [OF assms])
    subgoal by (simp add: repo_fail [OF assms])
    subgoal using Update_live [OF assms] by blast
    subgoal by (simp add: repo_fail [OF assms])
    subgoal by (rule Delete_live [OF assms])
    subgoal by (simp add: repo_fail [OF assms])
    subgoal using in_live_rows by blast
    done
qed

section \<open>A table\<close>

text \<open>A database that is the list of its rows and never fails on its own, with or without the unique
  index on the email column.\<close>

definition gorm_table :: "bool \<Rightarrow> User list gorm" where
  "gorm_table idx = \<lparr>
     g_First = (\<lambda>us w. (case find (clause_matches w) (live_rows us) of
        None \<Rightarrow> Inl ErrRecordNotFound | Some u \<Rightarrow> Inr u, us)),
     g_Find = (\<lambda>us sc. (Inr (case sc of None \<Rightarrow> live_rows us
        | Some w \<Rightarrow> sql_window w (live_rows us)), us)),
     g_Count = (\<lambda>us w. (Inr (int (length (filter (clause_matches w) (live_rows us)))), us)),
     g_Create = (\<lambda>us t u.
        if u_ID u \<in> u_ID ` set us \<or> idx \<and> u_Email u \<in> u_Email ` set us
        then (Inl (Opaque ''duplicate key value violates unique constraint''), us)
        else let u' = u\<lparr>u_CreatedAt := (if u_CreatedAt u = 0 then t else u_CreatedAt u),
                        u_UpdatedAt := (if u_UpdatedAt u = 0 then t else u_UpdatedAt u)\<rparr>
             in (Inr u', us @ [u'])),
     g_Save = (\<lambda>us t u. let u' = u\<lparr>u_UpdatedAt := t\<rparr> in
        (Inr u', if u_ID u \<in> u_ID ` set (live_rows us)
          then map (\<lambda>v. if u_ID v = u_ID u \<and> u_DeletedAt v = None then u' else v) us
          else us @ [u'])),
     g_Delete = (\<lambda>us t w. (None, map (\<lambda>v. if clause_matches w v \<and> u_DeletedAt v = None
        then v\<lparr>u_DeletedAt := Some t\<rparr> else v) us))\<rparr>"

lemma gorm_table_ok: "gorm_ok (gorm_table idx) (\<lambda>us. us)"
proof -
  have "gorm_first_ok (gorm_table idx) (\<lambda>us. us)"
    by (auto simp: gorm_first_ok_def gorm_table_def find_None_iff find_Some_iff split: option.splits)
  moreover have "gorm_find_ok (gorm_table idx) (\<lambda>us. us)"
    by (auto simp: gorm_find_ok_def gorm_table_def split: option.splits)
  moreover have "gorm_count_ok (gorm_table idx) (\<lambda>us. us)"
    by (simp add: gorm_count_ok_def gorm_table_def)
  moreover have "gorm_create_ok (gorm_table idx) (\<lambda>us. us)"
    by (simp add: gorm_create_ok_def gorm_table_def Let_def)
  moreover have "gorm_save_ok (gorm_table idx) (\<lambda>us. us)"
    by (simp add: gorm_save_ok_def gorm_table_def Let_def)
  moreover have "gorm_delete_ok (gorm_table idx) (\<lambda>us. us)"
    by (simp add: gorm_delete_ok_def gorm_table_def)
  ultimately show ?thesis by (simp add: gorm_ok_def)
qed

lemma gorm_table_index: "email_index (gorm_table True) (\<lambda>us. us)"
  by (simp add: email_index_def gorm_table_def)

interpretation ur: user_store "NewUserRepository (gorm_table idx)" live_rows
  by (rule gorm_user_store [OF gorm_table_ok])

end
