(* ===== verification/User_Usecase.thy ===== *)
theory User_Usecase
  imports User_Repo
begin

text \<open>
  \<^verbatim>\<open>internal/usecase/user_usecase.go\<close>: the user operations over a \<^verbatim>\<open>UserRepository\<close>. The packages
  bcrypt and uuid are third-party and parameters of the operations. The lemmas of the locale
  \<open>user_store\<close> state what each operation does to the visible users; the properties are their
  instances for the GORM repository.
\<close>

section \<open>Third-party packages\<close>

text \<open>\<^verbatim>\<open>GenerateFromPassword\<close> takes the salt it draws; \<^verbatim>\<open>CompareHashAndPassword\<close> returns \<open>None\<close> for a
  match.\<close>

record bcrypt_lib =
  GenerateFromPassword :: "nat list \<Rightarrow> string \<Rightarrow> int \<Rightarrow> string + string"
  CompareHashAndPassword :: "string \<Rightarrow> string \<Rightarrow> string option"

definition DefaultCost :: int where
  "DefaultCost = 10"

record uuid_lib =
  uuid_Parse :: "string \<Rightarrow> string + uuid"
  uuid_String :: "uuid \<Rightarrow> string"

section \<open>Requests and errors\<close>

record CreateUserRequest =
  cr_Name :: string
  cr_Email :: string
  cr_Password :: string

record UpdateUserRequest =
  up_Name :: string
  up_Email :: string

definition ErrNotFound :: go_err where "ErrNotFound = Sentinel ''not found''"
definition ErrEmailConflict :: go_err where "ErrEmailConflict = Sentinel ''email already in use''"
definition ErrInvalidUUID :: go_err where "ErrInvalidUUID = Sentinel ''invalid id format''"

definition parseUUID :: "uuid_lib \<Rightarrow> string \<Rightarrow> go_err + uuid" where
  "parseUUID V i = (case uuid_Parse V i of Inl _ \<Rightarrow> Inl ErrInvalidUUID | Inr uid \<Rightarrow> Inr uid)"

section \<open>Operations\<close>

definition GetUser :: "'d UserRepository \<Rightarrow> uuid_lib \<Rightarrow> 'd \<Rightarrow> string \<Rightarrow> (go_err + User) \<times> 'd" where
  "GetUser U V s i = (case parseUUID V i of
     Inl e \<Rightarrow> (Inl e, s)
   | Inr uid \<Rightarrow> (case rFindByID U s uid of
        (Inl e, s') \<Rightarrow>
          (if Is e ErrRecordNotFound then (Inl ErrNotFound, s') else (Inl (Wrap ''get user'' e), s'))
      | (Inr u, s') \<Rightarrow> (Inr u, s')))"

definition ListUsers :: "'d UserRepository \<Rightarrow> 'd \<Rightarrow> (go_err + User list) \<times> 'd" where
  "ListUsers U s = (case rFindAll U s of
     (Inl e, s') \<Rightarrow> (Inl (Wrap ''list users'' e), s')
   | (Inr us, s') \<Rightarrow> (Inr us, s'))"

definition ListUsersPaged ::
  "'d UserRepository \<Rightarrow> 'd \<Rightarrow> Request \<Rightarrow> (go_err + User list \<times> int) \<times> 'd" where
  "ListUsersPaged U s req = (case rFindAllPaged U s req of
     (Inl e, s') \<Rightarrow> (Inl (Wrap ''list users paged'' e), s')
   | (Inr r, s') \<Rightarrow> (Inr r, s'))"

definition CreateUser ::
  "'d UserRepository \<Rightarrow> bcrypt_lib \<Rightarrow> 'd \<Rightarrow> time \<Rightarrow> nat list \<Rightarrow> uuid \<Rightarrow> CreateUserRequest
     \<Rightarrow> (go_err + User) \<times> 'd" where
  "CreateUser U H s now salt rnd req = (case rExistsByEmail U s (cr_Email req) of
     (Inl e, s1) \<Rightarrow> (Inl (Wrap ''check email'' e), s1)
   | (Inr ex, s1) \<Rightarrow>
       if ex then (Inl ErrEmailConflict, s1)
       else (case GenerateFromPassword H salt (cr_Password req) DefaultCost of
          Inl e \<Rightarrow> (Inl (Wrap ''hashing password'' (Opaque e)), s1)
        | Inr hash \<Rightarrow>
            let user = \<lparr>u_ID = 0, u_Name = cr_Name req, u_Email = cr_Email req, u_Password = hash,
                        u_CreatedAt = 0, u_UpdatedAt = 0, u_DeletedAt = None\<rparr>
            in (case rCreate U s1 now rnd user of
                  (Inl e, s2) \<Rightarrow> (Inl (Wrap ''create user'' e), s2)
                | (Inr u, s2) \<Rightarrow> (Inr u, s2))))"

text \<open>\<^verbatim>\<open>UpdateUser\<close> first sets the name, then, when the email changes, checks it and sets it; \<open>save\<close> is
  the shared tail.\<close>

definition update_save ::
  "'d UserRepository \<Rightarrow> 'd \<Rightarrow> time \<Rightarrow> User \<Rightarrow> (go_err + User) \<times> 'd" where
  "update_save U s now user = (case rUpdate U s now user of
     (Inl e, s') \<Rightarrow> (Inl (Wrap ''update user'' e), s')
   | (Inr u, s') \<Rightarrow> (Inr u, s'))"

definition UpdateUser ::
  "'d UserRepository \<Rightarrow> uuid_lib \<Rightarrow> 'd \<Rightarrow> time \<Rightarrow> string \<Rightarrow> UpdateUserRequest \<Rightarrow> (go_err + User) \<times> 'd" where
  "UpdateUser U V s now i req = (case parseUUID V i of
     Inl e \<Rightarrow> (Inl e, s)
   | Inr uid \<Rightarrow> (case rFindByID U s uid of
        (Inl e, s1) \<Rightarrow>
          (if Is e ErrRecordNotFound then (Inl ErrNotFound, s1) else (Inl (Wrap ''find user'' e), s1))
      | (Inr user, s1) \<Rightarrow>
          let user1 = (if up_Name req \<noteq> [] then user\<lparr>u_Name := up_Name req\<rparr> else user) in
          if up_Email req \<noteq> [] \<and> up_Email req \<noteq> u_Email user1 then
            (case rExistsByEmail U s1 (up_Email req) of
               (Inl e, s2) \<Rightarrow> (Inl (Wrap ''check email'' e), s2)
             | (Inr ex, s2) \<Rightarrow>
                 if ex then (Inl ErrEmailConflict, s2)
                 else update_save U s2 now (user1\<lparr>u_Email := up_Email req\<rparr>))
          else update_save U s1 now user1))"

definition DeleteUser ::
  "'d UserRepository \<Rightarrow> uuid_lib \<Rightarrow> 'd \<Rightarrow> time \<Rightarrow> string \<Rightarrow> go_err option \<times> 'd" where
  "DeleteUser U V s now i = (case parseUUID V i of
     Inl e \<Rightarrow> (Some e, s)
   | Inr uid \<Rightarrow> (case rFindByID U s uid of
        (Inl e, s1) \<Rightarrow>
          (if Is e ErrRecordNotFound then (Some ErrNotFound, s1)
           else (Some (Wrap ''find user'' e), s1))
      | (Inr _, s1) \<Rightarrow> (case rDelete U s1 now uid of
            (Some e, s2) \<Rightarrow> (Some (Wrap ''delete user'' e), s2)
          | (None, s2) \<Rightarrow> (None, s2))))"

section \<open>Users stay distinct\<close>

definition users_ok :: "User list \<Rightarrow> bool" where
  "users_ok us \<longleftrightarrow> distinct (map u_ID us) \<and> distinct (map u_Email us)"

lemma users_ok_same:
  assumes "users_ok us" "u \<in> set us" "v \<in> set us" "u_ID u = u_ID v \<or> u_Email u = u_Email v"
  shows "u = v"
  using assms by (auto simp: users_ok_def distinct_map dest: inj_onD)

lemma users_ok_snoc:
  "users_ok us \<Longrightarrow> u_ID u \<notin> u_ID ` set us \<Longrightarrow> u_Email u \<notin> u_Email ` set us \<Longrightarrow> users_ok (us @ [u])"
  by (simp add: users_ok_def)

lemma users_ok_filter: "users_ok us \<Longrightarrow> users_ok (filter P us)"
  by (simp add: users_ok_def distinct_map_filter)

text \<open>Replacing one user by another with the same identifier, whose email no other user has.\<close>

lemma users_ok_replace:
  assumes "users_ok us" "\<And>v. v \<in> set us \<Longrightarrow> u_Email v = u_Email u \<Longrightarrow> u_ID v = u_ID u"
  shows "users_ok (map (\<lambda>v. if u_ID v = u_ID u then u else v) us)"
proof -
  let ?f = "\<lambda>v. if u_ID v = u_ID u then u else v"
  have "map u_ID (map ?f us) = map u_ID us" by simp
  then have "distinct (map u_ID (map ?f us))" using assms(1) by (simp only: users_ok_def)
  moreover have "inj_on (u_Email \<circ> ?f) (set us)"
  proof (rule inj_onI)
    fix v w assume v: "v \<in> set us" and w: "w \<in> set us" and eq: "(u_Email \<circ> ?f) v = (u_Email \<circ> ?f) w"
    have "u_ID v = u_ID w \<or> u_Email v = u_Email w"
      using eq assms(2) [OF v] assms(2) [OF w] by (auto split: if_splits)
    then show "v = w" using users_ok_same [OF assms(1) v w] by blast
  qed
  then have "distinct (map u_Email (map ?f us))"
    using assms(1) by (simp add: users_ok_def distinct_map)
  ultimately show ?thesis by (simp only: users_ok_def)
qed

lemma GetUser_snd: "parseUUID V i = Inr uid \<Longrightarrow> snd (GetUser U V s i) = snd (rFindByID U s uid)"
  by (auto simp: GetUser_def split: prod.splits sum.splits)

lemma sentinels_distinct [simp]:
  "ErrNotFound \<noteq> ErrEmailConflict" "ErrNotFound \<noteq> ErrInvalidUUID" "ErrEmailConflict \<noteq> ErrInvalidUUID"
  "ErrNotFound \<noteq> Wrap m e" "ErrEmailConflict \<noteq> Wrap m e" "ErrInvalidUUID \<noteq> Wrap m e"
  "Wrap m e \<noteq> ErrNotFound" "Wrap m e \<noteq> ErrEmailConflict" "Wrap m e \<noteq> ErrInvalidUUID"
  by (simp_all add: ErrNotFound_def ErrEmailConflict_def ErrInvalidUUID_def)

lemma parseUUID_error: "parseUUID V i = Inl e \<Longrightarrow> e = ErrInvalidUUID"
  by (auto simp: parseUUID_def split: sum.splits)

text \<open>What a successful update may change: the name and the email, of one user.\<close>

definition updated_user :: "UpdateUserRequest \<Rightarrow> time \<Rightarrow> User \<Rightarrow> User" where
  "updated_user req t u = u\<lparr>u_Name := (if up_Name req = [] then u_Name u else up_Name req),
     u_Email := (if up_Email req = [] then u_Email u else up_Email req), u_UpdatedAt := t\<rparr>"

context user_store
begin

lemma create_user_cases:
  obtains
    (fail) "isl (fst (CreateUser U H s t salt rnd req))"
      "live (snd (CreateUser U H s t salt rnd req)) = live s"
  | (created) u hash where "fst (CreateUser U H s t salt rnd req) = Inr u"
      "live (snd (CreateUser U H s t salt rnd req)) = live s @ [u]"
      "u_Email u = cr_Email req" "u_Name u = cr_Name req" "u_Password u = hash"
      "u_ID u = rnd"
      "GenerateFromPassword H salt (cr_Password req) DefaultCost = Inr hash"
      "u_ID u \<notin> u_ID ` set (live s)" "u_Email u \<notin> u_Email ` set (live s)"
proof -
  obtain r s1 where ex: "rExistsByEmail U s (cr_Email req) = (r, s1)" by fastforce
  have s1: "live s1 = live s" using exists_email_frame [of s "cr_Email req"] ex by simp
  show ?thesis
  proof (cases "\<exists>hash. r = Inr False \<and> GenerateFromPassword H salt (cr_Password req) DefaultCost = Inr hash")
    case False
    then show ?thesis using ex s1
      by (intro fail) (auto simp: CreateUser_def split: sum.splits)
  next
    case True
    then obtain hash where r: "r = Inr False"
      and hash: "GenerateFromPassword H salt (cr_Password req) DefaultCost = Inr hash" by blast
    let ?u = "\<lparr>u_ID = 0, u_Name = cr_Name req, u_Email = cr_Email req, u_Password = hash,
      u_CreatedAt = 0, u_UpdatedAt = 0, u_DeletedAt = None\<rparr>"
    have new: "cr_Email req \<notin> u_Email ` set (live s)"
      using exists_email [of s "cr_Email req" False] ex r by auto
    obtain c s2 where cr: "rCreate U s1 t rnd ?u = (c, s2)" by fastforce
    show ?thesis
    proof (cases c)
      case (Inl e)
      then show ?thesis using ex r hash cr s1 create_fail [of s1 t rnd ?u e]
        by (intro fail) (auto simp: CreateUser_def Let_def)
    next
      case (Inr u)
      then have "fst (rCreate U s1 t rnd ?u) = Inr u" using cr by simp
      note law = create_ok [OF this]
      show ?thesis
        by (rule created [of u hash]) (use ex r hash cr Inr law s1 new in
            \<open>auto simp: CreateUser_def Let_def BeforeCreate_def image_iff\<close>)
    qed
  qed
qed

lemma create_user_ok:
  "users_ok (live s) \<Longrightarrow> users_ok (live (snd (CreateUser U H s t salt rnd req)))"
  by (rule create_user_cases [of H s t salt rnd req]) (simp_all add: users_ok_snoc)

lemma update_save_cases:
  assumes "u_DeletedAt u = None" "u_ID u \<in> u_ID ` set (live s)"
  obtains (fail) "isl (fst (update_save U s t u))" "live (snd (update_save U s t u)) = live s"
  | (saved) "fst (update_save U s t u) = Inr (u\<lparr>u_UpdatedAt := t\<rparr>)"
      "live (snd (update_save U s t u)) =
         map (\<lambda>v. if u_ID v = u_ID u then u\<lparr>u_UpdatedAt := t\<rparr> else v) (live s)"
proof -
  obtain r s' where up: "rUpdate U s t u = (r, s')" by fastforce
  show ?thesis
  proof (cases r)
    case (Inl e)
    then show ?thesis using up update_fail [of s t u e]
      by (intro fail) (auto simp: update_save_def)
  next
    case (Inr u')
    then have "fst (rUpdate U s t u) = Inr u'" using up by simp
    note law = update_ok [OF this assms]
    show ?thesis by (rule saved) (use up Inr law in \<open>simp_all add: update_save_def\<close>)
  qed
qed

text \<open>An update either fails and changes nothing, or ends in one \<^verbatim>\<open>Update\<close> of the user found.\<close>

lemma update_user_reduce:
  obtains (fail) "isl (fst (UpdateUser U V s t i req))" "live (snd (UpdateUser U V s t i req)) = live s"
  | (save) u w s' where "parseUUID V i = Inr (u_ID u)" "u \<in> set (live s)" "live s' = live s"
      "UpdateUser U V s t i req = update_save U s' t w" "w\<lparr>u_UpdatedAt := t\<rparr> = updated_user req t u"
      "up_Email req = [] \<or> up_Email req = u_Email u \<or> up_Email req \<notin> u_Email ` set (live s)"
proof (cases "\<exists>uid u s1. parseUUID V i = Inr uid \<and> rFindByID U s uid = (Inr u, s1)")
  case False
  have frame: "rFindByID U s uid = (r, s1) \<Longrightarrow> live s1 = live s" for uid r s1
    using find_id_frame [of s uid] by simp
  show ?thesis
    by (cases "parseUUID V i"; rule fail)
      (use False frame in \<open>auto simp: UpdateUser_def split: prod.splits sum.splits\<close>)
next
  case True
  then obtain uid u s1 where p: "parseUUID V i = Inr uid" and f: "rFindByID U s uid = (Inr u, s1)"
    by blast
  have s1: "live s1 = live s" using find_id_frame [of s uid] f by simp
  have u: "u \<in> set (live s)" "u_ID u = uid" using find_id [of s uid u] f by simp_all
  show ?thesis
  proof (cases "up_Email req \<noteq> [] \<and> up_Email req \<noteq> u_Email u")
    case False
    then show ?thesis using p f s1 u
      by (intro save [of u s1 "if up_Name req \<noteq> [] then u\<lparr>u_Name := up_Name req\<rparr> else u"])
        (auto simp: UpdateUser_def Let_def updated_user_def)
  next
    case True
    obtain x s2 where ex: "rExistsByEmail U s1 (up_Email req) = (x, s2)" by fastforce
    have s2: "live s2 = live s" using exists_email_frame [of s1 "up_Email req"] ex s1 by simp
    show ?thesis
    proof (cases "x = Inr False")
      case False
      then show ?thesis using p f True ex s2
        by (intro fail) (auto simp: UpdateUser_def Let_def split: sum.splits)
    next
      case no: True
      then have "up_Email req \<notin> u_Email ` set (live s)"
        using exists_email [of s1 "up_Email req" False] ex s1 by auto
      then show ?thesis using p f u ex s2 True no
        by (intro save [of u s2 "(if up_Name req \<noteq> [] then u\<lparr>u_Name := up_Name req\<rparr> else u)
              \<lparr>u_Email := up_Email req\<rparr>"])
          (auto simp: UpdateUser_def Let_def updated_user_def)
    qed
  qed
qed

lemma update_user_cases:
  obtains (fail) "isl (fst (UpdateUser U V s t i req))" "live (snd (UpdateUser U V s t i req)) = live s"
  | (saved) u where "parseUUID V i = Inr (u_ID u)" "u \<in> set (live s)"
      "fst (UpdateUser U V s t i req) = Inr (updated_user req t u)"
      "live (snd (UpdateUser U V s t i req)) =
         map (\<lambda>v. if u_ID v = u_ID u then updated_user req t u else v) (live s)"
      "up_Email req = [] \<or> up_Email req = u_Email u \<or> up_Email req \<notin> u_Email ` set (live s)"
proof (rule update_user_reduce [of V s t i req])
  fix u w s'
  assume u: "parseUUID V i = Inr (u_ID u)" "u \<in> set (live s)" "live s' = live s"
    and eq: "UpdateUser U V s t i req = update_save U s' t w"
    and w: "w\<lparr>u_UpdatedAt := t\<rparr> = updated_user req t u"
    and email: "up_Email req = [] \<or> up_Email req = u_Email u \<or> up_Email req \<notin> u_Email ` set (live s)"
  have "u_ID (w\<lparr>u_UpdatedAt := t\<rparr>) = u_ID u" "u_DeletedAt (w\<lparr>u_UpdatedAt := t\<rparr>) = u_DeletedAt u"
    unfolding w by (simp_all add: updated_user_def)
  then have k: "u_ID w = u_ID u" "u_DeletedAt w = None" using live_live [OF u(2)] by simp_all
  show ?thesis
    by (rule update_save_cases [of w s' t]) (use k u eq w email saved [of u] fail in auto)
qed (rule fail)

lemma update_user_ok:
  assumes "users_ok (live s)"
  shows "users_ok (live (snd (UpdateUser U V s t i req)))"
proof (rule update_user_cases [of V s t i req])
  fix u
  assume u: "u \<in> set (live s)"
    and email: "up_Email req = [] \<or> up_Email req = u_Email u \<or> up_Email req \<notin> u_Email ` set (live s)"
    and post: "live (snd (UpdateUser U V s t i req)) =
         map (\<lambda>v. if u_ID v = u_ID u then updated_user req t u else v) (live s)"
  have i: "u_ID (updated_user req t u) = u_ID u" by (simp add: updated_user_def)
  have "u_ID v = u_ID u" if "v \<in> set (live s)" "u_Email v = u_Email (updated_user req t u)" for v
    using that email users_ok_same [OF assms that(1) u]
    by (auto simp: updated_user_def image_iff split: if_splits)
  then show ?thesis unfolding post
    using users_ok_replace [OF assms, of "updated_user req t u"] unfolding i by blast
qed (simp add: assms)

lemma delete_user_cases:
  obtains (fail) "fst (DeleteUser U V s t i) \<noteq> None" "live (snd (DeleteUser U V s t i)) = live s"
  | (deleted) uid where "parseUUID V i = Inr uid" "fst (DeleteUser U V s t i) = None"
      "uid \<in> u_ID ` set (live s)"
      "live (snd (DeleteUser U V s t i)) = filter (\<lambda>v. u_ID v \<noteq> uid) (live s)"
proof (cases "\<exists>uid u s1. parseUUID V i = Inr uid \<and> rFindByID U s uid = (Inr u, s1)")
  case False
  have frame: "rFindByID U s uid = (r, s1) \<Longrightarrow> live s1 = live s" for uid r s1
    using find_id_frame [of s uid] by simp
  show ?thesis
    by (cases "parseUUID V i"; rule fail)
      (use False frame in \<open>auto simp: DeleteUser_def split: prod.splits sum.splits\<close>)
next
  case True
  then obtain uid u s1 where p: "parseUUID V i = Inr uid" and f: "rFindByID U s uid = (Inr u, s1)"
    by blast
  have s1: "live s1 = live s" using find_id_frame [of s uid] f by simp
  have u: "u \<in> set (live s)" "u_ID u = uid" using find_id [of s uid u] f by simp_all
  obtain r s2 where d: "rDelete U s1 t uid = (r, s2)" by fastforce
  show ?thesis
  proof (cases r)
    case None
    then show ?thesis using p f u d s1 delete_ok [of s1 t uid]
      by (intro deleted) (auto simp: DeleteUser_def)
  next
    case (Some e)
    then show ?thesis using p f d s1 delete_fail [of s1 t uid e]
      by (intro fail) (auto simp: DeleteUser_def)
  qed
qed

lemma delete_user_ok:
  "users_ok (live s) \<Longrightarrow> users_ok (live (snd (DeleteUser U V s t i)))"
  by (rule delete_user_cases [of V s t i]) (simp_all add: users_ok_filter)

lemma get_user_frame: "live (snd (GetUser U V s i)) = live s"
  using find_id_frame [of s] by (cases "parseUUID V i") (simp_all add: GetUser_snd, simp add: GetUser_def)

lemma get_user_Inr:
  assumes "fst (GetUser U V s i) = Inr u"
  shows "parseUUID V i = Inr (u_ID u)" "u \<in> set (live s)"
proof -
  obtain uid where p: "parseUUID V i = Inr uid"
    using assms by (cases "parseUUID V i") (simp_all add: GetUser_def)
  then have "fst (rFindByID U s uid) = Inr u"
    using assms by (auto simp: GetUser_def split: prod.splits sum.splits if_splits)
  then show "parseUUID V i = Inr (u_ID u)" "u \<in> set (live s)" using find_id p by auto
qed

lemma get_user_not_found:
  assumes "parseUUID V i = Inr uid" "fst (GetUser U V s i) = Inl ErrNotFound"
  shows "uid \<notin> u_ID ` set (live s)"
  using assms find_id_none [of s uid]
  by (auto simp: GetUser_def split: prod.splits sum.splits if_splits)

lemma list_frames:
  "live (snd (ListUsers U s)) = live s" "plain_sort req \<Longrightarrow> live (snd (ListUsersPaged U s req)) = live s"
  using find_all_frame [of s] find_paged_frame [of req s]
  by (auto simp: ListUsers_def ListUsersPaged_def split: prod.splits sum.splits)

end

section \<open>Sequences of requests\<close>

datatype user_op =
    OpGet string
  | OpList
  | OpListPaged Request
  | OpCreate "nat list" uuid CreateUserRequest
  | OpUpdate string UpdateUserRequest
  | OpDelete string

fun user_step ::
  "'d UserRepository \<Rightarrow> bcrypt_lib \<Rightarrow> uuid_lib \<Rightarrow> 'd \<Rightarrow> time \<times> user_op \<Rightarrow> 'd" where
  "user_step U H V s (t, OpGet i) = snd (GetUser U V s i)"
| "user_step U H V s (t, OpList) = snd (ListUsers U s)"
| "user_step U H V s (t, OpListPaged req) = snd (ListUsersPaged U s req)"
| "user_step U H V s (t, OpCreate salt rnd req) = snd (CreateUser U H s t salt rnd req)"
| "user_step U H V s (t, OpUpdate i req) = snd (UpdateUser U V s t i req)"
| "user_step U H V s (t, OpDelete i) = snd (DeleteUser U V s t i)"

fun plain_op :: "user_op \<Rightarrow> bool" where
  "plain_op (OpListPaged req) = plain_sort req"
| "plain_op _ = True"

context user_store
begin

lemma step_ok: "users_ok (live s) \<Longrightarrow> plain_op (snd x) \<Longrightarrow> users_ok (live (user_step U H V s x))"
  by (cases x; cases "snd x")
    (auto simp: get_user_frame list_frames create_user_ok update_user_ok delete_user_ok)

lemma run_ok: "users_ok (live s) \<Longrightarrow> \<forall>x \<in> set ops. plain_op (snd x) \<Longrightarrow> users_ok (live (foldl (user_step U H V) s ops))"
  by (induction ops arbitrary: s) (simp_all add: step_ok)

text \<open>What a read returns after a successful write.\<close>

lemma get_after_create:
  assumes "users_ok (live s)" "fst (CreateUser U H s t salt rnd req) = Inr u"
    and "parseUUID V i = Inr (u_ID u)"
  shows "fst (GetUser U V (snd (CreateUser U H s t salt rnd req)) i) \<noteq> Inl ErrNotFound"
    and "fst (GetUser U V (snd (CreateUser U H s t salt rnd req)) i) = Inr v \<Longrightarrow> v = u"
proof -
  let ?s = "snd (CreateUser U H s t salt rnd req)"
  have l: "live ?s = live s @ [u]"
    using assms(2) by (cases rule: create_user_cases [of H s t salt rnd req]) auto
  then have "u \<in> set (live ?s)" by simp
  then show "fst (GetUser U V ?s i) \<noteq> Inl ErrNotFound"
    using get_user_not_found [OF assms(3), of ?s] by blast
  have ok: "users_ok (live ?s)" by (rule create_user_ok [OF assms(1)])
  show "v = u" if g: "fst (GetUser U V ?s i) = Inr v"
    using users_ok_same [OF ok get_user_Inr(2) [OF g] \<open>u \<in> set (live ?s)\<close>]
      get_user_Inr(1) [OF g] assms(3) by simp
qed

lemma get_after_delete:
  assumes "fst (DeleteUser U V s t i) = None"
  shows "isl (fst (GetUser U V (snd (DeleteUser U V s t i)) i))"
proof (cases "fst (GetUser U V (snd (DeleteUser U V s t i)) i)")
  case (Inr u)
  note g = get_user_Inr [OF Inr]
  show ?thesis using assms g by (cases rule: delete_user_cases [of V s t i]) auto
qed simp

end

section \<open>Properties\<close>

text \<open>Concrete packages for the witnesses.\<close>

definition bcrypt_ok :: "bcrypt_lib \<Rightarrow> bool" where
  "bcrypt_ok H \<longleftrightarrow> (\<forall>salt p c h. GenerateFromPassword H salt p c = Inr h \<longrightarrow>
     CompareHashAndPassword H h p = None)"

definition uuid_ok :: "uuid_lib \<Rightarrow> bool" where
  "uuid_ok V \<longleftrightarrow> (\<forall>u. uuid_Parse V (uuid_String V u) = Inr u)"

definition bcrypt_plain :: bcrypt_lib where
  "bcrypt_plain = \<lparr>
     GenerateFromPassword = (\<lambda>salt p c. if length p > 72 then Inl ''password length exceeds 72 bytes''
        else Inr (CHR ''$'' # p)),
     CompareHashAndPassword = (\<lambda>h p. if h = CHR ''$'' # p then None else Some ''mismatch'')\<rparr>"

definition uuid_plain :: uuid_lib where
  "uuid_plain = \<lparr>uuid_Parse = (\<lambda>s. if s \<noteq> [] \<and> set s \<subseteq> {CHR ''u''} then Inr (of_nat (length s - 1)) else Inl ''invalid UUID''),
     uuid_String = (\<lambda>u. replicate (Suc (unat u)) (CHR ''u''))\<rparr>"

lemma bcrypt_plain_ok: "bcrypt_ok bcrypt_plain"
  by (simp add: bcrypt_ok_def bcrypt_plain_def)

lemma uuid_plain_ok: "uuid_ok uuid_plain"
  by (auto simp: uuid_ok_def uuid_plain_def simp del: replicate_Suc)

text \<open>C5. Whatever requests the user API serves, in any order and with any mixture of successes and
  failures of the database, the visible users keep distinct identifiers and distinct emails: the
  duplicate checks of \<^verbatim>\<open>CreateUser\<close> and \<^verbatim>\<open>UpdateUser\<close> are enough, without the database's
  unique index. Listings are taken to sort by a column (GORM passes the sort text on as SQL, and the code does not check it).\<close>

theorem users_stay_distinct:
  assumes "gorm_ok G rows" and "users_ok (live_rows (rows s))" and "\<forall>x \<in> set ops. plain_op (snd x)"
  shows "users_ok (live_rows (rows (foldl (user_step (NewUserRepository G) H V) s ops)))"
  by (rule user_store.run_ok [OF gorm_user_store [OF assms(1)] assms(2,3)])

theorem users_stay_distinct_witness:
  "users_ok (live_rows (foldl (user_step (NewUserRepository (gorm_table False)) bcrypt_plain uuid_plain) []
     [(5, OpCreate [] 1 \<lparr>cr_Name = ''ann'', cr_Email = ''a@x'', cr_Password = ''secret12''\<rparr>),
      (6, OpCreate [] 2 \<lparr>cr_Name = ''bob'', cr_Email = ''a@x'', cr_Password = ''secret34''\<rparr>),
      (7, OpDelete ''uu'')]))"
  by (rule users_stay_distinct [OF gorm_table_ok]) (simp_all add: users_ok_def live_rows_def)

text \<open>A user that \<^verbatim>\<open>CreateUser\<close> returns is stored: \<^verbatim>\<open>GetUser\<close> of its identifier finds that
  very user (or reports a database failure, never "not found"), the password is stored only as the
  bcrypt hash of the request's password, and the email was free.\<close>

lemma create_user_then_get:
  assumes "gorm_ok G rows" and "users_ok (live_rows (rows s))"
    and "fst (CreateUser (NewUserRepository G) H s t salt rnd req) = Inr u"
    and "parseUUID V i = Inr (u_ID u)"
  shows "fst (GetUser (NewUserRepository G) V
            (snd (CreateUser (NewUserRepository G) H s t salt rnd req)) i) \<noteq> Inl ErrNotFound \<and>
         (\<forall>v. fst (GetUser (NewUserRepository G) V
            (snd (CreateUser (NewUserRepository G) H s t salt rnd req)) i) = Inr v \<longrightarrow> v = u) \<and>
         GenerateFromPassword H salt (cr_Password req) DefaultCost = Inr (u_Password u) \<and>
         u_Email u = cr_Email req \<and> u_Email u \<notin> u_Email ` set (live_rows (rows s))"
proof -
  note st = gorm_user_store [OF assms(1)]
  have "GenerateFromPassword H salt (cr_Password req) DefaultCost = Inr (u_Password u) \<and>
      u_Email u = cr_Email req \<and> u_Email u \<notin> u_Email ` set (live_rows (rows s))"
    using assms(3)
    by (cases rule: user_store.create_user_cases [OF st, of H s t salt rnd req]; force)
  then show ?thesis using user_store.get_after_create [OF st assms(2-4)] by blast
qed

text \<open>\<^verbatim>\<open>UpdateUser\<close> changes the name and the email of the addressed user and nothing else: the
  identifier and the password hash stay, an empty field of the request leaves the stored one, every
  other user is untouched, and a failing update changes no user at all.\<close>

lemma update_user_effect:
  assumes "gorm_ok G rows"
  shows "(\<exists>u. parseUUID V i = Inr (u_ID u) \<and> u \<in> set (live_rows (rows s)) \<and>
            fst (UpdateUser (NewUserRepository G) V s t i req) = Inr (updated_user req t u) \<and>
            live_rows (rows (snd (UpdateUser (NewUserRepository G) V s t i req))) =
              map (\<lambda>v. if u_ID v = u_ID u then updated_user req t u else v) (live_rows (rows s))) \<or>
         isl (fst (UpdateUser (NewUserRepository G) V s t i req)) \<and>
           live_rows (rows (snd (UpdateUser (NewUserRepository G) V s t i req))) = live_rows (rows s)"
  by (rule user_store.update_user_cases [OF gorm_user_store [OF assms], of V s t i req]) blast+

text \<open>After a successful \<^verbatim>\<open>DeleteUser\<close> the user cannot be fetched any more.\<close>

lemma deleted_user_gone:
  assumes "gorm_ok G rows" and "fst (DeleteUser (NewUserRepository G) V s t i) = None"
  shows "isl (fst (GetUser (NewUserRepository G) V (snd (DeleteUser (NewUserRepository G) V s t i)) i))"
  by (rule user_store.get_after_delete [OF gorm_user_store [OF assms(1)] assms(2)])

text \<open>The email of a deleted user is blocked, and not as a conflict: \<^verbatim>\<open>ExistsByEmail\<close> does not
  see the soft-deleted row, so \<^verbatim>\<open>CreateUser\<close> goes on, and the unique index, which covers that row,
  makes the insert fail with an error that is none of the sentinels (the handler answers 500).\<close>

lemma create_user_deleted_email:
  assumes "gorm_ok G rows" and "email_index G rows"
    and "cr_Email req \<in> u_Email ` set (rows s)"
    and "cr_Email req \<notin> u_Email ` set (live_rows (rows s))"
    and "\<not> isl (fst (ExistsByEmail G s (cr_Email req)))"
    and "GenerateFromPassword H salt (cr_Password req) DefaultCost = Inr hash"
  shows "\<exists>e. fst (CreateUser (NewUserRepository G) H s t salt rnd req) =
     Inl (Wrap ''create user'' (Wrap ''create user'' (Opaque e)))"
proof -
  obtain b s1 where ex: "ExistsByEmail G s (cr_Email req) = (Inr b, s1)"
    using assms(5) by (cases "ExistsByEmail G s (cr_Email req)"; cases "fst (ExistsByEmail G s (cr_Email req))") auto
  then have "b \<longleftrightarrow> cr_Email req \<in> u_Email ` set (live_rows (rows s))"
    using ExistsByEmail_Inr [OF assms(1), of s "cr_Email req" b] by simp
  then have "\<not> b" using assms(4) by simp
  moreover have "rows s1 = rows s"
    using gorm_count_law(1) [OF assms(1), of s "WhereEmail (cr_Email req)"] ex
    by (metis repo_snd(3) snd_conv)
  then obtain e where "fst (g_Create G s1 t (BeforeCreate rnd \<lparr>u_ID = 0, u_Name = cr_Name req,
      u_Email = cr_Email req, u_Password = hash, u_CreatedAt = 0, u_UpdatedAt = 0,
      u_DeletedAt = None\<rparr>)) = Inl (Opaque e)"
    using assms(2,3) by (fastforce simp: email_index_def)
  ultimately show ?thesis using ex assms(6)
    by (auto simp: CreateUser_def NewUserRepository_def Create_def Let_def split: prod.splits)
qed

end
