(* ===== verification/Auth_Usecase.thy ===== *)
theory Auth_Usecase
  imports Auth_Token User_Usecase
begin

text \<open>
  \<^verbatim>\<open>internal/usecase/auth_usecase.go\<close>: login, refresh-token rotation, logout, and the two steps of a
  password reset. The use case is a record of its dependencies, as in the code; its state is the
  state of the database, of the cache and of the blacklist. Random draws (token identifiers, salts,
  UUIDs) and the clock, one instant per call, are arguments.
\<close>

section \<open>Requests, errors and keys\<close>

record LoginRequest =
  li_Email :: string
  li_Password :: string

record LoginResponse =
  AccessToken :: string
  RefreshToken :: string
  ExpiresIn :: int

record ResetPasswordRequest =
  rp_Token :: string
  rp_Password :: string

definition ErrInvalidCredentials :: go_err where
  "ErrInvalidCredentials = Sentinel ''invalid email or password''"
definition ErrInvalidToken :: go_err where
  "ErrInvalidToken = Sentinel ''invalid or expired token''"

definition refreshKeyPrefix :: string where "refreshKeyPrefix = ''auth:refresh:''"
definition resetKeyPrefix :: string where "resetKeyPrefix = ''auth:reset:''"
definition versionKeyPrefix :: string where "versionKeyPrefix = ''auth:ver:''"
definition resetTTL :: duration where "resetTTL = 15 * minute"
definition versionTTL :: duration where "versionTTL = 90 * 24 * hour"

text \<open>The errors of the layers below, as Go error values.\<close>

fun cache_error :: "cache_err \<Rightarrow> go_err" where
  "cache_error ErrCacheMiss = Sentinel ''cache miss''"
| "cache_error CacheSetMarshal = Wrap ''cache set marshal'' (Opaque ''unsupported type'')"
| "cache_error CacheGetUnmarshal = Wrap ''cache get unmarshal'' (Opaque ''invalid document'')"
| "cache_error (CacheBackend m) = Opaque m"

fun token_error :: "token_err \<Rightarrow> go_err" where
  "token_error ErrWeakSecret = Sentinel ''jwt secret must be at least 32 bytes''"
| "token_error (SigningJwt m) = Wrap ''signing jwt'' (Opaque m)"
| "token_error (InvalidTokenErr m) = Wrap ''invalid token'' (Opaque m)"
| "token_error InvalidTokenClaims = Opaque ''invalid token claims''"

section \<open>The use case\<close>

record ('d, 's, 'b) authUseCase =
  a_userRepo :: "'d UserRepository"
  a_cacher :: "'s Cacher"
  a_jwtCfg :: Config
  a_refreshCfg :: Config
  a_bl :: "'b Blacklist option"
  a_bcryptCost :: int

record ('d, 's, 'b) auth_state =
  st_db :: 'd
  st_cache :: 's
  st_bl :: 'b

record auth_libs =
  l_jwt :: jwt_lib
  l_bcrypt :: bcrypt_lib
  l_uuid :: uuid_lib

definition NewAuthUseCase ::
  "'d UserRepository \<Rightarrow> 's Cacher \<Rightarrow> Config \<Rightarrow> duration \<Rightarrow> 'b Blacklist option \<Rightarrow> int
     \<Rightarrow> ('d, 's, 'b) authUseCase" where
  "NewAuthUseCase userRepo cache jwtCfg refreshExpiry bl bcryptCost =
     \<lparr>a_userRepo = userRepo, a_cacher = cache, a_jwtCfg = jwtCfg,
      a_refreshCfg = \<lparr>Secret = Secret jwtCfg, Issuer = Issuer jwtCfg, Audience = Audience jwtCfg,
                      Expiry = refreshExpiry\<rparr>,
      a_bl = bl, a_bcryptCost = (if bcryptCost < 10 then DefaultCost else bcryptCost)\<rparr>"

text \<open>\<^verbatim>\<open>cacher.Get\<close> into a variable of each of the three types.\<close>

definition get_session :: "'s Cacher \<Rightarrow> 's \<Rightarrow> time \<Rightarrow> string \<Rightarrow> (cache_err + string \<times> int) \<times> 's" where
  "get_session C s now k = (case cGet C s now k TSession of
     (Inl e, s') \<Rightarrow> (Inl e, s')
   | (Inr (GoSession sub ver), s') \<Rightarrow> (Inr (sub, ver), s')
   | (Inr _, s') \<Rightarrow> (Inl CacheGetUnmarshal, s'))"

definition get_string :: "'s Cacher \<Rightarrow> 's \<Rightarrow> time \<Rightarrow> string \<Rightarrow> (cache_err + string) \<times> 's" where
  "get_string C s now k = (case cGet C s now k TString of
     (Inl e, s') \<Rightarrow> (Inl e, s')
   | (Inr (GoString v), s') \<Rightarrow> (Inr v, s')
   | (Inr _, s') \<Rightarrow> (Inl CacheGetUnmarshal, s'))"

text \<open>The password version: any error of the lookup counts as version 0.\<close>

definition get_version :: "'s Cacher \<Rightarrow> 's \<Rightarrow> time \<Rightarrow> string \<Rightarrow> int \<times> 's" where
  "get_version C s now subject = (case cGet C s now (versionKeyPrefix @ subject) TInt of
     (Inr (GoInt v), s') \<Rightarrow> (v, s')
   | (_, s') \<Rightarrow> (0, s'))"

definition issueTokenPair ::
  "auth_libs \<Rightarrow> ('d, 's, 'b) authUseCase \<Rightarrow> 's \<Rightarrow> time \<Rightarrow> nat list \<Rightarrow> nat list \<Rightarrow> string
     \<Rightarrow> (go_err + LoginResponse) \<times> 's" where
  "issueTokenPair lib a s now rndA rndR subject =
     (case Sign (l_jwt lib) now rndA subject [] ''access'' (a_jwtCfg a) of
        Inl e \<Rightarrow> (Inl (Wrap ''sign access token'' (token_error e)), s)
      | Inr (accessToken, _) \<Rightarrow>
          (case Sign (l_jwt lib) now rndR subject [] ''refresh'' (a_refreshCfg a) of
             Inl e \<Rightarrow> (Inl (Wrap ''sign refresh token'' (token_error e)), s)
           | Inr (refreshToken, refreshJTI) \<Rightarrow>
               (case get_version (a_cacher a) s now subject of (pwVersion, s1) \<Rightarrow>
                 (case cSet (a_cacher a) s1 now (refreshKeyPrefix @ refreshJTI)
                         (GoSession subject pwVersion) (Expiry (a_refreshCfg a)) of
                    (Some e, s2) \<Rightarrow> (Inl (Wrap ''store refresh session'' (cache_error e)), s2)
                  | (None, s2) \<Rightarrow>
                      (Inr \<lparr>AccessToken = accessToken, RefreshToken = refreshToken,
                            ExpiresIn = go_div (Expiry (a_jwtCfg a)) second\<rparr>, s2)))))"

definition Login ::
  "auth_libs \<Rightarrow> ('d, 's, 'b) authUseCase \<Rightarrow> ('d, 's, 'b) auth_state \<Rightarrow> time \<Rightarrow> nat list \<Rightarrow> nat list
     \<Rightarrow> LoginRequest \<Rightarrow> (go_err + LoginResponse) \<times> ('d, 's, 'b) auth_state" where
  "Login lib a st now rndA rndR req =
     (case rFindByEmail (a_userRepo a) (st_db st) (li_Email req) of
        (Inl e, d) \<Rightarrow>
          (if Is e ErrRecordNotFound then (Inl ErrInvalidCredentials, st\<lparr>st_db := d\<rparr>)
           else (Inl (Wrap ''login find user'' e), st\<lparr>st_db := d\<rparr>))
      | (Inr user, d) \<Rightarrow>
          (case CompareHashAndPassword (l_bcrypt lib) (u_Password user) (li_Password req) of
             Some _ \<Rightarrow> (Inl ErrInvalidCredentials, st\<lparr>st_db := d\<rparr>)
           | None \<Rightarrow>
               (case issueTokenPair lib a (st_cache st) now rndA rndR (uuid_String (l_uuid lib) (u_ID user)) of
                  (r, s) \<Rightarrow> (r, st\<lparr>st_db := d, st_cache := s\<rparr>))))"

definition Refresh ::
  "auth_libs \<Rightarrow> ('d, 's, 'b) authUseCase \<Rightarrow> ('d, 's, 'b) auth_state \<Rightarrow> time \<Rightarrow> nat list \<Rightarrow> nat list
     \<Rightarrow> string \<Rightarrow> (go_err + LoginResponse) \<times> ('d, 's, 'b) auth_state" where
  "Refresh lib a st now rndA rndR refreshToken =
     (case Verify (l_jwt lib) now refreshToken (a_refreshCfg a) of
        Inl _ \<Rightarrow> (Inl ErrInvalidToken, st)
      | Inr claims \<Rightarrow>
          let sessionKey = refreshKeyPrefix @ ID claims in
          (case get_session (a_cacher a) (st_cache st) now sessionKey of
             (Inl e, s1) \<Rightarrow>
               (if e = ErrCacheMiss then (Inl ErrInvalidToken, st\<lparr>st_cache := s1\<rparr>)
                else (Inl (Wrap ''refresh session lookup'' (cache_error e)), st\<lparr>st_cache := s1\<rparr>))
           | (Inr (subject, ver), s1) \<Rightarrow>
               if subject \<noteq> Subject claims then (Inl ErrInvalidToken, st\<lparr>st_cache := s1\<rparr>)
               else
                 (case get_version (a_cacher a) s1 now (Subject claims) of (currentVersion, s2) \<Rightarrow>
                   let s3 = snd (cDel (a_cacher a) s2 now [sessionKey]) in
                   if ver < currentVersion then (Inl ErrInvalidToken, st\<lparr>st_cache := s3\<rparr>)
                   else
                     (case uuid_Parse (l_uuid lib) (Subject claims) of
                        Inl _ \<Rightarrow> (Inl ErrInvalidToken, st\<lparr>st_cache := s3\<rparr>)
                      | Inr userID \<Rightarrow>
                          (case rFindByID (a_userRepo a) (st_db st) userID of
                             (Inl _, d) \<Rightarrow> (Inl ErrInvalidToken, st\<lparr>st_cache := s3, st_db := d\<rparr>)
                           | (Inr _, d) \<Rightarrow>
                               (case issueTokenPair lib a s3 now rndA rndR (Subject claims) of
                                  (r, s4) \<Rightarrow> (r, st\<lparr>st_cache := s4, st_db := d\<rparr>)))))))"

text \<open>\<open>blacklist_claims\<close> is the block both halves of \<^verbatim>\<open>Logout\<close> repeat: revoke the token identifier for
  the token's remaining lifetime. \<open>ExpiresAt\<close> is a pointer: \<open>None\<close> is the nil dereference.\<close>

datatype 'b bl_result = BlDone 'b | BlFailed string 'b | BlPanic

definition blacklist_claims ::
  "'b Blacklist option \<Rightarrow> 'b \<Rightarrow> time \<Rightarrow> Claims \<Rightarrow> 'b bl_result" where
  "blacklist_claims bl s now c =
     (case bl of
        None \<Rightarrow> BlDone s
      | Some B \<Rightarrow>
          if ID c = [] then BlDone s
          else (case ExpiresAt c of
                  None \<Rightarrow> BlPanic
                | Some e \<Rightarrow>
                    let remaining = e - now in
                    if remaining > 0 then
                      (case bRevoke B s now (ID c) remaining of
                         (Some err, s') \<Rightarrow> BlFailed err s'
                       | (None, s') \<Rightarrow> BlDone s')
                    else BlDone s))"

definition nil_dereference :: go_err where
  "nil_dereference = Opaque ''runtime error: invalid memory address or nil pointer dereference''"

definition logout_refresh ::
  "auth_libs \<Rightarrow> ('d, 's, 'b) authUseCase \<Rightarrow> ('d, 's, 'b) auth_state \<Rightarrow> time \<Rightarrow> string
     \<Rightarrow> go_err option \<times> ('d, 's, 'b) auth_state" where
  "logout_refresh lib a st now refreshToken =
     (if refreshToken = [] then (None, st)
      else case Verify (l_jwt lib) now refreshToken (a_refreshCfg a) of
        Inl _ \<Rightarrow> (None, st)
      | Inr refreshClaims \<Rightarrow>
          let st1 = st\<lparr>st_cache := snd (cDel (a_cacher a) (st_cache st) now
                          [refreshKeyPrefix @ ID refreshClaims])\<rparr>
          in (case blacklist_claims (a_bl a) (st_bl st1) now refreshClaims of
                BlDone b \<Rightarrow> (None, st1\<lparr>st_bl := b\<rparr>)
              | BlFailed _ b \<Rightarrow> (None, st1\<lparr>st_bl := b\<rparr>)
              | BlPanic \<Rightarrow> (Some nil_dereference, st1)))"

definition Logout ::
  "auth_libs \<Rightarrow> ('d, 's, 'b) authUseCase \<Rightarrow> ('d, 's, 'b) auth_state \<Rightarrow> time \<Rightarrow> string \<Rightarrow> string
     \<Rightarrow> go_err option \<times> ('d, 's, 'b) auth_state" where
  "Logout lib a st now accessToken refreshToken =
     (case Verify (l_jwt lib) now accessToken (a_jwtCfg a) of
        Inl _ \<Rightarrow> (Some ErrInvalidToken, st)
      | Inr accessClaims \<Rightarrow>
          (case blacklist_claims (a_bl a) (st_bl st) now accessClaims of
             BlPanic \<Rightarrow> (Some nil_dereference, st)
           | BlFailed err b \<Rightarrow> (Some (Wrap ''revoke access token'' (Opaque err)), st\<lparr>st_bl := b\<rparr>)
           | BlDone b \<Rightarrow> logout_refresh lib a (st\<lparr>st_bl := b\<rparr>) now refreshToken))"

text \<open>\<open>rnd\<close> is the UUID the reset token is made of.\<close>

definition ForgotPassword ::
  "auth_libs \<Rightarrow> ('d, 's, 'b) authUseCase \<Rightarrow> ('d, 's, 'b) auth_state \<Rightarrow> time \<Rightarrow> uuid \<Rightarrow> string
     \<Rightarrow> (go_err + string) \<times> ('d, 's, 'b) auth_state" where
  "ForgotPassword lib a st now rnd email =
     (case rFindByEmail (a_userRepo a) (st_db st) email of
        (Inl e, d) \<Rightarrow>
          (if Is e ErrRecordNotFound then (Inr [], st\<lparr>st_db := d\<rparr>)
           else (Inl (Wrap ''forgot password'' e), st\<lparr>st_db := d\<rparr>))
      | (Inr user, d) \<Rightarrow>
          let token = uuid_String (l_uuid lib) rnd in
          (case cSet (a_cacher a) (st_cache st) now (resetKeyPrefix @ token)
                  (GoString (u_Email user)) resetTTL of
             (Some e, s) \<Rightarrow>
               (Inl (Wrap ''store reset token'' (cache_error e)), st\<lparr>st_db := d, st_cache := s\<rparr>)
           | (None, s) \<Rightarrow> (Inr token, st\<lparr>st_db := d, st_cache := s\<rparr>)))"

text \<open>The version bump at the end of \<^verbatim>\<open>ResetPassword\<close>: the error of \<^verbatim>\<open>Set\<close> is dropped.\<close>

definition bump_version :: "'s Cacher \<Rightarrow> 's \<Rightarrow> time \<Rightarrow> string \<Rightarrow> 's" where
  "bump_version C s now subject =
     (case get_version C s now subject of (currentVersion, s') \<Rightarrow>
        snd (cSet C s' now (versionKeyPrefix @ subject) (GoInt (int64 (currentVersion + 1))) versionTTL))"

definition ResetPassword ::
  "auth_libs \<Rightarrow> ('d, 's, 'b) authUseCase \<Rightarrow> ('d, 's, 'b) auth_state \<Rightarrow> time \<Rightarrow> nat list
     \<Rightarrow> ResetPasswordRequest \<Rightarrow> go_err option \<times> ('d, 's, 'b) auth_state" where
  "ResetPassword lib a st now salt req =
     (let key = resetKeyPrefix @ rp_Token req in
      case get_string (a_cacher a) (st_cache st) now key of
        (Inl e, s1) \<Rightarrow>
          (if e = ErrCacheMiss then (Some ErrInvalidToken, st\<lparr>st_cache := s1\<rparr>)
           else (Some (Wrap ''reset password lookup'' (cache_error e)), st\<lparr>st_cache := s1\<rparr>))
      | (Inr email, s1) \<Rightarrow>
          (case rFindByEmail (a_userRepo a) (st_db st) email of
             (Inl e, d1) \<Rightarrow>
               (Some (Wrap ''reset password find user'' e), st\<lparr>st_cache := s1, st_db := d1\<rparr>)
           | (Inr user, d1) \<Rightarrow>
               (case GenerateFromPassword (l_bcrypt lib) salt (rp_Password req) (a_bcryptCost a) of
                  Inl e \<Rightarrow>
                    (Some (Wrap ''hashing password'' (Opaque e)), st\<lparr>st_cache := s1, st_db := d1\<rparr>)
                | Inr hash \<Rightarrow>
                    (case rUpdate (a_userRepo a) d1 now (user\<lparr>u_Password := hash\<rparr>) of
                       (Inl e, d2) \<Rightarrow>
                         (Some (Wrap ''update password'' e), st\<lparr>st_cache := s1, st_db := d2\<rparr>)
                     | (Inr user', d2) \<Rightarrow>
                         let s2 = snd (cDel (a_cacher a) s1 now [key]);
                             s3 = bump_version (a_cacher a) s2 now (uuid_String (l_uuid lib) (u_ID user'))
                         in (None, st\<lparr>st_cache := s3, st_db := d2\<rparr>)))))"

section \<open>Sequences of operations\<close>

text \<open>The operations of the service, with the draws each makes, and the access check of a protected
  route. A trace is a list of operations with the instants they run at.\<close>

datatype auth_op =
    DoLogin "nat list" "nat list" LoginRequest
  | DoRefresh "nat list" "nat list" string
  | DoLogout string string
  | DoForgot uuid string
  | DoReset "nat list" ResetPasswordRequest
  | DoCheck string

fun auth_step ::
  "auth_libs \<Rightarrow> ('d, 's, 'b) authUseCase \<Rightarrow> ('d, 's, 'b) auth_state \<Rightarrow> time \<times> auth_op \<Rightarrow> ('d, 's, 'b) auth_state" where
  "auth_step lib a st (t, DoLogin rA rR req) = snd (Login lib a st t rA rR req)"
| "auth_step lib a st (t, DoRefresh rA rR tok) = snd (Refresh lib a st t rA rR tok)"
| "auth_step lib a st (t, DoLogout acc ref) = snd (Logout lib a st t acc ref)"
| "auth_step lib a st (t, DoForgot rnd email) = snd (ForgotPassword lib a st t rnd email)"
| "auth_step lib a st (t, DoReset salt req) = snd (ResetPassword lib a st t salt req)"
| "auth_step lib a st (t, DoCheck raw) =
     st\<lparr>st_bl := snd (Middleware (l_jwt lib) (a_jwtCfg a) [a_bl a] (st_bl st) t raw)\<rparr>"

text \<open>The keys an operation may write in the cache, whatever it reads.\<close>

fun op_writes :: "auth_libs \<Rightarrow> auth_op \<Rightarrow> string \<Rightarrow> bool" where
  "op_writes lib (DoLogin rA rR req) k = (k = refreshKeyPrefix @ newJTI rR)"
| "op_writes lib (DoRefresh rA rR tok) k = (k = refreshKeyPrefix @ newJTI rR)"
| "op_writes lib (DoLogout acc ref) k = False"
| "op_writes lib (DoForgot rnd email) k = (k = resetKeyPrefix @ uuid_String (l_uuid lib) rnd)"
| "op_writes lib (DoReset salt req) k = HasPrefix k versionKeyPrefix"
| "op_writes lib (DoCheck raw) k = False"

text \<open>The same with the values: every kind of key has values of one type.\<close>

fun op_stores :: "auth_libs \<Rightarrow> auth_op \<Rightarrow> string \<Rightarrow> gval \<Rightarrow> bool" where
  "op_stores lib op k (GoSession sub ver) = (op_writes lib op k \<and> HasPrefix k refreshKeyPrefix)"
| "op_stores lib op k (GoString x) = (op_writes lib op k \<and> HasPrefix k resetKeyPrefix)"
| "op_stores lib op k (GoInt n) = (op_writes lib op k \<and> HasPrefix k versionKeyPrefix)"
| "op_stores lib op k GoOpaque = False"

lemma stores_writes: "op_stores lib op k v \<Longrightarrow> op_writes lib op k"
  by (cases v) simp_all

text \<open>The kinds of keys do not meet.\<close>

lemma key_kinds [simp]:
  "refreshKeyPrefix @ x \<noteq> resetKeyPrefix @ y" "resetKeyPrefix @ y \<noteq> refreshKeyPrefix @ x"
  "refreshKeyPrefix @ x \<noteq> versionKeyPrefix @ y" "versionKeyPrefix @ y \<noteq> refreshKeyPrefix @ x"
  "resetKeyPrefix @ x \<noteq> versionKeyPrefix @ y" "versionKeyPrefix @ y \<noteq> resetKeyPrefix @ x"
  "\<not> HasPrefix (refreshKeyPrefix @ x) versionKeyPrefix"
  "\<not> HasPrefix (resetKeyPrefix @ x) versionKeyPrefix"
  by (auto simp: refreshKeyPrefix_def resetKeyPrefix_def versionKeyPrefix_def HasPrefix_def)

text \<open>A chain of cache commands at one instant: the writes are restricted to \<open>W\<close>, and no
  password version is deleted.\<close>

inductive cache_path :: "'s Cacher \<Rightarrow> time \<Rightarrow> (string \<Rightarrow> gval \<Rightarrow> bool) \<Rightarrow> 's \<Rightarrow> 's \<Rightarrow> bool"
  for C t W where
  path_refl: "cache_path C t W s s"
| path_get: "cache_path C t W s u \<Longrightarrow> cache_path C t W s (snd (cGet C u t k ty))"
| path_del: "cache_path C t W s u \<Longrightarrow> \<forall>k \<in> set ks. \<not> HasPrefix k versionKeyPrefix \<Longrightarrow>
    cache_path C t W s (snd (cDel C u t ks))"
| path_set: "cache_path C t W s u \<Longrightarrow> W k v \<Longrightarrow> cache_path C t W s (snd (cSet C u t k v ttl))"

lemma get_session_snd: "snd (get_session C s t k) = snd (cGet C s t k TSession)"
  by (auto simp: get_session_def split: prod.splits sum.splits gval.splits)

lemma get_string_snd: "snd (get_string C s t k) = snd (cGet C s t k TString)"
  by (auto simp: get_string_def split: prod.splits sum.splits gval.splits)

lemma get_version_snd: "snd (get_version C s t sub) = snd (cGet C s t (versionKeyPrefix @ sub) TInt)"
  by (auto simp: get_version_def split: prod.splits sum.splits gval.splits)

lemma bump_version_eq:
  "bump_version C s t sub =
     snd (cSet C (snd (cGet C s t (versionKeyPrefix @ sub) TInt)) t (versionKeyPrefix @ sub)
       (GoInt (int64 (fst (get_version C s t sub) + 1))) versionTTL)"
  by (simp add: bump_version_def get_version_snd [symmetric] split: prod.splits)

lemma path_session: "cache_path C t W s u \<Longrightarrow> cache_path C t W s (snd (get_session C u t k))"
  unfolding get_session_snd by (rule path_get)

lemma path_string: "cache_path C t W s u \<Longrightarrow> cache_path C t W s (snd (get_string C u t k))"
  unfolding get_string_snd by (rule path_get)

lemma path_version: "cache_path C t W s u \<Longrightarrow> cache_path C t W s (snd (get_version C u t sub))"
  unfolding get_version_snd by (rule path_get)

lemma path_bump:
  assumes "cache_path C t W s u" "\<And>n. W (versionKeyPrefix @ sub) (GoInt n)"
  shows "cache_path C t W s (bump_version C u t sub)"
  unfolding bump_version_eq by (intro path_set path_get assms)

lemma path_issue:
  assumes "cache_path (a_cacher a) t W s u" "\<And>sub v. W (refreshKeyPrefix @ newJTI rR) (GoSession sub v)"
  shows "cache_path (a_cacher a) t W s (snd (issueTokenPair lib a u t rA rR sub))"
proof (cases "\<exists>x y j. Sign (l_jwt lib) t rA sub [] ''access'' (a_jwtCfg a) = Inr x \<and>
    Sign (l_jwt lib) t rR sub [] ''refresh'' (a_refreshCfg a) = Inr (y, j)")
  case False
  then have "snd (issueTokenPair lib a u t rA rR sub) = u"
    by (auto simp: issueTokenPair_def split: sum.splits)
  then show ?thesis using assms(1) by simp
next
  case True
  then obtain x y j where S: "Sign (l_jwt lib) t rA sub [] ''access'' (a_jwtCfg a) = Inr x"
    "Sign (l_jwt lib) t rR sub [] ''refresh'' (a_refreshCfg a) = Inr (y, j)" by blast
  have j: "j = newJTI rR" using Sign_Inr(2) [OF S(2)] .
  obtain v u1 where g: "get_version (a_cacher a) u t sub = (v, u1)" by fastforce
  then have "cache_path (a_cacher a) t W s u1" using path_version [OF assms(1), of sub] by simp
  then have "cache_path (a_cacher a) t W s
      (snd (cSet (a_cacher a) u1 t (refreshKeyPrefix @ j) (GoSession sub v) (Expiry (a_refreshCfg a))))"
    unfolding j using assms(2) by (rule path_set)
  then show ?thesis using S g by (cases x)
    (auto simp: issueTokenPair_def split: prod.splits option.splits)
qed

text \<open>The steps of \<^verbatim>\<open>Refresh\<close> after the token has been verified, for a session that is found.\<close>

lemma Refresh_verified:
  assumes "Verify (l_jwt lib) t tok (a_refreshCfg a) = Inr c"
    and "get_session (a_cacher a) (st_cache st) t (refreshKeyPrefix @ ID c) = (Inr (Subject c, ver), s1)"
    and "get_version (a_cacher a) s1 t (Subject c) = (cur, s2)"
    and "s3 = snd (cDel (a_cacher a) s2 t [refreshKeyPrefix @ ID c])"
  shows "Refresh lib a st t rA rR tok =
    (if ver < cur then (Inl ErrInvalidToken, st\<lparr>st_cache := s3\<rparr>)
     else case uuid_Parse (l_uuid lib) (Subject c) of
        Inl _ \<Rightarrow> (Inl ErrInvalidToken, st\<lparr>st_cache := s3\<rparr>)
      | Inr userID \<Rightarrow>
          (case rFindByID (a_userRepo a) (st_db st) userID of
             (Inl _, d) \<Rightarrow> (Inl ErrInvalidToken, st\<lparr>st_cache := s3, st_db := d\<rparr>)
           | (Inr _, d) \<Rightarrow> (case issueTokenPair lib a s3 t rA rR (Subject c) of
                (r, s4) \<Rightarrow> (r, st\<lparr>st_cache := s4, st_db := d\<rparr>))))"
  using assms(1-3) unfolding assms(4) by (simp add: Refresh_def Let_def)

text \<open>\<^verbatim>\<open>Refresh\<close> stops early, with the cache only read, or goes on with a session of the claims.\<close>

lemma Refresh_cases:
  obtains (early) e k s where "Refresh lib a st t rA rR tok = (Inl e, st\<lparr>st_cache := s\<rparr>)"
      "s = st_cache st \<or> s = snd (get_session (a_cacher a) (st_cache st) t k)"
  | (found) c ver s1 cur s2 where "Verify (l_jwt lib) t tok (a_refreshCfg a) = Inr c"
      "get_session (a_cacher a) (st_cache st) t (refreshKeyPrefix @ ID c) = (Inr (Subject c, ver), s1)"
      "get_version (a_cacher a) s1 t (Subject c) = (cur, s2)"
proof (cases "Verify (l_jwt lib) t tok (a_refreshCfg a)")
  case (Inl e)
  then show ?thesis using early [of ErrInvalidToken "st_cache st"] by (simp add: Refresh_def)
next
  case (Inr c)
  let ?k = "refreshKeyPrefix @ ID c"
  obtain r s1 where g: "get_session (a_cacher a) (st_cache st) t ?k = (r, s1)" by fastforce
  obtain cur s2 where v: "get_version (a_cacher a) s1 t (Subject c) = (cur, s2)" by fastforce
  show ?thesis
  proof (cases r)
    case (Inl e)
    have "\<exists>e'. Refresh lib a st t rA rR tok = (Inl e', st\<lparr>st_cache := s1\<rparr>)"
      using \<open>Verify (l_jwt lib) t tok (a_refreshCfg a) = Inr c\<close> g Inl by (simp add: Refresh_def)
    then show ?thesis using early [of _ s1 ?k] g by auto
  next
    case (Inr x)
    then obtain sub ver where x: "r = Inr (sub, ver)" by (cases x) auto
    show ?thesis
    proof (cases "sub = Subject c")
      case True
      then show ?thesis using found \<open>Verify (l_jwt lib) t tok (a_refreshCfg a) = Inr c\<close> g v x by blast
    next
      case False
      then have "Refresh lib a st t rA rR tok = (Inl ErrInvalidToken, st\<lparr>st_cache := s1\<rparr>)"
        using \<open>Verify (l_jwt lib) t tok (a_refreshCfg a) = Inr c\<close> g x by (simp add: Refresh_def)
      then show ?thesis using early [of _ s1 ?k] g by auto
    qed
  qed
qed

lemma path_Refresh:
  assumes "\<And>sub v. W (refreshKeyPrefix @ newJTI rR) (GoSession sub v)"
  shows "cache_path (a_cacher a) t W (st_cache st) (st_cache (snd (Refresh lib a st t rA rR tok)))"
proof (cases rule: Refresh_cases [of lib a st t rA rR tok])
  case (early e k s)
  then show ?thesis using path_refl path_session [OF path_refl] by auto
next
  case (found c ver s1 cur s2)
  have "cache_path (a_cacher a) t W (st_cache st) s1"
    using path_session [OF path_refl, of "a_cacher a" t W "st_cache st"] found(2) by (metis snd_conv)
  then have "cache_path (a_cacher a) t W (st_cache st) s2"
    using path_version [of "a_cacher a" t W "st_cache st" s1 "Subject c"] found(3) by simp
  then have s3: "cache_path (a_cacher a) t W (st_cache st)
      (snd (cDel (a_cacher a) s2 t [refreshKeyPrefix @ ID c]))" by (rule path_del) simp
  show ?thesis
    using s3 path_issue [OF s3 assms, where lib = lib and rA = rA and sub = "Subject c"]
    unfolding Refresh_verified [OF found refl]
    by (auto split: sum.splits prod.splits)
qed

lemma path_Login:
  assumes "\<And>sub v. W (refreshKeyPrefix @ newJTI rR) (GoSession sub v)"
  shows "cache_path (a_cacher a) t W (st_cache st) (st_cache (snd (Login lib a st t rA rR req)))"
  using path_issue [where W = W and a = a, OF path_refl assms, where lib = lib and rA = rA and t = t and s = "st_cache st"]
  by (auto simp: Login_def path_refl split: sum.splits prod.splits option.splits) (metis snd_conv)

lemma path_Logout: "cache_path (a_cacher a) t W (st_cache st) (st_cache (snd (Logout lib a st t acc ref)))"
  by (auto simp: Logout_def logout_refresh_def Let_def intro: path_refl path_del
      split: sum.splits prod.splits bl_result.splits)

lemma path_Forgot:
  assumes "\<And>x. W (resetKeyPrefix @ uuid_String (l_uuid lib) rnd) (GoString x)"
  shows "cache_path (a_cacher a) t W (st_cache st) (st_cache (snd (ForgotPassword lib a st t rnd email)))"
  using path_set [where W = W, OF path_refl assms, of "a_cacher a" t "st_cache st"]
  by (auto simp: ForgotPassword_def Let_def path_refl split: sum.splits prod.splits option.splits)
    (metis snd_conv)+

lemma path_Reset:
  assumes "\<And>sub n. W (versionKeyPrefix @ sub) (GoInt n)"
  shows "cache_path (a_cacher a) t W (st_cache st) (st_cache (snd (ResetPassword lib a st t salt req)))"
proof -
  obtain r s1 where g: "get_string (a_cacher a) (st_cache st) t (resetKeyPrefix @ rp_Token req) = (r, s1)"
    by fastforce
  then have s1: "cache_path (a_cacher a) t W (st_cache st) s1"
    using path_string [OF path_refl, of "a_cacher a" t W "st_cache st"] by (metis snd_conv)
  then show ?thesis using g
    by (auto simp: ResetPassword_def Let_def intro!: path_bump path_del assms
        split: sum.splits prod.splits)
qed

lemma auth_step_path:
  "cache_path (a_cacher a) t (op_stores lib op) (st_cache st) (st_cache (auth_step lib a st (t, op)))"
  by (cases op) (auto intro: path_Login path_Refresh path_Logout path_Forgot path_Reset path_refl)

section \<open>The service over any cache\<close>

fun op_rR :: "auth_op \<Rightarrow> nat list option" where
  "op_rR (DoLogin rA rR req) = Some rR"
| "op_rR (DoRefresh rA rR tok) = Some rR"
| "op_rR _ = None"

text \<open>The draws of a trace that name new refresh sessions and new reset tokens.\<close>

definition draws_session :: "(time \<times> auth_op) list \<Rightarrow> string set" where
  "draws_session ops = {newJTI rR | t op rR. (t, op) \<in> set ops \<and> op_rR op = Some rR}"

definition draws_reset :: "auth_libs \<Rightarrow> (time \<times> auth_op) list \<Rightarrow> string set" where
  "draws_reset lib ops = {uuid_String (l_uuid lib) rnd | t rnd email. (t, DoForgot rnd email) \<in> set ops}"

lemma draws_session_writes:
  "j \<notin> draws_session ops \<Longrightarrow> x \<in> set ops \<Longrightarrow> \<not> op_writes lib (snd x) (refreshKeyPrefix @ j)"
  by (cases x; cases "snd x") (force simp: draws_session_def)+

lemma draws_reset_writes:
  "r \<notin> draws_reset lib ops \<Longrightarrow> x \<in> set ops \<Longrightarrow> \<not> op_writes lib (snd x) (resetKeyPrefix @ r)"
  by (cases x; cases "snd x") (auto simp: draws_reset_def)

text \<open>The types of the service's cache: each kind of key has one, and there are no other keys.\<close>

definition key_type :: "string \<Rightarrow> gotype option" where
  "key_type k =
     (if HasPrefix k refreshKeyPrefix then Some TSession
      else if HasPrefix k resetKeyPrefix then Some TString
      else if HasPrefix k versionKeyPrefix then Some TInt
      else None)"

fun val_type :: "gval \<Rightarrow> gotype option" where
  "val_type (GoString s) = Some TString"
| "val_type (GoInt n) = Some TInt"
| "val_type (GoSession sub ver) = Some TSession"
| "val_type GoOpaque = None"

definition doc_typed :: "string \<Rightarrow> json option \<Rightarrow> bool" where
  "doc_typed k d \<longleftrightarrow> d = None \<or> (\<exists>v. marshal v = d \<and> val_type v \<noteq> None \<and> val_type v = key_type k)"

lemma stores_typed: "op_stores lib op k v \<Longrightarrow> val_type v = key_type k \<and> val_type v \<noteq> None"
  by (cases v) (auto simp: key_type_def refreshKeyPrefix_def resetKeyPrefix_def versionKeyPrefix_def HasPrefix_iff)

lemma typed_decode:
  assumes "doc_typed k d" "key_type k = Some ty"
  shows "decode d ty = Inl ErrCacheMiss \<or> (\<exists>v. decode d ty = Inr v \<and> val_type v = Some ty)"
proof (cases d)
  case (Some x)
  then obtain v where "marshal v = Some x" "val_type v = Some ty" using assms by (auto simp: doc_typed_def)
  then have "unmarshal x ty = Some v" by (cases v) (auto simp: marshal_unmarshal
    ToLower_def to_lower_char_def is_upper_char_def ord_char_def)
  then show ?thesis using Some \<open>val_type v = Some ty\<close> by (auto simp: decode_def)
qed (simp add: decode_def)

locale auth_service = cacher "a_cacher a" peek inv okTTL
  for a :: "('d, 's, 'b) authUseCase"
    and peek :: "'s \<Rightarrow> time \<Rightarrow> string \<Rightarrow> json option"
    and inv :: "'s \<Rightarrow> bool"
    and okTTL :: "duration \<Rightarrow> bool" +
  fixes lib :: auth_libs
begin

lemma path_inv: "cache_path (a_cacher a) t W s s' \<Longrightarrow> inv s \<Longrightarrow> inv s'"
  by (induction rule: cache_path.induct) (auto intro: inv_get inv_set inv_del)

lemma step_inv: "inv (st_cache st) \<Longrightarrow> inv (st_cache (auth_step lib a st (t, op)))"
  by (rule path_inv [OF auth_step_path])

text \<open>Commands that do not write \<open>k\<close> can only make it disappear.\<close>

lemma path_avoid:
  assumes "cache_path (a_cacher a) t W s s'" "inv s" "0 \<le> t" "t \<le> t'" "\<forall>v. \<not> W k v"
  shows "peek s' t' k = None \<or> peek s' t' k = peek s t' k"
  using assms
proof (induction rule: cache_path.induct)
  case (path_get s u k' ty)
  then show ?case using get_frame [OF path_inv [OF path_get.hyps]] by simp
next
  case (path_del s u ks)
  then have "inv u" using path_inv by blast
  then show ?case using path_del del_ok [of u t ks t' k] del_fail [of u t ks t' k]
    by (cases "fst (cDel (a_cacher a) u t ks) = None") auto
next
  case (path_set s u k' v ttl)
  then have "k \<noteq> k'" by metis
  then show ?case using path_set set_other [OF path_inv [OF path_set.hyps(1)], of t t' k k' v ttl] by simp
qed simp

lemma step_avoid:
  assumes "inv (st_cache st)" "0 \<le> t" "t \<le> t'" "\<not> op_writes lib op k"
  shows "peek (st_cache (auth_step lib a st (t, op))) t' k = None \<or>
    peek (st_cache (auth_step lib a st (t, op))) t' k = peek (st_cache st) t' k"
  by (rule path_avoid [OF auth_step_path assms(1-3)]) (use assms(4) stores_writes in blast)

text \<open>What a trace without a write to \<open>k\<close> leaves there.\<close>

lemma run_avoid:
  assumes "inv (st_cache st)" "0 \<le> t" "clock_ok t ops" "\<forall>x \<in> set ops. fst x \<le> t'"
    and "\<forall>x \<in> set ops. \<not> op_writes lib (snd x) k"
  shows "inv (st_cache (foldl (auth_step lib a) st ops)) \<and>
    (peek (st_cache (foldl (auth_step lib a) st ops)) t' k = None \<or>
     peek (st_cache (foldl (auth_step lib a) st ops)) t' k = peek (st_cache st) t' k)"
  using assms
proof (induction ops arbitrary: st t)
  case (Cons x ops)
  obtain u op where x: "x = (u, op)" by (cases x)
  let ?st = "auth_step lib a st (u, op)"
  have u: "0 \<le> u" "u \<le> t'" using Cons.prems x by auto
  have i: "inv (st_cache ?st)" by (rule step_inv [OF Cons.prems(1)])
  have s: "peek (st_cache ?st) t' k = None \<or> peek (st_cache ?st) t' k = peek (st_cache st) t' k"
    by (rule step_avoid [OF Cons.prems(1) u]) (use Cons.prems(5) x in auto)
  show ?case using Cons.IH [of ?st u] i u s Cons.prems x by auto
qed simp

text \<open>Types are kept: by a chain of typed writes, by a step and by a trace.\<close>

definition cache_typed :: "'s \<Rightarrow> time \<Rightarrow> bool" where
  "cache_typed s t \<longleftrightarrow> (\<forall>t' k. t \<le> t' \<longrightarrow> doc_typed k (peek s t' k))"

lemma path_typed:
  assumes "cache_path (a_cacher a) t W s s'" "inv s" "0 \<le> t" "cache_typed s t" "\<And>ttl. okTTL ttl"
    and "\<And>k v. W k v \<Longrightarrow> val_type v = key_type k \<and> val_type v \<noteq> None"
  shows "cache_typed s' t"
  using assms(1-4)
proof (induction rule: cache_path.induct)
  case (path_get s u k ty)
  have u: "inv u" by (rule path_inv [OF path_get.hyps path_get.prems(1)])
  have tu: "cache_typed u t" by (rule path_get.IH [OF path_get.prems])
  show ?case unfolding cache_typed_def using get_frame [OF u] tu by (simp add: cache_typed_def)
next
  case (path_del s u ks)
  have u: "inv u" by (rule path_inv [OF path_del.hyps(1) path_del.prems(1)])
  have tu: "cache_typed u t" by (rule path_del.IH [OF path_del.prems])
  let ?s = "snd (cDel (a_cacher a) u t ks)"
  show ?case unfolding cache_typed_def
  proof (intro allI impI)
    fix t' k assume t': "t \<le> t'"
    have old: "doc_typed k (peek u t' k)" using tu t' by (simp add: cache_typed_def)
    have none: "doc_typed k None" by (simp add: doc_typed_def)
    show "doc_typed k (peek ?s t' k)"
    proof (cases "fst (cDel (a_cacher a) u t ks) = None")
      case True
      show ?thesis unfolding del_ok [OF u True t'] using old none by (cases "k \<in> set ks") simp_all
    next
      case False
      show ?thesis using del_fail [OF u False t', of k] old none by auto
    qed
  qed
next
  case (path_set s u k' v ttl)
  have u: "inv u" by (rule path_inv [OF path_set.hyps(1) path_set.prems(1)])
  have tu: "cache_typed u t" by (rule path_set.IH [OF path_set.prems])
  have ty: "doc_typed k' (marshal v)" using assms(6) [OF path_set.hyps(2)] by (auto simp: doc_typed_def)
  let ?s = "snd (cSet (a_cacher a) u t k' v ttl)"
  show ?case unfolding cache_typed_def
  proof (intro allI impI)
    fix t' k assume t': "t \<le> t'"
    have old: "doc_typed k (peek u t' k)" using tu t' by (simp add: cache_typed_def)
    have none: "doc_typed k None" by (simp add: doc_typed_def)
    show "doc_typed k (peek ?s t' k)"
    proof (cases "fst (cSet (a_cacher a) u t k' v ttl) = None")
      case True
      show ?thesis unfolding set_ok [OF u path_set.prems(2) assms(5) True t'] using old none ty by (cases "k = k'") simp_all
    next
      case False
      show ?thesis
      proof (cases "k = k'")
        case True
        show ?thesis using set_fail [OF u path_set.prems(2) assms(5) False t'] old none ty unfolding True by auto
      next
        case neq: False
        show ?thesis unfolding set_other [OF u path_set.prems(2) t' neq] by (rule old)
      qed
    qed
  qed
qed simp

lemma step_typed:
  assumes "inv (st_cache st)" "0 \<le> t" "cache_typed (st_cache st) t" "\<And>ttl. okTTL ttl"
  shows "cache_typed (st_cache (auth_step lib a st (t, op))) t"
  by (rule path_typed [OF auth_step_path assms]) (rule stores_typed)

lemma run_typed:
  assumes "inv (st_cache st)" "0 \<le> t" "clock_ok t ops" "\<forall>x \<in> set ops. fst x \<le> t'" "t \<le> t'"
    and "cache_typed (st_cache st) t" "\<And>ttl. okTTL ttl"
  shows "inv (st_cache (foldl (auth_step lib a) st ops)) \<and> cache_typed (st_cache (foldl (auth_step lib a) st ops)) t'"
  using assms(1-6)
proof (induction ops arbitrary: st t)
  case Nil
  then show ?case by (auto simp: cache_typed_def)
next
  case (Cons x ops)
  obtain u op where x: "x = (u, op)" by (cases x)
  have u: "0 \<le> u" "u \<le> t'" "t \<le> u" using Cons.prems x by auto
  have "cache_typed (st_cache st) u" using Cons.prems(6) u(3) by (auto simp: cache_typed_def)
  then have "cache_typed (st_cache (auth_step lib a st (u, op))) u" by (rule step_typed [OF Cons.prems(1) u(1) _ assms(7)])
  then show ?case using Cons.IH [of "auth_step lib a st (u, op)" u] step_inv [OF Cons.prems(1)] u Cons.prems x by auto
qed

lemma typed_get:
  assumes "inv s" "cache_typed s t" "key_type k = Some ty"
  shows "fst (cGet (a_cacher a) s t k ty) = Inl ErrCacheMiss \<or>
    (\<exists>v. fst (cGet (a_cacher a) s t k ty) = Inr v \<and> val_type v = Some ty)"
  using get_result [OF assms(1), of t k ty] typed_decode [of k "peek s t k", OF _ assms(3)] assms(2)
  by (auto simp: cache_typed_def)

text \<open>A refresh token without a session is refused.\<close>

lemma refresh_no_session:
  assumes "inv (st_cache st)"
    and "\<And>c. Verify (l_jwt lib) t tok (a_refreshCfg a) = Inr c \<Longrightarrow>
      peek (st_cache st) t (refreshKeyPrefix @ ID c) = None"
  shows "fst (Refresh lib a st t rA rR tok) = Inl ErrInvalidToken"
proof (cases "Verify (l_jwt lib) t tok (a_refreshCfg a)")
  case (Inr c)
  then have "fst (cGet (a_cacher a) (st_cache st) t (refreshKeyPrefix @ ID c) TSession) = Inl ErrCacheMiss"
    using get_miss [OF assms(1) assms(2)] by blast
  then have "fst (get_session (a_cacher a) (st_cache st) t (refreshKeyPrefix @ ID c)) = Inl ErrCacheMiss"
    by (auto simp: get_session_def split: prod.splits)
  then show ?thesis using Inr by (auto simp: Refresh_def Let_def split: prod.splits)
qed (simp add: Refresh_def)

lemma reset_no_entry:
  assumes "inv (st_cache st)" "peek (st_cache st) t (resetKeyPrefix @ rp_Token req) = None"
  shows "fst (ResetPassword lib a st t salt req) = Some ErrInvalidToken"
proof -
  have "fst (get_string (a_cacher a) (st_cache st) t (resetKeyPrefix @ rp_Token req)) = Inl ErrCacheMiss"
    using get_miss [OF assms, of TString] by (auto simp: get_string_def split: prod.splits)
  then show ?thesis by (auto simp: ResetPassword_def Let_def split: prod.splits)
qed

end

section \<open>The service over a cache that does not fail\<close>

lemma Refresh_Inr:
  assumes "Refresh lib a st t rA rR tok = (Inr resp, st')"
  obtains c ver s1 cur s2 where "Verify (l_jwt lib) t tok (a_refreshCfg a) = Inr c"
    "get_session (a_cacher a) (st_cache st) t (refreshKeyPrefix @ ID c) = (Inr (Subject c, ver), s1)"
    "get_version (a_cacher a) s1 t (Subject c) = (cur, s2)" "\<not> ver < cur"
    "issueTokenPair lib a (snd (cDel (a_cacher a) s2 t [refreshKeyPrefix @ ID c])) t rA rR (Subject c) =
       (Inr resp, st_cache st')"
proof (cases rule: Refresh_cases [of lib a st t rA rR tok])
  case (found c ver s1 cur s2)
  show ?thesis
    by (rule that [OF found])
      (use assms in \<open>auto simp: Refresh_verified [OF found refl] split: if_splits sum.splits prod.splits\<close>)
qed (use assms in simp)

text \<open>The password version the cache holds for a subject.\<close>

definition pw_version :: "('s \<Rightarrow> time \<Rightarrow> string \<Rightarrow> json option) \<Rightarrow> 's \<Rightarrow> time \<Rightarrow> string \<Rightarrow> int" where
  "pw_version peek s t sub = (case decode (peek s t (versionKeyPrefix @ sub)) TInt of
     Inr (GoInt n) \<Rightarrow> n | _ \<Rightarrow> 0)"

text \<open>What \<^verbatim>\<open>ResetPassword\<close> does to the cache: it stops before the password is saved, having only read
  and deleted, or it ends with the version bump.\<close>

lemma ResetPassword_cache:
  obtains (stop) "cache_path (a_cacher a) t (\<lambda>_ _. False) (st_cache st)
      (st_cache (snd (ResetPassword lib a st t salt req)))" "fst (ResetPassword lib a st t salt req) \<noteq> None"
  | (bump) s sub where "cache_path (a_cacher a) t (\<lambda>_ _. False) (st_cache st) s"
      "st_cache (snd (ResetPassword lib a st t salt req)) = bump_version (a_cacher a) s t sub"
proof -
  obtain r s1 where g: "get_string (a_cacher a) (st_cache st) t (resetKeyPrefix @ rp_Token req) = (r, s1)"
    by fastforce
  then have s1: "cache_path (a_cacher a) t (\<lambda>_ _. False) (st_cache st) s1"
    using path_string [OF path_refl, of "a_cacher a" t _ "st_cache st"] by (metis snd_conv)
  then have s2: "cache_path (a_cacher a) t (\<lambda>_ _. False) (st_cache st)
      (snd (cDel (a_cacher a) s1 t [resetKeyPrefix @ rp_Token req]))" by (rule path_del) simp
  have "st_cache (snd (ResetPassword lib a st t salt req)) = s1 \<and>
        fst (ResetPassword lib a st t salt req) \<noteq> None \<or>
      (\<exists>sub. st_cache (snd (ResetPassword lib a st t salt req)) = bump_version (a_cacher a)
        (snd (cDel (a_cacher a) s1 t [resetKeyPrefix @ rp_Token req])) t sub)"
    using g by (auto simp: ResetPassword_def Let_def split: sum.splits prod.splits)
  then show ?thesis using s1 bump [OF s2] stop by metis
qed

locale auth_reliable = auth_service a peek inv okTTL lib + reliable_cacher "a_cacher a" peek inv okTTL
  for a :: "('d, 's, 'b) authUseCase" and peek inv okTTL lib
begin

text \<open>A successful rotation removes the session it used.\<close>

lemma refresh_consumes:
  assumes "inv (st_cache st)" "0 \<le> t" "Refresh lib a st t rA rR tok = (Inr resp, st')"
    and "Verify (l_jwt lib) t tok (a_refreshCfg a) = Inr c" "newJTI rR \<noteq> ID c" "t \<le> t'"
  shows "peek (st_cache st') t' (refreshKeyPrefix @ ID c) = None"
proof (rule Refresh_Inr [OF assms(3)])
  fix c' ver s1 cur s2
  assume v: "Verify (l_jwt lib) t tok (a_refreshCfg a) = Inr c'"
    and g: "get_session (a_cacher a) (st_cache st) t (refreshKeyPrefix @ ID c') = (Inr (Subject c', ver), s1)"
    and g2: "get_version (a_cacher a) s1 t (Subject c') = (cur, s2)"
    and iss: "issueTokenPair lib a (snd (cDel (a_cacher a) s2 t [refreshKeyPrefix @ ID c'])) t rA rR
      (Subject c') = (Inr resp, st_cache st')"
  let ?k = "refreshKeyPrefix @ ID c" and ?W = "\<lambda>k (v :: gval). k = refreshKeyPrefix @ newJTI rR"
  have c: "c' = c" using v assms(4) by simp
  have "inv s1" using inv_get [OF assms(1)] g by (metis get_session_snd snd_conv)
  then have s2: "inv s2" using inv_get g2 by (metis get_version_snd snd_conv)
  let ?s3 = "snd (cDel (a_cacher a) s2 t [?k])"
  have none: "peek ?s3 t' ?k = None" using del_ok [OF s2 del_total [OF s2] assms(6)] by simp
  have "cache_path (a_cacher a) t ?W ?s3 (st_cache st')"
    using path_issue [of a t ?W ?s3 ?s3 rR lib rA "Subject c"] iss c by (simp add: path_refl)
  from path_avoid [OF this inv_del [OF s2] assms(2,6), of ?k] none assms(5) show ?thesis by auto
qed

lemma refresh_single_use_run:
  assumes "jwt_lib_ok (l_jwt lib)" "inv (st_cache st)" "0 \<le> t"
    and "Refresh lib a st t rA rR tok = (Inr resp, st')"
    and "Verify (l_jwt lib) t tok (a_refreshCfg a) = Inr c" "newJTI rR \<noteq> ID c"
    and "clock_ok t ops" "\<forall>x \<in> set ops. fst x \<le> t'" "t \<le> t'" "ID c \<notin> draws_session ops"
  shows "fst (Refresh lib a (foldl (auth_step lib a) st' ops) t' rA' rR' tok) = Inl ErrInvalidToken"
proof -
  let ?k = "refreshKeyPrefix @ ID c"
  have i': "inv (st_cache st')"
    using step_inv [OF assms(2), of t "DoRefresh rA rR tok"] assms(4) by simp
  have none: "peek (st_cache st') t' ?k = None" by (rule refresh_consumes [OF assms(2-6,9)])
  have "\<forall>x \<in> set ops. \<not> op_writes lib (snd x) ?k" using draws_session_writes [OF assms(10)] by blast
  note run = run_avoid [OF i' assms(3,7,8) this]
  show ?thesis
  proof (rule refresh_no_session)
    show "inv (st_cache (foldl (auth_step lib a) st' ops))" using run by blast
    fix c' assume "Verify (l_jwt lib) t' tok (a_refreshCfg a) = Inr c'"
    then have "c' = c" using Verify_payload [OF assms(1) _ assms(5)] by blast
    then show "peek (st_cache (foldl (auth_step lib a) st' ops)) t' (refreshKeyPrefix @ ID c') = None"
      using run none by auto
  qed
qed

lemma get_version_fst: "inv s \<Longrightarrow> fst (get_version (a_cacher a) s t sub) = pw_version peek s t sub"
  using get_total [of s t "versionKeyPrefix @ sub" TInt]
  by (auto simp: get_version_def pw_version_def split: prod.splits sum.splits gval.splits)

text \<open>A path that does not write the version of \<open>sub\<close> keeps it.\<close>

lemma path_version_frame:
  assumes "cache_path (a_cacher a) t W s s'" "inv s" "0 \<le> t" "t \<le> t'" "\<forall>v. \<not> W (versionKeyPrefix @ sub) v"
  shows "pw_version peek s' t' sub = pw_version peek s t' sub"
  using assms
proof (induction rule: cache_path.induct)
  case (path_get s u k' ty)
  then show ?case using get_frame [OF path_inv [OF path_get.hyps]] by (simp add: pw_version_def)
next
  case (path_del s u ks)
  then have "inv u" using path_inv by blast
  moreover have "versionKeyPrefix @ sub \<notin> set ks" using path_del.hyps(2) by auto
  ultimately show ?case using path_del del_ok [OF \<open>inv u\<close> del_total [OF \<open>inv u\<close>], of t t']
    by (simp add: pw_version_def)
next
  case (path_set s u k' v ttl)
  then have "versionKeyPrefix @ sub \<noteq> k'" by metis
  then show ?case using path_set set_other [OF path_inv [OF path_set.hyps(1)]]
    by (simp add: pw_version_def)
qed simp

lemma bump_version_other:
  assumes "inv s" "0 \<le> t" "t \<le> t'" "k \<noteq> versionKeyPrefix @ sub"
  shows "peek (bump_version (a_cacher a) s t sub) t' k = peek s t' k"
  unfolding bump_version_eq using assms set_other inv_get get_frame by simp

lemma bump_version_same:
  assumes "inv s" "0 \<le> t" "t \<le> t'" "t' < t + versionTTL" "okTTL versionTTL"
  shows "pw_version peek (bump_version (a_cacher a) s t sub) t' sub = int64 (pw_version peek s t sub + 1)"
proof -
  let ?s = "snd (cGet (a_cacher a) s t (versionKeyPrefix @ sub) TInt)"
  have "peek (bump_version (a_cacher a) s t sub) t' (versionKeyPrefix @ sub) =
      Some (JNum (int64 (pw_version peek s t sub + 1)))"
    unfolding bump_version_eq using assms
    by (simp add: set_ok [OF inv_get] set_total inv_get get_version_fst versionTTL_def)
  then show ?thesis by (simp add: pw_version_def decode_def)
qed

text \<open>The password version of \<open>sub\<close> is above \<open>v\<close>, and at most \<open>n\<close>, from \<open>t\<close> until \<open>e\<close>.\<close>

definition version_above :: "'s \<Rightarrow> time \<Rightarrow> time \<Rightarrow> string \<Rightarrow> int \<Rightarrow> int \<Rightarrow> bool" where
  "version_above s t e sub v n \<longleftrightarrow> inv s \<and>
     (\<forall>t'. t \<le> t' \<longrightarrow> t' < e \<longrightarrow> v < pw_version peek s t' sub \<and> pw_version peek s t' sub \<le> n)"

lemma version_above_reset:
  assumes "version_above (st_cache st) t e sub v n" "0 \<le> t" "0 \<le> v" "n + 1 < 2 ^ 63"
    and "t < e" "e \<le> t + versionTTL" "okTTL versionTTL"
  shows "version_above (st_cache (snd (ResetPassword lib a st t salt req))) t e sub v (n + 1)"
proof (rule ResetPassword_cache [where lib = lib and a = a and st = st and t = t and salt = salt and req = req])
  let ?st = "snd (ResetPassword lib a st t salt req)"
  have inv: "inv (st_cache st)" using assms(1) by (simp add: version_above_def)
  assume p: "cache_path (a_cacher a) t (\<lambda>_ _. False) (st_cache st) (st_cache ?st)"
  show ?thesis
    using assms(1) path_inv [OF p inv] path_version_frame [OF p inv assms(2)]
    by (fastforce simp: version_above_def)
next
  let ?st = "snd (ResetPassword lib a st t salt req)"
  have inv: "inv (st_cache st)" using assms(1) by (simp add: version_above_def)
  fix s sub'
  assume p: "cache_path (a_cacher a) t (\<lambda>_ _. False) (st_cache st) s"
    and eq: "st_cache ?st = bump_version (a_cacher a) s t sub'"
  have s: "inv s" by (rule path_inv [OF p inv])
  have same: "t \<le> t' \<Longrightarrow> pw_version peek s t' sub = pw_version peek (st_cache st) t' sub" for t'
    by (rule path_version_frame [OF p inv assms(2)]) simp_all
  have "inv (bump_version (a_cacher a) s t sub')" by (simp add: bump_version_eq inv_set inv_get s)
  moreover have "v < pw_version peek (bump_version (a_cacher a) s t sub') t' sub \<and>
      pw_version peek (bump_version (a_cacher a) s t sub') t' sub \<le> n + 1" if t': "t \<le> t'" "t' < e" for t'
  proof (cases "sub' = sub")
    case True
    have "v < pw_version peek s t sub \<and> pw_version peek s t sub \<le> n"
      using assms(1,5) same [of t] by (simp add: version_above_def)
    then show ?thesis using True bump_version_same [OF s assms(2) t'(1) _ assms(7), of sub] t' assms by simp
  next
    case False
    then have "pw_version peek (bump_version (a_cacher a) s t sub') t' sub = pw_version peek s t' sub"
      using bump_version_other [OF s assms(2) t'(1)] by (simp add: pw_version_def)
    then show ?thesis using assms(1) same [OF t'(1)] t' by (fastforce simp: version_above_def)
  qed
  ultimately show ?thesis unfolding eq version_above_def by blast
qed

lemma version_above_step:
  assumes "version_above (st_cache st) t e sub v n" "0 \<le> t" "0 \<le> v" "n + 1 < 2 ^ 63"
    and "t < e" "e \<le> t + versionTTL" "okTTL versionTTL"
  shows "version_above (st_cache (auth_step lib a st (t, op))) t e sub v (n + 1)"
proof (cases "\<exists>salt req. op = DoReset salt req")
  case True
  then show ?thesis using version_above_reset [OF assms] by auto
next
  case False
  then have "\<not> op_writes lib op (versionKeyPrefix @ sub)" by (cases op) auto
  then have "\<forall>v. \<not> op_stores lib op (versionKeyPrefix @ sub) v" using stores_writes by blast
  moreover have inv: "inv (st_cache st)" using assms(1) by (simp add: version_above_def)
  ultimately have "t \<le> t' \<Longrightarrow> pw_version peek (st_cache (auth_step lib a st (t, op))) t' sub =
      pw_version peek (st_cache st) t' sub" for t'
    by (intro path_version_frame [OF auth_step_path inv assms(2)])
  then show ?thesis using assms(1) step_inv [OF inv] by (fastforce simp: version_above_def)
qed

lemma version_above_run:
  assumes "version_above (st_cache st) t e sub v n" "0 \<le> t" "0 \<le> v" "n + int (length ops) < 2 ^ 63"
    and "clock_ok t ops" "\<forall>x \<in> set ops. fst x < e" "e \<le> t + versionTTL" "okTTL versionTTL"
    and "\<forall>x \<in> set ops. fst x \<le> t'" "t \<le> t'"
  shows "version_above (st_cache (foldl (auth_step lib a) st ops)) t' e sub v (n + int (length ops))"
  using assms
proof (induction ops arbitrary: st t n)
  case Nil
  then show ?case by (simp add: version_above_def)
next
  case (Cons x ops)
  obtain u op where x: "x = (u, op)" by (cases x)
  have u: "t \<le> u" "u < e" "0 \<le> u" "e \<le> u + versionTTL" "u \<le> t'" using Cons.prems x by auto
  have "version_above (st_cache st) u e sub v n" using Cons.prems(1) u(1) by (auto simp: version_above_def)
  then have "version_above (st_cache (auth_step lib a st (u, op))) u e sub v (n + 1)"
    by (rule version_above_step) (use u Cons.prems in auto)
  from Cons.IH [OF this] show ?case using u Cons.prems x by (simp add: algebra_simps)
qed

text \<open>What \<^verbatim>\<open>Refresh\<close> does with a session of an older version than the current one.\<close>

lemma refresh_old_version:
  assumes "inv (st_cache st)" "Verify (l_jwt lib) t tok (a_refreshCfg a) = Inr c"
    and "peek (st_cache st) t (refreshKeyPrefix @ ID c) = Some d"
    and "unmarshal d TSession = Some (GoSession sub v)" "v < pw_version peek (st_cache st) t (Subject c)"
  shows "fst (Refresh lib a st t rA rR tok) = Inl ErrInvalidToken"
proof -
  let ?g = "cGet (a_cacher a) (st_cache st) t (refreshKeyPrefix @ ID c) TSession"
  have "fst ?g = Inr (GoSession sub v)" using assms(1,3,4) by (simp add: get_total decode_def)
  then have g: "get_session (a_cacher a) (st_cache st) t (refreshKeyPrefix @ ID c) = (Inr (sub, v), snd ?g)"
    by (auto simp: get_session_def split: prod.splits)
  have i: "inv (snd ?g)" by (rule inv_get [OF assms(1)])
  obtain cur s2 where v: "get_version (a_cacher a) (snd ?g) t (Subject c) = (cur, s2)" by fastforce
  have "cur = pw_version peek (st_cache st) t (Subject c)"
    using get_version_fst [OF i, of t "Subject c"] v get_frame [OF assms(1), of t t]
    by (simp add: pw_version_def)
  then show ?thesis using assms(2,5) g v by (simp add: Refresh_def Let_def)
qed

lemma reset_ends_sessions:
  assumes "jwt_lib_ok (l_jwt lib)" "inv (st_cache st)" "0 \<le> t" "okTTL versionTTL"
    and "st_cache st1 = bump_version (a_cacher a) s t sub"
    and "cache_path (a_cacher a) t (\<lambda>_ _. False) (st_cache st) s"
    and "Verify (l_jwt lib) t0 tok (a_refreshCfg a) = Inr c" "Subject c = sub"
    and "peek (st_cache st) t (refreshKeyPrefix @ ID c) = marshal (GoSession sub v)"
    and "0 \<le> v" "v \<le> pw_version peek (st_cache st) t sub"
    and "pw_version peek (st_cache st) t sub + 1 + int (length ops) < 2 ^ 63"
    and "clock_ok t ops" "\<forall>x \<in> set ops. fst x \<le> t'" "t \<le> t'" "t' < t + versionTTL"
    and "ID c \<notin> draws_session ops"
  shows "fst (Refresh lib a (foldl (auth_step lib a) st1 ops) t' rA rR tok) = Inl ErrInvalidToken"
proof -
  let ?k = "refreshKeyPrefix @ ID c" and ?V = "pw_version peek (st_cache st) t sub"
  let ?st = "foldl (auth_step lib a) st1 ops"
  have s: "inv s" by (rule path_inv [OF assms(6,2)])
  have V: "pw_version peek s t sub = ?V"
    by (rule path_version_frame [OF assms(6,2,3)]) simp_all
  have i1: "inv (st_cache st1)" by (simp add: assms(5) bump_version_eq inv_set inv_get s)
  have "version_above (st_cache st1) t (t + versionTTL) sub v (?V + 1)"
    using i1 bump_version_same [OF s assms(3) _ _ assms(4), of _ sub] V assms(10-12)
    by (auto simp: version_above_def assms(5))
  from version_above_run [OF this assms(3,10,12,13), of t']
  have above: "version_above (st_cache ?st) t' (t + versionTTL) sub v (?V + 1 + int (length ops))"
    using assms by fastforce
  have "peek (st_cache st1) t' ?k = peek s t' ?k"
    unfolding assms(5) by (rule bump_version_other [OF s assms(3,15)]) simp
  then have "peek (st_cache st1) t' ?k = None \<or> peek (st_cache st1) t' ?k = peek (st_cache st) t' ?k"
    using path_avoid [OF assms(6,2,3,15)] by simp
  moreover have "\<forall>x \<in> set ops. \<not> op_writes lib (snd x) ?k" using draws_session_writes [OF assms(17)] by blast
  note run = run_avoid [OF i1 assms(3,13,14) this]
  ultimately have sess: "peek (st_cache ?st) t' ?k = None \<or> peek (st_cache ?st) t' ?k = marshal (GoSession sub v)"
    using peek_fade [OF assms(2,15), of ?k] assms(9) by metis
  show ?thesis
  proof (cases "peek (st_cache ?st) t' ?k = None \<or> isl (Verify (l_jwt lib) t' tok (a_refreshCfg a))")
    case True
    show ?thesis
      by (rule refresh_no_session) (use True run Verify_payload [OF assms(1) _ assms(7)] in auto)
  next
    case False
    then obtain c' where "Verify (l_jwt lib) t' tok (a_refreshCfg a) = Inr c'"
      by (cases "Verify (l_jwt lib) t' tok (a_refreshCfg a)") auto
    moreover from this have "c' = c" using Verify_payload [OF assms(1) _ assms(7)] by blast
    ultimately have vc: "Verify (l_jwt lib) t' tok (a_refreshCfg a) = Inr c" by simp
    obtain d where d: "peek (st_cache ?st) t' ?k = Some d" "marshal (GoSession sub v) = Some d"
      using False sess by auto
    show ?thesis
      by (rule refresh_old_version [OF _ vc d(1) session_roundtrip [OF d(2)]])
        (use run above assms(8,16) in \<open>auto simp: version_above_def\<close>)
  qed
qed

end

lemma a_cacher_New [simp]: "a_cacher (NewAuthUseCase U C cfg rexp bl cost) = C"
  and a_bl_New [simp]: "a_bl (NewAuthUseCase U C cfg rexp bl cost) = bl"
  and a_jwtCfg_New [simp]: "a_jwtCfg (NewAuthUseCase U C cfg rexp bl cost) = cfg"
  and a_userRepo_New [simp]: "a_userRepo (NewAuthUseCase U C cfg rexp bl cost) = U"
  by (simp_all add: NewAuthUseCase_def)

interpretation ma: auth_reliable "NewAuthUseCase U MemoryCacher cfg rexp bl cost" mem_peek mem_inv
    "\<lambda>_. True" lib
  for U cfg rexp bl cost lib
  unfolding auth_reliable_def auth_service_def by (simp add: mc.cacher_axioms mc.reliable_cacher_axioms)

lemma redis_auth_service:
  "redis_ok R view \<Longrightarrow> auth_service (NewAuthUseCase U (RedisCacher R ns) cfg rexp bl cost)
     (redis_peek view ns) (\<lambda>_. True) redis_ttl"
  unfolding auth_service_def by (simp add: redis_cacher)

section \<open>Revocation\<close>

text \<open>Only the secret, the issuer and the audience matter for verification: a refresh token and an
  access token verify under each other's configuration.\<close>

lemma Verify_refreshCfg [simp]:
  "Verify L t tok (a_refreshCfg (NewAuthUseCase U C cfg rexp bl cost)) = Verify L t tok cfg"
proof -
  have "verify_key (a_refreshCfg (NewAuthUseCase U C cfg rexp bl cost)) = verify_key cfg"
    by (simp add: NewAuthUseCase_def verify_key_def fun_eq_iff)
  then show ?thesis by (simp add: Verify_def verify_opts_def) (simp add: NewAuthUseCase_def)
qed

text \<open>Token identifiers are not reused: every valid token with the identifier of \<open>c\<close> has its expiry
  date.\<close>

definition jti_unique :: "jwt_lib \<Rightarrow> Config \<Rightarrow> Claims \<Rightarrow> bool" where
  "jti_unique L cfg c \<longleftrightarrow> (\<forall>t tok c'. Verify L t tok cfg = Inr c' \<longrightarrow> ID c' = ID c \<longrightarrow> ExpiresAt c' = ExpiresAt c)"

locale auth_blacklist = reliable_blacklist B revoked binv "\<lambda>_. True"
  for B :: "'b Blacklist" and revoked and binv +
  fixes a :: "('d, 's, 'b) authUseCase" and lib :: auth_libs
  assumes bl: "a_bl a = Some B"
    and cfg: "Verify (l_jwt lib) t tok (a_refreshCfg a) = Verify (l_jwt lib) t tok (a_jwtCfg a)"
begin

definition blocked :: "'b \<Rightarrow> time \<Rightarrow> string \<Rightarrow> time \<Rightarrow> bool" where
  "blocked s t j e \<longleftrightarrow> binv s \<and> (\<forall>t'. t \<le> t' \<longrightarrow> t' < e \<longrightarrow> revoked s t' j)"

lemma blocked_later: "blocked s t j e \<Longrightarrow> t \<le> t' \<Longrightarrow> blocked s t' j e"
  by (simp add: blocked_def)

lemma revoke_keeps:
  assumes "blocked s t j e" "j' = j \<longrightarrow> t + ttl = e" "0 < ttl"
  shows "blocked (snd (bRevoke B s t j' ttl)) t j e"
  using assms revoke_ok [of s ttl t j'] revoke_fail [of s ttl t j' _ j]
  by (cases "fst (bRevoke B s t j' ttl) = None") (auto simp: blocked_def inv_revoke)

lemma revoke_blocks:
  assumes "binv s" "j \<noteq> []" "0 < ttl" "t + ttl = e"
  shows "blocked (snd (bRevoke B s t j ttl)) t j e"
  using assms revoke_total [of s j t ttl] revoke_ok [of s ttl t j]
  by (auto simp: blocked_def inv_revoke)

text \<open>The block of \<^verbatim>\<open>Logout\<close> on claims that have verified.\<close>

lemma blacklist_claims_verified:
  assumes "jwt_lib_ok (l_jwt lib)" "Verify (l_jwt lib) t tok (a_jwtCfg a) = Inr c" "binv s"
  obtains b where "blacklist_claims (a_bl a) s t c = BlDone b" "binv b"
    "ID c \<noteq> [] \<Longrightarrow> ExpiresAt c = Some e \<Longrightarrow> blocked b t (ID c) e"
    "\<And>j f. blocked s t j f \<Longrightarrow> (ID c = j \<Longrightarrow> ExpiresAt c = Some f) \<Longrightarrow> blocked b t j f"
proof -
  obtain x where x: "ExpiresAt c = Some x" "t < x" using Verify_ExpiresAt [OF assms(1,2)] by blast
  show ?thesis
  proof (cases "ID c = []")
    case True
    then show ?thesis using that [of s] x assms(3) bl
      by (simp add: blacklist_claims_def)
  next
    case False
    let ?b = "snd (bRevoke B s t (ID c) (x - t))"
    have "blacklist_claims (a_bl a) s t c = BlDone ?b"
      using x False bl revoke_total [OF assms(3) False, of t "x - t"]
      by (auto simp: blacklist_claims_def Let_def split: prod.splits)
    then show ?thesis
      using that [of ?b] x assms(3) revoke_blocks [OF assms(3) False, of "x - t" t x]
        revoke_keeps [of s t _ _ "ID c" "x - t"] by (auto simp: inv_revoke)
  qed
qed

lemma middleware_keeps:
  assumes "blocked s t j e"
  shows "blocked (snd (Middleware L cfg' [a_bl a] s t raw)) t j e"
proof -
  have "blocked (snd (bIsRevoked B s t i)) t j e" for i
    using assms isrevoked_frame [of s t _ i] by (auto simp: blocked_def inv_isrevoked)
  then show ?thesis using assms bl
    by (auto simp: Middleware_def split: sum.splits prod.splits) (metis snd_conv)+
qed

lemma logout_refresh_keeps:
  assumes "jwt_lib_ok (l_jwt lib)" "jti_unique (l_jwt lib) (a_jwtCfg a) c" "ExpiresAt c = Some e"
    and "blocked (st_bl st) t (ID c) e"
  shows "blocked (st_bl (snd (logout_refresh lib a st t ref))) t (ID c) e"
proof (cases "Verify (l_jwt lib) t ref (a_jwtCfg a)")
  case (Inr c')
  have "binv (st_bl st)" using assms(4) by (simp add: blocked_def)
  from blacklist_claims_verified [OF assms(1) Inr this]
  obtain b where b: "blacklist_claims (a_bl a) (st_bl st) t c' = BlDone b"
    "\<And>j f. blocked (st_bl st) t j f \<Longrightarrow> (ID c' = j \<Longrightarrow> ExpiresAt c' = Some f) \<Longrightarrow> blocked b t j f"
    by metis
  have "ID c' = ID c \<Longrightarrow> ExpiresAt c' = Some e" using assms(2,3) Inr by (simp add: jti_unique_def)
  then have "blocked b t (ID c) e" using b(2) [OF assms(4)] by simp
  then show ?thesis using Inr b(1) assms(4) by (simp add: logout_refresh_def Let_def cfg)
qed (use assms(4) in \<open>simp add: logout_refresh_def cfg\<close>)

lemma step_keeps:
  assumes "jwt_lib_ok (l_jwt lib)" "jti_unique (l_jwt lib) (a_jwtCfg a) c" "ExpiresAt c = Some e"
    and "blocked (st_bl st) t (ID c) e"
  shows "blocked (st_bl (auth_step lib a st (t, op))) t (ID c) e"
proof (cases op)
  case (DoLogout acc ref)
  show ?thesis
  proof (cases "Verify (l_jwt lib) t acc (a_jwtCfg a)")
    case (Inr c')
    have "binv (st_bl st)" using assms(4) by (simp add: blocked_def)
    from blacklist_claims_verified [OF assms(1) Inr this]
    obtain b where b: "blacklist_claims (a_bl a) (st_bl st) t c' = BlDone b"
      "\<And>j f. blocked (st_bl st) t j f \<Longrightarrow> (ID c' = j \<Longrightarrow> ExpiresAt c' = Some f) \<Longrightarrow> blocked b t j f"
      by metis
    have "ID c' = ID c \<Longrightarrow> ExpiresAt c' = Some e" using assms(2,3) Inr by (simp add: jti_unique_def)
    then have "blocked b t (ID c) e" using b(2) [OF assms(4)] by simp
    then have "blocked (st_bl (snd (logout_refresh lib a (st\<lparr>st_bl := b\<rparr>) t ref))) t (ID c) e"
      by (intro logout_refresh_keeps [OF assms(1-3)]) simp
    then show ?thesis using DoLogout Inr b(1) by (simp add: Logout_def)
  qed (use assms(4) DoLogout in \<open>simp add: Logout_def\<close>)
next
  case (DoCheck raw)
  then show ?thesis using middleware_keeps [OF assms(4)] by simp
qed (use assms(4) in \<open>auto simp: Login_def Refresh_def ForgotPassword_def ResetPassword_def Let_def
        split: sum.splits prod.splits option.splits\<close>)

lemma run_keeps:
  assumes "jwt_lib_ok (l_jwt lib)" "jti_unique (l_jwt lib) (a_jwtCfg a) c" "ExpiresAt c = Some e"
    and "blocked (st_bl st) t (ID c) e" "clock_ok t ops" "\<forall>x \<in> set ops. fst x \<le> t'" "t \<le> t'"
  shows "blocked (st_bl (foldl (auth_step lib a) st ops)) t' (ID c) e"
  using assms(4-)
proof (induction ops arbitrary: st t)
  case Nil
  then show ?case using blocked_later by simp
next
  case (Cons x ops)
  obtain u op where x: "x = (u, op)" by (cases x)
  have "blocked (st_bl (auth_step lib a st (u, op))) u (ID c) e"
    using step_keeps [OF assms(1-3) blocked_later [OF Cons.prems(1)]] Cons.prems x by simp
  then show ?case using Cons.IH [of "auth_step lib a st (u, op)" u] Cons.prems x by simp
qed

lemma logout_blocks:
  assumes "jwt_lib_ok (l_jwt lib)" "jti_unique (l_jwt lib) (a_jwtCfg a) c" "binv (st_bl st)"
    and "Verify (l_jwt lib) t acc (a_jwtCfg a) = Inr c" "ID c \<noteq> []" "ExpiresAt c = Some e"
  shows "blocked (st_bl (snd (Logout lib a st t acc ref))) t (ID c) e"
proof -
  from blacklist_claims_verified [OF assms(1,4,3)]
  obtain b where b: "blacklist_claims (a_bl a) (st_bl st) t c = BlDone b" "blocked b t (ID c) e"
    using assms(5,6) by metis
  then have "blocked (st_bl (snd (logout_refresh lib a (st\<lparr>st_bl := b\<rparr>) t ref))) t (ID c) e"
    by (intro logout_refresh_keeps [OF assms(1,2,6)]) simp
  then show ?thesis using assms(4) b(1) by (simp add: Logout_def)
qed

end

interpretation mab: auth_blacklist MemoryBlacklist mbl_revoked wf_gomap
    "NewAuthUseCase U C cfg rexp (Some MemoryBlacklist) cost" lib
  for U C cfg rexp cost lib
  by unfold_locales simp_all

section \<open>Results of the operations\<close>

text \<open>The token pair: what was signed, and the session stored for it.\<close>

lemma issueTokenPair_Inr:
  assumes "issueTokenPair lib a s t rA rR sub = (Inr resp, s')"
  shows "Sign (l_jwt lib) t rA sub [] ''access'' (a_jwtCfg a) = Inr (AccessToken resp, newJTI rA)"
    and "Sign (l_jwt lib) t rR sub [] ''refresh'' (a_refreshCfg a) = Inr (RefreshToken resp, newJTI rR)"
    and "\<exists>v s1. get_version (a_cacher a) s t sub = (v, s1) \<and>
      cSet (a_cacher a) s1 t (refreshKeyPrefix @ newJTI rR) (GoSession sub v) (Expiry (a_refreshCfg a)) = (None, s')"
proof -
  from assms show A: "Sign (l_jwt lib) t rA sub [] ''access'' (a_jwtCfg a) = Inr (AccessToken resp, newJTI rA)"
    by (auto simp: issueTokenPair_def split: sum.splits prod.splits option.splits dest: Sign_Inr(2))
  from assms show R: "Sign (l_jwt lib) t rR sub [] ''refresh'' (a_refreshCfg a) = Inr (RefreshToken resp, newJTI rR)"
    by (auto simp: issueTokenPair_def split: sum.splits prod.splits option.splits dest: Sign_Inr(2))
  from assms A R show "\<exists>v s1. get_version (a_cacher a) s t sub = (v, s1) \<and>
      cSet (a_cacher a) s1 t (refreshKeyPrefix @ newJTI rR) (GoSession sub v) (Expiry (a_refreshCfg a)) = (None, s')"
    by (auto simp: issueTokenPair_def split: prod.splits option.splits)
qed

lemma Login_Inr:
  assumes "Login lib a st t rA rR req = (Inr resp, st')"
  obtains u d s where "rFindByEmail (a_userRepo a) (st_db st) (li_Email req) = (Inr u, d)"
    "CompareHashAndPassword (l_bcrypt lib) (u_Password u) (li_Password req) = None"
    "issueTokenPair lib a (st_cache st) t rA rR (uuid_String (l_uuid lib) (u_ID u)) = (Inr resp, s)"
    "st' = st\<lparr>st_db := d, st_cache := s\<rparr>"
  using assms by (auto simp: Login_def split: sum.splits prod.splits option.splits if_splits)

lemma ResetPassword_None:
  assumes "ResetPassword lib a st t salt req = (None, st')"
  obtains email s1 u d1 hash u' d2 where
    "get_string (a_cacher a) (st_cache st) t (resetKeyPrefix @ rp_Token req) = (Inr email, s1)"
    "rFindByEmail (a_userRepo a) (st_db st) email = (Inr u, d1)"
    "GenerateFromPassword (l_bcrypt lib) salt (rp_Password req) (a_bcryptCost a) = Inr hash"
    "rUpdate (a_userRepo a) d1 t (u\<lparr>u_Password := hash\<rparr>) = (Inr u', d2)"
    "st_cache st' = bump_version (a_cacher a)
       (snd (cDel (a_cacher a) s1 t [resetKeyPrefix @ rp_Token req])) t (uuid_String (l_uuid lib) (u_ID u'))"
    "st_db st' = d2" "st_bl st' = st_bl st"
  using assms by (auto simp: ResetPassword_def Let_def split: sum.splits prod.splits if_splits)

end
