(* ===== verification/Auth_Properties.thy ===== *)
theory Auth_Properties
  imports Auth_Usecase
begin

text \<open>
  What the authentication service guarantees over whole traces of operations: rotation of refresh
  tokens, logout, single-use reset tokens, the effect of a password reset on other sessions, and the
  tokens a login hands out. The properties are stated for the in-process cache and blacklist (the
  configuration without Redis), for any user repository unless one is named.
\<close>

section \<open>Lemmas on logout and reset\<close>

context auth_reliable
begin

lemma logout_deletes:
  assumes "inv (st_cache st)" "Verify (l_jwt lib) t ref (a_refreshCfg a) = Inr c" "ref \<noteq> []" "t \<le> t'"
  shows "peek (st_cache (snd (logout_refresh lib a st t ref))) t' (refreshKeyPrefix @ ID c) = None"
  using assms del_ok [OF assms(1) del_total [OF assms(1)] assms(4)]
  by (auto simp: logout_refresh_def Let_def split: bl_result.splits)

lemma reset_consumes:
  assumes "inv (st_cache st)" "0 \<le> t" "ResetPassword lib a st t salt req = (None, st')" "t \<le> t'"
  shows "peek (st_cache st') t' (resetKeyPrefix @ rp_Token req) = None"
proof (rule ResetPassword_None [OF assms(3)])
  fix email s1 u'
  let ?k = "resetKeyPrefix @ rp_Token req"
  assume g: "get_string (a_cacher a) (st_cache st) t ?k = (Inr email, s1)"
    and c: "st_cache st' = bump_version (a_cacher a)
      (snd (cDel (a_cacher a) s1 t [?k])) t (uuid_String (l_uuid lib) (u_ID u'))"
  have s1: "inv s1" using inv_get [OF assms(1)] g by (metis get_string_snd snd_conv)
  have "peek (snd (cDel (a_cacher a) s1 t [?k])) t' ?k = None"
    using del_ok [OF s1 del_total [OF s1] assms(4)] by simp
  then show ?thesis unfolding c
    using bump_version_other [OF inv_del [OF s1] assms(2,4), of ?k] by simp
qed

lemma reset_single_use_run:
  assumes "inv (st_cache st)" "0 \<le> t" "ResetPassword lib a st t salt req = (None, st')"
    and "clock_ok t ops" "\<forall>x \<in> set ops. fst x \<le> t'" "t \<le> t'"
    and "rp_Token req \<notin> draws_reset lib ops" "rp_Token req' = rp_Token req"
  shows "fst (ResetPassword lib a (foldl (auth_step lib a) st' ops) t' salt' req') = Some ErrInvalidToken"
proof -
  let ?k = "resetKeyPrefix @ rp_Token req"
  have i': "inv (st_cache st')"
    using step_inv [OF assms(1), of t "DoReset salt req"] assms(3) by simp
  have "\<forall>x \<in> set ops. \<not> op_writes lib (snd x) ?k" using draws_reset_writes [OF assms(7)] by blast
  note run = run_avoid [OF i' assms(2,4,5) this]
  show ?thesis
    by (rule reset_no_entry) (use run reset_consumes [OF assms(1-3,6)] assms(8) in auto)
qed

lemma forgot_expires_run:
  assumes "inv (st_cache st)" "0 \<le> t" "ForgotPassword lib a st t rnd email = (Inr tok, st')" "tok \<noteq> []"
    and "clock_ok t ops" "\<forall>x \<in> set ops. fst x \<le> t'" "t + resetTTL \<le> t'" "okTTL resetTTL"
    and "tok \<notin> draws_reset lib ops" "rp_Token req = tok"
  shows "fst (ResetPassword lib a (foldl (auth_step lib a) st' ops) t' salt req) = Some ErrInvalidToken"
proof -
  let ?k = "resetKeyPrefix @ tok"
  have le: "t \<le> t'" using assms(7) by (simp add: resetTTL_def)
  have i': "inv (st_cache st')"
    using step_inv [OF assms(1), of t "DoForgot rnd email"] assms(3) by simp
  obtain u :: User where c: "cSet (a_cacher a) (st_cache st) t ?k (GoString (u_Email u)) resetTTL = (None, st_cache st')"
    using assms(3,4) by (auto simp: ForgotPassword_def Let_def split: sum.splits prod.splits option.splits if_splits)
  have none: "peek (st_cache st') t' ?k = None"
    using set_ok [OF assms(1,2,8), of ?k "GoString (u_Email u)" t'] c le assms(7)
    by (simp add: resetTTL_def)
  have "\<forall>x \<in> set ops. \<not> op_writes lib (snd x) ?k" using draws_reset_writes [OF assms(9)] by blast
  note run = run_avoid [OF i' assms(2,5,6) this]
  show ?thesis by (rule reset_no_entry) (use run none assms(10) in auto)
qed

text \<open>A session of a current version refreshes.\<close>

lemma issue_total:
  assumes "inv s" "Sign (l_jwt lib) t rA sub [] ''access'' (a_jwtCfg a) = Inr (x, j)"
    and "Sign (l_jwt lib) t rR sub [] ''refresh'' (a_refreshCfg a) = Inr (y, j')"
  shows "\<exists>resp s'. issueTokenPair lib a s t rA rR sub = (Inr resp, s') \<and> AccessToken resp = x \<and>
    RefreshToken resp = y"
proof -
  obtain v s1 where g: "get_version (a_cacher a) s t sub = (v, s1)" by fastforce
  then have "inv s1" using inv_get [OF assms(1)] by (metis get_version_snd snd_conv)
  then have "fst (cSet (a_cacher a) s1 t (refreshKeyPrefix @ j') (GoSession sub v)
      (Expiry (a_refreshCfg a))) = None" by (simp add: set_total)
  then show ?thesis using assms g by (auto simp: issueTokenPair_def split: prod.splits option.splits)
qed

lemma refresh_total:
  assumes "inv (st_cache st)" "Verify (l_jwt lib) t tok (a_refreshCfg a) = Inr c"
    and "peek (st_cache st) t (refreshKeyPrefix @ ID c) = marshal (GoSession (Subject c) v)"
    and "pw_version peek (st_cache st) t (Subject c) \<le> v"
    and "uuid_Parse (l_uuid lib) (Subject c) = Inr uid"
    and "fst (rFindByID (a_userRepo a) (st_db st) uid) = Inr u"
    and "Sign (l_jwt lib) t rA (Subject c) [] ''access'' (a_jwtCfg a) = Inr (x, j)"
    and "Sign (l_jwt lib) t rR (Subject c) [] ''refresh'' (a_refreshCfg a) = Inr (y, j')"
  shows "\<exists>resp. fst (Refresh lib a st t rA rR tok) = Inr resp \<and> AccessToken resp = x \<and> RefreshToken resp = y"
proof -
  let ?k = "refreshKeyPrefix @ ID c"
  let ?g = "cGet (a_cacher a) (st_cache st) t ?k TSession"
  obtain d where d: "marshal (GoSession (Subject c) v) = Some d" by simp
  have "fst ?g = Inr (GoSession (Subject c) v)"
    using assms(1,3) d session_roundtrip [OF d] get_total [OF assms(1), of t ?k TSession] by (simp add: decode_def)
  then have g: "get_session (a_cacher a) (st_cache st) t ?k = (Inr (Subject c, v), snd ?g)"
    by (auto simp: get_session_def split: prod.splits)
  have i: "inv (snd ?g)" by (rule inv_get [OF assms(1)])
  obtain cur s2 where w: "get_version (a_cacher a) (snd ?g) t (Subject c) = (cur, s2)" by fastforce
  have cur: "cur = pw_version peek (st_cache st) t (Subject c)"
    using get_version_fst [OF i, of t "Subject c"] w get_frame [OF assms(1), of t t]
    by (simp add: pw_version_def)
  have s2: "inv s2" using inv_get [OF i] w by (metis get_version_snd snd_conv)
  obtain resp s' where "issueTokenPair lib a (snd (cDel (a_cacher a) s2 t [?k])) t rA rR (Subject c) =
      (Inr resp, s')" "AccessToken resp = x" "RefreshToken resp = y"
    using issue_total [OF inv_del [OF s2] assms(7,8)] by metis
  then show ?thesis using assms(4-6) cur
    by (auto simp: Refresh_verified [OF assms(2) g w refl] split: prod.splits)
qed

lemma login_session:
  assumes "inv (st_cache st)" "0 \<le> t" "Login lib a st t rA rR req = (Inr resp, st')"
    and "t \<le> t'" "0 < Expiry (a_refreshCfg a)" "t' < t + Expiry (a_refreshCfg a)"
    and "okTTL (Expiry (a_refreshCfg a))"
  shows "\<exists>u. fst (rFindByEmail (a_userRepo a) (st_db st) (li_Email req)) = Inr u \<and>
    peek (st_cache st') t' (refreshKeyPrefix @ newJTI rR) = marshal (GoSession (uuid_String (l_uuid lib) (u_ID u))
      (pw_version peek (st_cache st) t (uuid_String (l_uuid lib) (u_ID u))))"
proof (rule Login_Inr [OF assms(3)])
  fix u :: User and d s
  let ?sub = "uuid_String (l_uuid lib) (u_ID u)"
  assume f: "rFindByEmail (a_userRepo a) (st_db st) (li_Email req) = (Inr u, d)"
    and iss: "issueTokenPair lib a (st_cache st) t rA rR ?sub = (Inr resp, s)"
    and st': "st' = st\<lparr>st_db := d, st_cache := s\<rparr>"
  obtain v s1 where v: "get_version (a_cacher a) (st_cache st) t ?sub = (v, s1)"
    and c: "cSet (a_cacher a) s1 t (refreshKeyPrefix @ newJTI rR) (GoSession ?sub v)
      (Expiry (a_refreshCfg a)) = (None, s)"
    using issueTokenPair_Inr(3) [OF iss] by blast
  have s1: "inv s1" using inv_get [OF assms(1)] v by (metis get_version_snd snd_conv)
  have "v = pw_version peek (st_cache st) t ?sub" using get_version_fst [OF assms(1)] v by (metis fst_conv)
  then show ?thesis
    using set_ok [OF s1 assms(2,7), of "refreshKeyPrefix @ newJTI rR" "GoSession ?sub v" t'] c f st' assms(4-6)
    by simp
qed

end

lemma Logout_refresh_eq:
  assumes "jwt_lib_ok (l_jwt lib)" "wf_gomap (st_bl st)"
    and "Verify (l_jwt lib) t acc cfg = Inr c"
  shows "\<exists>b. Logout lib (NewAuthUseCase U C cfg rexp (Some MemoryBlacklist) cost) st t acc ref =
    logout_refresh lib (NewAuthUseCase U C cfg rexp (Some MemoryBlacklist) cost) (st\<lparr>st_bl := b\<rparr>) t ref"
proof -
  from assms(3) have v: "Verify (l_jwt lib) t acc
      (a_jwtCfg (NewAuthUseCase U C cfg rexp (Some MemoryBlacklist) cost)) = Inr c" by simp
  obtain b where "blacklist_claims (a_bl (NewAuthUseCase U C cfg rexp (Some MemoryBlacklist) cost))
      (st_bl st) t c = BlDone b"
    by (rule mab.blacklist_claims_verified [OF assms(1) v assms(2)])
  then show ?thesis using assms(3) by (auto simp: Logout_def)
qed

section \<open>A concrete service, for the witnesses\<close>

definition demo_cfg :: Config where
  "demo_cfg = \<lparr>Secret = replicate 32 (CHR ''k''), Issuer = ''iss'', Audience = ''aud'', Expiry = 900 * second\<rparr>"

definition demo_claims :: "time \<Rightarrow> nat list \<Rightarrow> string \<Rightarrow> duration \<Rightarrow> Claims" where
  "demo_claims t rnd typ expiry = \<lparr>ID = newJTI rnd, Subject = ''uu'', iss = ''iss'', aud = [''aud''],
     IssuedAt = Some t, NotBefore = Some t, ExpiresAt = Some (t + expiry), Roles = [], TokenType = typ\<rparr>"

definition demo_tokens :: "(string \<times> string \<times> string \<times> Claims) list" where
  "demo_tokens =
     [(''A1'', ''HS256'', replicate 32 (CHR ''k''), demo_claims (1000 * second) [1] ''access'' (900 * second)),
      (''R1'', ''HS256'', replicate 32 (CHR ''k''), demo_claims (1000 * second) [2] ''refresh'' (9000 * second)),
      (''A2'', ''HS256'', replicate 32 (CHR ''k''), demo_claims (1100 * second) [3] ''access'' (900 * second)),
      (''R2'', ''HS256'', replicate 32 (CHR ''k''), demo_claims (1100 * second) [4] ''refresh'' (9000 * second)),
      (''A3'', ''HS256'', replicate 32 (CHR ''k''), demo_claims (1100 * second) [5] ''access'' (900 * second)),
      (''R3'', ''HS256'', replicate 32 (CHR ''k''), demo_claims (1100 * second) [6] ''refresh'' (9000 * second))]"

definition demo_lib :: auth_libs where
  "demo_lib = \<lparr>l_jwt = jwt_table demo_tokens, l_bcrypt = bcrypt_plain, l_uuid = uuid_plain\<rparr>"

definition demo_user :: User where
  "demo_user = \<lparr>u_ID = 1, u_Name = ''ann'', u_Email = ''a@x'', u_Password = ''$secret12'',
     u_CreatedAt = 1, u_UpdatedAt = 1, u_DeletedAt = None\<rparr>"

definition demo_auth :: "(User list, MemCacher, MemBlacklist) authUseCase" where
  "demo_auth = NewAuthUseCase (NewUserRepository (gorm_table True)) MemoryCacher demo_cfg (9000 * second)
     (Some MemoryBlacklist) 12"

text \<open>A cache with the session of \<^verbatim>\<open>R1\<close>, stored under version \<open>v\<close>, and a reset token.\<close>

definition demo_state :: "int \<Rightarrow> (User list, MemCacher, MemBlacklist) auth_state" where
  "demo_state v = \<lparr>st_db = [demo_user],
     st_cache = \<lparr>mc_ns = [], mc_m =
       [(refreshKeyPrefix @ newJTI [2],
          \<lparr>data = JObj [(''sub'', JStr ''uu''), (''ver'', JNum v)], expiresAt = 0\<rparr>),
        (resetKeyPrefix @ ''tok'', \<lparr>data = JStr ''a@x'', expiresAt = 0\<rparr>)]\<rparr>,
     st_bl = []\<rparr>"

lemma demo_jwt_ok: "jwt_lib_ok (l_jwt demo_lib)"
  by (simp add: demo_lib_def demo_tokens_def jwt_table_ok)

lemma demo_newJTI: "newJTI [1] = ''01''" "newJTI [2] = ''02''" "newJTI [3] = ''03''" "newJTI [4] = ''04''"
  "newJTI [5] = ''05''" "newJTI [6] = ''06''"
  by code_simp+

lemma demo_Verify:
  "1000 * second \<le> t \<Longrightarrow> t < 1900 * second \<Longrightarrow> Verify (l_jwt demo_lib) t ''A1'' demo_cfg =
     Inr (demo_claims (1000 * second) [1] ''access'' (900 * second))"
  "1000 * second \<le> t \<Longrightarrow> t < 10000 * second \<Longrightarrow> Verify (l_jwt demo_lib) t ''R1'' demo_cfg =
     Inr (demo_claims (1000 * second) [2] ''refresh'' (9000 * second))"
  by (simp_all add: Verify_def demo_lib_def demo_tokens_def demo_cfg_def jwt_table_def verify_opts_def
      verify_key_def claims_valid_def demo_claims_def)

lemma demo_Sign:
  "Sign (l_jwt demo_lib) (1000 * second) [1] ''uu'' [] ''access'' demo_cfg = Inr (''A1'', newJTI [1])"
  "Sign (l_jwt demo_lib) (1000 * second) [2] ''uu'' [] ''refresh'' (a_refreshCfg demo_auth) = Inr (''R1'', newJTI [2])"
  "Sign (l_jwt demo_lib) (1100 * second) [3] ''uu'' [] ''access'' demo_cfg = Inr (''A2'', newJTI [3])"
  "Sign (l_jwt demo_lib) (1100 * second) [4] ''uu'' [] ''refresh'' (a_refreshCfg demo_auth) = Inr (''R2'', newJTI [4])"
  "Sign (l_jwt demo_lib) (1100 * second) [5] ''uu'' [] ''access'' demo_cfg = Inr (''A3'', newJTI [5])"
  "Sign (l_jwt demo_lib) (1100 * second) [6] ''uu'' [] ''refresh'' (a_refreshCfg demo_auth) = Inr (''R3'', newJTI [6])"
  by (simp_all add: Sign_def demo_lib_def demo_tokens_def demo_cfg_def demo_auth_def NewAuthUseCase_def
      jwt_table_def demo_claims_def numeric_date_def Let_def demo_newJTI)

lemma demo_inv: "mem_inv (st_cache (demo_state v))" "wf_gomap (st_bl (demo_state v))"
  by (simp_all add: demo_state_def mem_inv_def)

lemma demo_settings:
  "uuid_ok (l_uuid demo_lib)" "a_jwtCfg demo_auth = demo_cfg" "Expiry demo_cfg = 900 * second"
  "Issuer demo_cfg = ''iss''" "Audience demo_cfg = ''aud''"
  by (simp_all add: demo_lib_def uuid_plain_ok demo_auth_def demo_cfg_def)

lemma demo_db: "st_db (demo_state v) = [demo_user]" "st_bl (demo_state v) = []"
  by (simp_all add: demo_state_def)

lemma demo_peek:
  "mem_peek (st_cache (demo_state v)) t (refreshKeyPrefix @ newJTI [2]) = marshal (GoSession ''uu'' v)"
  "mem_peek (st_cache (demo_state v)) t (resetKeyPrefix @ ''tok'') = Some (JStr ''a@x'')"
  "mem_peek (st_cache (demo_state v)) t (versionKeyPrefix @ sub) = None"
  "pw_version mem_peek (st_cache (demo_state v)) t sub = 0"
  by (simp_all add: demo_state_def mem_peek_def prefixed_def entry_expired_def pw_version_def decode_def)

lemma demo_user_fields: "u_ID demo_user = 1" "u_Email demo_user = ''a@x''" "u_DeletedAt demo_user = None"
  "u_Password demo_user = ''$secret12''"
  by (simp_all add: demo_user_def)

lemma demo_find:
  "FindByEmail (gorm_table True) [demo_user] ''a@x'' = (Inr demo_user, [demo_user])"
  "FindByID (gorm_table True) [demo_user] 1 = (Inr demo_user, [demo_user])"
  "FindByID (gorm_table True) [demo_user\<lparr>u_Password := h, u_UpdatedAt := t\<rparr>] 1 =
     (Inr (demo_user\<lparr>u_Password := h, u_UpdatedAt := t\<rparr>), [demo_user\<lparr>u_Password := h, u_UpdatedAt := t\<rparr>])"
  by (simp_all add: FindByEmail_def FindByID_def gorm_table_def live_rows_def demo_user_fields)

lemma demo_uuid: "uuid_Parse (l_uuid demo_lib) ''uu'' = Inr 1" "uuid_String (l_uuid demo_lib) 1 = ''uu''"
  by (simp_all add: demo_lib_def uuid_plain_def numeral_2_eq_2)

lemma demo_repo [simp]:
  "rFindByEmail (NewUserRepository G) = FindByEmail G" "rFindByID (NewUserRepository G) = FindByID G"
  "rUpdate (NewUserRepository G) = Update G"
  by (simp_all add: NewUserRepository_def)

lemma demo_fields:
  "ID (demo_claims t rnd typ e) = newJTI rnd" "Subject (demo_claims t rnd typ e) = ''uu''"
  "ExpiresAt (demo_claims t rnd typ e) = Some (t + e)"
  by (simp_all add: demo_claims_def)

lemma demo_Refresh: "\<exists>resp. Refresh demo_lib demo_auth (demo_state 0) (1100 * second) [3] [4] ''R1'' =
    (Inr resp, snd (Refresh demo_lib demo_auth (demo_state 0) (1100 * second) [3] [4] ''R1''))"
proof -
  have "\<exists>resp. fst (Refresh demo_lib demo_auth (demo_state 0) (1100 * second) [3] [4] ''R1'') = Inr resp \<and>
      AccessToken resp = ''A2'' \<and> RefreshToken resp = ''R2''"
    unfolding demo_auth_def
    by (rule ma.refresh_total [OF demo_inv(1), where c = "demo_claims (1000 * second) [2] ''refresh'' (9000 * second)"
          and v = 0 and uid = 1 and u = demo_user and j = "newJTI [3]" and j' = "newJTI [4]"])
      (use demo_Sign [unfolded demo_auth_def] in
        \<open>simp_all add: demo_Verify demo_fields demo_peek demo_uuid demo_find demo_db\<close>)
  then show ?thesis by (metis prod.collapse)
qed

lemma demo_Reset: "ResetPassword demo_lib demo_auth (demo_state v) (1100 * second) [] \<lparr>rp_Token = ''tok'', rp_Password = ''secret99''\<rparr> =
    (None, snd (ResetPassword demo_lib demo_auth (demo_state v) (1100 * second) [] \<lparr>rp_Token = ''tok'', rp_Password = ''secret99''\<rparr>))"
proof -
  have "get_string MemoryCacher (st_cache (demo_state v)) (1100 * second) (resetKeyPrefix @ ''tok'') =
      (Inr ''a@x'', st_cache (demo_state v))"
    by (simp add: get_string_def MemoryCacher_def mem_Get_def mem_read_def demo_state_def prefixed_def
        entry_expired_def)
  moreover have "\<exists>u d. Update (gorm_table True) [demo_user] (1100 * second) (demo_user\<lparr>u_Password := ''$secret99''\<rparr>) = (Inr u, d)"
    by (simp add: Update_def gorm_table_def Let_def)
  ultimately show ?thesis
    by (auto simp: ResetPassword_def demo_auth_def demo_find demo_lib_def bcrypt_plain_def
        demo_state_def [of v] Let_def split: prod.splits sum.splits)
qed

section \<open>Properties\<close>

text \<open>C1. A refresh token works once: after a rotation that succeeded, no trace of later operations,
  by whatever clients, makes the same token refresh again, provided its identifier is not drawn a
  second time.\<close>

theorem refresh_token_single_use:
  assumes "jwt_lib_ok (l_jwt lib)" and "mem_inv (st_cache st)" and "0 \<le> t"
    and "a = NewAuthUseCase U MemoryCacher cfg rexp bl cost"
    and "Refresh lib a st t rA rR tok = (Inr resp, st')"
    and "Verify (l_jwt lib) t tok cfg = Inr c" and "newJTI rR \<noteq> ID c"
    and "clock_ok t ops" and "\<forall>x \<in> set ops. fst x \<le> t'" and "t \<le> t'" and "ID c \<notin> draws_session ops"
  shows "fst (Refresh lib a (foldl (auth_step lib a) st' ops) t' rA' rR' tok) = Inl ErrInvalidToken"
  using ma.refresh_single_use_run [OF assms(1-3), of U cfg rexp bl cost rA rR tok resp st' c] assms(4-)
  by simp

theorem refresh_token_single_use_witness:
  "fst (Refresh demo_lib demo_auth (foldl (auth_step demo_lib demo_auth)
      (snd (Refresh demo_lib demo_auth (demo_state 0) (1100 * second) [3] [4] ''R1''))
      [(1200 * second, DoLogin [5] [6] \<lparr>li_Email = ''a@x'', li_Password = ''secret12''\<rparr>)])
    (1300 * second) [7] [8] ''R1'') = Inl ErrInvalidToken"
proof -
  obtain resp where r: "Refresh demo_lib demo_auth (demo_state 0) (1100 * second) [3] [4] ''R1'' =
    (Inr resp, snd (Refresh demo_lib demo_auth (demo_state 0) (1100 * second) [3] [4] ''R1''))"
    using demo_Refresh by blast
  show ?thesis
    by (rule refresh_token_single_use [OF demo_jwt_ok demo_inv(1) _ demo_auth_def r])
      (auto simp: demo_Verify demo_fields draws_session_def demo_newJTI dest!: newJTI_inject [rotated 2])
qed

text \<open>C2. Logging out is final for the access token: from then on, after any trace of operations, the
  authentication middleware turns the token away (it is on the blacklist until it expires, and
  expired afterwards), whether or not a refresh token was sent along and whatever the cache does.\<close>

theorem logout_revokes_access:
  assumes "jwt_lib_ok (l_jwt lib)" and "wf_gomap (st_bl st)"
    and "a = NewAuthUseCase U C cfg rexp (Some MemoryBlacklist) cost"
    and "Verify (l_jwt lib) t acc cfg = Inr c" and "ID c \<noteq> []" and "jti_unique (l_jwt lib) cfg c"
    and "clock_ok t ops" and "\<forall>x \<in> set ops. fst x \<le> t'" and "t \<le> t'"
  shows "fst (Middleware (l_jwt lib) cfg [Some MemoryBlacklist]
     (st_bl (foldl (auth_step lib a) (snd (Logout lib a st t acc ref)) ops)) t' (''Bearer '' @ acc)) =
     Inl ErrUnauthorized"
proof -
  obtain e where e: "ExpiresAt c = Some e" using Verify_ExpiresAt [OF assms(1,4)] by blast
  let ?s = "st_bl (foldl (auth_step lib a) (snd (Logout lib a st t acc ref)) ops)"
  have "mab.blocked (st_bl (snd (Logout lib a st t acc ref))) t (ID c) e"
    unfolding assms(3) by (rule mab.logout_blocks [OF assms(1)]) (use assms e in simp_all)
  then have b: "mab.blocked ?s t' (ID c) e"
    unfolding assms(3) by (intro mab.run_keeps [OF assms(1)]) (use assms e in simp_all)
  show ?thesis
  proof (cases "Verify (l_jwt lib) t' acc cfg")
    case (Inl err)
    then show ?thesis using TrimPrefix_append [of "''Bearer ''" acc] by (simp add: Middleware_def)
  next
    case (Inr c')
    then have "c' = c" using Verify_payload [OF assms(1) _ assms(4)] by blast
    moreover have "t' < e" using Verify_ExpiresAt [OF assms(1) Inr] e \<open>c' = c\<close> by auto
    ultimately show ?thesis using b Inr assms(5)
      by (intro mbl.middleware_revoked [where c = c]) (auto simp: mab.blocked_def)
  qed
qed

lemma demo_payload:
  "Verify (l_jwt demo_lib) t tok demo_cfg = Inr c \<Longrightarrow> c \<in> (snd \<circ> snd \<circ> snd) ` set demo_tokens"
  by (auto simp: Verify_def demo_lib_def jwt_table_def image_iff split: if_splits sum.splits option.splits
      dest!: map_of_SomeD) (metis comp_apply snd_conv)

lemma demo_jti_unique: "jti_unique (l_jwt demo_lib) demo_cfg (demo_claims (1000 * second) [1] ''access'' (900 * second))"
  using demo_payload
  by (fastforce simp: jti_unique_def demo_tokens_def demo_fields demo_newJTI [unfolded One_nat_def] demo_newJTI)

theorem logout_revokes_access_witness:
  "fst (Middleware (l_jwt demo_lib) demo_cfg [Some MemoryBlacklist]
     (st_bl (foldl (auth_step demo_lib demo_auth)
        (snd (Logout demo_lib demo_auth (demo_state 0) (1100 * second) ''A1'' []))
        [(1200 * second, DoCheck ''Bearer A1'')])) (1300 * second) (''Bearer '' @ ''A1'')) = Inl ErrUnauthorized"
  by (rule logout_revokes_access [OF demo_jwt_ok demo_inv(2) demo_auth_def demo_Verify(1) _ demo_jti_unique])
    (simp_all add: demo_fields demo_newJTI [unfolded One_nat_def])

text \<open>Logging out with the refresh token ends its session: no trace of later operations makes the
  refresh token usable again.\<close>

lemma logout_ends_refresh_session:
  assumes "jwt_lib_ok (l_jwt lib)" and "wf_gomap (st_bl st)" and "mem_inv (st_cache st)" and "0 \<le> t"
    and "a = NewAuthUseCase U MemoryCacher cfg rexp (Some MemoryBlacklist) cost"
    and "Verify (l_jwt lib) t acc cfg = Inr ca"
    and "Verify (l_jwt lib) t ref cfg = Inr c" and "ref \<noteq> []"
    and "clock_ok t ops" and "\<forall>x \<in> set ops. fst x \<le> t'" and "t \<le> t'" and "ID c \<notin> draws_session ops"
  shows "fst (Refresh lib a (foldl (auth_step lib a) (snd (Logout lib a st t acc ref)) ops) t' rA rR ref) =
    Inl ErrInvalidToken"
proof -
  let ?k = "refreshKeyPrefix @ ID c" and ?st = "snd (Logout lib a st t acc ref)"
  obtain b where eq: "Logout lib a st t acc ref = logout_refresh lib a (st\<lparr>st_bl := b\<rparr>) t ref"
    using Logout_refresh_eq [OF assms(1,2,6)] assms(5) by blast
  have none: "mem_peek (st_cache ?st) t' ?k = None"
    unfolding eq unfolding assms(5) by (rule ma.logout_deletes) (use assms in simp_all)
  have i: "mem_inv (st_cache ?st)"
    using ma.step_inv [OF assms(3), of lib U cfg rexp _ cost t "DoLogout acc ref"] assms(5) by simp
  have "\<forall>x \<in> set ops. \<not> op_writes lib (snd x) ?k" using draws_session_writes [OF assms(12)] by blast
  then have run: "mem_inv (st_cache (foldl (auth_step lib a) ?st ops)) \<and>
      mem_peek (st_cache (foldl (auth_step lib a) ?st ops)) t' ?k = None"
    using ma.run_avoid [OF i assms(4,9,10)] none unfolding assms(5) by metis
  show ?thesis unfolding assms(5)
    by (rule ma.refresh_no_session)
      (use run assms(5) Verify_payload [OF assms(1) _ assms(7)] in auto)
qed

text \<open>C22. A reset token works once: after a password reset with it succeeded, no trace of later
  operations makes it work again, provided the same token is not drawn again.\<close>

theorem reset_token_single_use:
  assumes "mem_inv (st_cache st)" and "0 \<le> t" and "a = NewAuthUseCase U MemoryCacher cfg rexp bl cost"
    and "ResetPassword lib a st t salt req = (None, st')"
    and "clock_ok t ops" and "\<forall>x \<in> set ops. fst x \<le> t'" and "t \<le> t'"
    and "rp_Token req \<notin> draws_reset lib ops" and "rp_Token req' = rp_Token req"
  shows "fst (ResetPassword lib a (foldl (auth_step lib a) st' ops) t' salt' req') = Some ErrInvalidToken"
  using ma.reset_single_use_run [OF assms(1,2), of lib U cfg rexp bl cost salt req st' ops t' req'] assms(3-)
  by simp

theorem reset_token_single_use_witness:
  "fst (ResetPassword demo_lib demo_auth (foldl (auth_step demo_lib demo_auth)
      (snd (ResetPassword demo_lib demo_auth (demo_state 0) (1100 * second) []
         \<lparr>rp_Token = ''tok'', rp_Password = ''secret99''\<rparr>)) [])
    (1200 * second) [] \<lparr>rp_Token = ''tok'', rp_Password = ''other''\<rparr>) = Some ErrInvalidToken"
  by (rule reset_token_single_use [OF demo_inv(1) _ demo_auth_def demo_Reset])
    (simp_all add: draws_reset_def)

text \<open>A reset token is good for fifteen minutes: from then on no trace of operations makes it work.\<close>

lemma reset_token_expires:
  assumes "mem_inv (st_cache st)" and "0 \<le> t" and "a = NewAuthUseCase U MemoryCacher cfg rexp bl cost"
    and "ForgotPassword lib a st t rnd email = (Inr tok, st')" and "tok \<noteq> []"
    and "clock_ok t ops" and "\<forall>x \<in> set ops. fst x \<le> t'" and "t + 15 * minute \<le> t'"
    and "tok \<notin> draws_reset lib ops"
  shows "fst (ResetPassword lib a (foldl (auth_step lib a) st' ops) t' salt
    \<lparr>rp_Token = tok, rp_Password = pw\<rparr>) = Some ErrInvalidToken"
  using ma.forgot_expires_run [OF assms(1,2), of lib U cfg rexp bl cost rnd email tok st' ops t'] assms(3-)
  by (simp add: resetTTL_def)

text \<open>C3. A password reset ends the user's other sessions: a refresh token whose session was stored with
  a version up to the version current at the reset is refused after any trace of later operations,
  for the ninety days the new version is kept.\<close>

theorem password_reset_ends_sessions:
  assumes "jwt_lib_ok (l_jwt lib)" and "mem_inv (st_cache st)" and "0 \<le> t"
    and "gorm_ok G rows" and "a = NewAuthUseCase (NewUserRepository G) MemoryCacher cfg rexp bl cost"
    and "mem_peek (st_cache st) t (resetKeyPrefix @ rp_Token req) = Some (JStr email)"
    and "fst (FindByEmail G (st_db st) email) = Inr user"
    and "ResetPassword lib a st t salt req = (None, st')"
    and "Verify (l_jwt lib) t0 tok cfg = Inr c" and "Subject c = uuid_String (l_uuid lib) (u_ID user)"
    and "mem_peek (st_cache st) t (refreshKeyPrefix @ ID c) = marshal (GoSession (Subject c) v)"
    and "0 \<le> v" and "v \<le> pw_version mem_peek (st_cache st) t (Subject c)"
    and "pw_version mem_peek (st_cache st) t (Subject c) + 1 + int (length ops) < 2 ^ 63"
    and "clock_ok t ops" and "\<forall>x \<in> set ops. fst x \<le> t'" and "t \<le> t'" and "t' < t + 90 * 24 * hour"
    and "ID c \<notin> draws_session ops"
  shows "fst (Refresh lib a (foldl (auth_step lib a) st' ops) t' rA rR tok) = Inl ErrInvalidToken"
proof (rule ResetPassword_None [OF assms(8)])
  fix email' s1 u d1 hash u' d2
  assume g: "get_string (a_cacher a) (st_cache st) t (resetKeyPrefix @ rp_Token req) = (Inr email', s1)"
    and f: "rFindByEmail (a_userRepo a) (st_db st) email' = (Inr u, d1)"
    and up: "rUpdate (a_userRepo a) d1 t (u\<lparr>u_Password := hash\<rparr>) = (Inr u', d2)"
    and c: "st_cache st' = bump_version (a_cacher a)
       (snd (cDel (a_cacher a) s1 t [resetKeyPrefix @ rp_Token req])) t (uuid_String (l_uuid lib) (u_ID u'))"
  have s1: "s1 = snd (cGet (a_cacher a) (st_cache st) t (resetKeyPrefix @ rp_Token req) TString)"
    using g by (metis get_string_snd snd_conv)
  have "email' = email"
    using g assms(5,6) mc.get_total [OF assms(2), of t "resetKeyPrefix @ rp_Token req" TString]
    by (auto simp: get_string_def decode_def split: prod.splits sum.splits gval.splits)
  then have "u = user" using f assms(5,7) by (simp add: NewUserRepository_def)
  moreover have "u_ID u' = u_ID u"
    using up assms(5) gorm_save_law(2) [OF assms(4), of d1 t "u\<lparr>u_Password := hash\<rparr>" u']
      repo_Inr(6) [of G d1 t "u\<lparr>u_Password := hash\<rparr>" u'] by (simp add: NewUserRepository_def)
  ultimately have sub: "uuid_String (l_uuid lib) (u_ID u') = Subject c" using assms(10) by simp
  show ?thesis unfolding assms(5)
    by (rule ma.reset_ends_sessions [OF assms(1-3) _ c [unfolded assms(5) sub], where c = c and v = v])
      (use assms s1 in \<open>auto simp: versionTTL_def intro!: path_get path_del path_refl\<close>)
qed

theorem password_reset_ends_sessions_witness:
  "fst (Refresh demo_lib demo_auth (foldl (auth_step demo_lib demo_auth)
      (snd (ResetPassword demo_lib demo_auth (demo_state 0) (1100 * second) []
         \<lparr>rp_Token = ''tok'', rp_Password = ''secret99''\<rparr>)) [])
    (1300 * second) [7] [8] ''R1'') = Inl ErrInvalidToken"
  by (rule password_reset_ends_sessions [OF demo_jwt_ok demo_inv(1) _ gorm_table_ok demo_auth_def _ _ demo_Reset
        demo_Verify(2) [where t = "1100 * second"], where email = "''a@x''" and user = demo_user and v = 0])
    (simp_all add: demo_peek demo_find demo_db demo_fields demo_uuid demo_user_fields draws_session_def)

text \<open>C26. The version of a session is compared with a counter that itself expires, and starts again
  from zero: when the stored version has lapsed, a reset counts to 1, and a session stored under any
  earlier version from 1 on survives the reset and still refreshes. (With the default lifetimes: a
  reset on day 0, a login on day 89, another reset on day 91.)\<close>

theorem session_survives_reset:
  assumes "jwt_lib_ok (l_jwt lib)" and "mem_inv (st_cache st)" and "0 \<le> t"
    and "a = NewAuthUseCase U MemoryCacher cfg rexp bl cost"
    and "ResetPassword lib a st t salt req = (None, st')"
    and "mem_peek (st_cache st) t (versionKeyPrefix @ Subject c) = None" and "1 \<le> v"
    and "t \<le> t'" and "t' < t + 90 * 24 * hour" and "Verify (l_jwt lib) t' tok cfg = Inr c"
    and "mem_peek (st_cache st') t' (refreshKeyPrefix @ ID c) = marshal (GoSession (Subject c) v)"
    and "uuid_Parse (l_uuid lib) (Subject c) = Inr uid" and "fst (rFindByID U (st_db st') uid) = Inr u"
    and "Sign (l_jwt lib) t' rA (Subject c) [] ''access'' (a_jwtCfg a) = Inr (x, j)"
    and "Sign (l_jwt lib) t' rR (Subject c) [] ''refresh'' (a_refreshCfg a) = Inr (y, j')"
  shows "\<exists>resp. fst (Refresh lib a st' t' rA rR tok) = Inr resp \<and> AccessToken resp = x \<and> RefreshToken resp = y"
proof (rule ResetPassword_None [OF assms(5)])
  fix email s1 u'
  assume g: "get_string (a_cacher a) (st_cache st) t (resetKeyPrefix @ rp_Token req) = (Inr email, s1)"
    and cache: "st_cache st' = bump_version (a_cacher a)
       (snd (cDel (a_cacher a) s1 t [resetKeyPrefix @ rp_Token req])) t (uuid_String (l_uuid lib) (u_ID u'))"
  let ?s2 = "snd (cDel (a_cacher a) s1 t [resetKeyPrefix @ rp_Token req])"
  have path: "cache_path MemoryCacher t (\<lambda>_ _. False) (st_cache st) ?s2"
    using g assms(4) path_string [OF path_refl, of MemoryCacher t "\<lambda>_ _. False" "st_cache st"
      "resetKeyPrefix @ rp_Token req"] by (auto intro: path_del)
  have i2: "mem_inv ?s2" by (rule ma.path_inv [OF _ assms(2)]) (use path in simp)
  have none: "mem_peek ?s2 t' (versionKeyPrefix @ Subject c) = None" if "t \<le> t'" for t'
    using ma.path_avoid [OF _ assms(2,3) that, where W = "\<lambda>_ _. False"] path
      mc.peek_later [OF assms(2) that assms(6)] by (metis a_cacher_New)
  have "pw_version mem_peek (st_cache st') t' (Subject c) \<le> 1"
  proof (cases "uuid_String (l_uuid lib) (u_ID u') = Subject c")
    case True
    have "pw_version mem_peek (bump_version MemoryCacher ?s2 t (Subject c)) t' (Subject c) =
        int64 (pw_version mem_peek ?s2 t (Subject c) + 1)"
      using ma.bump_version_same [OF i2 assms(3,8)] assms(9) by (simp add: versionTTL_def)
    then show ?thesis using cache assms(4) True none [of t] by (simp add: pw_version_def decode_def)
  next
    case False
    then show ?thesis using cache assms(4) ma.bump_version_other [OF i2 assms(3,8)] none [OF assms(8)]
      by (simp add: pw_version_def decode_def)
  qed
  moreover have "mem_inv (st_cache st')"
    using ma.step_inv [OF assms(2), of lib U cfg rexp bl cost t "DoReset salt req"] assms(4,5) by simp
  ultimately show ?thesis
    using ma.refresh_total [where st = st' and U = U and cfg = cfg and rexp = rexp and bl = bl and cost = cost]
      assms(4,7,10-) by fastforce
qed

lemma demo_Reset_state:
  "st_db (snd (ResetPassword demo_lib demo_auth (demo_state 1) (1100 * second) []
      \<lparr>rp_Token = ''tok'', rp_Password = ''secret99''\<rparr>)) =
     [demo_user\<lparr>u_Password := ''$secret99'', u_UpdatedAt := 1100 * second\<rparr>]"
  "mem_peek (st_cache (snd (ResetPassword demo_lib demo_auth (demo_state 1) (1100 * second) []
      \<lparr>rp_Token = ''tok'', rp_Password = ''secret99''\<rparr>))) t (refreshKeyPrefix @ newJTI [2]) =
     marshal (GoSession ''uu'' 1)"
proof -
  have g: "get_string MemoryCacher (st_cache (demo_state 1)) (1100 * second) (resetKeyPrefix @ ''tok'') =
      (Inr ''a@x'', st_cache (demo_state 1))"
    by (simp add: get_string_def MemoryCacher_def mem_Get_def mem_read_def demo_state_def prefixed_def
        entry_expired_def)
  have u: "Update (gorm_table True) [demo_user] (1100 * second) (demo_user\<lparr>u_Password := ''$secret99''\<rparr>) =
      (Inr (demo_user\<lparr>u_Password := ''$secret99'', u_UpdatedAt := 1100 * second\<rparr>),
       [demo_user\<lparr>u_Password := ''$secret99'', u_UpdatedAt := 1100 * second\<rparr>])"
    by (auto simp: Update_def gorm_table_def Let_def live_rows_def demo_user_fields image_iff)
  note ev = ResetPassword_def demo_auth_def demo_find demo_lib_def bcrypt_plain_def demo_db Let_def
  show "st_db (snd (ResetPassword demo_lib demo_auth (demo_state 1) (1100 * second) []
      \<lparr>rp_Token = ''tok'', rp_Password = ''secret99''\<rparr>)) =
     [demo_user\<lparr>u_Password := ''$secret99'', u_UpdatedAt := 1100 * second\<rparr>]"
    using g u by (simp add: ev)
  show "mem_peek (st_cache (snd (ResetPassword demo_lib demo_auth (demo_state 1) (1100 * second) []
      \<lparr>rp_Token = ''tok'', rp_Password = ''secret99''\<rparr>))) t (refreshKeyPrefix @ newJTI [2]) =
     marshal (GoSession ''uu'' 1)"
    using g u
    by (simp add: ev bump_version_eq MemoryCacher_def mem_Set_def mem_Get_def mem_Del_def mem_read_def
        mem_peek_def demo_state_def prefixed_def entry_expired_def)
qed

theorem session_survives_reset_witness:
  "\<exists>resp. fst (Refresh demo_lib demo_auth
      (snd (ResetPassword demo_lib demo_auth (demo_state 1) (1100 * second) []
         \<lparr>rp_Token = ''tok'', rp_Password = ''secret99''\<rparr>)) (1100 * second) [3] [4] ''R1'') = Inr resp \<and>
    AccessToken resp = ''A2'' \<and> RefreshToken resp = ''R2''"
  by (rule session_survives_reset [OF demo_jwt_ok demo_inv(1) _ demo_auth_def demo_Reset _ _ _ _
        demo_Verify(2), where v = 1 and uid = 1 and j = "newJTI [3]" and j' = "newJTI [4]" and
        u = "demo_user\<lparr>u_Password := ''$secret99'', u_UpdatedAt := 1100 * second\<rparr>"])
    (use demo_Sign demo_Reset_state in
      \<open>simp_all add: demo_peek demo_fields demo_uuid demo_find demo_auth_def [symmetric]\<close>,
     use demo_Sign in \<open>simp_all add: demo_auth_def\<close>)

text \<open>C6. The tokens of a login work, each for its own lifetime. Until its expiry date the access token passes the middleware (its
  identifier not being revoked) and identifies the user found by the email. Until the end of the refresh lifetime, however long the
  access token has expired, the refresh token can be exchanged for a new pair as long as the user exists and the library signs.\<close>

theorem login_tokens_work:
  assumes "jwt_lib_ok (l_jwt lib)" and "uuid_ok (l_uuid lib)" and "mem_inv (st_cache st)" and "0 \<le> t"
    and "a = NewAuthUseCase U MemoryCacher cfg rexp (Some MemoryBlacklist) cost" and "0 < rexp"
    and "Login lib a st t rA rR req = (Inr resp, st')"
    and "fst (rFindByEmail U (st_db st) (li_Email req)) = Inr u"
    and "list_all (\<lambda>x. x < 256) rA" and "list_all (\<lambda>x. x < 256) rR"
    and "list_all ascii [uuid_String (l_uuid lib) (u_ID u), Issuer cfg, Audience cfg]"
    and "t \<le> t'"
  shows "(t' < NewNumericDate (l_jwt lib) (t + eff_expiry cfg) \<and> rA \<noteq> [] \<and> \<not> mbl_revoked (st_bl st) t' (newJTI rA) \<longrightarrow>
           (\<exists>claims. fst (Middleware (l_jwt lib) cfg [Some MemoryBlacklist] (st_bl st') t' (''Bearer '' @ AccessToken resp)) = Inr claims \<and>
            Subject claims = uuid_String (l_uuid lib) (u_ID u))) \<and>
         (t' < NewNumericDate (l_jwt lib) (t + rexp) \<and>
            0 \<le> pw_version mem_peek (st_cache st) t (uuid_String (l_uuid lib) (u_ID u)) \<and>
            fst (rFindByID U (st_db st') (u_ID u)) = Inr u' \<and>
            Sign (l_jwt lib) t' rA' (uuid_String (l_uuid lib) (u_ID u)) [] ''access'' (a_jwtCfg a) = Inr (x, j) \<and>
            Sign (l_jwt lib) t' rR' (uuid_String (l_uuid lib) (u_ID u)) [] ''refresh'' (a_refreshCfg a) = Inr (y, j') \<longrightarrow>
           (\<exists>resp'. fst (Refresh lib a st' t' rA' rR' (RefreshToken resp)) = Inr resp' \<and>
            AccessToken resp' = x \<and> RefreshToken resp' = y))"
proof (rule Login_Inr [OF assms(7)])
  fix w d s
  assume f: "rFindByEmail (a_userRepo a) (st_db st) (li_Email req) = (Inr w, d)"
    and iss: "issueTokenPair lib a (st_cache st) t rA rR (uuid_String (l_uuid lib) (u_ID w)) = (Inr resp, s)"
    and st': "st' = st\<lparr>st_db := d, st_cache := s\<rparr>"
  let ?sub = "uuid_String (l_uuid lib) (u_ID u)"
  have w: "w = u" using f assms(5,8) by simp
  note S = issueTokenPair_Inr(1,2) [OF iss, unfolded w]
  have ty: "list_all ascii [''access'', ''refresh'']" by (simp add: ascii_def ord_char_def)
  have one: "\<exists>claims. fst (Middleware (l_jwt lib) cfg [Some MemoryBlacklist] (st_bl st') t' (''Bearer '' @ AccessToken resp)) = Inr claims \<and>
      Subject claims = ?sub"
    if live: "t' < NewNumericDate (l_jwt lib) (t + eff_expiry cfg)" "rA \<noteq> []" "\<not> mbl_revoked (st_bl st) t' (newJTI rA)"
  proof -
    have va: "Verify (l_jwt lib) t' (AccessToken resp) cfg = Inr (signed_claims (l_jwt lib) t rA ?sub [] ''access'' cfg)"
      by (rule Sign_Verify [OF assms(1)]) (use S(1) assms ty live(1) in auto)
    have "newJTI rA \<noteq> []" using live(2) newJTI_length [of rA] by auto
    then have "fst (bIsRevoked MemoryBlacklist (st_bl st') t' (newJTI rA)) = Inr False"
      using mem_IsRevoked_result live(3) st' by (simp add: MemoryBlacklist_def)
    then have "fst (Middleware (l_jwt lib) cfg [Some MemoryBlacklist] (st_bl st') t'
        (''Bearer '' @ AccessToken resp)) = Inr (signed_claims (l_jwt lib) t rA ?sub [] ''access'' cfg)"
      using va TrimPrefix_append [of "''Bearer ''" "AccessToken resp"] HasPrefix_append [of "''Bearer ''" "AccessToken resp"]
      by (auto simp: Middleware_def signed_claims_def split: prod.splits)
    then show ?thesis by (auto simp: signed_claims_def)
  qed
  let ?c = "signed_claims (l_jwt lib) t rR ?sub [] ''refresh'' (a_refreshCfg a)"
  have two: "\<exists>resp'. fst (Refresh lib a st' t' rA' rR' (RefreshToken resp)) = Inr resp' \<and> AccessToken resp' = x \<and> RefreshToken resp' = y"
    if live: "t' < NewNumericDate (l_jwt lib) (t + rexp)" and pw: "0 \<le> pw_version mem_peek (st_cache st) t ?sub"
      and found: "fst (rFindByID U (st_db st') (u_ID u)) = Inr u'"
      and sign: "Sign (l_jwt lib) t' rA' ?sub [] ''access'' (a_jwtCfg a) = Inr (x, j)"
        "Sign (l_jwt lib) t' rR' ?sub [] ''refresh'' (a_refreshCfg a) = Inr (y, j')"
  proof -
    have vr: "Verify (l_jwt lib) t' (RefreshToken resp) (a_refreshCfg a) = Inr ?c"
      by (rule Sign_Verify [OF assms(1) S(2)]) (use assms ty live in \<open>auto simp: NewAuthUseCase_def\<close>)
    have rexp: "Expiry (a_refreshCfg a) = rexp" using assms(5) by (simp add: NewAuthUseCase_def)
    have "t' < t + rexp" using live jwt_numeric_date(1) [OF assms(1), of "t + rexp"] by simp
    then have sess: "mem_peek (st_cache st') t' (refreshKeyPrefix @ newJTI rR) =
        marshal (GoSession ?sub (pw_version mem_peek (st_cache st) t ?sub))"
      using ma.login_session [OF assms(3,4), of lib U cfg rexp _ cost rA rR req resp st' t'] assms(5-8,12) rexp by auto
    have i': "mem_inv (st_cache st')"
      using ma.step_inv [OF assms(3), of lib U cfg rexp "Some MemoryBlacklist" cost t "DoLogin rA rR req"] assms(5,7)
      by simp
    have "cache_path MemoryCacher t (op_stores lib (DoLogin rA rR req)) (st_cache st) (st_cache st')"
      using auth_step_path [of a t lib "DoLogin rA rR req" st] assms(5,7) by simp
    then have "pw_version mem_peek (st_cache st') t' ?sub = pw_version mem_peek (st_cache st) t' ?sub"
      by (intro ma.path_version_frame [OF _ assms(3,4,12)]) (auto dest: stores_writes)
    then have ver: "pw_version mem_peek (st_cache st') t' ?sub \<le> pw_version mem_peek (st_cache st) t ?sub"
      using mc.peek_fade [OF assms(3,12), of "versionKeyPrefix @ ?sub"] pw
      by (auto simp: pw_version_def decode_def)
    show ?thesis
      unfolding assms(5)
      by (rule ma.refresh_total [OF i', where c = ?c and uid = "u_ID u" and u = u'])
        (use vr sess ver found sign assms in \<open>simp_all add: signed_claims_def uuid_ok_def\<close>)
  qed
  show ?thesis using one two by blast
qed

lemma demo_Login: "\<exists>resp. Login demo_lib demo_auth (demo_state 0) (1000 * second) [1] [2]
      \<lparr>li_Email = ''a@x'', li_Password = ''secret12''\<rparr> =
    (Inr resp, snd (Login demo_lib demo_auth (demo_state 0) (1000 * second) [1] [2]
      \<lparr>li_Email = ''a@x'', li_Password = ''secret12''\<rparr>)) \<and> AccessToken resp = ''A1'' \<and> RefreshToken resp = ''R1''"
  "st_db (snd (Login demo_lib demo_auth (demo_state 0) (1000 * second) [1] [2]
      \<lparr>li_Email = ''a@x'', li_Password = ''secret12''\<rparr>)) = [demo_user]"
proof -
  obtain resp s where "issueTokenPair demo_lib demo_auth (st_cache (demo_state 0)) (1000 * second) [1] [2] ''uu'' = (Inr resp, s)"
    "AccessToken resp = ''A1''" "RefreshToken resp = ''R1''"
    using ma.issue_total [OF demo_inv(1), where lib = demo_lib, folded demo_auth_def]
      demo_Sign(1,2) unfolding demo_auth_def by (metis a_jwtCfg_New ma.issue_total demo_inv(1))
  moreover have "CompareHashAndPassword (l_bcrypt demo_lib) (u_Password demo_user) ''secret12'' = None"
    by (simp add: demo_lib_def bcrypt_plain_def demo_user_def)
  ultimately show "\<exists>resp. Login demo_lib demo_auth (demo_state 0) (1000 * second) [1] [2]
      \<lparr>li_Email = ''a@x'', li_Password = ''secret12''\<rparr> =
    (Inr resp, snd (Login demo_lib demo_auth (demo_state 0) (1000 * second) [1] [2]
      \<lparr>li_Email = ''a@x'', li_Password = ''secret12''\<rparr>)) \<and> AccessToken resp = ''A1'' \<and> RefreshToken resp = ''R1''"
   and "st_db (snd (Login demo_lib demo_auth (demo_state 0) (1000 * second) [1] [2]
      \<lparr>li_Email = ''a@x'', li_Password = ''secret12''\<rparr>)) = [demo_user]"
    by (simp_all add: Login_def demo_auth_def demo_db demo_find demo_uuid demo_user_fields)
qed

theorem login_tokens_work_witness:
  "\<exists>resp :: LoginResponse. (\<exists>claims. fst (Middleware (l_jwt demo_lib) demo_cfg [Some MemoryBlacklist]
        (st_bl (snd (Login demo_lib demo_auth (demo_state 0) (1000 * second) [1] [2]
           \<lparr>li_Email = ''a@x'', li_Password = ''secret12''\<rparr>))) (1100 * second)
        (''Bearer '' @ AccessToken resp)) = Inr claims \<and>
        Subject claims = uuid_String (l_uuid demo_lib) (u_ID demo_user)) \<and>
     (\<exists>resp'. fst (Refresh demo_lib demo_auth (snd (Login demo_lib demo_auth (demo_state 0) (1000 * second) [1] [2]
           \<lparr>li_Email = ''a@x'', li_Password = ''secret12''\<rparr>)) (1100 * second) [3] [4] (RefreshToken resp)) = Inr resp' \<and>
        AccessToken resp' = ''A2'' \<and> RefreshToken resp' = ''R2'')"
proof -
  obtain resp where r: "Login demo_lib demo_auth (demo_state 0) (1000 * second) [1] [2]
      \<lparr>li_Email = ''a@x'', li_Password = ''secret12''\<rparr> =
    (Inr resp, snd (Login demo_lib demo_auth (demo_state 0) (1000 * second) [1] [2]
      \<lparr>li_Email = ''a@x'', li_Password = ''secret12''\<rparr>))"
    using demo_Login(1) by blast
  have uu: "uuid_String (l_uuid demo_lib) (u_ID demo_user) = ''uu''" by (simp add: demo_user_fields demo_uuid)
  have nd: "NewNumericDate (l_jwt demo_lib) = numeric_date" by (simp add: demo_lib_def jwt_table_def)
  have L: "list_all (\<lambda>x. x < 256) [1 :: nat]" "list_all (\<lambda>x. x < 256) [2 :: nat]"
    "list_all ascii [uuid_String (l_uuid demo_lib) (u_ID demo_user), Issuer demo_cfg, Audience demo_cfg]"
    by (simp_all add: uu demo_settings ascii_def ord_char_def)
  have "fst (rFindByEmail (NewUserRepository (gorm_table True)) (st_db (demo_state 0)) ''a@x'') = Inr demo_user" by (simp add: demo_db demo_find)
  then have F: "fst (rFindByEmail (NewUserRepository (gorm_table True)) (st_db (demo_state 0)) (li_Email \<lparr>li_Email = ''a@x'', li_Password = ''secret12''\<rparr>)) = Inr demo_user"
    by simp
  have U: "uuid_ok (l_uuid demo_lib)" by (rule demo_settings(1))
  show ?thesis
    by (rule exI [of _ resp])
      (use login_tokens_work [OF demo_jwt_ok U demo_inv(1) _ demo_auth_def _ r F L, of "1100 * second"
          demo_user "[3]" "''A2''" "newJTI [3]" "[4]" "''R2''" "newJTI [4]"]
        demo_Sign demo_Login(2) in \<open>simp add: demo_db demo_find demo_peek demo_user_fields demo_uuid uu nd mbl_revoked_def demo_settings numeric_date_def\<close>)
qed

text \<open>No token the service issues carries a role: every route behind \<^verbatim>\<open>RequireRole\<close> (deleting a user
  requires \<^verbatim>\<open>admin\<close>) answers 403 to every user who logged in or refreshed.\<close>

lemma issued_tokens_have_no_role:
  assumes "jwt_lib_ok (l_jwt lib)"
    and "issueTokenPair lib a s t rA rR sub = (Inr resp, s')"
    and "list_all (\<lambda>x. x < 256) rA" and "list_all ascii [sub, Issuer (a_jwtCfg a), Audience (a_jwtCfg a)]"
    and "t < NewNumericDate (l_jwt lib) (t + eff_expiry (a_jwtCfg a))"
    and "fst (Middleware (l_jwt lib) (a_jwtCfg a) bls b t' (''Bearer '' @ AccessToken resp)) = Inr claims"
  shows "RequireRole allowed (Some claims) = Inl ErrForbidden"
proof -
  note S = issueTokenPair_Inr(1) [OF assms(2)]
  have "Verify (l_jwt lib) t (AccessToken resp) (a_jwtCfg a) =
      Inr (signed_claims (l_jwt lib) t rA sub [] ''access'' (a_jwtCfg a))"
    by (rule Sign_Verify [OF assms(1) S])
      (use assms(3-5) in \<open>auto simp: ascii_def [of "''access''"] ord_char_def\<close>)
  moreover have "Verify (l_jwt lib) t' (AccessToken resp) (a_jwtCfg a) = Inr claims"
    using Middleware_Inr [OF assms(6)] TrimPrefix_append [of "''Bearer ''" "AccessToken resp"] by simp
  ultimately have "Roles claims = []"
    using Verify_payload [OF assms(1)] by (metis (no_types) signed_claims_Roles)
  then show ?thesis by (simp add: RequireRole_def GetClaims_def)
qed

text \<open>C23. The middleware lets a request through only with a bearer token that the library has parsed under HS256 alone, with the
  configured secret of at least 32 bytes as its key, that has an expiry date and is before it, that is not from the future, whose
  issuer and audience are the configured ones (where these are set), that is an access token (or has no type, as tokens from before
  that claim), and that is not on the blacklist (the in-process one, which always answers).\<close>

theorem middleware_admits_only:
  assumes "jwt_lib_ok L" and "wf_gomap s"
    and "fst (Middleware L cfg [Some MemoryBlacklist] s now raw) = Inr c"
  shows "\<exists>tok opts key v e. raw = ''Bearer '' @ tok \<and> ParseWithClaims L opts now key tok = Inr (c, v) \<and>
    validMethods opts = [''HS256''] \<and> key ''HS256'' = Inr (Secret cfg) \<and> 32 \<le> length (Secret cfg) \<and>
    ExpiresAt c = Some e \<and> now < e \<and> (\<forall>d. NotBefore c = Some d \<or> IssuedAt c = Some d \<longrightarrow> d \<le> now) \<and>
    (Issuer cfg \<noteq> [] \<longrightarrow> iss c = Issuer cfg) \<and> (Audience cfg \<noteq> [] \<longrightarrow> Audience cfg \<in> set (aud c)) \<and>
    TokenType c \<in> {[], ''access''} \<and> (ID c = [] \<or> \<not> mbl_revoked s now (ID c))"
proof -
  note M = Middleware_Inr [OF assms(3)]
  obtain tok where tok: "raw = ''Bearer '' @ tok" using M(1) unfolding HasPrefix_iff by blast
  then have v: "Verify L now tok cfg = Inr c" using M(2) TrimPrefix_append [of "''Bearer ''" tok] by simp
  obtain pv where pv: "ParseWithClaims L (verify_opts cfg) now (verify_key cfg) tok = Inr (c, pv)" using Verify_Inr(2) [OF v] by blast
  have "ID c = [] \<or> \<not> mbl_revoked s now (ID c)"
    using M(4) [OF refl] mbl.isrevoked_total [OF assms(2), of "ID c" now] by auto
  moreover note Verify_claims_valid [OF assms(1) v] Verify_ExpiresAt [OF assms(1) v]
  ultimately show ?thesis
    using tok pv Verify_Inr(1) [OF v] M(3)
    by (intro exI [of _ tok] exI [of _ "verify_opts cfg"] exI [of _ "verify_key cfg"] exI [of _ pv])
      (auto simp: claims_valid_def verify_opts_def verify_key_def split: option.splits)
qed

theorem middleware_admits_only_witness:
  "\<exists>tok opts key v. ''Bearer '' @ ''A1'' = ''Bearer '' @ tok \<and> ParseWithClaims (l_jwt demo_lib) opts (1100 * second) key tok =
      Inr (demo_claims (1000 * second) [1] ''access'' (900 * second), v) \<and> key ''HS256'' = Inr (Secret demo_cfg)"
proof -
  have "fst (Middleware (l_jwt demo_lib) demo_cfg [Some MemoryBlacklist] [] (1100 * second) (''Bearer '' @ ''A1'')) =
      Inr (demo_claims (1000 * second) [1] ''access'' (900 * second))"
    using demo_Verify(1) [of "1100 * second"] TrimPrefix_append [of "''Bearer ''" "''A1''"]
    by (simp add: Middleware_def HasPrefix_append [of "''Bearer ''", simplified] demo_claims_def MemoryBlacklist_def mem_IsRevoked_def)
  from middleware_admits_only [OF demo_jwt_ok _ this] show ?thesis by fastforce
qed

text \<open>C24. A signed token verifies to exactly the identity, roles and type it was signed with, under any
  configuration with the same secret, issuer and audience, from the second it is signed in until its
  expiry date, and never again after it.\<close>

theorem sign_verify_lifetime:
  assumes "jwt_lib_ok L" and "Sign L now rnd subject roles typ cfg = Inr (tok, jti)"
    and "list_all (\<lambda>x. x < 256) rnd" and "list_all ascii (subject # Issuer cfg # Audience cfg # typ # roles)"
    and "second \<le> eff_expiry cfg"
    and "Secret cfg' = Secret cfg" and "Issuer cfg' = Issuer cfg" and "Audience cfg' = Audience cfg"
  shows "\<exists>e c. now + eff_expiry cfg - second < e \<and> e \<le> now + eff_expiry cfg \<and>
    Subject c = subject \<and> Roles c = roles \<and> TokenType c = typ \<and> ID c = jti \<and>
    (\<forall>t. now \<le> t \<and> t < e \<longrightarrow> Verify L t tok cfg' = Inr c) \<and>
    (\<forall>t. e \<le> t \<longrightarrow> isl (Verify L t tok cfg'))"
proof -
  let ?e = "NewNumericDate L (now + eff_expiry cfg)" and ?c = "signed_claims L now rnd subject roles typ cfg"
  have e: "now + eff_expiry cfg - second < ?e" "?e \<le> now + eff_expiry cfg"
    using jwt_numeric_date [OF assms(1), of "now + eff_expiry cfg"] by linarith+
  have ok: "now \<le> t \<Longrightarrow> t < ?e \<Longrightarrow> Verify L t tok cfg' = Inr ?c" for t
    by (rule Sign_Verify [OF assms(1-4) _ _ assms(6-8)])
  have now: "Verify L now tok cfg' = Inr ?c" using ok [of now] e assms(5) by simp
  have "isl (Verify L t tok cfg')" if "?e \<le> t" for t
    using Verify_expired [OF assms(1) now _ that, of cfg'] by (auto simp: signed_claims_def)
  then show ?thesis using e ok Sign_Inr(2) [OF assms(2)]
    by (intro exI [of _ ?e] exI [of _ ?c]) (auto simp: signed_claims_def)
qed

theorem sign_verify_lifetime_witness:
  "\<exists>e c. 1000 * second + eff_expiry demo_cfg - second < e \<and> e \<le> 1000 * second + eff_expiry demo_cfg \<and>
    Subject c = ''uu'' \<and> Roles c = [] \<and> TokenType c = ''access'' \<and> ID c = newJTI [1] \<and>
    (\<forall>t. 1000 * second \<le> t \<and> t < e \<longrightarrow> Verify (l_jwt demo_lib) t ''A1'' demo_cfg = Inr c) \<and>
    (\<forall>t. e \<le> t \<longrightarrow> isl (Verify (l_jwt demo_lib) t ''A1'' demo_cfg))"
  by (rule sign_verify_lifetime [OF demo_jwt_ok demo_Sign(1)])
    (simp_all add: demo_cfg_def ascii_def ord_char_def)

text \<open>C7. The authentication cache is typed. Started on an empty in-process cache, after any trace of operations by
  whatever clients, every live key is one of the three kinds, and reading a key at the type of its kind gives a value of
  that type or a miss: the service never meets a document of another type, so no operation fails in decoding.\<close>

theorem auth_cache_typed:
  assumes "a = NewAuthUseCase U MemoryCacher cfg rexp bl cost" and "st_cache st = New_mem ns" and "0 \<le> t"
    and "clock_ok t ops" and "\<forall>x \<in> set ops. fst x \<le> t'" and "t \<le> t'"
    and "s = st_cache (foldl (auth_step lib a) st ops)"
  shows "(mem_peek s t' k \<noteq> None \<longrightarrow> key_type k \<noteq> None) \<and>
    (key_type k = Some ty \<longrightarrow>
       fst (mem_Get s t' k ty) = Inl ErrCacheMiss \<or> (\<exists>v. fst (mem_Get s t' k ty) = Inr v \<and> val_type v = Some ty))"
proof -
  have "mem_peek (st_cache st) u k = None" for u k using assms(2) by (simp add: New_mem_def mem_peek_def)
  then have ty0: "ma.cache_typed (st_cache st) t" by (simp add: ma.cache_typed_def doc_typed_def)
  have inv0: "mem_inv (st_cache st)" using assms(2) by (simp add: New_mem_def mem_inv_def)
  have "ma.cache_typed s t'" "mem_inv s"
    using ma.run_typed [OF inv0 assms(3-6) ty0, of lib U cfg rexp bl cost] assms(1,7) by simp_all
  then have D: "doc_typed k (mem_peek s t' k)" by (simp add: ma.cache_typed_def)
  show ?thesis
  proof (intro conjI impI)
    show "key_type k \<noteq> None" if "mem_peek s t' k \<noteq> None" using D that by (metis doc_typed_def)
    show "fst (mem_Get s t' k ty) = Inl ErrCacheMiss \<or> (\<exists>v. fst (mem_Get s t' k ty) = Inr v \<and> val_type v = Some ty)"
      if "key_type k = Some ty" unfolding mem_Get_result by (rule typed_decode [OF D that])
  qed
qed

theorem auth_cache_typed_witness:
  "fst (mem_Get (st_cache (foldl (auth_step demo_lib demo_auth) ((demo_state 0)\<lparr>st_cache := New_mem []\<rparr>)
      [(1000 * second, DoForgot 7 ''a@x''), (1100 * second, DoRefresh [3] [4] ''R1'')])) (1200 * second)
      (resetKeyPrefix @ uuid_String (l_uuid demo_lib) 7) TString) \<noteq> Inl CacheGetUnmarshal"
proof -
  let ?s = "st_cache (foldl (auth_step demo_lib demo_auth) ((demo_state 0)\<lparr>st_cache := New_mem []\<rparr>)
      [(1000 * second, DoForgot 7 ''a@x''), (1100 * second, DoRefresh [3] [4] ''R1'')])"
  let ?k = "resetKeyPrefix @ uuid_String (l_uuid demo_lib) 7"
  have k: "key_type ?k = Some TString"
    by (simp add: key_type_def refreshKeyPrefix_def resetKeyPrefix_def HasPrefix_iff)
  have T: "fst (mem_Get ?s (1200 * second) ?k TString) = Inl ErrCacheMiss \<or>
      (\<exists>v. fst (mem_Get ?s (1200 * second) ?k TString) = Inr v \<and> val_type v = Some TString)"
    using auth_cache_typed [OF demo_auth_def _ _ _ _ _ refl, of "(demo_state 0)\<lparr>st_cache := New_mem []\<rparr>" "[]" 0
      "[(1000 * second, DoForgot 7 ''a@x''), (1100 * second, DoRefresh [3] [4] ''R1'')]" "1200 * second" demo_lib ?k TString] k
    by simp
  then show ?thesis by (metis Inl_inject Inr_not_Inl cache_err.distinct(3))
qed

end
