(* ===== verification/Rate_Limit.thy ===== *)
theory Rate_Limit
  imports Prelude
begin

text \<open>
  \<^verbatim>\<open>pkg/ratelimit\<close> (the \<^verbatim>\<open>Limiter\<close> interface, the in-process limiter \<^verbatim>\<open>memory.go\<close> and the Redis
  limiter \<^verbatim>\<open>redis.go\<close>) and the Fiber middleware \<^verbatim>\<open>internal/delivery/http/middleware/ratelimit.go\<close>.

  The locale \<open>limiter\<close> is the contract of a fixed-window limiter: each key has a window with a count
  and an end. Both implementations keep it; the quota is derived from it once.
\<close>

section \<open>The interface\<close>

record rl_result =
  Allowed :: bool
  Remaining :: int
  RetryAfter :: duration

record 'l Limiter =
  lAllow :: "'l \<Rightarrow> time \<Rightarrow> string \<Rightarrow> (string + rl_result) \<times> 'l"

section \<open>The memory limiter\<close>

definition rl_sweepThreshold :: nat where
  "rl_sweepThreshold = 4096"

record windowState =
  w_count :: int
  w_resetAt :: time

record MemoryLimiter =
  ml_max :: int
  ml_window :: duration
  ml_m :: "windowState gomap"

definition NewMemory :: "int \<Rightarrow> duration \<Rightarrow> MemoryLimiter" where
  "NewMemory mx window = \<lparr>ml_max = (if mx \<le> 0 then 100 else mx),
     ml_window = (if window \<le> 0 then minute else window), ml_m = []\<rparr>"

definition rl_sweepLocked :: "MemoryLimiter \<Rightarrow> time \<Rightarrow> MemoryLimiter" where
  "rl_sweepLocked m now = m\<lparr>ml_m := gomap_purge (\<lambda>w. \<not> now < w_resetAt w) (ml_m m)\<rparr>"

text \<open>The window a call at \<open>now\<close> counts in, after the increment.\<close>

definition next_window :: "duration \<Rightarrow> time \<Rightarrow> windowState option \<Rightarrow> windowState" where
  "next_window window now old =
     (let w = (case old of
                 None \<Rightarrow> \<lparr>w_count = 0, w_resetAt = now + window\<rparr>
               | Some w \<Rightarrow> if \<not> now < w_resetAt w then \<lparr>w_count = 0, w_resetAt = now + window\<rparr> else w)
      in w\<lparr>w_count := w_count w + 1\<rparr>)"

definition mem_Allow :: "MemoryLimiter \<Rightarrow> time \<Rightarrow> string \<Rightarrow> rl_result \<times> MemoryLimiter" where
  "mem_Allow m now key =
     (let m1 = (if length (ml_m m) \<ge> rl_sweepThreshold then rl_sweepLocked m now else m);
          w = next_window (ml_window m) now (map_of (ml_m m1) key);
          m2 = m1\<lparr>ml_m := AList.update key w (ml_m m1)\<rparr>
      in if w_count w > ml_max m
         then (\<lparr>Allowed = False, Remaining = 0, RetryAfter = w_resetAt w - now\<rparr>, m2)
         else (\<lparr>Allowed = True, Remaining = ml_max m - w_count w, RetryAfter = 0\<rparr>, m2))"

definition MemLimiter :: "MemoryLimiter Limiter" where
  "MemLimiter = \<lparr>lAllow = (\<lambda>m now key. apfst Inr (mem_Allow m now key))\<rparr>"

section \<open>The Redis limiter\<close>

text \<open>The commands of the script, which the server runs as one, are the parameter: INCR, PEXPIRE (in
  milliseconds) and PTTL. \<open>rl_down\<close> is the error of the call when the server cannot be reached.\<close>

record 'r redis_counters =
  rk_down :: "'r \<Rightarrow> time \<Rightarrow> string option"
  rk_INCR :: "'r \<Rightarrow> time \<Rightarrow> string \<Rightarrow> int \<times> 'r"
  rk_PEXPIRE :: "'r \<Rightarrow> time \<Rightarrow> string \<Rightarrow> int \<Rightarrow> 'r"
  rk_PTTL :: "'r \<Rightarrow> time \<Rightarrow> string \<Rightarrow> int"

definition incrWindowScript :: "'r redis_counters \<Rightarrow> 'r \<Rightarrow> time \<Rightarrow> string \<Rightarrow> int \<Rightarrow> int list \<times> 'r" where
  "incrWindowScript R s now key ms =
     (case rk_INCR R s now key of (c, s1) \<Rightarrow>
        let s2 = (if c = 1 then rk_PEXPIRE R s1 now key ms else s1)
        in ([c, rk_PTTL R s2 now key], s2))"

record RedisLimiter =
  rd_prefix :: string
  rd_max :: int
  rd_window :: duration

definition NewRedis :: "string \<Rightarrow> int \<Rightarrow> duration \<Rightarrow> RedisLimiter" where
  "NewRedis prefix mx window = \<lparr>rd_prefix = (if prefix = [] then ''ratelimit'' else prefix),
     rd_max = (if mx \<le> 0 then 100 else mx), rd_window = (if window \<le> 0 then minute else window)\<rparr>"

definition rl_key :: "RedisLimiter \<Rightarrow> string \<Rightarrow> string" where
  "rl_key r key = rd_prefix r @ '':'' @ key"

definition redis_Allow ::
  "'r redis_counters \<Rightarrow> RedisLimiter \<Rightarrow> 'r \<Rightarrow> time \<Rightarrow> string \<Rightarrow> (string + rl_result) \<times> 'r" where
  "redis_Allow R r s now key =
     (case rk_down R s now of
        Some e \<Rightarrow> (Inl (wrap ''rate limit'' e), s)
      | None \<Rightarrow>
          (case incrWindowScript R s now (rl_key r key) (go_div (rd_window r) millisecond) of
             ([cnt, ttlMs], s') \<Rightarrow>
               if cnt > rd_max r then
                 let retryAfter = (if ttlMs \<le> 0 then rd_window r else ttlMs * millisecond)
                 in (Inr \<lparr>Allowed = False, Remaining = 0, RetryAfter = retryAfter\<rparr>, s')
               else (Inr \<lparr>Allowed = True, Remaining = rd_max r - cnt, RetryAfter = 0\<rparr>, s')
           | (_, s') \<Rightarrow> (Inl ''rate limit: unexpected script reply'', s')))"

definition RdLimiter :: "'r redis_counters \<Rightarrow> RedisLimiter \<Rightarrow> 'r Limiter" where
  "RdLimiter R r = \<lparr>lAllow = redis_Allow R r\<rparr>"

section \<open>The middleware\<close>

definition maxInt :: "int \<Rightarrow> int \<Rightarrow> int" where
  "maxInt a b = (if a > b then a else b)"

text \<open>\<open>LNext\<close> calls the next handler, with the headers set so far; \<open>LTooMany\<close> answers 429 with the fixed
  body \<^verbatim>\<open>{"status": false, "code": "ERR_RATE_LIMIT", ...}\<close>. The first argument is the limiter the
  middleware was built with, after \<open>limiter_or_default\<close> below replaced a nil one.\<close>

datatype limited = LNext "(string \<times> string) list" | LTooMany "(string \<times> string) list"

definition RateLimiterWith :: "'l Limiter \<Rightarrow> 'l \<Rightarrow> time \<Rightarrow> string \<Rightarrow> limited \<times> 'l" where
  "RateLimiterWith L s now ip =
     (case lAllow L s now ip of
        (Inl e, s') \<Rightarrow> (LNext [], s')
      | (Inr res, s') \<Rightarrow>
          let hs = [(''X-RateLimit-Remaining'', Itoa (maxInt (Remaining res) 0))] in
          if \<not> Allowed res then
            let secs = go_div (RetryAfter res) second;
                retryAfter = (if secs < 1 then 1 else secs)
            in (LTooMany (hs @ [(''Retry-After'', Itoa retryAfter)]), s')
          else (LNext hs, s'))"

definition StrictRateLimiter :: "int \<Rightarrow> duration \<Rightarrow> MemoryLimiter Limiter \<times> MemoryLimiter" where
  "StrictRateLimiter mx window = (MemLimiter, NewMemory mx window)"

text \<open>The limiter of the environment: \<open>envMax\<close> and \<open>envWindow\<close> are what \<^verbatim>\<open>strconv.Atoi\<close> and
  \<^verbatim>\<open>time.ParseDuration\<close> give for the two variables (\<open>None\<close>: unset, empty or malformed).\<close>

definition defaultLimiter :: "int option \<Rightarrow> duration option \<Rightarrow> MemoryLimiter" where
  "defaultLimiter envMax envWindow =
     NewMemory (case envMax of Some n \<Rightarrow> if n > 0 then n else 100 | None \<Rightarrow> 100)
       (case envWindow of Some d \<Rightarrow> if d > 0 then d else minute | None \<Rightarrow> minute)"

definition RateLimiter :: "int option \<Rightarrow> duration option \<Rightarrow> MemoryLimiter Limiter \<times> MemoryLimiter" where
  "RateLimiter envMax envWindow = (MemLimiter, defaultLimiter envMax envWindow)"

text \<open>A nil limiter is replaced when the middleware is built; the state is that of the limiter in use.\<close>

definition limiter_or_default ::
  "int option \<Rightarrow> duration option \<Rightarrow> ('l Limiter \<times> 'l) option \<Rightarrow> ('l + MemoryLimiter) Limiter \<times> ('l + MemoryLimiter)" where
  "limiter_or_default envMax envWindow l =
     (\<lparr>lAllow = (\<lambda>s now key. case s of
          Inl x \<Rightarrow> (case l of Some (L, _) \<Rightarrow> apsnd Inl (lAllow L x now key)
                     | None \<Rightarrow> (Inl ''nil limiter'', Inl x))
        | Inr m \<Rightarrow> apsnd Inr (lAllow MemLimiter m now key))\<rparr>,
      case l of Some (_, x) \<Rightarrow> Inl x | None \<Rightarrow> Inr (defaultLimiter envMax envWindow))"

section \<open>The contract\<close>

text \<open>The window a call at \<open>t\<close> counts in, given the one that is open: its count and its end.\<close>

definition bump :: "duration \<Rightarrow> time \<Rightarrow> (int \<times> time) option \<Rightarrow> int \<times> time" where
  "bump win t v = (case v of None \<Rightarrow> (1, t + win) | Some (c, r) \<Rightarrow> (c + 1, r))"

definition open_at :: "time \<Rightarrow> int \<times> time \<Rightarrow> (int \<times> time) option" where
  "open_at t v = (if t < snd v then Some v else None)"

locale limiter =
  fixes L :: "'l Limiter"
    and view :: "'l \<Rightarrow> time \<Rightarrow> string \<Rightarrow> (int \<times> time) option"
    and inv :: "time \<Rightarrow> 'l \<Rightarrow> bool"
    and mx :: int
    and win :: duration
  assumes win_pos: "0 < win"
    and mx_pos: "0 < mx"
    and inv_later: "inv t s \<Longrightarrow> t \<le> t' \<Longrightarrow> inv t' s"
    and inv_allow: "inv t s \<Longrightarrow> inv t (snd (lAllow L s t k))"
    and allow_view: "inv t s \<Longrightarrow> fst (lAllow L s t k) = Inr res \<Longrightarrow> t \<le> t' \<Longrightarrow>
      view (snd (lAllow L s t k)) t' k' = (if k' = k then open_at t' (bump win t (view s t k)) else view s t' k')"
    and allow_result: "inv t s \<Longrightarrow> fst (lAllow L s t k) = Inr res \<Longrightarrow>
      Allowed res \<longleftrightarrow> fst (bump win t (view s t k)) \<le> mx"
    and allow_fail: "inv t s \<Longrightarrow> fst (lAllow L s t k) = Inl e \<Longrightarrow> t \<le> t' \<Longrightarrow>
      view (snd (lAllow L s t k)) t' = view s t'"
    and view_fade: "inv t s \<Longrightarrow> t \<le> t' \<Longrightarrow>
      view s t' k = (case view s t k of None \<Rightarrow> None | Some v \<Rightarrow> open_at t' v)"
    and view_count: "inv t s \<Longrightarrow> view s t k = Some v \<Longrightarrow> 1 \<le> fst v \<and> t < snd v"

text \<open>The calls of a sequence that a key is allowed.\<close>

definition is_allowed :: "string + rl_result \<Rightarrow> bool" where
  "is_allowed r = (case r of Inl _ \<Rightarrow> False | Inr res \<Rightarrow> Allowed res)"

fun allowed_calls :: "'l Limiter \<Rightarrow> 'l \<Rightarrow> string \<Rightarrow> (time \<times> string) list \<Rightarrow> int" where
  "allowed_calls L s k [] = 0"
| "allowed_calls L s k ((t, key) # xs) =
     (if key = k \<and> is_allowed (fst (lAllow L s t key)) then 1 else 0) +
     allowed_calls L (snd (lAllow L s t key)) k xs"

fun timed_from :: "time \<Rightarrow> (time \<times> 'a) list \<Rightarrow> bool" where
  "timed_from t0 [] = True"
| "timed_from t0 ((t, _) # xs) = (t0 \<le> t \<and> timed_from t xs)"

lemma timed_from_ge: "timed_from t0 xs \<Longrightarrow> x \<in> set xs \<Longrightarrow> t0 \<le> fst x"
  by (induction t0 xs rule: timed_from.induct) force+

context limiter
begin

text \<open>Within one open window at most the rest of the quota is allowed.\<close>

lemma quota_in_window:
  assumes "inv t s" "view s t k = Some (c, r)" "timed_from t xs" "\<forall>x \<in> set xs. fst x < r"
  shows "allowed_calls L s k xs \<le> max 0 (mx - c)"
  using assms
proof (induction xs arbitrary: s t c)
  case (Cons x xs)
  obtain u key where x: "x = (u, key)" by (cases x)
  have u: "t \<le> u" "u < r" using Cons.prems x by auto
  let ?s = "snd (lAllow L s u key)"
  have iu: "inv u s" by (rule inv_later [OF Cons.prems(1) u(1)])
  then have i: "inv u ?s" by (rule inv_allow)
  have v: "view s u k = Some (c, r)"
    using view_fade [OF Cons.prems(1) u(1), of k] Cons.prems(2) u(2) by (simp add: open_at_def)
  have rest: "timed_from u xs" "\<forall>x \<in> set xs. fst x < r" using Cons.prems x by simp_all
  show ?case
  proof (cases "key = k \<and> \<not> isl (fst (lAllow L s u key))")
    case True
    then obtain res where res: "fst (lAllow L s u k) = Inr res" by (cases "fst (lAllow L s u k)") auto
    have "view ?s u k = Some (c + 1, r)"
      using allow_view [OF iu res order_refl, of k] v u True by (simp add: bump_def open_at_def)
    note IH = Cons.IH [OF i this rest]
    have "Allowed res \<longleftrightarrow> c + 1 \<le> mx" using allow_result [OF iu res] v by (simp add: bump_def)
    then show ?thesis using IH x True res by (auto simp: is_allowed_def max_def split: if_splits)
  next
    case False
    have "view ?s u k = Some (c, r)"
    proof (cases "fst (lAllow L s u key)")
      case (Inl e)
      then show ?thesis using allow_fail [OF iu Inl order_refl] v by simp
    next
      case (Inr res)
      then show ?thesis using allow_view [OF iu Inr order_refl, of k] v False by simp
    qed
    then show ?thesis using Cons.IH [OF i _ rest] x False by (auto simp: is_allowed_def split: sum.splits)
  qed
qed simp

text \<open>Over a period no longer than a window at most two windows are open.\<close>

lemma quota_in_period:
  assumes "inv t s" "timed_from t xs" "\<forall>x \<in> set xs. fst x < e" "e \<le> t + win"
  shows "allowed_calls L s k xs \<le> (case view s t k of None \<Rightarrow> mx | Some (c, r) \<Rightarrow> max 0 (mx - c) + mx)"
  using assms
proof (induction xs arbitrary: s t)
  case Nil
  then show ?case using mx_pos by (auto split: option.splits)
next
  case (Cons x xs)
  obtain u key where x: "x = (u, key)" by (cases x)
  have u: "t \<le> u" "u < e" "e \<le> u + win" using Cons.prems x by auto
  let ?s = "snd (lAllow L s u key)"
  have iu: "inv u s" by (rule inv_later [OF Cons.prems(1) u(1)])
  then have i: "inv u ?s" by (rule inv_allow)
  have rest: "timed_from u xs" "\<forall>x \<in> set xs. fst x < e" using Cons.prems x by simp_all
  note IH = Cons.IH [OF i rest u(3)]
  have v: "view s u k = (case view s t k of None \<Rightarrow> None | Some v \<Rightarrow> open_at u v)"
    by (rule view_fade [OF Cons.prems(1) u(1)])
  show ?case
  proof (cases "key = k \<and> \<not> isl (fst (lAllow L s u key))")
    case True
    then obtain res where res: "fst (lAllow L s u k) = Inr res" by (cases "fst (lAllow L s u k)") auto
    have w: "view ?s u k = open_at u (bump win u (view s u k))"
      using allow_view [OF iu res order_refl, of k] True by simp
    have ok: "Allowed res \<longleftrightarrow> fst (bump win u (view s u k)) \<le> mx" by (rule allow_result [OF iu res])
    show ?thesis
    proof (cases "view s u k")
      case None
      then have new: "view ?s u k = Some (1, u + win)" using w win_pos by (simp add: bump_def open_at_def)
      have "allowed_calls L ?s k xs \<le> max 0 (mx - 1)"
        by (rule quota_in_window [OF i new rest(1)]) (use rest(2) u in auto)
      then show ?thesis using x True mx_pos view_count [OF Cons.prems(1), of k]
        by (auto simp: is_allowed_def split: option.splits)
    next
      case (Some y)
      then obtain c r where y: "view s u k = Some (c, r)" by (cases y) auto
      then have "view s t k = Some (c, r)" "u < r" using v by (auto simp: open_at_def split: option.splits if_splits)
      then show ?thesis using IH w ok y x True res
        by (auto simp: is_allowed_def bump_def open_at_def split: if_splits)
    qed
  next
    case False
    have "view ?s u k = view s u k"
    proof (cases "fst (lAllow L s u key)")
      case (Inl e)
      then show ?thesis using allow_fail [OF iu Inl order_refl] by simp
    next
      case (Inr res)
      then show ?thesis using allow_view [OF iu Inr order_refl, of k] False by simp
    qed
    then have "allowed_calls L ?s k xs \<le> (case view s t k of None \<Rightarrow> mx | Some (c, r) \<Rightarrow> max 0 (mx - c) + mx)"
      using IH v mx_pos by (auto simp: open_at_def split: option.splits if_splits)
    then show ?thesis using x False by (auto simp: is_allowed_def split: sum.splits)
  qed
qed

lemma quota:
  assumes "inv t s" "timed_from t xs" "\<forall>x \<in> set xs. fst x < t + win"
  shows "allowed_calls L s k xs \<le> 2 * mx - 1" and "view s t k = None \<Longrightarrow> allowed_calls L s k xs \<le> mx"
  using quota_in_period [OF assms order_refl, of k] view_count [OF assms(1), of k] mx_pos
  by (auto split: option.splits)

text \<open>After the end of its window a key starts afresh.\<close>

lemma allowed_after_window:
  assumes "inv t s" "view s t k = Some (c, r)" "t \<le> t'" "r \<le> t'" "fst (lAllow L s t' k) = Inr res"
  shows "Allowed res"
  using allow_result [OF inv_later [OF assms(1,3)] assms(5)] view_fade [OF assms(1,3), of k] assms(2,4) mx_pos
  by (simp add: open_at_def bump_def)

end

section \<open>Both limiters keep the contract\<close>

definition ml_inv :: "int \<Rightarrow> duration \<Rightarrow> MemoryLimiter \<Rightarrow> bool" where
  "ml_inv mx win m \<longleftrightarrow> wf_gomap (ml_m m) \<and> ml_max m = mx \<and> ml_window m = win \<and>
     (\<forall>k w. map_of (ml_m m) k = Some w \<longrightarrow> 1 \<le> w_count w)"

definition ml_view :: "MemoryLimiter \<Rightarrow> time \<Rightarrow> string \<Rightarrow> (int \<times> time) option" where
  "ml_view m t k = (case map_of (ml_m m) k of None \<Rightarrow> None
     | Some w \<Rightarrow> open_at t (w_count w, w_resetAt w))"

lemma ml_view_sweep:
  assumes "wf_gomap (ml_m m)" "t \<le> t'"
  shows "ml_view (rl_sweepLocked m t) t' k = ml_view m t' k"
  using assms by (auto simp: ml_view_def rl_sweepLocked_def map_of_purge open_at_def split: option.splits)

lemma next_window_bump:
  "0 < win \<Longrightarrow> (w_count (next_window win t (map_of (ml_m m) k)), w_resetAt (next_window win t (map_of (ml_m m) k))) =
     bump win t (ml_view m t k)"
  by (auto simp: next_window_def ml_view_def bump_def open_at_def Let_def split: option.splits)

text \<open>The sweep at the head of \<^verbatim>\<open>Allow\<close>: same settings, same windows.\<close>

definition ml_swept :: "MemoryLimiter \<Rightarrow> time \<Rightarrow> MemoryLimiter" where
  "ml_swept m now = (if length (ml_m m) \<ge> rl_sweepThreshold then rl_sweepLocked m now else m)"

lemma ml_swept:
  assumes "ml_inv mx win m"
  shows "ml_inv mx win (ml_swept m t)" "t \<le> t' \<Longrightarrow> ml_view (ml_swept m t) t' k = ml_view m t' k"
  using assms ml_view_sweep [of m t t' k]
  by (auto simp: ml_swept_def ml_inv_def rl_sweepLocked_def map_of_purge simp del: map_of_eq_Some_iff
      split: option.splits if_splits)

lemma mem_Allow_eq:
  "mem_Allow m now key =
     (let w = next_window (ml_window m) now (map_of (ml_m (ml_swept m now)) key);
          m2 = (ml_swept m now)\<lparr>ml_m := AList.update key w (ml_m (ml_swept m now))\<rparr>
      in if w_count w > ml_max m
         then (\<lparr>Allowed = False, Remaining = 0, RetryAfter = w_resetAt w - now\<rparr>, m2)
         else (\<lparr>Allowed = True, Remaining = ml_max m - w_count w, RetryAfter = 0\<rparr>, m2))"
  by (simp only: mem_Allow_def ml_swept_def Let_def)

lemma mem_Allow_view:
  assumes "ml_inv mx win m" "0 < win" "t \<le> t'"
  shows "ml_view (snd (mem_Allow m t k)) t' k' =
     (if k' = k then open_at t' (bump win t (ml_view m t k)) else ml_view m t' k')"
proof -
  let ?m = "ml_swept m t" and ?w = "next_window win t (map_of (ml_m (ml_swept m t)) k)"
  have win: "ml_window m = win" using assms(1) by (simp add: ml_inv_def)
  have "(w_count ?w, w_resetAt ?w) = bump win t (ml_view m t k)"
    using next_window_bump [OF assms(2), of t ?m k] ml_swept(2) [OF assms(1), of t t k] by simp
  moreover have "ml_view (snd (mem_Allow m t k)) t' k' =
      (if k' = k then open_at t' (w_count ?w, w_resetAt ?w) else ml_view ?m t' k')"
    by (simp add: mem_Allow_eq Let_def win ml_view_def)
  ultimately show ?thesis using ml_swept(2) [OF assms(1,3)] by simp
qed

lemma mem_Allow_result:
  assumes "ml_inv mx win m" "0 < win"
  shows "Allowed (fst (mem_Allow m t k)) \<longleftrightarrow> fst (bump win t (ml_view m t k)) \<le> mx"
    and "\<not> Allowed (fst (mem_Allow m t k)) \<Longrightarrow>
      t + RetryAfter (fst (mem_Allow m t k)) = snd (bump win t (ml_view m t k))"
proof -
  let ?w = "next_window win t (map_of (ml_m (ml_swept m t)) k)"
  have "(w_count ?w, w_resetAt ?w) = bump win t (ml_view m t k)"
    using next_window_bump [OF assms(2), of t "ml_swept m t" k] ml_swept(2) [OF assms(1), of t t k] by simp
  then have w: "fst (bump win t (ml_view m t k)) = w_count ?w" "snd (bump win t (ml_view m t k)) = w_resetAt ?w"
    by (metis fst_conv, metis snd_conv)
  have cfg: "ml_window m = win" "ml_max m = mx" using assms(1) by (simp_all add: ml_inv_def)
  show "Allowed (fst (mem_Allow m t k)) \<longleftrightarrow> fst (bump win t (ml_view m t k)) \<le> mx"
    unfolding w by (simp add: mem_Allow_eq Let_def cfg)
  show "\<not> Allowed (fst (mem_Allow m t k)) \<Longrightarrow>
      t + RetryAfter (fst (mem_Allow m t k)) = snd (bump win t (ml_view m t k))"
    unfolding w by (simp add: mem_Allow_eq Let_def cfg split: if_splits)
qed

lemma mem_Allow_inv:
  assumes "ml_inv mx win m"
  shows "ml_inv mx win (snd (mem_Allow m t k))"
proof -
  have "1 \<le> w_count (next_window win t (map_of (ml_m (ml_swept m t)) k))"
    using ml_swept(1) [OF assms, of t] by (force simp: next_window_def ml_inv_def Let_def split: option.splits)
  then show ?thesis
    using assms ml_swept(1) [OF assms, of t] by (auto simp: mem_Allow_eq Let_def ml_inv_def simp del: map_of_eq_Some_iff)
qed

lemma MemLimiter_limiter:
  assumes "0 < mx" "0 < win"
  shows "limiter MemLimiter ml_view (\<lambda>_. ml_inv mx win) mx win"
proof
  show "t \<le> t' \<Longrightarrow> ml_view s t' k = (case ml_view s t k of None \<Rightarrow> None | Some v \<Rightarrow> open_at t' v)" for s t t' k
    by (auto simp: ml_view_def open_at_def split: option.splits)
  show "ml_inv mx win s \<Longrightarrow> ml_view s t k = Some v \<Longrightarrow> 1 \<le> fst v \<and> t < snd v" for s t k v
    by (auto simp: ml_view_def ml_inv_def open_at_def split: option.splits if_splits)
qed (use assms in \<open>auto simp: MemLimiter_def mem_Allow_inv mem_Allow_view mem_Allow_result(1)\<close>)

interpretation rl: limiter MemLimiter ml_view "\<lambda>_. ml_inv 100 minute" 100 minute
  by (rule MemLimiter_limiter) simp_all

lemma NewMemory_inv:
  "ml_inv (if mx \<le> 0 then 100 else mx) (if win \<le> 0 then minute else win) (NewMemory mx win)"
  by (simp add: ml_inv_def NewMemory_def)

text \<open>What the code relies on of Redis: INCR adds one to a counter, or starts it at one without expiry;
  PEXPIRE sets the expiry of an existing key; an expired key is gone. \<open>cv\<close> shows, for a key alive at an
  instant, its value and its expiry.\<close>

definition alive :: "time \<Rightarrow> int \<times> time option \<Rightarrow> bool" where
  "alive t v = (case snd v of None \<Rightarrow> True | Some e \<Rightarrow> t < e)"

definition counters_ok :: "'r redis_counters \<Rightarrow> ('r \<Rightarrow> time \<Rightarrow> string \<Rightarrow> (int \<times> time option) option) \<Rightarrow> bool" where
  "counters_ok R cv \<longleftrightarrow>
     (\<forall>s t k. fst (rk_INCR R s t k) = (case cv s t k of None \<Rightarrow> 1 | Some (c, e) \<Rightarrow> c + 1)) \<and>
     (\<forall>s t k k'. \<forall>t' \<ge> t. cv (snd (rk_INCR R s t k)) t' k' = (if k' = k then
        let v = (case cv s t k of None \<Rightarrow> (1, None) | Some (c, e) \<Rightarrow> (c + 1, e)) in if alive t' v then Some v else None
        else cv s t' k')) \<and>
     (\<forall>s t k k' ms c e. \<forall>t' \<ge> t. cv s t k = Some (c, e) \<longrightarrow> 0 < ms \<longrightarrow>
        cv (rk_PEXPIRE R s t k ms) t' k' = (if k' = k then
          if t' < t + ms * millisecond then Some (c, Some (t + ms * millisecond)) else None else cv s t' k')) \<and>
     (\<forall>s t k. \<forall>t' \<ge> t. cv s t' k = (case cv s t k of None \<Rightarrow> None | Some v \<Rightarrow> if alive t' v then Some v else None)) \<and>
     (\<forall>s t k v. cv s t k = Some v \<longrightarrow> alive t v)"

lemmas counters_law =
  counters_ok_def [THEN iffD1, THEN conjunct1, rule_format]
  counters_ok_def [THEN iffD1, THEN conjunct2, THEN conjunct1, rule_format]
  counters_ok_def [THEN iffD1, THEN conjunct2, THEN conjunct2, THEN conjunct1, rule_format]
  counters_ok_def [THEN iffD1, THEN conjunct2, THEN conjunct2, THEN conjunct2, THEN conjunct1, rule_format]
  counters_ok_def [THEN iffD1, THEN conjunct2, THEN conjunct2, THEN conjunct2, THEN conjunct2, rule_format]

definition rd_view where
  "rd_view cv r s t k = (case cv s t (rl_key r k) of Some (c, Some e) \<Rightarrow> Some (c, e) | _ \<Rightarrow> None)"

definition rd_inv where
  "rd_inv cv r t s \<longleftrightarrow> (\<forall>t' \<ge> t. \<forall>k c e. cv s t' (rl_key r k) = Some (c, e) \<longrightarrow> e \<noteq> None \<and> (1 :: int) \<le> c)"

lemma rl_key_inject [simp]: "rl_key r k = rl_key r k' \<longleftrightarrow> k = k'"
  by (simp add: rl_key_def)

text \<open>The script opens a window on the first hit and counts on after it.\<close>

lemma script_view:
  assumes "counters_ok R cv" "rd_inv cv r t s" "0 < ms"
  obtains s' where "incrWindowScript R s t (rl_key r k) ms =
      ([fst (bump (ms * millisecond) t (rd_view cv r s t k)), rk_PTTL R s' t (rl_key r k)], s')"
    "\<And>t' k'. t \<le> t' \<Longrightarrow> cv s' t' (rl_key r k') = (if k' = k
      then map_option (\<lambda>(c, e). (c, Some e)) (open_at t' (bump (ms * millisecond) t (rd_view cv r s t k)))
      else cv s t' (rl_key r k'))"
proof -
  let ?k = "rl_key r k" and ?s1 = "snd (rk_INCR R s t (rl_key r k))"
  note law = counters_law [OF assms(1)]
  show ?thesis
  proof (cases "cv s t ?k")
    case None
    have one: "cv ?s1 t ?k = Some (1, None)" using law(2) [of t t s ?k ?k] None by (simp add: alive_def)
    have "fst (rk_INCR R s t ?k) = 1" using law(1) [of s t ?k] None by simp
    then have eq: "incrWindowScript R s t ?k ms =
        ([1, rk_PTTL R (rk_PEXPIRE R ?s1 t ?k ms) t ?k], rk_PEXPIRE R ?s1 t ?k ms)"
      by (auto simp: incrWindowScript_def Let_def split: prod.splits)
    show ?thesis
      by (rule that [of "rk_PEXPIRE R ?s1 t ?k ms"])
        (use eq None law(2) law(3) [OF _ one assms(3)] in \<open>auto simp: rd_view_def bump_def open_at_def\<close>)
  next
    case (Some v)
    then obtain c e where v: "cv s t ?k = Some (c, Some e)" "1 \<le> c"
      using assms(2) [unfolded rd_inv_def] by (cases v) blast
    have "fst (rk_INCR R s t ?k) = c + 1" using law(1) [of s t ?k] v by simp
    then have eq: "incrWindowScript R s t ?k ms = ([c + 1, rk_PTTL R ?s1 t ?k], ?s1)"
      using v(2) by (auto simp: incrWindowScript_def Let_def split: prod.splits)
    show ?thesis
      by (rule that [of ?s1])
        (use eq v law(2) in \<open>auto simp: rd_view_def bump_def open_at_def alive_def\<close>)
  qed
qed

lemma redis_Allow_cases:
  assumes "counters_ok R cv" "rd_inv cv r t s" "rd_window r = ms * millisecond" "0 < ms"
  obtains (down) e where "redis_Allow R r s t k = (Inl e, s)"
  | (up) res s' where "redis_Allow R r s t k = (Inr res, s')"
      "Allowed res \<longleftrightarrow> fst (bump (rd_window r) t (rd_view cv r s t k)) \<le> rd_max r"
      "\<And>t' k'. t \<le> t' \<Longrightarrow> cv s' t' (rl_key r k') = (if k' = k
        then map_option (\<lambda>(c, e). (c, Some e)) (open_at t' (bump (rd_window r) t (rd_view cv r s t k)))
        else cv s t' (rl_key r k'))"
proof (cases "rk_down R s t")
  case None
  have ms: "go_div (rd_window r) millisecond = ms" using assms(3,4) by (simp add: go_div_nonneg)
  from script_view [OF assms(1,2,4), of k] obtain s' where
    s': "incrWindowScript R s t (rl_key r k) ms =
        ([fst (bump (rd_window r) t (rd_view cv r s t k)), rk_PTTL R s' t (rl_key r k)], s')"
      "\<And>t' k'. t \<le> t' \<Longrightarrow> cv s' t' (rl_key r k') = (if k' = k
        then map_option (\<lambda>(c, e). (c, Some e)) (open_at t' (bump (rd_window r) t (rd_view cv r s t k)))
        else cv s t' (rl_key r k'))"
    unfolding assms(3) by metis
  have "\<exists>res. redis_Allow R r s t k = (Inr res, s') \<and>
      (Allowed res \<longleftrightarrow> fst (bump (rd_window r) t (rd_view cv r s t k)) \<le> rd_max r)"
    using None s'(1) by (simp add: redis_Allow_def ms Let_def)
  then show ?thesis using up s'(2) by metis
qed (use down in \<open>auto simp: redis_Allow_def\<close>)

lemma RdLimiter_limiter:
  assumes "counters_ok R cv" "0 < rd_max r" "rd_window r = ms * millisecond" "0 < ms"
  shows "limiter (RdLimiter R r) (rd_view cv r) (rd_inv cv r) (rd_max r) (rd_window r)"
proof
  show "0 < rd_window r" "0 < rd_max r" using assms by simp_all
  show "rd_inv cv r t s \<Longrightarrow> t \<le> t' \<Longrightarrow> rd_inv cv r t' s" for s t t'
    unfolding rd_inv_def by (metis order_trans)
  fix s t k assume i: "rd_inv cv r t s"
  show "rd_inv cv r t (snd (lAllow (RdLimiter R r) s t k))"
  proof (cases rule: redis_Allow_cases [OF assms(1) i assms(3,4), of k])
    case up: (2 res s')
    have "1 \<le> fst (bump (rd_window r) t (rd_view cv r s t k))"
      using i by (fastforce simp: rd_inv_def rd_view_def bump_def split: option.splits)
    then show ?thesis using up i
      by (auto simp: RdLimiter_def rd_inv_def open_at_def split: if_splits)
  qed (use i in \<open>simp add: RdLimiter_def\<close>)
  show "Allowed res \<longleftrightarrow> fst (bump (rd_window r) t (rd_view cv r s t k)) \<le> rd_max r"
    if "fst (lAllow (RdLimiter R r) s t k) = Inr res" for res
    using that by (cases rule: redis_Allow_cases [OF assms(1) i assms(3,4), of k]) (auto simp: RdLimiter_def)
  show "rd_view cv r (snd (lAllow (RdLimiter R r) s t k)) t' = rd_view cv r s t'"
    if "fst (lAllow (RdLimiter R r) s t k) = Inl e" "t \<le> t'" for e t'
    using that by (cases rule: redis_Allow_cases [OF assms(1) i assms(3,4), of k]) (auto simp: RdLimiter_def)
  show "rd_view cv r (snd (lAllow (RdLimiter R r) s t k)) t' k' =
      (if k' = k then open_at t' (bump (rd_window r) t (rd_view cv r s t k)) else rd_view cv r s t' k')"
    if "fst (lAllow (RdLimiter R r) s t k) = Inr res" "t \<le> t'" for res t' k'
  proof (cases rule: redis_Allow_cases [OF assms(1) i assms(3,4), of k])
    case up: (2 res' s')
    then have "rd_view cv r s' t' k' = (case (if k' = k
        then map_option (\<lambda>(c, e). (c, Some e)) (open_at t' (bump (rd_window r) t (rd_view cv r s t k)))
        else cv s t' (rl_key r k')) of Some (c, Some e) \<Rightarrow> Some (c, e) | _ \<Rightarrow> None)"
      using that(2) by (simp only: rd_view_def [of cv r s'])
    then show ?thesis using up(1) by (simp add: RdLimiter_def rd_view_def [of cv r s t' k'] split: option.splits)
  qed (use that in \<open>simp add: RdLimiter_def\<close>)
  show "rd_view cv r s t' k = (case rd_view cv r s t k of None \<Rightarrow> None | Some v \<Rightarrow> open_at t' v)" if "t \<le> t'" for t'
    using counters_law(4) [OF assms(1) that, of s "rl_key r k"]
    by (auto simp: rd_view_def alive_def open_at_def split: option.splits)
  show "1 \<le> fst v \<and> t < snd v" if "rd_view cv r s t k = Some v" for v
    using that i counters_law(5) [OF assms(1), of s t "rl_key r k"]
    by (fastforce simp: rd_view_def rd_inv_def alive_def split: option.splits)
qed

text \<open>A concrete server: counters with an expiry, and a switch.\<close>

record counter_server =
  cs_up :: bool
  cs_kv :: "(int \<times> time option) gomap"

definition cs_view :: "counter_server \<Rightarrow> time \<Rightarrow> string \<Rightarrow> (int \<times> time option) option" where
  "cs_view s t k = (case map_of (cs_kv s) k of None \<Rightarrow> None | Some v \<Rightarrow> if alive t v then Some v else None)"

definition counter_table :: "counter_server redis_counters" where
  "counter_table = \<lparr>
     rk_down = (\<lambda>s t. if cs_up s then None else Some ''down''),
     rk_INCR = (\<lambda>s t k. let v = (case cs_view s t k of None \<Rightarrow> (1, None) | Some (c, e) \<Rightarrow> (c + 1, e))
        in (fst v, s\<lparr>cs_kv := AList.update k v (cs_kv s)\<rparr>)),
     rk_PEXPIRE = (\<lambda>s t k ms. case cs_view s t k of None \<Rightarrow> s
        | Some (c, e) \<Rightarrow> s\<lparr>cs_kv := AList.update k (c, Some (t + ms * millisecond)) (cs_kv s)\<rparr>),
     rk_PTTL = (\<lambda>s t k. case cs_view s t k of None \<Rightarrow> -2
        | Some (c, None) \<Rightarrow> -1 | Some (c, Some e) \<Rightarrow> (e - t) div millisecond)\<rparr>"

lemma counter_table_ok: "counters_ok counter_table cs_view"
  unfolding counters_ok_def
  by (intro conjI) (auto simp: counter_table_def cs_view_def alive_def Let_def split: option.splits)

interpretation rdl: limiter "RdLimiter counter_table (NewRedis p 100 minute)"
    "rd_view cs_view (NewRedis p 100 minute)" "rd_inv cs_view (NewRedis p 100 minute)" 100 minute
  for p
  using RdLimiter_limiter [OF counter_table_ok, of "NewRedis p 100 minute" 60000] by (simp add: NewRedis_def)

section \<open>Properties\<close>

text \<open>The quota of the in-process limiter, whatever the interleaving of clients and however often the
  table is swept: over any period as long as the window, a client gets at most twice the quota less
  one request through, and at most the quota if it had no open window when the period began.\<close>

lemma memory_limiter_quota:
  assumes "0 < mx" and "0 < win" and "ml_inv mx win m"
    and "timed_from t calls" and "\<forall>x \<in> set calls. fst x < t + win"
  shows "allowed_calls MemLimiter m ip calls \<le> 2 * mx - 1 \<and>
    (ml_view m t ip = None \<longrightarrow> allowed_calls MemLimiter m ip calls \<le> mx)"
  using limiter.quota [OF MemLimiter_limiter [OF assms(1,2)] assms(3-5)] by simp

text \<open>The Redis limiter has the same quota, for all replicas together, as long as Redis answers: over
  any period as long as the window a client gets at most twice the quota less one request admitted
  by the script, and at most the quota when it had no open window.\<close>

lemma redis_limiter_quota:
  assumes "counters_ok R cv" and "r = NewRedis prefix mx win" and "0 < mx" and "0 < ms" and "win = ms * millisecond"
    and "rd_inv cv r t s" and "timed_from t calls" and "\<forall>x \<in> set calls. fst x < t + win"
  shows "allowed_calls (RdLimiter R r) s ip calls \<le> 2 * mx - 1 \<and>
    (rd_view cv r s t ip = None \<longrightarrow> allowed_calls (RdLimiter R r) s ip calls \<le> mx)"
proof -
  have r: "rd_max r = mx" "rd_window r = ms * millisecond" using assms by (simp_all add: NewRedis_def)
  show ?thesis
    using limiter.quota [OF RdLimiter_limiter [OF assms(1) _ r(2) assms(4)] assms(6,7)] r assms by simp
qed

text \<open>The in-process limiter tells the truth about waiting: a client that is turned away and comes back
  no sooner than \<^verbatim>\<open>RetryAfter\<close> is let through, and the wait is never longer than the window.\<close>

lemma retry_after_suffices:
  assumes "0 < mx" and "0 < win" and "ml_inv mx win m"
    and "\<not> Allowed (fst (mem_Allow m t ip))" and "t + RetryAfter (fst (mem_Allow m t ip)) \<le> t'"
  shows "Allowed (fst (mem_Allow (snd (mem_Allow m t ip)) t' ip)) \<and> 0 < RetryAfter (fst (mem_Allow m t ip))"
proof -
  let ?w = "bump win t (ml_view m t ip)" and ?m = "snd (mem_Allow m t ip)"
  have r: "t + RetryAfter (fst (mem_Allow m t ip)) = snd ?w" by (rule mem_Allow_result(2) [OF assms(3,2,4)])
  have "t < snd ?w"
    using limiter.view_count [OF MemLimiter_limiter [OF assms(1,2)] assms(3), of t ip] assms(2)
    by (auto simp: bump_def split: option.splits)
  moreover have "ml_view ?m t' ip = None"
    using mem_Allow_view [OF assms(3,2), of t t' ip ip] r assms(5) calculation by (simp add: open_at_def)
  then have "Allowed (fst (mem_Allow ?m t' ip))"
    using mem_Allow_result(1) [OF mem_Allow_inv [OF assms(3)] assms(2), of t ip t' ip] assms(1) by (simp add: bump_def)
  ultimately show ?thesis using r by simp
qed

text \<open>The header rounds the wait down: a client turned away with \<^verbatim>\<open>Retry-After: 1\<close> that waits one second
  can be turned away again.\<close>

lemma retry_after_header_too_early:
  "\<exists>m. ml_inv 1 (1500 * millisecond) m \<and>
     fst (RateLimiterWith MemLimiter m 1 ''ip'') =
       LTooMany [(''X-RateLimit-Remaining'', ''0''), (''Retry-After'', ''1'')] \<and>
     (\<exists>hs. fst (RateLimiterWith MemLimiter (snd (RateLimiterWith MemLimiter m 1 ''ip'')) (1 + second) ''ip'') = LTooMany hs)"
proof -
  let ?m = "snd (mem_Allow (NewMemory 1 (1500 * millisecond)) 0 ''ip'')"
  have "ml_inv 1 (1500 * millisecond) ?m"
    by (rule mem_Allow_inv) (simp add: ml_inv_def NewMemory_def)
  moreover have "Itoa 0 = ''0''" "Itoa 1 = ''1''" by (code_simp, code_simp)
  ultimately show ?thesis
    by (intro exI [of _ ?m])
      (simp add: RateLimiterWith_def MemLimiter_def mem_Allow_def NewMemory_def rl_sweepThreshold_def
        next_window_def maxInt_def go_div_nonneg Let_def)
qed

end
