(* ===== verification/Handlers.thy ===== *)
theory Handlers
  imports Auth_Properties Rate_Limit
begin

text \<open>
  The HTTP layer: the response envelopes of \<^verbatim>\<open>pkg/response/response.go\<close>, the handlers of
  \<^verbatim>\<open>internal/delivery/http/handler\<close> (\<^verbatim>\<open>auth_handler.go\<close>, \<^verbatim>\<open>user_handler.go\<close>) and the routes of \<^verbatim>\<open>internal/delivery/http/route\<close>.

  Fiber's body parser and the validation package are third-party: a handler takes what the parser
  returned for the body, and the validator as a function. JSON encoding keeps only the fields whose
  tag is not \<^verbatim>\<open>json:"-"\<close>: \<open>user_json\<close> is a user as a client sees it.
\<close>

section \<open>Responses\<close>

datatype ErrorCode = ERR_VALIDATION | ERR_NOT_FOUND | ERR_CONFLICT | ERR_UNAUTHORIZED
  | ERR_FORBIDDEN | ERR_INTERNAL | ERR_BAD_REQUEST

record user_view =
  v_id :: uuid
  v_name :: string
  v_email :: string
  v_created_at :: time
  v_updated_at :: time

definition user_json :: "User \<Rightarrow> user_view" where
  "user_json u = \<lparr>v_id = u_ID u, v_name = u_Name u, v_email = u_Email u,
     v_created_at = u_CreatedAt u, v_updated_at = u_UpdatedAt u\<rparr>"

datatype payload =
    NoData
  | TokenData LoginResponse
  | UserData user_view
  | UserList "user_view list"
  | MessageData string "string option"

record PageMeta =
  pm_Page :: int
  pm_PerPage :: int
  pm_Total :: int
  pm_TotalPages :: int

datatype body =
    Response bool string payload
  | ErrorResponse bool ErrorCode string
  | PaginatedResponse bool string payload PageMeta

text \<open>A response is its status code and its body.\<close>

type_synonym http_response = "int \<times> body"

definition Success :: "string \<Rightarrow> payload \<Rightarrow> http_response" where
  "Success msg d = (200, Response True msg d)"

definition Created :: "string \<Rightarrow> payload \<Rightarrow> http_response" where
  "Created msg d = (201, Response True msg d)"

definition Error :: "int \<Rightarrow> ErrorCode \<Rightarrow> string \<Rightarrow> http_response" where
  "Error httpStatus errCode msg = (httpStatus, ErrorResponse False errCode msg)"

definition BadRequest :: "string \<Rightarrow> http_response" where
  "BadRequest msg = Error 400 ERR_BAD_REQUEST msg"

definition ValidationError :: "string \<Rightarrow> http_response" where
  "ValidationError msg = Error 422 ERR_VALIDATION msg"

definition NotFound :: "string \<Rightarrow> http_response" where
  "NotFound msg = Error 404 ERR_NOT_FOUND msg"

definition Conflict :: "string \<Rightarrow> http_response" where
  "Conflict msg = Error 409 ERR_CONFLICT msg"

definition InternalError :: http_response where
  "InternalError = Error 500 ERR_INTERNAL ''internal server error''"

definition Unauthorized :: http_response where
  "Unauthorized = Error 401 ERR_UNAUTHORIZED ''unauthorized''"

definition Forbidden :: http_response where
  "Forbidden = Error 403 ERR_FORBIDDEN ''forbidden''"

definition Paginated :: "string \<Rightarrow> payload \<Rightarrow> int \<Rightarrow> int \<Rightarrow> int \<Rightarrow> http_response" where
  "Paginated msg d page perPage tot = (200, PaginatedResponse True msg d
     \<lparr>pm_Page = page, pm_PerPage = perPage, pm_Total = tot,
      pm_TotalPages = paginated_total_pages perPage tot\<rparr>)"

section \<open>The authentication handler\<close>

text \<open>Parsing and validating a body: the request, or the response that ends the handler.\<close>

definition parse_validate :: "string + 'req \<Rightarrow> ('req \<Rightarrow> string option) \<Rightarrow> http_response + 'req" where
  "parse_validate bodyParser val = (case bodyParser of
     Inl _ \<Rightarrow> Inl (BadRequest ''invalid request body'')
   | Inr req \<Rightarrow> (case val req of Some e \<Rightarrow> Inl (BadRequest e) | None \<Rightarrow> Inr req))"

definition auth_mapError :: "go_err \<Rightarrow> http_response" where
  "auth_mapError e =
     (if Is e ErrInvalidCredentials then Unauthorized
      else if Is e ErrInvalidToken then Unauthorized else InternalError)"

definition h_Login where
  "h_Login lib a st now rA rR bodyParser val = (case parse_validate bodyParser val of
     Inl r \<Rightarrow> (r, st)
   | Inr req \<Rightarrow> (case Login lib a st now rA rR req of
        (Inl e, st') \<Rightarrow> (auth_mapError e, st')
      | (Inr resp, st') \<Rightarrow> (Success ''login successful'' (TokenData resp), st')))"

definition h_Refresh where
  "h_Refresh lib a st now rA rR bodyParser val = (case parse_validate bodyParser val of
     Inl r \<Rightarrow> (r, st)
   | Inr req \<Rightarrow> (case Refresh lib a st now rA rR req of
        (Inl e, st') \<Rightarrow> (auth_mapError e, st')
      | (Inr resp, st') \<Rightarrow> (Success ''token refreshed'' (TokenData resp), st')))"

text \<open>The body of a logout is optional; a parse error leaves the refresh token empty.\<close>

definition h_Logout where
  "h_Logout lib a st now raw bodyParser =
     (if \<not> HasPrefix raw ''Bearer '' then (Unauthorized, st)
      else
        let accessToken = TrimPrefix raw ''Bearer '';
            refreshToken = (case bodyParser of Inl _ \<Rightarrow> [] | Inr tok \<Rightarrow> tok)
        in (case Logout lib a st now accessToken refreshToken of
              (Some e, st') \<Rightarrow> (auth_mapError e, st')
            | (None, st') \<Rightarrow> (Success ''logged out'' NoData, st')))"

definition h_ForgotPassword where
  "h_ForgotPassword lib a env st now rnd bodyParser val = (case parse_validate bodyParser val of
     Inl r \<Rightarrow> (r, st)
   | Inr email \<Rightarrow> (case ForgotPassword lib a st now rnd email of
        (Inl e, st') \<Rightarrow> (InternalError, st')
      | (Inr token, st') \<Rightarrow>
          (Success ''password reset requested''
             (MessageData ''if the email is registered you will receive a reset token''
               (if token \<noteq> [] \<and> env \<noteq> ''production'' then Some token else None)), st')))"

definition h_ResetPassword where
  "h_ResetPassword lib a st now salt bodyParser val = (case parse_validate bodyParser val of
     Inl r \<Rightarrow> (r, st)
   | Inr req \<Rightarrow> (case ResetPassword lib a st now salt req of
        (Some e, st') \<Rightarrow> (auth_mapError e, st')
      | (None, st') \<Rightarrow> (Success ''password reset successful'' NoData, st')))"

section \<open>The user handler\<close>

definition user_mapError :: "go_err \<Rightarrow> http_response" where
  "user_mapError e =
     (if Is e ErrNotFound then NotFound ''user not found''
      else if Is e ErrEmailConflict then Conflict ''email already in use''
      else if Is e ErrInvalidUUID then BadRequest ''invalid id format''
      else InternalError)"

definition h_GetUser :: "'d UserRepository \<Rightarrow> uuid_lib \<Rightarrow> 'd \<Rightarrow> string \<Rightarrow> http_response \<times> 'd" where
  "h_GetUser U V s i = (case GetUser U V s i of
     (Inl e, s') \<Rightarrow> (user_mapError e, s')
   | (Inr u, s') \<Rightarrow> (Success ''user retrieved'' (UserData (user_json u)), s'))"

definition h_ListUsers :: "'d UserRepository \<Rightarrow> ('q \<Rightarrow> Request \<Rightarrow> Request \<times> bool) \<Rightarrow> 'd \<Rightarrow> 'q \<Rightarrow> http_response \<times> 'd" where
  "h_ListUsers U queryParser s c =
     (let req = FromQuery queryParser c in
      case ListUsersPaged U s req of
        (Inl e, s') \<Rightarrow> (InternalError, s')
      | (Inr (us, tot), s') \<Rightarrow>
          (Paginated ''users retrieved'' (UserList (map user_json us)) (PageNum req) (PageSize req) tot, s'))"

definition h_CreateUser ::
  "'d UserRepository \<Rightarrow> bcrypt_lib \<Rightarrow> 'd \<Rightarrow> time \<Rightarrow> nat list \<Rightarrow> uuid \<Rightarrow> string + CreateUserRequest
     \<Rightarrow> (CreateUserRequest \<Rightarrow> string option) \<Rightarrow> http_response \<times> 'd" where
  "h_CreateUser U H s now salt rnd bodyParser val = (case parse_validate bodyParser val of
     Inl r \<Rightarrow> (r, s)
   | Inr req \<Rightarrow> (case CreateUser U H s now salt rnd req of
        (Inl e, s') \<Rightarrow> (user_mapError e, s')
      | (Inr u, s') \<Rightarrow> (Created ''user created'' (UserData (user_json u)), s')))"

definition h_UpdateUser ::
  "'d UserRepository \<Rightarrow> uuid_lib \<Rightarrow> 'd \<Rightarrow> time \<Rightarrow> string \<Rightarrow> string + UpdateUserRequest
     \<Rightarrow> (UpdateUserRequest \<Rightarrow> string option) \<Rightarrow> http_response \<times> 'd" where
  "h_UpdateUser U V s now i bodyParser val = (case parse_validate bodyParser val of
     Inl r \<Rightarrow> (r, s)
   | Inr req \<Rightarrow> (case UpdateUser U V s now i req of
        (Inl e, s') \<Rightarrow> (user_mapError e, s')
      | (Inr u, s') \<Rightarrow> (Success ''user updated'' (UserData (user_json u)), s')))"

definition h_DeleteUser :: "'d UserRepository \<Rightarrow> uuid_lib \<Rightarrow> 'd \<Rightarrow> time \<Rightarrow> string \<Rightarrow> http_response \<times> 'd" where
  "h_DeleteUser U V s now i = (case DeleteUser U V s now i of
     (Some e, s') \<Rightarrow> (user_mapError e, s')
   | (None, s') \<Rightarrow> (Success ''user deleted'' NoData, s'))"

section \<open>Routes\<close>

text \<open>What a request ends in: a response of a handler, an error that Fiber turns into a response, or
  the 429 of a rate limiter.\<close>

datatype outcome = Handled http_response | FiberError fiber_err | Limited "(string \<times> string) list"

text \<open>The requests of the user group, with the draws and the parser results the handlers use.\<close>

datatype 'q user_request =
    ReqListUsers 'q
  | ReqGetUser string
  | ReqCreateUser "nat list" uuid "string + CreateUserRequest"
  | ReqUpdateUser string "string + UpdateUserRequest"
  | ReqDeleteUser string

record ('d, 'b) user_api =
  ua_db :: 'd
  ua_bl :: 'b
  ua_limiter :: MemoryLimiter

record 'q user_deps =
  d_bcrypt :: bcrypt_lib
  d_uuid :: uuid_lib
  d_query :: "'q \<Rightarrow> Request \<Rightarrow> Request \<times> bool"
  d_valCreate :: "CreateUserRequest \<Rightarrow> string option"
  d_valUpdate :: "UpdateUserRequest \<Rightarrow> string option"

definition user_api_init :: "'d \<Rightarrow> 'b \<Rightarrow> ('d, 'b) user_api" where
  "user_api_init d b = \<lparr>ua_db = d, ua_bl = b, ua_limiter = snd (StrictRateLimiter 20 minute)\<rparr>"

text \<open>A step of a chain: run the write limiter and go on with \<open>k\<close> if it lets the request through.\<close>

definition limited_then ::
  "('d, 'b) user_api \<Rightarrow> time \<Rightarrow> string \<Rightarrow> (('d, 'b) user_api \<Rightarrow> outcome \<times> ('d, 'b) user_api) \<Rightarrow> outcome \<times> ('d, 'b) user_api" where
  "limited_then s now ip k = (case RateLimiterWith MemLimiter (ua_limiter s) now ip of
     (LTooMany hs, l) \<Rightarrow> (Limited hs, s\<lparr>ua_limiter := l\<rparr>)
   | (LNext hs, l) \<Rightarrow> k (s\<lparr>ua_limiter := l\<rparr>))"

definition run_user_handler :: "('d, 'b) user_api \<Rightarrow> ('d \<Rightarrow> http_response \<times> 'd) \<Rightarrow> outcome \<times> ('d, 'b) user_api" where
  "run_user_handler s h = (case h (ua_db s) of (r, d) \<Rightarrow> (Handled r, s\<lparr>ua_db := d\<rparr>))"

fun user_endpoint ::
  "'d UserRepository \<Rightarrow> 'q user_deps \<Rightarrow> ('d, 'b) user_api \<Rightarrow> time \<Rightarrow> string \<Rightarrow> Claims \<Rightarrow> 'q user_request
     \<Rightarrow> outcome \<times> ('d, 'b) user_api" where
  "user_endpoint U D s now ip claims (ReqListUsers q) =
     run_user_handler s (\<lambda>d. h_ListUsers U (d_query D) d q)"
| "user_endpoint U D s now ip claims (ReqGetUser i) =
     run_user_handler s (\<lambda>d. h_GetUser U (d_uuid D) d i)"
| "user_endpoint U D s now ip claims (ReqCreateUser salt rnd b) =
     limited_then s now ip (\<lambda>s. run_user_handler s
       (\<lambda>d. h_CreateUser U (d_bcrypt D) d now salt rnd b (d_valCreate D)))"
| "user_endpoint U D s now ip claims (ReqUpdateUser i b) =
     limited_then s now ip (\<lambda>s. run_user_handler s
       (\<lambda>d. h_UpdateUser U (d_uuid D) d now i b (d_valUpdate D)))"
| "user_endpoint U D s now ip claims (ReqDeleteUser i) =
     limited_then s now ip (\<lambda>s. case RequireRole [''admin''] (Some claims) of
       Inl e \<Rightarrow> (FiberError e, s)
     | Inr () \<Rightarrow> run_user_handler s (\<lambda>d. h_DeleteUser U (d_uuid D) d now i))"

definition RegisterUserRoutes ::
  "jwt_lib \<Rightarrow> Config \<Rightarrow> 'b Blacklist option \<Rightarrow> 'd UserRepository \<Rightarrow> 'q user_deps \<Rightarrow> ('d, 'b) user_api \<Rightarrow> time
     \<Rightarrow> string \<Rightarrow> string \<Rightarrow> 'q user_request \<Rightarrow> outcome \<times> ('d, 'b) user_api" where
  "RegisterUserRoutes L cfg bl U D s now ip raw req = (case Middleware L cfg [bl] (ua_bl s) now raw of
     (Inl e, b) \<Rightarrow> (FiberError e, s\<lparr>ua_bl := b\<rparr>)
   | (Inr claims, b) \<Rightarrow> user_endpoint U D (s\<lparr>ua_bl := b\<rparr>) now ip claims req)"

definition prodGuard :: "string \<Rightarrow> 'r \<Rightarrow> fiber_err + 'r" where
  "prodGuard appEnv next = (if appEnv = ''production'' then Inl FiberNotFound else Inr next)"

record welcome_page =
  wl_service :: string
  wl_version :: string
  wl_env :: string
  wl_links :: "string gomap"

definition welcomeHandler :: "string \<Rightarrow> welcome_page" where
  "welcomeHandler appEnv =
     (let links = [(''health'', ''/health'')];
          links' = (if appEnv \<noteq> ''production''
                    then AList.update ''metrics'' ''/metrics'' (AList.update ''docs'' ''/docs/index.html'' links)
                    else links)
      in \<lparr>wl_service = ''wapgo'', wl_version = ''1.0.0'', wl_env = appEnv, wl_links = links'\<rparr>)"

text \<open>The authentication routes: the four public ones share one limiter of ten requests a minute, the
  logout goes through the authentication middleware.\<close>

datatype auth_request =
    ReqLogin "nat list" "nat list" "string + LoginRequest"
  | ReqRefresh "nat list" "nat list" "string + string"
  | ReqLogout "string + string"
  | ReqForgot uuid "string + string"
  | ReqReset "nat list" "string + ResetPasswordRequest"

record ('d, 's, 'b) auth_api =
  aa_state :: "('d, 's, 'b) auth_state"
  aa_limiter :: MemoryLimiter

record auth_vals =
  v_Login :: "LoginRequest \<Rightarrow> string option"
  v_Refresh :: "string \<Rightarrow> string option"
  v_Forgot :: "string \<Rightarrow> string option"
  v_Reset :: "ResetPasswordRequest \<Rightarrow> string option"

fun public_auth_handler where
  "public_auth_handler lib a env V st now (ReqLogin rA rR b) = h_Login lib a st now rA rR b (v_Login V)"
| "public_auth_handler lib a env V st now (ReqRefresh rA rR b) = h_Refresh lib a st now rA rR b (v_Refresh V)"
| "public_auth_handler lib a env V st now (ReqForgot rnd b) = h_ForgotPassword lib a env st now rnd b (v_Forgot V)"
| "public_auth_handler lib a env V st now (ReqReset salt b) = h_ResetPassword lib a st now salt b (v_Reset V)"
| "public_auth_handler lib a env V st now (ReqLogout b) = (Unauthorized, st)"

definition RegisterAuthRoutes where
  "RegisterAuthRoutes lib a env V s now ip raw req =
     (case req of
        ReqLogout b \<Rightarrow>
          (case Middleware (l_jwt lib) (a_jwtCfg a) [a_bl a] (st_bl (aa_state s)) now raw of
             (Inl e, bl) \<Rightarrow> (FiberError e, s\<lparr>aa_state := (aa_state s)\<lparr>st_bl := bl\<rparr>\<rparr>)
           | (Inr claims, bl) \<Rightarrow>
               (case h_Logout lib a ((aa_state s)\<lparr>st_bl := bl\<rparr>) now raw b of
                  (r, st) \<Rightarrow> (Handled r, s\<lparr>aa_state := st\<rparr>)))
      | _ \<Rightarrow>
          (case RateLimiterWith MemLimiter (aa_limiter s) now ip of
             (LTooMany hs, l) \<Rightarrow> (Limited hs, s\<lparr>aa_limiter := l\<rparr>)
           | (LNext hs, l) \<Rightarrow>
               (case public_auth_handler lib a env V (aa_state s) now req of
                  (r, st) \<Rightarrow> (Handled r, s\<lparr>aa_state := st, aa_limiter := l\<rparr>))))"

section \<open>Lemmas\<close>

lemma Is_sentinel [simp]:
  "Is ErrNotFound ErrNotFound" "Is ErrEmailConflict ErrEmailConflict" "Is ErrInvalidUUID ErrInvalidUUID"
  "\<not> Is ErrEmailConflict ErrNotFound" "\<not> Is ErrInvalidUUID ErrNotFound" "\<not> Is ErrInvalidUUID ErrEmailConflict"
  "Is ErrInvalidCredentials ErrInvalidCredentials" "Is ErrInvalidToken ErrInvalidToken"
  by (simp_all add: ErrNotFound_def ErrEmailConflict_def ErrInvalidUUID_def ErrInvalidCredentials_def
      ErrInvalidToken_def)

lemma statuses [simp]:
  "fst (Success m d) = 200" "fst (Created m d) = 201" "fst (BadRequest m) = 400" "fst (NotFound m) = 404"
  "fst (Conflict m) = 409" "fst InternalError = 500" "fst Unauthorized = 401" "fst Forbidden = 403"
  by (simp_all add: Success_def Created_def Error_def BadRequest_def NotFound_def Conflict_def
      InternalError_def Unauthorized_def Forbidden_def)

lemma user_mapError_status:
  "fst (user_mapError e) = 404 \<longleftrightarrow> Is e ErrNotFound"
  "fst (user_mapError e) \<in> {400, 404, 409, 500}"
  "fst (user_mapError ErrInvalidUUID) = 400"
  by (simp_all add: user_mapError_def)

text \<open>GORM's errors are none of the use case's sentinels.\<close>

definition foreign_errors :: "'d gorm \<Rightarrow> bool" where
  "foreign_errors G \<longleftrightarrow> (\<forall>s w e. fst (g_First G s w) = Inl e \<longrightarrow>
     \<not> Is e ErrNotFound \<and> \<not> Is e ErrEmailConflict \<and> \<not> Is e ErrInvalidUUID)"

lemma gorm_table_foreign: "foreign_errors (gorm_table idx)"
  by (auto simp: foreign_errors_def gorm_table_def ErrRecordNotFound_def ErrNotFound_def ErrEmailConflict_def
      ErrInvalidUUID_def split: option.splits)

lemma Is_Wrap [simp]:
  "Is (Wrap m e) ErrNotFound = Is e ErrNotFound" "Is (Wrap m e) ErrEmailConflict = Is e ErrEmailConflict"
  "Is (Wrap m e) ErrInvalidUUID = Is e ErrInvalidUUID"
  by (simp_all add: ErrNotFound_def ErrEmailConflict_def ErrInvalidUUID_def)

text \<open>Concrete dependencies for the witnesses.\<close>

definition demo_deps :: "unit user_deps" where
  "demo_deps = \<lparr>d_bcrypt = bcrypt_plain, d_uuid = uuid_plain, d_query = (\<lambda>_ r. (r, False)),
     d_valCreate = (\<lambda>_. None), d_valUpdate = (\<lambda>_. None)\<rparr>"

definition demo_api :: "(User list, MemBlacklist) user_api" where
  "demo_api = user_api_init [demo_user] []"

section \<open>Properties\<close>



text \<open>A failed login does not tell whether the email exists: an unknown email and a wrong password get
  the same 401 response, and neither touches the cache or the blacklist.\<close>

lemma failed_login_is_uniform:
  assumes "val req = None"
    and "(\<exists>e. fst (rFindByEmail (a_userRepo a) (st_db st) (li_Email req)) = Inl e \<and> Is e ErrRecordNotFound) \<or>
      (\<exists>u. fst (rFindByEmail (a_userRepo a) (st_db st) (li_Email req)) = Inr u \<and>
         CompareHashAndPassword (l_bcrypt lib) (u_Password u) (li_Password req) \<noteq> None)"
  shows "fst (h_Login lib a st now rA rR (Inr req) val) = Unauthorized \<and>
    st_cache (snd (h_Login lib a st now rA rR (Inr req) val)) = st_cache st \<and>
    st_bl (snd (h_Login lib a st now rA rR (Inr req) val)) = st_bl st"
  using assms
  by (auto simp: h_Login_def parse_validate_def Login_def auth_mapError_def split: prod.splits sum.splits option.splits)

text \<open>C28. No request reaches a user endpoint without a token the middleware accepts, and none without the
  role \<^verbatim>\<open>admin\<close> deletes: such requests leave the database untouched, whatever they contain.\<close>

theorem user_routes_are_guarded:
  assumes "isl (fst (Middleware L cfg [bl] (ua_bl s) now raw)) \<or>
    (\<exists>i claims. req = ReqDeleteUser i \<and> fst (Middleware L cfg [bl] (ua_bl s) now raw) = Inr claims \<and>
       ''admin'' \<notin> set (Roles claims))"
  shows "ua_db (snd (RegisterUserRoutes L cfg bl U D s now ip raw req)) = ua_db s \<and>
    (\<forall>r. fst (RegisterUserRoutes L cfg bl U D s now ip raw req) \<noteq> Handled r)"
proof -
  obtain m b where m: "Middleware L cfg [bl] (ua_bl s) now raw = (m, b)" by fastforce
  have no_role: "RequireRole [''admin''] (Some claims) = Inl ErrForbidden"
    if "''admin'' \<notin> set (Roles claims)" for claims
  proof -
    have "\<not> role_allowed [''admin''] rs" if "''admin'' \<notin> set rs" for rs
      using that by (induction rs) auto
    then show ?thesis using that by (simp add: RequireRole_def GetClaims_def)
  qed
  show ?thesis using assms m no_role
    by (auto simp: RegisterUserRoutes_def limited_then_def split: sum.splits prod.splits limited.splits)
qed

theorem user_routes_are_guarded_witness:
  "ua_db (snd (RegisterUserRoutes (l_jwt demo_lib) demo_cfg (Some MemoryBlacklist)
       (NewUserRepository (gorm_table True)) demo_deps demo_api (1100 * second)
       ''ip'' ''none'' (ReqDeleteUser ''uu''))) = ua_db demo_api \<and>
    (\<forall>r. fst (RegisterUserRoutes (l_jwt demo_lib) demo_cfg (Some MemoryBlacklist)
       (NewUserRepository (gorm_table True)) demo_deps demo_api (1100 * second)
       ''ip'' ''none'' (ReqDeleteUser ''uu'')) \<noteq> Handled r)"
  by (rule user_routes_are_guarded) (simp add: Middleware_def HasPrefix_def)

text \<open>What a client learns from fetching a user: 200 with the public fields of a visible user that has
  the identifier asked for, 400 exactly for an identifier that is no UUID, 404 only if there is no
  such user, and 500 otherwise.\<close>

lemma get_user_status:
  assumes "gorm_ok G rows" and "foreign_errors G"
    and "(code, b) = fst (h_GetUser (NewUserRepository G) V s i)"
  shows "code \<in> {200, 400, 404, 500} \<and> (code = 400 \<longleftrightarrow> isl (parseUUID V i)) \<and>
    (code = 200 \<longrightarrow> (\<exists>u \<in> set (live_rows (rows s)). parseUUID V i = Inr (u_ID u) \<and>
       b = Response True ''user retrieved'' (UserData (user_json u)))) \<and>
    (code = 404 \<longrightarrow> (\<exists>uid. parseUUID V i = Inr uid \<and> uid \<notin> u_ID ` set (live_rows (rows s))))"
proof -
  note st = gorm_user_store [OF assms(1)]
  let ?g = "fst (GetUser (NewUserRepository G) V s i)"
  have h: "(code, b) = (case ?g of Inl e \<Rightarrow> user_mapError e
      | Inr u \<Rightarrow> Success ''user retrieved'' (UserData (user_json u)))"
    using assms(3) by (auto simp: h_GetUser_def split: prod.splits sum.splits)
  show ?thesis
  proof (cases ?g)
    case (Inr u)
    then show ?thesis using h user_store.get_user_Inr [OF st Inr] by (auto simp: Success_def)
  next
    case (Inl e)
    show ?thesis
    proof (cases "parseUUID V i")
      case bad: (Inl e')
      then have "e = ErrInvalidUUID" using Inl parseUUID_error by (auto simp: GetUser_def)
      then show ?thesis using h Inl bad by (simp add: user_mapError_def BadRequest_def Error_def)
    next
      case good: (Inr uid)
      show ?thesis
      proof (cases "e = ErrNotFound")
        case True
        then show ?thesis using h Inl good user_store.get_user_not_found [OF st good]
          by (auto simp: user_mapError_def NotFound_def Error_def)
      next
        case False
        then have "\<not> Is e ErrNotFound" "\<not> Is e ErrEmailConflict" "\<not> Is e ErrInvalidUUID"
          using Inl good assms(2) [unfolded foreign_errors_def, rule_format, of s "WhereID uid"]
          by (auto simp: GetUser_def FindByID_def split: prod.splits sum.splits if_splits)
        then show ?thesis using h Inl good by (simp add: user_mapError_def InternalError_def Error_def)
      qed
    qed
  qed
qed

text \<open>A page of the user list holds only visible users, at most a hundred of them, as a window of one
  ordering of all of them, without passwords, and reports their number and the page count that
  walks through all of them.\<close>

lemma list_users_page:
  assumes "gorm_ok G rows" and "fst (h_ListUsers (NewUserRepository G) qp s c) \<noteq> InternalError"
    and "plain_sort (FromQuery qp c)"
  shows "\<exists>xs. mset xs = mset (live_rows (rows s)) \<and>
    fst (h_ListUsers (NewUserRepository G) qp s c) = (200, PaginatedResponse True ''users retrieved''
      (UserList (map user_json (sql_window (Scope (FromQuery qp c)) xs)))
      \<lparr>pm_Page = PageNum (FromQuery qp c), pm_PerPage = PageSize (FromQuery qp c), pm_Total = int (length xs),
       pm_TotalPages = paginated_total_pages (PageSize (FromQuery qp c)) (int (length xs))\<rparr>) \<and>
    length (sql_window (Scope (FromQuery qp c)) xs) \<le> 100"
proof -
  let ?req = "FromQuery qp c"
  obtain us n where r: "fst (FindAllPaged G s ?req) = Inr (us, n)"
    using assms(2) by (cases "fst (FindAllPaged G s ?req)")
      (auto simp: h_ListUsers_def ListUsersPaged_def NewUserRepository_def Let_def split: prod.splits sum.splits)
  obtain xs where xs: "mset xs = mset (live_rows (rows s))" "us = sql_window (Scope ?req) xs"
    using FindAllPaged_Inr(2) [OF assms(1) r assms(3)] by blast
  have n: "n = int (length xs)" using FindAllPaged_Inr(1) [OF assms(1) r assms(3)] mset_eq_length [OF xs(1)] by simp
  have "length (sql_window (Scope ?req) xs) \<le> 100"
    using PageSize_bounds [of ?req] by (auto simp: sql_window_def Scope_def min_def)
  moreover have "fst (h_ListUsers (NewUserRepository G) qp s c) = (200, PaginatedResponse True ''users retrieved''
      (UserList (map user_json us)) \<lparr>pm_Page = PageNum ?req, pm_PerPage = PageSize ?req, pm_Total = n,
       pm_TotalPages = paginated_total_pages (PageSize ?req) n\<rparr>)"
    using r by (auto simp: h_ListUsers_def ListUsersPaged_def NewUserRepository_def Paginated_def Let_def
        split: prod.splits sum.splits)
  ultimately show ?thesis using xs n by (intro exI [of _ xs]) simp
qed

text \<open>The sort parameter of the listing is not checked on its way: whatever text a client sends is the start of the ORDER BY clause
  that the database gets, which GORM does not quote.\<close>

lemma sort_parameter_reaches_sql:
  assumes "qp c \<lparr>Page = 0, Size = 0, Sort = [], Order = []\<rparr> = (r, ok)" and "Sort r \<noteq> []" and "g_Count G s NoWhere = (Inr n, s1)"
  shows "snd (h_ListUsers (NewUserRepository G) qp s c) =
    snd (g_Find G s1 (Some \<lparr>sc_order = Sort r @ '' '' @ SortOrder r, sc_limit = PageSize r, sc_offset = Offset r\<rparr>))"
proof -
  have "FromQuery qp c = r" using assms(1) by (simp add: FromQuery_def)
  moreover have "Scope r = \<lparr>sc_order = Sort r @ '' '' @ SortOrder r, sc_limit = PageSize r, sc_offset = Offset r\<rparr>"
    using assms(2) by (simp add: Scope_def SortColumn_def)
  ultimately show ?thesis using assms(3)
    by (simp add: h_ListUsers_def ListUsersPaged_def NewUserRepository_def FindAllPaged_def split: prod.split sum.split)
qed

end
