(* ===== verification/Journal.thy ===== *)
theory Journal
  imports Prelude
begin

text \<open>
  \<^verbatim>\<open>pkg/journal\<close> (the request-scoped record of third-party calls and traces, and the redaction of what
  is logged) and the middlewares \<^verbatim>\<open>access_log.go\<close>, \<^verbatim>\<open>logger.go\<close> and \<^verbatim>\<open>security.go\<close> of
  \<^verbatim>\<open>internal/delivery/http/middleware\<close>.

  A \<^verbatim>\<open>*Journal\<close> that may be nil is an \<open>option\<close>; its methods are nil-safe. The log files are lists of
  records, threaded as state. Trace data is an uninterpreted text.
\<close>

section \<open>Redaction\<close>

definition sensitiveHeaders :: "string list" where
  "sensitiveHeaders = [''authorization'', ''proxy-authorization'', ''cookie'', ''set-cookie'', ''x-api-key'', ''x-auth-token'']"

definition redactedMarker :: string where
  "redactedMarker = ''[redacted]''"

definition IsSensitiveHeader :: "string \<Rightarrow> bool" where
  "IsSensitiveHeader name \<longleftrightarrow> ToLower name \<in> set sensitiveHeaders"

definition RedactHeaders :: "string gomap \<Rightarrow> string gomap" where
  "RedactHeaders h = (if length h = 0 then h
     else fold (\<lambda>(k, v) out. AList.update k (if ToLower k \<in> set sensitiveHeaders then redactedMarker else v) out) h [])"

definition binaryContentTypes :: "string list" where
  "binaryContentTypes = [''application/octet-stream'', ''multipart/form-data'', ''image/'', ''video/'', ''audio/'',
     ''application/pdf'', ''application/zip'']"

definition CapBody :: "string \<Rightarrow> string \<Rightarrow> int \<Rightarrow> string" where
  "CapBody body contentType mx =
     (if mx \<le> 0 then ''[omitted]''
      else let ct = ToLower contentType in
           if \<exists>b \<in> set binaryContentTypes. Contains ct b then ''[binary omitted]''
           else if int (length body) > mx then take (nat mx) body @ ''...[truncated]''
           else body)"

section \<open>The journal\<close>

datatype Kind = KindAPI | KindConsumer

record ThirdParty =
  tp_Name :: string
  tp_Method :: string
  tp_URL :: string
  tp_Host :: string
  tp_Status :: int
  tp_LatencyMS :: int
  tp_RequestBody :: string
  tp_ResponseBody :: string
  tp_Error :: string
  tp_StartedAt :: time

record Trace =
  tr_Name :: string
  tr_Data :: string
  tr_At :: time

record Journal =
  j_kind :: Kind
  j_requestID :: string
  j_traceID :: string
  j_thirdParty :: "ThirdParty list"
  j_traces :: "Trace list"

definition Start_journal :: "Kind \<Rightarrow> Journal" where
  "Start_journal kind = \<lparr>j_kind = kind, j_requestID = [], j_traceID = [], j_thirdParty = [], j_traces = []\<rparr>"

definition journal_RequestID :: "Journal option \<Rightarrow> string" where
  "journal_RequestID j = (case j of None \<Rightarrow> [] | Some j \<Rightarrow> j_requestID j)"

definition journal_TraceID :: "Journal option \<Rightarrow> string" where
  "journal_TraceID j = (case j of None \<Rightarrow> [] | Some j \<Rightarrow> j_traceID j)"

definition SetRequestID :: "Journal option \<Rightarrow> string \<Rightarrow> Journal option" where
  "SetRequestID j i = (case j of None \<Rightarrow> None | Some j \<Rightarrow> Some (j\<lparr>j_requestID := i\<rparr>))"

definition SetTraceID :: "Journal option \<Rightarrow> string \<Rightarrow> Journal option" where
  "SetTraceID j i = (case j of None \<Rightarrow> None | Some j \<Rightarrow> Some (j\<lparr>j_traceID := i\<rparr>))"

text \<open>The lines of the two child files: a third-party line has no bodies.\<close>

record tp_line =
  tl_request_id :: string
  tl_trace_id :: string
  tl_name :: string
  tl_method :: string
  tl_url :: string
  tl_host :: string
  tl_status :: int
  tl_latency_ms :: int
  tl_error :: string

record trace_line =
  xl_request_id :: string
  xl_trace_id :: string
  xl_name :: string
  xl_data :: string

definition tp_line_of :: "string \<Rightarrow> string \<Rightarrow> ThirdParty \<Rightarrow> tp_line" where
  "tp_line_of rid tid tp = \<lparr>tl_request_id = rid, tl_trace_id = tid, tl_name = tp_Name tp, tl_method = tp_Method tp,
     tl_url = tp_URL tp, tl_host = tp_Host tp, tl_status = tp_Status tp, tl_latency_ms = tp_LatencyMS tp,
     tl_error = tp_Error tp\<rparr>"

definition AddThirdParty :: "Journal option \<Rightarrow> tp_line list \<Rightarrow> ThirdParty \<Rightarrow> Journal option \<times> tp_line list" where
  "AddThirdParty j file tp = (case j of
     None \<Rightarrow> (None, file)
   | Some j \<Rightarrow> (Some (j\<lparr>j_thirdParty := j_thirdParty j @ [tp]\<rparr>), file @ [tp_line_of (j_requestID j) (j_traceID j) tp]))"

definition AddTrace :: "Journal option \<Rightarrow> trace_line list \<Rightarrow> time \<Rightarrow> string \<Rightarrow> string \<Rightarrow> Journal option \<times> trace_line list" where
  "AddTrace j file now name dat = (case j of
     None \<Rightarrow> (None, file)
   | Some j \<Rightarrow>
       let t = \<lparr>tr_Name = name, tr_Data = dat, tr_At = now\<rparr>
       in (Some (j\<lparr>j_traces := j_traces j @ [t]\<rparr>),
           file @ [\<lparr>xl_request_id = j_requestID j, xl_trace_id = j_traceID j, xl_name = name, xl_data = dat\<rparr>]))"

definition ThirdParties :: "Journal option \<Rightarrow> ThirdParty list" where
  "ThirdParties j = (case j of None \<Rightarrow> [] | Some j \<Rightarrow> j_thirdParty j)"

definition Traces :: "Journal option \<Rightarrow> Trace list" where
  "Traces j = (case j of None \<Rightarrow> [] | Some j \<Rightarrow> j_traces j)"

section \<open>The access log\<close>

record AccessLogOptions =
  al_BodyMaxBytes :: int
  al_CaptureBodies :: bool

text \<open>What the middleware reads from Fiber: header visits are in wire order, and a header that occurs
  twice is visited twice.\<close>

record fiber_req =
  fr_ip :: string
  fr_method :: string
  fr_url :: string
  fr_path :: string
  fr_query :: string
  fr_headers :: "(string \<times> string) list"
  fr_contentType :: string
  fr_body :: string

record fiber_resp =
  fs_status :: int
  fs_headers :: "(string \<times> string) list"
  fs_contentType :: string
  fs_isStream :: bool
  fs_body :: string

record api_line =
  ap_request_id :: string
  ap_trace_id :: string
  ap_client_ip :: string
  ap_method :: string
  ap_url :: string
  ap_path :: string
  ap_query :: string
  ap_reqHeaders :: "string gomap"
  ap_reqBody :: string
  ap_status :: int
  ap_respHeaders :: "string gomap"
  ap_respBody :: string
  ap_latency :: duration
  ap_thirdparty :: "ThirdParty list"
  ap_trace :: "Trace list"

definition visit_headers :: "(string \<times> string) list \<Rightarrow> string gomap" where
  "visit_headers hs = fold (\<lambda>(k, v) m. AList.update k v m) hs []"

text \<open>The middleware around a handler \<open>next\<close>, which turns the journal and the world into a response and
  an error; \<open>traceID w\<close> is the trace id that can be resolved in the world, \<open>now\<close> its clock.\<close>

definition AccessLog ::
  "AccessLogOptions \<Rightarrow> ('w \<Rightarrow> time) \<Rightarrow> ('w \<Rightarrow> string) \<Rightarrow> string \<Rightarrow> fiber_req
     \<Rightarrow> (Journal \<Rightarrow> 'w \<Rightarrow> fiber_resp \<times> string option \<times> Journal \<times> 'w) \<Rightarrow> 'w \<Rightarrow> api_line \<times> fiber_resp \<times> string option \<times> 'w" where
  "AccessLog opts now traceID rid req handler w =
     (let start = now w;
          traceID0 = traceID w;
          j0 = SetTraceID (SetRequestID (Some (Start_journal KindAPI)) rid) traceID0;
          reqHeaders = visit_headers (fr_headers req);
          reqBody = (if al_CaptureBodies opts then CapBody (fr_body req) (fr_contentType req) (al_BodyMaxBytes opts)
                     else ''[omitted]'')
      in case handler (the j0) w of (resp, err, j1, w1) \<Rightarrow>
        let latency = now w1 - start;
            traceID1 = (if traceID0 = [] then traceID w1 else traceID0);
            j2 = (if traceID0 = [] then SetTraceID (Some j1) traceID1 else Some j1);
            respHeaders = visit_headers (fs_headers resp);
            respBody = (if fs_isStream resp then ''[stream]''
                        else if al_CaptureBodies opts
                        then CapBody (fs_body resp) (fs_contentType resp) (al_BodyMaxBytes opts) else ''[omitted]'')
        in (\<lparr>ap_request_id = rid, ap_trace_id = traceID1, ap_client_ip = fr_ip req, ap_method = fr_method req,
             ap_url = fr_url req, ap_path = fr_path req, ap_query = fr_query req,
             ap_reqHeaders = RedactHeaders reqHeaders, ap_reqBody = reqBody, ap_status = fs_status resp,
             ap_respHeaders = RedactHeaders respHeaders, ap_respBody = respBody, ap_latency = latency,
             ap_thirdparty = ThirdParties j2, ap_trace = Traces j2\<rparr>, resp, err, w1))"

section \<open>Other middlewares\<close>

text \<open>\<^verbatim>\<open>RequestID\<close>: the id of the request, which becomes the response header and the context's id.
  \<open>fresh\<close> is the drawn UUID.\<close>

definition RequestID_mw :: "string \<Rightarrow> string \<Rightarrow> string" where
  "RequestID_mw header fresh = (if header = [] then fresh else header)"

record request_line =
  rq_method :: string
  rq_path :: string
  rq_status :: int
  rq_latency :: duration
  rq_ip :: string

definition RequestLogger ::
  "('w \<Rightarrow> time) \<Rightarrow> fiber_req \<Rightarrow> ('w \<Rightarrow> fiber_resp \<times> string option \<times> 'w) \<Rightarrow> 'w \<Rightarrow> request_line \<times> fiber_resp \<times> string option \<times> 'w" where
  "RequestLogger now req handler w =
     (let start = now w in
      case handler w of (resp, err, w') \<Rightarrow>
        (\<lparr>rq_method = fr_method req, rq_path = fr_path req, rq_status = fs_status resp,
          rq_latency = now w' - start, rq_ip = fr_ip req\<rparr>, resp, err, w'))"

text \<open>\<^verbatim>\<open>WithBodyLimit\<close>: 413 or the next handler.\<close>

datatype 'r body_limited = TooLarge int string string | WithinLimit 'r

definition WithBodyLimit :: "int \<Rightarrow> fiber_req \<Rightarrow> 'r \<Rightarrow> 'r body_limited" where
  "WithBodyLimit maxBytes req next =
     (if int (length (fr_body req)) > maxBytes
      then TooLarge 413 ''ERR_PAYLOAD_TOO_LARGE'' ''request body too large'' else WithinLimit next)"

section \<open>Lemmas\<close>

lemma map_of_fold_update:
  "map_of (fold (\<lambda>(k, v) out. AList.update k (f k v) out) h out) x =
     (case map_of (rev h) x of Some v \<Rightarrow> Some (f x v) | None \<Rightarrow> map_of out x)"
  by (induction h arbitrary: out) (auto simp: map_add_def split: option.splits)

lemma wf_fold_update: "wf_gomap out \<Longrightarrow> wf_gomap (fold (\<lambda>(k, v) out. AList.update k (f k v) out) h out)"
  by (induction h arbitrary: out) auto

lemma map_of_rev: "wf_gomap h \<Longrightarrow> map_of (rev h) = map_of h"
  by (rule map_of_inject_set [THEN iffD2]) (simp_all add: rev_map [symmetric])

lemma map_of_RedactHeaders:
  assumes "wf_gomap h"
  shows "map_of (RedactHeaders h) k = map_option (\<lambda>v. if IsSensitiveHeader k then redactedMarker else v) (map_of h k)"
proof (cases "h = []")
  case False
  then show ?thesis
    using map_of_fold_update [of "\<lambda>k v. if ToLower k \<in> set sensitiveHeaders then redactedMarker else v" h "[]" k]
    by (simp add: RedactHeaders_def map_of_rev [OF assms] IsSensitiveHeader_def split: option.splits)
qed (simp add: RedactHeaders_def)

lemma visit_headers_wf: "wf_gomap (visit_headers hs)"
  using wf_fold_update [of "[]" "\<lambda>k v. v" hs] by (simp add: visit_headers_def)

lemma RedactHeaders_wf: "wf_gomap h \<Longrightarrow> wf_gomap (RedactHeaders h)"
  using wf_fold_update [of "[]" "\<lambda>k v. if ToLower k \<in> set sensitiveHeaders then redactedMarker else v" h]
  by (simp add: RedactHeaders_def)

lemma RedactHeaders_idem: "wf_gomap h \<Longrightarrow> map_of (RedactHeaders (RedactHeaders h)) = map_of (RedactHeaders h)"
  by (rule ext, rule option.expand) (auto simp: map_of_RedactHeaders RedactHeaders_wf option.map_sel)

text \<open>A captured body is at most the limit plus the marker long, and a prefix of the body.\<close>

lemma CapBody_length: "int (length (CapBody body ct mx)) \<le> max mx 0 + 16"
  by (auto simp: CapBody_def Let_def)

lemma CapBody_cases:
  "CapBody body ct mx \<in> {''[omitted]'', ''[binary omitted]'', body, take (nat mx) body @ ''...[truncated]''}"
  by (auto simp: CapBody_def Let_def)

text \<open>Everything a journal collects is also in the child file, in the same order.\<close>

lemma AddThirdParty_files:
  assumes "AddThirdParty (Some j) file tp = (Some j', file')"
  shows "ThirdParties (Some j') = ThirdParties (Some j) @ [tp] \<and>
    file' = file @ [tp_line_of (journal_RequestID (Some j)) (journal_TraceID (Some j)) tp]"
  using assms by (auto simp: AddThirdParty_def ThirdParties_def journal_RequestID_def journal_TraceID_def)

section \<open>Properties\<close>

text \<open>C31. A line of the access log never holds the value of a sensitive header, whatever the case of its
  name and however often it occurs: in the request and in the response it reads \<^verbatim>\<open>[redacted]\<close>, every
  other header keeps its last value, no header is lost or invented, and a captured body is at most
  sixteen bytes longer than the configured limit.\<close>

theorem access_log_redacts:
  "let line = fst (AccessLog opts now traceID rid req handler w);
       resp = fst (snd (AccessLog opts now traceID rid req handler w)) in
   map_of (ap_reqHeaders line) k =
     map_option (\<lambda>v. if IsSensitiveHeader k then ''[redacted]'' else v) (map_of (rev (fr_headers req)) k) \<and>
   map_of (ap_respHeaders line) k =
     map_option (\<lambda>v. if IsSensitiveHeader k then ''[redacted]'' else v) (map_of (rev (fs_headers resp)) k) \<and>
   int (length (ap_reqBody line)) \<le> max (al_BodyMaxBytes opts) 0 + 16 \<and>
   int (length (ap_respBody line)) \<le> max (al_BodyMaxBytes opts) 0 + 16"
proof -
  have visit: "map_of (visit_headers hs) k = map_of (rev hs) k" for hs
    using map_of_fold_update [of "\<lambda>k v. v" hs "[]" k] by (simp add: visit_headers_def split: option.splits)
  have redact: "map_of (RedactHeaders (visit_headers hs)) k =
      map_option (\<lambda>v. if IsSensitiveHeader k then ''[redacted]'' else v) (map_of (rev hs) k)" for hs
    using map_of_RedactHeaders [OF visit_headers_wf [of hs], of k] unfolding visit redactedMarker_def .
  show ?thesis using CapBody_length [of _ _ "al_BodyMaxBytes opts"]
    by (auto simp: AccessLog_def Let_def redact split: prod.splits)
qed

end
