(* ===== verification/Trace_Carrier.thy ===== *)
theory Trace_Carrier
  imports Prelude
begin

text \<open>
  The header carriers of the two message brokers (\<^verbatim>\<open>pkg/messaging/kafka/carrier.go\<close>,
  \<^verbatim>\<open>pkg/messaging/rabbitmq/carrier.go\<close>), through which OpenTelemetry writes and reads trace
  context, and the back-off the two consumers share.

  The locale \<open>text_map_carrier\<close> is the contract of OpenTelemetry's \<^verbatim>\<open>TextMapCarrier\<close>. A propagator
  is third-party code: what it does to a carrier is a sequence of \<^verbatim>\<open>Set\<close> calls (\<open>Inject\<close>).
\<close>

section \<open>Kafka headers\<close>

type_synonym kheader = "string \<times> string"

fun kafkaHeaderCarrier_Get :: "kheader list \<Rightarrow> string \<Rightarrow> string" where
  "kafkaHeaderCarrier_Get [] key = []"
| "kafkaHeaderCarrier_Get ((k, v) # hs) key = (if k = key then v else kafkaHeaderCarrier_Get hs key)"

fun kafkaHeaderCarrier_Set :: "kheader list \<Rightarrow> string \<Rightarrow> string \<Rightarrow> kheader list" where
  "kafkaHeaderCarrier_Set [] key val = [(key, val)]"
| "kafkaHeaderCarrier_Set ((k, v) # hs) key val =
     (if k = key then (k, val) # hs else (k, v) # kafkaHeaderCarrier_Set hs key val)"

definition kafkaHeaderCarrier_Keys :: "kheader list \<Rightarrow> string list" where
  "kafkaHeaderCarrier_Keys hs = map fst hs"

text \<open>The consumer side's carrier is read-only.\<close>

fun ExtractCarrier_Get :: "kheader list \<Rightarrow> string \<Rightarrow> string" where
  "ExtractCarrier_Get [] key = []"
| "ExtractCarrier_Get ((k, v) # hs) key = (if k = key then v else ExtractCarrier_Get hs key)"

definition ExtractCarrier_Set :: "kheader list \<Rightarrow> string \<Rightarrow> string \<Rightarrow> kheader list" where
  "ExtractCarrier_Set hs key val = hs"

definition ExtractCarrier_Keys :: "kheader list \<Rightarrow> string list" where
  "ExtractCarrier_Keys hs = map fst hs"

section \<open>AMQP tables\<close>

text \<open>A table value is a string or a value of another type, of which only its \<^verbatim>\<open>fmt.Sprint\<close> matters.\<close>

datatype amqp_value = VString string | VOther string

type_synonym amqp_table = "amqp_value gomap"

fun Sprint :: "amqp_value \<Rightarrow> string" where
  "Sprint (VString s) = s"
| "Sprint (VOther s) = s"

definition amqpTableCarrier_Get :: "amqp_table \<Rightarrow> string \<Rightarrow> string" where
  "amqpTableCarrier_Get c key = (case map_of c key of
     None \<Rightarrow> []
   | Some v \<Rightarrow> (case v of VString s \<Rightarrow> s | VOther _ \<Rightarrow> []))"

definition amqpTableCarrier_Set :: "amqp_table \<Rightarrow> string \<Rightarrow> string \<Rightarrow> amqp_table" where
  "amqpTableCarrier_Set c key val = AList.update key (VString val) c"

definition amqpTableCarrier_Keys :: "amqp_table \<Rightarrow> string list" where
  "amqpTableCarrier_Keys c = map fst c"

section \<open>The contract of a carrier\<close>

locale text_map_carrier =
  fixes Get :: "'c \<Rightarrow> string \<Rightarrow> string"
    and Put :: "'c \<Rightarrow> string \<Rightarrow> string \<Rightarrow> 'c"
    and Keys :: "'c \<Rightarrow> string list"
  assumes get_put: "Get (Put c k v) k' = (if k' = k then v else Get c k')"
    and keys_put: "set (Keys (Put c k v)) = insert k (set (Keys c))"
    and get_no_key: "k \<notin> set (Keys c) \<Longrightarrow> Get c k = []"
begin

definition Inject :: "(string \<times> string) list \<Rightarrow> 'c \<Rightarrow> 'c" where
  "Inject ps c = fold (\<lambda>(k, v) c. Put c k v) ps c"

lemma Inject_simps [simp]: "Inject [] c = c" "Inject ((k, v) # ps) c = Inject ps (Put c k v)"
  by (simp_all add: Inject_def)

lemma get_inject:
  "Get (Inject ps c) k = (case map_of (rev ps) k of None \<Rightarrow> Get c k | Some v \<Rightarrow> v)"
  by (induction ps arbitrary: c) (auto simp: get_put map_add_def split: option.splits)

lemma get_inject_other: "k \<notin> fst ` set ps \<Longrightarrow> Get (Inject ps c) k = Get c k"
  by (induction ps arbitrary: c) (auto simp: get_put)

lemma keys_inject: "set (Keys (Inject ps c)) = fst ` set ps \<union> set (Keys c)"
proof (induction ps arbitrary: c)
  case (Cons p ps)
  obtain k v where "p = (k, v)" by (cases p)
  then show ?case using Cons [of "Put c k v"] by (simp add: keys_put)
qed simp

end

lemma kafka_get_put:
  "kafkaHeaderCarrier_Get (kafkaHeaderCarrier_Set c k v) k' = (if k' = k then v else kafkaHeaderCarrier_Get c k')"
  by (induction c k v rule: kafkaHeaderCarrier_Set.induct) auto

lemma kafka_keys_put:
  "set (kafkaHeaderCarrier_Keys (kafkaHeaderCarrier_Set c k v)) = insert k (set (kafkaHeaderCarrier_Keys c))"
  by (induction c k v rule: kafkaHeaderCarrier_Set.induct) (auto simp: kafkaHeaderCarrier_Keys_def)

lemma kafka_get_no_key: "k \<notin> set (kafkaHeaderCarrier_Keys c) \<Longrightarrow> kafkaHeaderCarrier_Get c k = []"
  by (induction c k rule: kafkaHeaderCarrier_Get.induct) (auto simp: kafkaHeaderCarrier_Keys_def split: if_splits)

interpretation kc: text_map_carrier kafkaHeaderCarrier_Get kafkaHeaderCarrier_Set kafkaHeaderCarrier_Keys
  by unfold_locales (fact kafka_get_put kafka_keys_put kafka_get_no_key)+

interpretation ac: text_map_carrier amqpTableCarrier_Get amqpTableCarrier_Set amqpTableCarrier_Keys
proof
  fix c k
  assume "k \<notin> set (amqpTableCarrier_Keys c)"
  then have "map_of c k = None" by (simp add: amqpTableCarrier_Keys_def map_of_eq_None_iff)
  then show "amqpTableCarrier_Get c k = []" by (simp add: amqpTableCarrier_Get_def)
qed (simp_all add: amqpTableCarrier_Get_def amqpTableCarrier_Set_def amqpTableCarrier_Keys_def dom_update)

lemma Extract_Get [simp]: "ExtractCarrier_Get hs key = kafkaHeaderCarrier_Get hs key"
  by (induction hs key rule: ExtractCarrier_Get.induct) auto

text \<open>Both carriers keep one header per key.\<close>

lemma kafka_set_distinct: "distinct (map fst c) \<Longrightarrow> distinct (map fst (kafkaHeaderCarrier_Set c k v))"
proof (induction c k v rule: kafkaHeaderCarrier_Set.induct)
  case (2 k v hs key val)
  then show ?case using kafka_keys_put [of hs key val] by (auto simp: kafkaHeaderCarrier_Keys_def)
qed simp

section \<open>Back-off\<close>

text \<open>The change of the back-off after a wait, the same code in both consumers.\<close>

definition maxBackoff :: duration where
  "maxBackoff = 30 * second"

definition next_backoff :: "duration \<Rightarrow> duration" where
  "next_backoff bo = (if bo < maxBackoff then if bo * 2 > maxBackoff then maxBackoff else bo * 2 else bo)"

fun backoffs :: "nat \<Rightarrow> duration" where
  "backoffs 0 = second"
| "backoffs (Suc n) = next_backoff (backoffs n)"

lemma backoffs_closed: "backoffs n = min (2 ^ n * second) maxBackoff"
  by (induction n) (auto simp: next_backoff_def maxBackoff_def min_def)

lemma backoffs_bounds: "second \<le> backoffs n \<and> backoffs n \<le> maxBackoff"
  by (induction n) (auto simp: next_backoff_def maxBackoff_def)

end
