(* ===== verification/Kafka.thy ===== *)
theory Kafka
  imports Trace_Carrier
begin

text \<open>
  \<^verbatim>\<open>pkg/messaging/kafka\<close>: the producer, the consumer loop and the health probe.

  The Kafka client (\<^verbatim>\<open>kafka-go\<close>), the context and the handler act on a world \<open>'w\<close>; the record
  \<open>kafka_env\<close> holds the calls the consumer makes on them. \<^verbatim>\<open>Start\<close> is a loop that need not end:
  \<open>Start n\<close> runs at most \<open>n\<close> rounds and tells whether the loop returned. It also returns the history
  of what the loop did, which the program does not keep: the properties are about it. A restarted consumer
  begins at the committed offset; what it is given again is characterised exactly.
\<close>

section \<open>Messages\<close>

record kmsg =
  m_Topic :: string
  m_Partition :: int
  m_Offset :: int
  m_Key :: string
  m_Value :: string
  m_Headers :: "kheader list"

record Message =
  msg_Topic :: string
  msg_Key :: string
  msg_Value :: string
  msg_RequestID :: string

fun extract_rid :: "kheader list \<Rightarrow> string" where
  "extract_rid [] = []"
| "extract_rid ((k, v) # hs) = (if k = ''x-request-id'' then v else extract_rid hs)"

definition extractRequestID :: "kmsg \<Rightarrow> string" where
  "extractRequestID m = extract_rid (m_Headers m)"

section \<open>The producer\<close>

record WriterConfig =
  wc_Addr :: "string list"
  wc_WriteTimeout :: duration
  wc_ReadTimeout :: duration
  wc_RequiredAcks :: int
  wc_MaxAttempts :: int

text \<open>\<^verbatim>\<open>RequireOne\<close> is 1.\<close>

definition NewProducer :: "string \<Rightarrow> WriterConfig" where
  "NewProducer brokers = \<lparr>wc_Addr = Split brokers (CHR '',''), wc_WriteTimeout = 10 * second,
     wc_ReadTimeout = 10 * second, wc_RequiredAcks = 1, wc_MaxAttempts = 3\<rparr>"

text \<open>The message that \<^verbatim>\<open>Publish\<close> builds: \<open>ctxRid\<close> is the request id of the context and \<open>inject\<close> are
  the pairs the propagator sets. Partition and offset are given by the broker.\<close>

definition publish_headers :: "string \<Rightarrow> (string \<times> string) list \<Rightarrow> Message \<Rightarrow> kheader list" where
  "publish_headers ctxRid inject msg =
     (let rid = (if msg_RequestID msg = [] then ctxRid else msg_RequestID msg);
          headers = [(''x-request-id'', rid), (''content-type'', ''application/json'')]
      in fold (\<lambda>(k, v) c. kafkaHeaderCarrier_Set c k v) inject headers)"

definition Publish ::
  "('w \<Rightarrow> kmsg \<Rightarrow> string option \<times> 'w) \<Rightarrow> 'w \<Rightarrow> string \<Rightarrow> (string \<times> string) list \<Rightarrow> Message \<Rightarrow> string option \<times> 'w" where
  "Publish WriteMessages w ctxRid inject msg =
     (let km = \<lparr>m_Topic = msg_Topic msg, m_Partition = 0, m_Offset = 0, m_Key = msg_Key msg,
                m_Value = msg_Value msg, m_Headers = publish_headers ctxRid inject msg\<rparr>
      in case WriteMessages w km of
           (Some err, w') \<Rightarrow> (Some (wrap (''kafka publish topic='' @ msg_Topic msg) err), w')
         | (None, w') \<Rightarrow> (None, w'))"

section \<open>The consumer\<close>

record ConsumerConfig =
  cc_Brokers :: string
  cc_GroupID :: string
  cc_HeartbeatInterval :: duration
  cc_SessionTimeout :: duration
  cc_RebalanceTimeout :: duration

record ReaderConfig =
  rc_Brokers :: "string list"
  rc_GroupID :: string
  rc_Topic :: string
  rc_MinBytes :: int
  rc_MaxBytes :: int
  rc_MaxWait :: duration
  rc_StartOffset :: int
  rc_CommitInterval :: duration
  rc_HeartbeatInterval :: duration
  rc_SessionTimeout :: duration
  rc_RebalanceTimeout :: duration

text \<open>\<^verbatim>\<open>LastOffset\<close> is -1; a commit interval of 0 makes commits synchronous.\<close>

definition NewConsumer :: "ConsumerConfig \<Rightarrow> string \<Rightarrow> ReaderConfig" where
  "NewConsumer cfg topic =
     (let hi = (if cc_HeartbeatInterval cfg = 0 then 3 * second else cc_HeartbeatInterval cfg);
          st = (if cc_SessionTimeout cfg = 0 then 30 * second else cc_SessionTimeout cfg);
          rt = (if cc_RebalanceTimeout cfg = 0 then 30 * second else cc_RebalanceTimeout cfg)
      in \<lparr>rc_Brokers = Split (cc_Brokers cfg) (CHR '',''), rc_GroupID = cc_GroupID cfg, rc_Topic = topic,
          rc_MinBytes = 10000, rc_MaxBytes = 10000000, rc_MaxWait = 500 * millisecond, rc_StartOffset = -1,
          rc_CommitInterval = 0, rc_HeartbeatInterval = hi, rc_SessionTimeout = st, rc_RebalanceTimeout = rt\<rparr>)"

text \<open>\<open>k_wait w d\<close> is the \<^verbatim>\<open>select\<close> between the context and a timer of \<open>d\<close>: true if the timer fired.
  \<open>k_journal\<close> is what the journal of the message holds after the handler ran: the trace id, the
  third-party calls and the custom traces.\<close>

record 'w kafka_env =
  k_FetchMessage :: "'w \<Rightarrow> (string + kmsg) \<times> 'w"
  k_CommitMessages :: "'w \<Rightarrow> kmsg \<Rightarrow> string option \<times> 'w"
  k_ctxErr :: "'w \<Rightarrow> bool"
  k_wait :: "'w \<Rightarrow> duration \<Rightarrow> bool \<times> 'w"
  k_now :: "'w \<Rightarrow> time"
  k_journal :: "'w \<Rightarrow> string \<times> string list \<times> string list"

record kafka_log =
  lg_topic :: string
  lg_partition :: int
  lg_offset :: int
  lg_key :: string
  lg_request_id :: string
  lg_trace_id :: string
  lg_latency :: duration
  lg_status :: string
  lg_thirdparty :: "string list"
  lg_trace :: "string list"
  lg_error :: "string option"

definition kafka_logConsumed ::
  "kmsg \<Rightarrow> string \<Rightarrow> string \<times> string list \<times> string list \<Rightarrow> duration \<Rightarrow> string option \<Rightarrow> kafka_log" where
  "kafka_logConsumed m rid j latency herr = (case j of (tid, tp, tr) \<Rightarrow>
     \<lparr>lg_topic = m_Topic m, lg_partition = m_Partition m, lg_offset = m_Offset m, lg_key = m_Key m,
      lg_request_id = rid, lg_trace_id = tid, lg_latency = latency,
      lg_status = (if herr \<noteq> None then ''error'' else ''ok''), lg_thirdparty = tp, lg_trace = tr, lg_error = herr\<rparr>)"

datatype k_event =
    KWaited duration
  | KHandled kmsg "string option"
  | KLogged kafka_log
  | KCommitted kmsg "string option"

text \<open>One round of the loop: the back-off of the next round, or \<open>None\<close> if \<^verbatim>\<open>Start\<close> returned.\<close>

definition Start_round ::
  "'w kafka_env \<Rightarrow> ('w \<Rightarrow> Message \<Rightarrow> string option \<times> 'w) \<Rightarrow> duration \<Rightarrow> 'w \<Rightarrow> duration option \<times> k_event list \<times> 'w" where
  "Start_round E handler bo w = (case k_FetchMessage E w of
     (Inl err, w1) \<Rightarrow>
       if k_ctxErr E w1 then (None, [], w1)
       else (case k_wait E w1 bo of
               (False, w2) \<Rightarrow> (None, [], w2)
             | (True, w2) \<Rightarrow> (Some (next_backoff bo), [KWaited bo], w2))
   | (Inr m, w1) \<Rightarrow>
       let rid = extractRequestID m;
           start = k_now E w1
       in case handler w1 \<lparr>msg_Topic = m_Topic m, msg_Key = m_Key m, msg_Value = m_Value m, msg_RequestID = rid\<rparr> of
            (herr, w2) \<Rightarrow>
              let line = KLogged (kafka_logConsumed m rid (k_journal E w2) (k_now E w2 - start) herr)
              in if herr \<noteq> None then (Some second, [KHandled m herr, line], w2)
                 else (case k_CommitMessages E w2 m of
                         (cerr, w3) \<Rightarrow> (Some second, [KHandled m herr, line, KCommitted m cerr], w3)))"

fun Start_from ::
  "nat \<Rightarrow> 'w kafka_env \<Rightarrow> ('w \<Rightarrow> Message \<Rightarrow> string option \<times> 'w) \<Rightarrow> duration \<Rightarrow> 'w \<Rightarrow> bool \<times> k_event list \<times> 'w" where
  "Start_from 0 E handler bo w = (False, [], w)"
| "Start_from (Suc n) E handler bo w = (case Start_round E handler bo w of
     (None, es, w') \<Rightarrow> (True, es, w')
   | (Some bo', es, w') \<Rightarrow> (case Start_from n E handler bo' w' of (r, es', w'') \<Rightarrow> (r, es @ es', w'')))"

definition Start ::
  "nat \<Rightarrow> 'w kafka_env \<Rightarrow> ('w \<Rightarrow> Message \<Rightarrow> string option \<times> 'w) \<Rightarrow> 'w \<Rightarrow> bool \<times> k_event list \<times> 'w" where
  "Start n E handler w = Start_from n E handler second w"

section \<open>The health probe\<close>

definition kafka_healthCheckWithDialer :: "string \<Rightarrow> (string \<Rightarrow> string option) \<Rightarrow> string" where
  "kafka_healthCheckWithDialer brokers dial =
     (if TrimSpace brokers = [] then ''not_configured''
      else let addr = TrimSpace (hd (Split brokers (CHR '','')))
           in case dial addr of Some err \<Rightarrow> ''down: '' @ err | None \<Rightarrow> ''ok'')"

section \<open>Lemmas on rounds\<close>

inductive k_run :: "'w kafka_env \<Rightarrow> ('w \<Rightarrow> Message \<Rightarrow> string option \<times> 'w) \<Rightarrow> 'w \<Rightarrow> k_event list \<Rightarrow> 'w \<Rightarrow> bool"
  for E handler where
  stop: "k_run E handler w [] w"
| round: "Start_round E handler bo w = (r, es, w1) \<Longrightarrow> k_run E handler w1 es' w2 \<Longrightarrow> k_run E handler w (es @ es') w2"

lemma Start_from_run: "Start_from n E handler bo w = (r, es, w') \<Longrightarrow> k_run E handler w es w'"
proof (induction n arbitrary: bo w r es w')
  case 0
  then show ?case by (simp add: k_run.stop)
next
  case (Suc n)
  obtain r1 es1 w1 where rd: "Start_round E handler bo w = (r1, es1, w1)" by (metis prod_cases3)
  show ?case
  proof (cases r1)
    case None
    then show ?thesis using Suc.prems rd k_run.round [OF rd k_run.stop] by simp
  next
    case (Some bo')
    obtain r2 es2 where "Start_from n E handler bo' w1 = (r2, es2, w')" "es = es1 @ es2"
      using Suc.prems rd Some by (auto split: prod.splits)
    then show ?thesis using k_run.round [OF rd] Suc.IH by blast
  qed
qed

lemma Start_run: "Start n E handler w = (r, es, w') \<Longrightarrow> k_run E handler w es w'"
  unfolding Start_def by (rule Start_from_run)

text \<open>What a round does, in the four ways it can end.\<close>

lemma round_cases [consumes 1, case_names Stop Wait Failed Done]:
  assumes "Start_round E handler bo w = (r, es, w')"
  obtains "r = None" "es = []"
    | w1 err where "k_FetchMessage E w = (Inl err, w1)" "\<not> k_ctxErr E w1" "k_wait E w1 bo = (True, w')"
        "r = Some (next_backoff bo)" "es = [KWaited bo]"
    | m w1 arg e line where "k_FetchMessage E w = (Inr m, w1)" "handler w1 arg = (Some e, w')"
        "r = Some second" "es = [KHandled m (Some e), KLogged line]"
    | m w1 arg w2 line c where "k_FetchMessage E w = (Inr m, w1)" "handler w1 arg = (None, w2)"
        "k_CommitMessages E w2 m = (c, w')" "r = Some second" "es = [KHandled m None, KLogged line, KCommitted m c]"
  using assms by (auto simp: Start_round_def Let_def split: prod.splits sum.splits if_splits bool.splits)

section \<open>A partition\<close>

text \<open>The documented behaviour of a consumer-group reader of one partition: messages come in the order of
  their offsets, from the reader's position; a commit sets the group's offset to one past the
  message; nothing else moves either of the two. \<open>pos\<close> and \<open>committed\<close> read them from the world.\<close>

definition reader_ok ::
  "'w kafka_env \<Rightarrow> ('w \<Rightarrow> Message \<Rightarrow> string option \<times> 'w) \<Rightarrow> ('w \<Rightarrow> int) \<Rightarrow> ('w \<Rightarrow> int) \<Rightarrow> bool" where
  "reader_ok E handler pos committed \<longleftrightarrow>
     (\<forall>w w' m. k_FetchMessage E w = (Inr m, w') \<longrightarrow> m_Offset m = pos w \<and> pos w' = pos w + 1 \<and> committed w' = committed w) \<and>
     (\<forall>w w' e. k_FetchMessage E w = (Inl e, w') \<longrightarrow> pos w' = pos w \<and> committed w' = committed w) \<and>
     (\<forall>w w' m. k_CommitMessages E w m = (None, w') \<longrightarrow> pos w' = pos w \<and> committed w' = m_Offset m + 1) \<and>
     (\<forall>w w' m e. k_CommitMessages E w m = (Some e, w') \<longrightarrow> pos w' = pos w \<and> committed w' = committed w) \<and>
     (\<forall>w w' d b. k_wait E w d = (b, w') \<longrightarrow> pos w' = pos w \<and> committed w' = committed w) \<and>
     (\<forall>w w' a r. handler w a = (r, w') \<longrightarrow> pos w' = pos w \<and> committed w' = committed w)"

lemmas reader_okD =
  reader_ok_def [THEN iffD1, THEN conjunct1, rule_format]
  reader_ok_def [THEN iffD1, THEN conjunct2, THEN conjunct1, rule_format]
  reader_ok_def [THEN iffD1, THEN conjunct2, THEN conjunct2, THEN conjunct1, rule_format]
  reader_ok_def [THEN iffD1, THEN conjunct2, THEN conjunct2, THEN conjunct2, THEN conjunct1, rule_format]
  reader_ok_def [THEN iffD1, THEN conjunct2, THEN conjunct2, THEN conjunct2, THEN conjunct2, THEN conjunct1, rule_format]
  reader_ok_def [THEN iffD1, THEN conjunct2, THEN conjunct2, THEN conjunct2, THEN conjunct2, THEN conjunct2, rule_format]

fun handled_offset :: "k_event \<Rightarrow> int set" where
  "handled_offset (KHandled m r) = {m_Offset m}"
| "handled_offset _ = {}"

definition handled_offsets :: "k_event list \<Rightarrow> int set" where
  "handled_offsets es = (\<Union>e \<in> set es. handled_offset e)"

lemma handled_offsets_append [simp]: "handled_offsets (xs @ ys) = handled_offsets xs \<union> handled_offsets ys"
  by (auto simp: handled_offsets_def)

text \<open>A round advances the position over exactly the message it handled, and commits at most up to it.\<close>

lemma round_positions:
  assumes "reader_ok E handler pos committed" and "Start_round E handler bo w = (r, es, w')" and "committed w \<le> pos w"
  shows "committed w' \<le> pos w' \<and> pos w \<le> pos w' \<and> committed w \<le> committed w' \<and> handled_offsets es = {pos w..<pos w'} \<and>
    (\<forall>m. KCommitted m None \<in> set es \<longrightarrow> committed w' = m_Offset m + 1 \<and> m_Offset m = pos w) \<and>
    ((\<forall>m. KCommitted m None \<notin> set es) \<longrightarrow> committed w' = committed w)"
proof -
  note R = reader_okD [OF assms(1)]
  show ?thesis using assms(2)
  proof (cases rule: round_cases)
    case Stop
    have "pos w' = pos w \<and> committed w' = committed w"
      using assms(2) Stop R by (auto simp: Start_round_def Let_def split: prod.splits sum.splits if_splits bool.splits)
    then show ?thesis using Stop assms(3) by (simp add: handled_offsets_def)
  next
    case (Wait w1 err)
    then show ?thesis using R(2) [of w err w1] R(5) [of w1 bo True w'] assms(3) by (simp add: handled_offsets_def)
  next
    case (Failed m w1 arg e line)
    then show ?thesis using R(1) [of w m w1] R(6) [of w1 arg "Some e" w'] assms(3) by (auto simp: handled_offsets_def)
  next
    case (Done m w1 arg w2 line c)
    then show ?thesis using R(1) [of w m w1] R(6) [of w1 arg None w2] R(3) [of w2 m w'] R(4) [of w2 m _ w'] assms(3)
      by (cases c) (auto simp: handled_offsets_def)
  qed
qed

lemma run_positions:
  assumes "reader_ok E handler pos committed"
  shows "k_run E handler w es w' \<Longrightarrow> committed w \<le> pos w \<Longrightarrow>
    committed w' \<le> pos w' \<and> pos w \<le> pos w' \<and> committed w \<le> committed w' \<and> handled_offsets es = {pos w..<pos w'}"
proof (induction rule: k_run.induct)
  case (round bo w r es w1 es' w2)
  note rd = round_positions [OF assms round.hyps(1) round.prems]
  then show ?case using round.IH by (auto simp: ivl_disj_un)
qed (simp add: handled_offsets_def)

text \<open>Whatever is committed in a run lies below the committed offset at its end.\<close>

lemma run_commit_below:
  assumes "reader_ok E handler pos committed"
  shows "k_run E handler w es w' \<Longrightarrow> committed w \<le> pos w \<Longrightarrow> KCommitted m None \<in> set es \<Longrightarrow>
    pos w \<le> m_Offset m \<and> m_Offset m < committed w'"
proof (induction rule: k_run.induct)
  case (round bo w r es w1 es' w2)
  note rd = round_positions [OF assms round.hyps(1) round.prems(1)]
  note rest = run_positions [OF assms round.hyps(2)]
  show ?case
  proof (cases "KCommitted m None \<in> set es")
    case True
    then show ?thesis using rd rest by auto
  next
    case False
    then show ?thesis using rd round by auto
  qed
qed simp




text \<open>A message that comes before a committed one in the history lies below it.\<close>

lemma run_order:
  assumes "reader_ok E handler pos committed"
  shows "k_run E handler w es w' \<Longrightarrow> committed w \<le> pos w \<Longrightarrow>
    es = xs @ KHandled m r # ys \<Longrightarrow> KCommitted m' None \<in> set ys \<Longrightarrow> m_Offset m \<le> m_Offset m'"
proof (induction arbitrary: xs ys rule: k_run.induct)
  case (round bo w r1 es w1 es' w2)
  note rd = round_positions [OF assms round.hyps(1) round.prems(1)]
  note eq = round.prems(2) [unfolded append_eq_append_conv2]
  from round.hyps(1) have short: "\<And>us vs. es = us @ KHandled m r # vs \<Longrightarrow> us = [] \<and> m_Offset m = pos w \<and> (\<forall>m2. KCommitted m2 None \<in> set vs \<longrightarrow> m_Offset m2 = pos w)"
    using rd by (cases rule: round_cases)
      (auto simp: Cons_eq_append_conv handled_offsets_def dest: reader_okD(1) [OF assms])
  show ?case
  proof (cases "\<exists>vs. es = xs @ KHandled m r # vs")
    case True
    then obtain vs where vs: "es = xs @ KHandled m r # vs" "ys = vs @ es'" using round.prems(2) by auto
    then consider "KCommitted m' None \<in> set vs" | "KCommitted m' None \<in> set es'" using round.prems(3) by auto
    then show ?thesis
    proof cases
      case 1
      then show ?thesis using short [OF vs(1)] by auto
    next
      case 2
      then have "pos w1 \<le> m_Offset m'" using run_commit_below [OF assms round.hyps(2)] rd by auto
      then show ?thesis using short [OF vs(1)] rd by auto
    qed
  next
    case False
    then obtain us where "es' = us @ KHandled m r # ys"
      using eq by (auto simp: append_eq_Cons_conv Cons_eq_append_conv)
    then show ?thesis using round.IH [of us ys] round.prems(3) rd by auto
  qed
qed simp

section \<open>Back-off and shutdown\<close>

fun is_wait :: "k_event \<Rightarrow> bool" where
  "is_wait (KWaited d) = True"
| "is_wait _ = False"

text \<open>The number of failed fetches since the last message, given \<open>k\<close> of them before the history.\<close>

fun fails_since :: "nat \<Rightarrow> k_event list \<Rightarrow> nat" where
  "fails_since k [] = k"
| "fails_since k (e # es) = fails_since (if is_wait e then Suc k else 0) es"

lemma fails_since_append [simp]: "fails_since k (xs @ ys) = fails_since (fails_since k xs) ys"
  by (induction k xs rule: fails_since.induct) auto

definition waits_ok :: "nat \<Rightarrow> k_event list \<Rightarrow> bool" where
  "waits_ok k es \<longleftrightarrow> (\<forall>xs d ys. es = xs @ KWaited d # ys \<longrightarrow> d = backoffs (fails_since k xs))"

lemma waits_ok_Nil [simp]: "waits_ok k []"
  by (simp add: waits_ok_def)

lemma waits_ok_Cons:
  "waits_ok k (e # es) \<longleftrightarrow> (\<forall>d. e = KWaited d \<longrightarrow> d = backoffs k) \<and> waits_ok (if is_wait e then Suc k else 0) es"
proof -
  have split: "e # es = xs @ KWaited d # ys \<longleftrightarrow>
      xs = [] \<and> e = KWaited d \<and> ys = es \<or> (\<exists>xs'. xs = e # xs' \<and> es = xs' @ KWaited d # ys)" for xs d ys
    by (auto simp: Cons_eq_append_conv)
  show ?thesis unfolding waits_ok_def split by (metis fails_since.simps)
qed

lemma waits_ok_append: "waits_ok k xs \<Longrightarrow> waits_ok (fails_since k xs) ys \<Longrightarrow> waits_ok k (xs @ ys)"
  by (induction k xs rule: fails_since.induct) (auto simp: waits_ok_Cons)

lemma round_waits:
  assumes "Start_round E handler (backoffs k) w = (r, es, w')"
  shows "waits_ok k es \<and> (r = None \<or> r = Some (backoffs (fails_since k es)))"
  using assms by (cases rule: round_cases) (auto simp: waits_ok_Cons)

lemma Start_from_waits: "Start_from n E handler (backoffs k) w = (r, es, w') \<Longrightarrow> waits_ok k es"
proof (induction n arbitrary: k w r es w')
  case (Suc n)
  obtain r1 es1 w1 where rd: "Start_round E handler (backoffs k) w = (r1, es1, w1)" by (metis prod_cases3)
  note W = round_waits [OF rd]
  show ?case
  proof (cases r1)
    case None
    then show ?thesis using Suc.prems rd W by simp
  next
    case (Some bo')
    obtain r2 es2 where "Start_from n E handler bo' w1 = (r2, es2, w')" "es = es1 @ es2"
      using Suc.prems rd Some by (auto split: prod.splits)
    then show ?thesis using W Some Suc.IH [of "fails_since k es1" w1] by (auto intro: waits_ok_append)
  qed
qed simp

text \<open>A cancelled context ends the loop in its next round, before anything else is handled.\<close>

lemma Start_stops:
  assumes "k_FetchMessage E w = (Inl err, w')" and "k_ctxErr E w'"
  shows "Start (Suc n) E handler w = (True, [], w')"
  using assms by (simp add: Start_def Start_round_def)

text \<open>One more round, when it ends the loop.\<close>

lemma Start_from_extend:
  assumes "\<And>bo. \<exists>w'. Start_round E handler bo wn = (None, [], w')" and "Start_from n E handler bo w = (False, es, wn)"
  shows "\<exists>w'. Start_from (Suc n) E handler bo w = (True, es, w')"
  using assms(2)
proof (induction n arbitrary: bo w es)
  case 0
  then show ?case using assms(1) [of bo] by auto
next
  case (Suc n)
  obtain r1 es1 w1 where rd: "Start_round E handler bo w = (r1, es1, w1)" by (metis prod_cases3)
  show ?case
  proof (cases r1)
    case None
    then show ?thesis using Suc.prems rd by simp
  next
    case (Some bo')
    obtain es2 where es2: "Start_from n E handler bo' w1 = (False, es2, wn)" "es = es1 @ es2"
      using Suc.prems rd Some by (auto split: prod.splits)
    then obtain w' where "Start_from (Suc n) E handler bo' w1 = (True, es2, w')" using Suc.IH by blast
    then have "Start_from (Suc (Suc n)) E handler bo w = (True, es, w')"
      using rd Some es2(2) by (subst Start_from.simps(2)) (simp del: Start_from.simps)
    then show ?thesis by blast
  qed
qed

section \<open>A concrete partition\<close>

text \<open>A reader of a log held in a list, whose handler fails on the messages with an empty value, and
  whose context is cancelled once the log is read.\<close>

record partition =
  p_log :: "kmsg list"
  p_pos :: nat
  p_committed :: int

definition partition_env :: "partition kafka_env" where
  "partition_env =
     \<lparr>k_FetchMessage = (\<lambda>w. if p_pos w < length (p_log w)
          then (Inr ((p_log w ! p_pos w)\<lparr>m_Offset := int (p_pos w)\<rparr>), w\<lparr>p_pos := p_pos w + 1\<rparr>)
          else (Inl ''context canceled'', w)),
      k_CommitMessages = (\<lambda>w m. (None, w\<lparr>p_committed := m_Offset m + 1\<rparr>)),
      k_ctxErr = (\<lambda>w. length (p_log w) \<le> p_pos w), k_wait = (\<lambda>w d. (True, w)), k_now = (\<lambda>w. 0), k_journal = (\<lambda>w. ([], [], []))\<rparr>"

definition picky_handler :: "partition \<Rightarrow> Message \<Rightarrow> string option \<times> partition" where
  "picky_handler w msg = (if msg_Value msg = [] then Some ''bad message'' else None, w)"


definition demo_kmsg :: "string \<Rightarrow> kmsg" where
  "demo_kmsg v = \<lparr>m_Topic = ''t'', m_Partition = 0, m_Offset = 0, m_Key = [], m_Value = v, m_Headers = []\<rparr>"

definition demo_partition :: partition where
  "demo_partition = \<lparr>p_log = [demo_kmsg ''a'', demo_kmsg [], demo_kmsg ''c''], p_pos = 0, p_committed = 0\<rparr>"

lemmas demo_kafka = demo_partition_def demo_kmsg_def partition_env_def picky_handler_def

section \<open>Properties\<close>



text \<open>A message whose handler failed is not delivered again once a later message was committed: the
  committed offset lies beyond it, although \<^verbatim>\<open>HandlerFunc\<close> documents that a failed message will
  be re-delivered.\<close>

lemma kafka_failed_message_skipped:
  assumes "reader_ok E handler pos committed" and "Start n E handler w = (r, es, w')" and "committed w \<le> pos w"
    and "es = xs @ KHandled m (Some e) # ys" and "KCommitted m' None \<in> set ys"
  shows "m_Offset m < committed w'"
proof -
  note run = Start_run [OF assms(2)]
  have "m_Offset m \<le> m_Offset m'" by (rule run_order [OF assms(1) run assms(3-5)])
  moreover have "m_Offset m' < committed w'"
    using run_commit_below [OF assms(1) run assms(3), of m'] assms(4,5) by auto
  ultimately show ?thesis by simp
qed

text \<open>C38. The consumer stops: in the round in which fetching fails because the context was cancelled, or in which it is
  cancelled while the consumer waits to fetch again, \<^verbatim>\<open>Start\<close> returns, and handles nothing more.\<close>

theorem kafka_stops_on_cancel:
  assumes "Start n E handler w = (False, es, wn)" and "k_FetchMessage E wn = (Inl err, w1)"
    and "k_ctxErr E w1 \<or> (\<forall>d. \<not> fst (k_wait E w1 d))"
  shows "\<exists>w'. Start (Suc n) E handler w = (True, es, w')"
proof -
  have "\<exists>w'. Start_round E handler bo wn = (None, [], w')" for bo
  proof (cases "k_ctxErr E w1")
    case False
    then have "\<not> fst (k_wait E w1 bo)" using assms(3) by blast
    then show ?thesis using False assms(2) by (cases "k_wait E w1 bo") (simp add: Start_round_def)
  qed (use assms(2) in \<open>simp add: Start_round_def\<close>)
  from Start_from_extend [OF this] show ?thesis using assms(1) unfolding Start_def .
qed

theorem kafka_stops_on_cancel_witness:
  "\<exists>w'. Start 4 partition_env picky_handler demo_partition
     = (True, fst (snd (Start 3 partition_env picky_handler demo_partition)), w')"
proof -
  let ?run = "Start 3 partition_env picky_handler demo_partition"
  have run: "?run = (False, fst (snd ?run), snd (snd ?run))"
    and fetch: "k_FetchMessage partition_env (snd (snd ?run)) = (Inl ''context canceled'', snd (snd ?run))"
    and ctx: "k_ctxErr partition_env (snd (snd ?run))"
    by (simp_all add: Start_def Start_round_def demo_kafka eval_nat_numeral extractRequestID_def)
  from kafka_stops_on_cancel [OF run fetch disjI1 [OF ctx]] show ?thesis by (simp add: eval_nat_numeral)
qed

text \<open>Failed fetches are retried after 1, 2, 4, 8, 16 and then 30 seconds, and the sequence starts again
  after every message: the wait after \<open>k\<close> earlier failures in a row is the smaller of \<open>2 ^ k\<close>
  and 30 seconds.\<close>

lemma kafka_backoff:
  assumes "Start n E handler w = (r, xs @ KWaited d # ys, w')"
  shows "d = min (2 ^ fails_since 0 xs * second) (30 * second)"
proof -
  have "waits_ok 0 (xs @ KWaited d # ys)"
    using Start_from_waits [of n E handler 0 w] assms by (simp add: Start_def)
  then show ?thesis by (auto simp: waits_ok_def backoffs_closed maxBackoff_def)
qed

section \<open>Headers\<close>

lemma extract_rid_get: "extract_rid hs = kafkaHeaderCarrier_Get hs ''x-request-id''"
  by (induction hs rule: extract_rid.induct) auto

lemma publish_headers_Inject:
  "publish_headers ctxRid inject msg =
     kc.Inject inject [(''x-request-id'', if msg_RequestID msg = [] then ctxRid else msg_RequestID msg),
       (''content-type'', ''application/json'')]"
  by (simp add: publish_headers_def kc.Inject_def)

text \<open>The consumer reads the request id the producer was given, or the one of the producer's context,
  and every trace header the propagator set.\<close>

lemma publish_request_id:
  assumes "''x-request-id'' \<notin> fst ` set inject" and "m_Headers km = publish_headers ctxRid inject msg"
  shows "extractRequestID km = (if msg_RequestID msg = [] then ctxRid else msg_RequestID msg)"
  using assms by (simp add: extractRequestID_def extract_rid_get publish_headers_Inject kc.get_inject_other)

lemma publish_trace_headers:
  assumes "map_of (rev inject) k = Some v"
  shows "ExtractCarrier_Get (publish_headers ctxRid inject msg) k = v"
  using assms by (simp add: publish_headers_Inject kc.get_inject)

end
