(* ===== verification/RabbitMQ.thy ===== *)
theory RabbitMQ
  imports Trace_Carrier
begin

text \<open>
  \<^verbatim>\<open>pkg/messaging/rabbitmq\<close>: the shared connection, the publisher and the consumer with its
  dead-letter queue.

  The AMQP client, the context and the clock act on a world \<open>'w\<close>; \<open>amqp_lib\<close> holds the calls the
  package makes on them. Connections and channels are handles. \<^verbatim>\<open>Subscribe\<close> and \<^verbatim>\<open>drain\<close> are loops
  that need not end: the model bounds their rounds and tells whether they returned, and returns the
  lines and back-offs they leave. What a subscription does to the broker and the handler is stated on worlds that
  record each call when it is made, as a protocol that every such history keeps.
\<close>

section \<open>The client library\<close>

record publishing =
  pu_ContentType :: string
  pu_Persistent :: bool
  pu_Timestamp :: time
  pu_Body :: string
  pu_Headers :: amqp_table

record delivery =
  dl_Tag :: int
  dl_Exchange :: string
  dl_RoutingKey :: string
  dl_Body :: string
  dl_Headers :: amqp_table

text \<open>What the \<^verbatim>\<open>select\<close> of \<^verbatim>\<open>drain\<close> receives: the end of the context, the close notification (with the
  reason, if there is one), or a delivery (\<open>None\<close>: the channel of deliveries was closed).\<close>

datatype drain_event = EvDone | EvClosed "string option" | EvDelivery "delivery option"

text \<open>The flags of the declarations are the booleans of the Go calls in order (durable, auto-delete,
  and so on). \<open>q_Nack\<close> takes the flag \<^verbatim>\<open>requeue\<close>. \<open>q_wait\<close> is true if the timer fired before the
  context ended.\<close>

record 'w amqp_lib =
  q_DialConfig :: "'w \<Rightarrow> string \<Rightarrow> (string + nat) \<times> 'w"
  q_IsClosed :: "'w \<Rightarrow> nat \<Rightarrow> bool"
  q_Channel :: "'w \<Rightarrow> nat \<Rightarrow> (string + nat) \<times> 'w"
  q_CloseConn :: "'w \<Rightarrow> nat \<Rightarrow> string option \<times> 'w"
  q_ExchangeDeclare :: "'w \<Rightarrow> nat \<Rightarrow> string \<Rightarrow> string \<Rightarrow> bool list \<Rightarrow> string option \<times> 'w"
  q_QueueDeclare :: "'w \<Rightarrow> nat \<Rightarrow> string \<Rightarrow> bool list \<Rightarrow> string gomap \<Rightarrow> string option \<times> 'w"
  q_QueueBind :: "'w \<Rightarrow> nat \<Rightarrow> string \<Rightarrow> string \<Rightarrow> string \<Rightarrow> string option \<times> 'w"
  q_Consume :: "'w \<Rightarrow> nat \<Rightarrow> string \<Rightarrow> bool list \<Rightarrow> string option \<times> 'w"
  q_CloseChan :: "'w \<Rightarrow> nat \<Rightarrow> string option \<times> 'w"
  q_Publish :: "'w \<Rightarrow> nat \<Rightarrow> string \<Rightarrow> string \<Rightarrow> publishing \<Rightarrow> string option \<times> 'w"
  q_select :: "'w \<Rightarrow> nat \<Rightarrow> drain_event \<times> 'w"
  q_Ack :: "'w \<Rightarrow> delivery \<Rightarrow> string option \<times> 'w"
  q_Nack :: "'w \<Rightarrow> delivery \<Rightarrow> bool \<Rightarrow> string option \<times> 'w"
  q_ctxErr :: "'w \<Rightarrow> bool"
  q_wait :: "'w \<Rightarrow> duration \<Rightarrow> bool \<times> 'w"
  q_now :: "'w \<Rightarrow> time"
  q_journal :: "'w \<Rightarrow> string \<times> string list \<times> string list"

section \<open>The shared connection\<close>

record Connection =
  cn_dsn :: string
  cn_conn :: "nat option"

definition dial :: "'w amqp_lib \<Rightarrow> 'w \<Rightarrow> Connection \<Rightarrow> string option \<times> Connection \<times> 'w" where
  "dial L w c = (case q_DialConfig L w (cn_dsn c) of
     (Inl err, w') \<Rightarrow> (Some (wrap ''rabbitmq dial'' err), c, w')
   | (Inr conn, w') \<Rightarrow> (None, c\<lparr>cn_conn := Some conn\<rparr>, w'))"

definition NewConnection :: "'w amqp_lib \<Rightarrow> 'w \<Rightarrow> string \<Rightarrow> (string + Connection) \<times> 'w" where
  "NewConnection L w dsn = (case dial L w \<lparr>cn_dsn = dsn, cn_conn = None\<rparr> of
     (Some err, c, w') \<Rightarrow> (Inl err, w')
   | (None, c, w') \<Rightarrow> (Inr c, w'))"

definition IsClosed :: "'w amqp_lib \<Rightarrow> 'w \<Rightarrow> Connection \<Rightarrow> bool" where
  "IsClosed L w c = (case cn_conn c of None \<Rightarrow> True | Some conn \<Rightarrow> q_IsClosed L w conn)"

definition reconnect :: "'w amqp_lib \<Rightarrow> 'w \<Rightarrow> Connection \<Rightarrow> string option \<times> Connection \<times> 'w" where
  "reconnect L w c = (if \<not> IsClosed L w c then (None, c, w) else dial L w c)"

text \<open>\<open>ChPanic\<close> is the call of a method on a nil connection.\<close>

datatype chan_result = ChOk nat | ChErr string | ChPanic

definition open_on :: "'w amqp_lib \<Rightarrow> 'w \<Rightarrow> Connection \<Rightarrow> chan_result \<times> 'w" where
  "open_on L w c = (case cn_conn c of
     None \<Rightarrow> (ChPanic, w)
   | Some conn \<Rightarrow> (case q_Channel L w conn of
        (Inl err, w') \<Rightarrow> (ChErr err, w')
      | (Inr ch, w') \<Rightarrow> (ChOk ch, w')))"

definition Channel :: "'w amqp_lib \<Rightarrow> 'w \<Rightarrow> Connection \<Rightarrow> chan_result \<times> Connection \<times> 'w" where
  "Channel L w c =
     (case (if IsClosed L w c then reconnect L w c else (None, c, w)) of
        (Some err, c1, w1) \<Rightarrow> (ChErr err, c1, w1)
      | (None, c1, w1) \<Rightarrow>
          (case open_on L w1 c1 of
             (ChErr err, w2) \<Rightarrow>
               (case reconnect L w2 c1 of
                  (Some rerr, c2, w3) \<Rightarrow> (ChErr (wrap ''rabbitmq channel'' err), c2, w3)
                | (None, c2, w3) \<Rightarrow> (case open_on L w3 c2 of (r, w4) \<Rightarrow> (r, c2, w4)))
           | (r, w2) \<Rightarrow> (r, c1, w2)))"

definition Close_conn :: "'w amqp_lib \<Rightarrow> 'w \<Rightarrow> Connection \<Rightarrow> string option \<times> 'w" where
  "Close_conn L w c = (case cn_conn c of
     Some conn \<Rightarrow> if \<not> q_IsClosed L w conn then q_CloseConn L w conn else (None, w)
   | None \<Rightarrow> (None, w))"

section \<open>The publisher\<close>

record amqp_Message =
  am_RoutingKey :: string
  am_Body :: string
  am_RequestID :: string

record Publisher =
  pb_ch :: "nat option"
  pb_exchange :: string

text \<open>\<open>conn = None\<close> is a publisher without a connection.\<close>

definition openChannel ::
  "'w amqp_lib \<Rightarrow> 'w \<Rightarrow> Connection option \<Rightarrow> Publisher \<Rightarrow> string option \<times> Connection option \<times> Publisher \<times> 'w" where
  "openChannel L w conn p = (case conn of
     None \<Rightarrow> (Some ''rabbitmq: no connection'', None, p, w)
   | Some c \<Rightarrow> (case Channel L w c of
        (ChErr err, c', w1) \<Rightarrow> (Some (wrap ''rabbitmq publisher channel'' err), Some c', p, w1)
      | (ChPanic, c', w1) \<Rightarrow> (Some ''panic'', Some c', p, w1)
      | (ChOk ch, c', w1) \<Rightarrow>
          (case q_ExchangeDeclare L w1 ch (pb_exchange p) ''topic'' [True, False, False, False] of
             (Some err, w2) \<Rightarrow> (case q_CloseChan L w2 ch of
                (_, w3) \<Rightarrow> (Some (wrap ''rabbitmq exchange declare'' err), Some c', p, w3))
           | (None, w2) \<Rightarrow> (None, Some c', p\<lparr>pb_ch := Some ch\<rparr>, w2))))"

definition NewPublisher ::
  "'w amqp_lib \<Rightarrow> 'w \<Rightarrow> Connection option \<Rightarrow> string \<Rightarrow> (string + Publisher) \<times> Connection option \<times> 'w" where
  "NewPublisher L w conn exchange = (case openChannel L w conn \<lparr>pb_ch = None, pb_exchange = exchange\<rparr> of
     (Some err, conn', p, w') \<Rightarrow> (Inl err, conn', w')
   | (None, conn', p, w') \<Rightarrow> (Inr p, conn', w'))"

definition amqp_headers :: "string \<Rightarrow> (string \<times> string) list \<Rightarrow> amqp_Message \<Rightarrow> amqp_table" where
  "amqp_headers ctxRid inject msg =
     (let rid = (if am_RequestID msg = [] then ctxRid else am_RequestID msg)
      in fold (\<lambda>(k, v) c. amqpTableCarrier_Set c k v) inject [(''x-request-id'', VString rid)])"

definition amqp_publishing :: "'w amqp_lib \<Rightarrow> 'w \<Rightarrow> string \<Rightarrow> (string \<times> string) list \<Rightarrow> amqp_Message \<Rightarrow> publishing" where
  "amqp_publishing L w ctxRid inject msg = \<lparr>pu_ContentType = ''application/json'', pu_Persistent = True,
     pu_Timestamp = q_now L w, pu_Body = am_Body msg, pu_Headers = amqp_headers ctxRid inject msg\<rparr>"

datatype pub_result = PubOk | PubErr string | PubPanic

definition publish ::
  "'w amqp_lib \<Rightarrow> 'w \<Rightarrow> Publisher \<Rightarrow> string \<Rightarrow> (string \<times> string) list \<Rightarrow> amqp_Message \<Rightarrow> pub_result \<times> 'w" where
  "publish L w p ctxRid inject msg = (case pb_ch p of
     None \<Rightarrow> (PubPanic, w)
   | Some ch \<Rightarrow> (case q_Publish L w ch (pb_exchange p) (am_RoutingKey msg) (amqp_publishing L w ctxRid inject msg) of
        (Some err, w') \<Rightarrow> (PubErr err, w')
      | (None, w') \<Rightarrow> (PubOk, w')))"

definition close_stale :: "'w amqp_lib \<Rightarrow> 'w \<Rightarrow> Publisher \<Rightarrow> 'w" where
  "close_stale L w p = (case pb_ch p of None \<Rightarrow> w | Some ch \<Rightarrow> snd (q_CloseChan L w ch))"

definition amqp_Publish ::
  "'w amqp_lib \<Rightarrow> 'w \<Rightarrow> Connection option \<Rightarrow> Publisher \<Rightarrow> string \<Rightarrow> (string \<times> string) list \<Rightarrow> amqp_Message
     \<Rightarrow> pub_result \<times> Connection option \<times> Publisher \<times> 'w" where
  "amqp_Publish L w conn p ctxRid inject msg = (case publish L w p ctxRid inject msg of
     (PubErr err, w1) \<Rightarrow>
       (case openChannel L (close_stale L w1 p) conn p of
          (Some rerr, conn', p', w2) \<Rightarrow>
            (PubErr (wrap ''rabbitmq reconnect'' (rerr @ ''; original: '' @ err)), conn', p', w2)
        | (None, conn', p', w2) \<Rightarrow> (case publish L w2 p' ctxRid inject msg of (r, w3) \<Rightarrow> (r, conn', p', w3)))
   | (r, w1) \<Rightarrow> (r, conn, p, w1))"

definition Close_publisher :: "'w amqp_lib \<Rightarrow> 'w \<Rightarrow> Publisher \<Rightarrow> string option \<times> 'w" where
  "Close_publisher L w p = (case pb_ch p of Some ch \<Rightarrow> q_CloseChan L w ch | None \<Rightarrow> (None, w))"

section \<open>The consumer\<close>

record Consumer =
  cs_exchange :: string
  cs_dlx :: string

definition amqp_NewConsumer :: "string \<Rightarrow> Consumer" where
  "amqp_NewConsumer exchange = \<lparr>cs_exchange = exchange, cs_dlx = exchange @ ''.dlx''\<rparr>"

definition declareExchanges :: "'w amqp_lib \<Rightarrow> 'w \<Rightarrow> Consumer \<Rightarrow> nat \<Rightarrow> string option \<times> 'w" where
  "declareExchanges L w c ch =
     (case q_ExchangeDeclare L w ch (cs_exchange c) ''topic'' [True, False, False, False] of
        (Some err, w1) \<Rightarrow> (Some (wrap ''rabbitmq main exchange declare'' err), w1)
      | (None, w1) \<Rightarrow>
          (case q_ExchangeDeclare L w1 ch (cs_dlx c) ''topic'' [True, False, False, False] of
             (Some err, w2) \<Rightarrow> (Some (wrap ''rabbitmq dlx declare'' err), w2)
           | (None, w2) \<Rightarrow> (None, w2)))"

definition dlq_of :: "string \<Rightarrow> string" where
  "dlq_of queueName = queueName @ ''.dlq''"

definition queue_args :: "Consumer \<Rightarrow> string \<Rightarrow> string gomap" where
  "queue_args c routingKey =
     [(''x-dead-letter-exchange'', cs_dlx c), (''x-dead-letter-routing-key'', routingKey)]"

definition declareQueues :: "'w amqp_lib \<Rightarrow> 'w \<Rightarrow> Consumer \<Rightarrow> nat \<Rightarrow> string \<Rightarrow> string \<Rightarrow> string option \<times> 'w" where
  "declareQueues L w c ch queueName routingKey =
     (case q_QueueDeclare L w ch (dlq_of queueName) [True, False, False, False] [] of
        (Some err, w1) \<Rightarrow> (Some (wrap ''rabbitmq dlq declare'' err), w1)
      | (None, w1) \<Rightarrow> (case q_QueueBind L w1 ch (dlq_of queueName) routingKey (cs_dlx c) of
           (Some err, w2) \<Rightarrow> (Some (wrap ''rabbitmq dlq bind'' err), w2)
         | (None, w2) \<Rightarrow>
             (case q_QueueDeclare L w2 ch queueName [True, False, False, False] (queue_args c routingKey) of
                (Some err, w3) \<Rightarrow> (Some (wrap ''rabbitmq queue declare'' err), w3)
              | (None, w3) \<Rightarrow> (case q_QueueBind L w3 ch queueName routingKey (cs_exchange c) of
                   (Some err, w4) \<Rightarrow> (Some (wrap ''rabbitmq queue bind'' err), w4)
                 | (None, w4) \<Rightarrow> (None, w4)))))"

record amqp_log =
  al_exchange :: string
  al_routing_key :: string
  al_request_id :: string
  al_trace_id :: string
  al_latency :: duration
  al_status :: string
  al_thirdparty :: "string list"
  al_trace :: "string list"
  al_error :: "string option"

definition amqp_logConsumed ::
  "delivery \<Rightarrow> string \<Rightarrow> string \<times> string list \<times> string list \<Rightarrow> duration \<Rightarrow> string option \<Rightarrow> amqp_log" where
  "amqp_logConsumed d rid j latency herr = (case j of (tid, tp, tr) \<Rightarrow>
     \<lparr>al_exchange = dl_Exchange d, al_routing_key = dl_RoutingKey d, al_request_id = rid, al_trace_id = tid,
      al_latency = latency, al_status = (if herr \<noteq> None then ''error'' else ''ok''), al_thirdparty = tp,
      al_trace = tr, al_error = herr\<rparr>)"

text \<open>What a subscription leaves behind besides its calls: the lines of the consumer log and its back-offs.\<close>

datatype r_event = RLogged amqp_log | RWaited duration

definition delivery_rid :: "delivery \<Rightarrow> string" where
  "delivery_rid d = (case map_of (dl_Headers d) ''x-request-id'' of Some v \<Rightarrow> Sprint v | None \<Rightarrow> [])"

definition delivery_message :: "delivery \<Rightarrow> amqp_Message" where
  "delivery_message d = \<lparr>am_RoutingKey = dl_RoutingKey d, am_Body = dl_Body d, am_RequestID = delivery_rid d\<rparr>"

text \<open>The results of \<^verbatim>\<open>Ack\<close> and \<^verbatim>\<open>Nack\<close> are dropped.\<close>

definition handle ::
  "'w amqp_lib \<Rightarrow> ('w \<Rightarrow> amqp_Message \<Rightarrow> string option \<times> 'w) \<Rightarrow> 'w \<Rightarrow> delivery \<Rightarrow> r_event list \<times> 'w" where
  "handle L handler w d =
     (let rid = delivery_rid d; start = q_now L w in
      case handler w (delivery_message d) of
        (herr, w1) \<Rightarrow>
          let line = RLogged (amqp_logConsumed d rid (q_journal L w1) (q_now L w1 - start) herr)
          in if herr \<noteq> None then ([line], snd (q_Nack L w1 d False))
             else ([line], snd (q_Ack L w1 d)))"

text \<open>The loop of \<^verbatim>\<open>drain\<close>: \<open>None\<close> if the rounds ran out, otherwise what it returned.\<close>

fun drain_loop ::
  "nat \<Rightarrow> 'w amqp_lib \<Rightarrow> ('w \<Rightarrow> amqp_Message \<Rightarrow> string option \<times> 'w) \<Rightarrow> 'w \<Rightarrow> nat \<Rightarrow> string option option \<times> r_event list \<times> 'w" where
  "drain_loop 0 L handler w ch = (None, [], w)"
| "drain_loop (Suc n) L handler w ch = (case q_select L w ch of
     (EvDone, w1) \<Rightarrow> (Some None, [], w1)
   | (EvClosed None, w1) \<Rightarrow> (Some (Some ''channel closed''), [], w1)
   | (EvClosed (Some reason), w1) \<Rightarrow> (Some (Some (wrap ''channel closed'' reason)), [], w1)
   | (EvDelivery None, w1) \<Rightarrow> (Some (Some ''deliveries channel closed''), [], w1)
   | (EvDelivery (Some d), w1) \<Rightarrow>
       (case handle L handler w1 d of (es, w2) \<Rightarrow>
          (case drain_loop n L handler w2 ch of (r, es', w3) \<Rightarrow> (r, es @ es', w3))))"

definition drain ::
  "nat \<Rightarrow> 'w amqp_lib \<Rightarrow> ('w \<Rightarrow> amqp_Message \<Rightarrow> string option \<times> 'w) \<Rightarrow> 'w \<Rightarrow> nat \<Rightarrow> string \<Rightarrow> string option option \<times> r_event list \<times> 'w" where
  "drain n L handler w ch queueName =
     (case q_Consume L w ch queueName [False, False, False, False] of
        (Some err, w1) \<Rightarrow> (Some (Some (wrap ''rabbitmq consume'' err)), [], w1)
      | (None, w1) \<Rightarrow> drain_loop n L handler w1 ch)"

definition sleepBackoff :: "'w amqp_lib \<Rightarrow> 'w \<Rightarrow> duration \<Rightarrow> bool \<times> duration \<times> 'w" where
  "sleepBackoff L w bo = (case q_wait L w bo of
     (False, w') \<Rightarrow> (False, bo, w')
   | (True, w') \<Rightarrow> (True, next_backoff bo, w'))"

text \<open>How a round of \<^verbatim>\<open>Subscribe\<close> ends: the function returns, it goes on with a back-off, or it is still
  in \<^verbatim>\<open>drain\<close> when the bound is reached.\<close>

datatype sub_next = SubReturn | SubGo duration | SubBusy

definition pause :: "'w amqp_lib \<Rightarrow> 'w \<Rightarrow> duration \<Rightarrow> sub_next \<times> r_event list \<times> 'w" where
  "pause L w bo = (case sleepBackoff L w bo of
     (False, _, w') \<Rightarrow> (SubReturn, [], w')
   | (True, bo', w') \<Rightarrow> (SubGo bo', [RWaited bo], w'))"

definition Subscribe_setup ::
  "'w amqp_lib \<Rightarrow> Consumer \<Rightarrow> 'w \<Rightarrow> nat \<Rightarrow> string \<Rightarrow> string \<Rightarrow> string option \<times> 'w" where
  "Subscribe_setup L c w ch queueName routingKey = (case declareExchanges L w c ch of
     (Some err, w1) \<Rightarrow> (Some err, w1)
   | (None, w1) \<Rightarrow> declareQueues L w1 c ch queueName routingKey)"

definition Subscribe_round ::
  "nat \<Rightarrow> 'w amqp_lib \<Rightarrow> Consumer \<Rightarrow> ('w \<Rightarrow> amqp_Message \<Rightarrow> string option \<times> 'w) \<Rightarrow> string \<Rightarrow> string \<Rightarrow> duration \<Rightarrow> Connection \<Rightarrow> 'w
     \<Rightarrow> sub_next \<times> r_event list \<times> Connection \<times> 'w" where
  "Subscribe_round n L c handler queueName routingKey bo conn w =
     (if q_ctxErr L w then (SubReturn, [], conn, w)
      else case Channel L w conn of
        (ChOk ch, conn', w1) \<Rightarrow>
          (case Subscribe_setup L c w1 ch queueName routingKey of
             (Some err, w2) \<Rightarrow>
               (case pause L (snd (q_CloseChan L w2 ch)) bo of (r, es, w3) \<Rightarrow> (r, es, conn', w3))
           | (None, w2) \<Rightarrow>
               (case drain n L handler w2 ch queueName of
                  (None, es, w3) \<Rightarrow> (SubBusy, es, conn', w3)
                | (Some _, es, w3) \<Rightarrow>
                    let w4 = snd (q_CloseChan L w3 ch) in
                    if q_ctxErr L w4 then (SubReturn, es, conn', w4)
                    else (case pause L w4 second of (r, es', w5) \<Rightarrow> (r, es @ es', conn', w5))))
      | (_, conn', w1) \<Rightarrow> (case pause L w1 bo of (r, es, w2) \<Rightarrow> (r, es, conn', w2)))"

fun Subscribe_from ::
  "nat \<Rightarrow> 'w amqp_lib \<Rightarrow> Consumer \<Rightarrow> ('w \<Rightarrow> amqp_Message \<Rightarrow> string option \<times> 'w) \<Rightarrow> string \<Rightarrow> string \<Rightarrow> duration \<Rightarrow> Connection \<Rightarrow> 'w
     \<Rightarrow> bool \<times> r_event list \<times> Connection \<times> 'w" where
  "Subscribe_from 0 L c handler queueName routingKey bo conn w = (False, [], conn, w)"
| "Subscribe_from (Suc n) L c handler queueName routingKey bo conn w =
     (case Subscribe_round n L c handler queueName routingKey bo conn w of
        (SubReturn, es, conn', w') \<Rightarrow> (True, es, conn', w')
      | (SubBusy, es, conn', w') \<Rightarrow> (False, es, conn', w')
      | (SubGo bo', es, conn', w') \<Rightarrow>
          (case Subscribe_from n L c handler queueName routingKey bo' conn' w' of
             (r, es', conn'', w'') \<Rightarrow> (r, es @ es', conn'', w'')))"

definition Subscribe where
  "Subscribe n L c handler queueName routingKey conn w =
     Subscribe_from n L c handler queueName routingKey second conn w"

section \<open>The health probe\<close>

definition amqp_healthCheckWithDialer :: "string \<Rightarrow> (string \<Rightarrow> string option) \<Rightarrow> string" where
  "amqp_healthCheckWithDialer dsn dialer =
     (if dsn = [] then ''not_configured''
      else case dialer dsn of Some err \<Rightarrow> ''down: '' @ err | None \<Rightarrow> ''ok'')"

section \<open>Lemmas on the connection\<close>

lemma reconnect_Some: "reconnect L w c = (None, c', w') \<Longrightarrow> cn_conn c' \<noteq> None"
  by (auto simp: reconnect_def IsClosed_def dial_def split: if_splits option.splits prod.splits sum.splits)

lemma dial_keeps: "dial L w c = (e, c', w') \<Longrightarrow> cn_conn c \<noteq> None \<Longrightarrow> cn_conn c' \<noteq> None"
  by (auto simp: dial_def split: prod.splits sum.splits)

lemma open_on_Some: "cn_conn c \<noteq> None \<Longrightarrow> fst (open_on L w c) \<noteq> ChPanic"
  by (auto simp: open_on_def split: option.splits prod.splits sum.splits)

text \<open>\<^verbatim>\<open>Channel\<close> never calls a method on a nil connection.\<close>

lemma Channel_no_panic: "fst (Channel L w c) \<noteq> ChPanic"
proof -
  obtain e c1 w1 where r: "(if IsClosed L w c then reconnect L w c else (None, c, w)) = (e, c1, w1)"
    by (metis prod_cases3)
  show ?thesis
  proof (cases e)
    case None
    then have 1: "fst (open_on L w1 c1) \<noteq> ChPanic"
      using r reconnect_Some [of L w c c1 w1] by (auto intro!: open_on_Some simp: IsClosed_def split: if_splits option.splits)
    have 2: "fst (open_on L w3 c2) \<noteq> ChPanic" if "reconnect L w2 c1 = (None, c2, w3)" for w2 c2 w3
      by (rule open_on_Some [OF reconnect_Some [OF that]])
    obtain q w2 where o: "open_on L w1 c1 = (q, w2)" by fastforce
    obtain e2 c2 w3 where rc: "reconnect L w2 c1 = (e2, c2, w3)" by (metis prod_cases3)
    show ?thesis using r None o rc 1 2 [of w2 c2 w3]
      by (auto simp: Channel_def split: chan_result.splits option.splits prod.splits)
  qed (use r in \<open>simp add: Channel_def\<close>)
qed

section \<open>Settling deliveries\<close>

text \<open>What can be seen of a subscription from outside: the calls that failed, the start of consuming, the deliveries the client
  gave out, the handler's runs, the acknowledgements asked for (whether or not the call succeeds), the end of
  consuming (closed, or the context ended), and the back-offs.\<close>

datatype r_obs =
    ODown
  | OConsuming
  | OTaken delivery
  | ORan amqp_Message "string option"
  | OAcked delivery
  | ONacked delivery bool
  | OEnded
  | OWaited duration

fun select_obs :: "drain_event \<Rightarrow> r_obs" where
  "select_obs (EvDelivery (Some d)) = OTaken d"
| "select_obs _ = OEnded"

abbreviation down_if :: "bool \<Rightarrow> r_obs list" where
  "down_if b \<equiv> (if b then [ODown] else [])"

text \<open>\<open>hist\<close> is such a history: a world in which each call of the client and of the handler is recorded as it is made.\<close>

definition observed ::
  "'w amqp_lib \<Rightarrow> ('w \<Rightarrow> amqp_Message \<Rightarrow> string option \<times> 'w) \<Rightarrow> ('w \<Rightarrow> r_obs list) \<Rightarrow> bool" where
  "observed L handler hist \<longleftrightarrow>
     (\<forall>w dsn. hist (snd (q_DialConfig L w dsn)) = hist w @ down_if (isl (fst (q_DialConfig L w dsn)))) \<and>
     (\<forall>w c. hist (snd (q_Channel L w c)) = hist w @ down_if (isl (fst (q_Channel L w c)))) \<and>
     (\<forall>w ch x t fl. hist (snd (q_ExchangeDeclare L w ch x t fl)) = hist w @ down_if (fst (q_ExchangeDeclare L w ch x t fl) \<noteq> None)) \<and>
     (\<forall>w ch q fl args. hist (snd (q_QueueDeclare L w ch q fl args)) = hist w @ down_if (fst (q_QueueDeclare L w ch q fl args) \<noteq> None)) \<and>
     (\<forall>w ch q k x. hist (snd (q_QueueBind L w ch q k x)) = hist w @ down_if (fst (q_QueueBind L w ch q k x) \<noteq> None)) \<and>
     (\<forall>w ch q fl. hist (snd (q_Consume L w ch q fl)) = hist w @ [if fst (q_Consume L w ch q fl) = None then OConsuming else ODown]) \<and>
     (\<forall>w ch. hist (snd (q_CloseChan L w ch)) = hist w) \<and>
     (\<forall>w ch. hist (snd (q_select L w ch)) = hist w @ [select_obs (fst (q_select L w ch))]) \<and>
     (\<forall>w d. hist (snd (q_Ack L w d)) = hist w @ [OAcked d]) \<and>
     (\<forall>w d rq. hist (snd (q_Nack L w d rq)) = hist w @ [ONacked d rq]) \<and>
     (\<forall>w d. hist (snd (q_wait L w d)) = hist w @ (if fst (q_wait L w d) then [OWaited d] else [])) \<and>
     (\<forall>w m. hist (snd (handler w m)) = hist w @ [ORan m (fst (handler w m))])"

lemma observedD:
  assumes "observed L handler hist"
  shows "q_DialConfig L w dsn = (r, w') \<Longrightarrow> hist w' = hist w @ down_if (isl r)"
    and "q_Channel L w c = (r2, w') \<Longrightarrow> hist w' = hist w @ down_if (isl r2)"
    and "q_ExchangeDeclare L w ch x t fl = (e, w') \<Longrightarrow> hist w' = hist w @ down_if (e \<noteq> None)"
    and "q_QueueDeclare L w ch q fl args = (e, w') \<Longrightarrow> hist w' = hist w @ down_if (e \<noteq> None)"
    and "q_QueueBind L w ch q k x = (e, w') \<Longrightarrow> hist w' = hist w @ down_if (e \<noteq> None)"
    and "q_Consume L w ch q fl = (e, w') \<Longrightarrow> hist w' = hist w @ [if e = None then OConsuming else ODown]"
    and "hist (snd (q_CloseChan L w ch)) = hist w"
    and "q_select L w ch = (ev, w') \<Longrightarrow> hist w' = hist w @ [select_obs ev]"
    and "hist (snd (q_Ack L w d)) = hist w @ [OAcked d]"
    and "hist (snd (q_Nack L w d rq)) = hist w @ [ONacked d rq]"
    and "q_wait L w bo = (b, w') \<Longrightarrow> hist w' = hist w @ (if b then [OWaited bo] else [])"
    and "handler w m = (herr, w') \<Longrightarrow> hist w' = hist w @ [ORan m herr]"
  using assms unfolding observed_def by (metis fst_conv snd_conv)+

text \<open>What a subscription has to do: consume from a fresh start, or go on after a failure; while it consumes, take a delivery, run
  the handler on its message, and answer that delivery as the handler's result says; wait only after a failure or the end of
  consuming.\<close>

datatype r_mode = Fresh | Down | Draining | Running delivery | Answering delivery "string option"

fun next_mode :: "r_mode \<Rightarrow> r_obs \<Rightarrow> r_mode option" where
  "next_mode Fresh ODown = Some Down"
| "next_mode Down ODown = Some Down"
| "next_mode Fresh OConsuming = Some Draining"
| "next_mode Down OConsuming = Some Draining"
| "next_mode Down (OWaited bo) = Some Fresh"
| "next_mode Draining (OTaken d) = Some (Running d)"
| "next_mode (Running d) (ORan m r) = (if m = delivery_message d then Some (Answering d r) else None)"
| "next_mode (Answering d r) (OAcked d') = (if d' = d \<and> r = None then Some Draining else None)"
| "next_mode (Answering d r) (ONacked d' requeue) = (if d' = d \<and> r \<noteq> None \<and> \<not> requeue then Some Draining else None)"
| "next_mode Draining OEnded = Some Down"
| "next_mode _ _ = None"

fun protocol :: "r_mode \<Rightarrow> r_obs list \<Rightarrow> r_mode option" where
  "protocol m [] = Some m"
| "protocol m (x # xs) = (case next_mode m x of None \<Rightarrow> None | Some m' \<Rightarrow> protocol m' xs)"

lemma protocol_append [simp]:
  "protocol m (xs @ ys) = (case protocol m xs of None \<Rightarrow> None | Some m' \<Rightarrow> protocol m' ys)"
  by (induction xs arbitrary: m) (auto split: option.split)

fun taken :: "r_obs list \<Rightarrow> delivery list" where
  "taken [] = []"
| "taken (OTaken d # h) = d # taken h"
| "taken (_ # h) = taken h"

fun results :: "r_obs list \<Rightarrow> string option list" where
  "results [] = []"
| "results (ORan m r # h) = r # results h"
| "results (_ # h) = results h"

text \<open>The answers: a delivery and whether it was accepted.\<close>

fun answers :: "r_obs list \<Rightarrow> (delivery \<times> bool) list" where
  "answers [] = []"
| "answers (OAcked d # h) = (d, True) # answers h"
| "answers (ONacked d requeue # h) = (d, False) # answers h"
| "answers (_ # h) = answers h"

fun waits :: "r_obs list \<Rightarrow> nat" where
  "waits [] = 0"
| "waits (OWaited bo # h) = Suc (waits h)"
| "waits (_ # h) = waits h"

lemma taken_append [simp]: "taken (xs @ ys) = taken xs @ taken ys"
  by (induction xs rule: taken.induct) auto

lemma waits_append [simp]: "waits (xs @ ys) = waits xs + waits ys"
  by (induction xs rule: waits.induct) auto

definition quiet :: "r_mode \<Rightarrow> bool" where
  "quiet m \<longleftrightarrow> m \<in> {Fresh, Down, Draining}"

text \<open>The deliveries and results that are pending in a mode.\<close>

fun pending :: "r_mode \<Rightarrow> delivery list \<times> string option list" where
  "pending (Running d) = ([d], [])"
| "pending (Answering d r) = ([d], [r])"
| "pending _ = ([], [])"

lemma protocol_answers:
  "protocol m h = Some m' \<Longrightarrow> quiet m' \<Longrightarrow>
     length (fst (pending m) @ taken h) = length (snd (pending m) @ results h) \<and>
     answers h = map2 (\<lambda>d r. (d, r = None)) (fst (pending m) @ taken h) (snd (pending m) @ results h)"
proof (induction h arbitrary: m)
  case Nil
  then show ?case by (auto simp: quiet_def)
next
  case (Cons x h)
  then obtain m1 where "next_mode m x = Some m1" "protocol m1 h = Some m'" by (auto split: option.splits)
  then show ?case using Cons.IH [of m1] Cons.prems(2) by (cases "(m, x)" rule: next_mode.cases) (auto split: if_splits)
qed

text \<open>The parts of a round.\<close>

lemma dial_observed:
  assumes "observed L handler hist" "dial L w c = (e, c', w')"
  shows "hist w' = hist w @ down_if (e \<noteq> None)"
  using assms(2) observedD(1) [OF assms(1)] by (auto simp: dial_def split: prod.splits sum.splits)

lemma reconnect_observed:
  assumes "observed L handler hist" "reconnect L w c = (e, c', w')"
  shows "hist w' = hist w @ down_if (e \<noteq> None)"
  using assms(2) dial_observed [OF assms(1)] by (auto simp: reconnect_def split: if_splits)

lemma open_on_observed:
  assumes "observed L handler hist" "open_on L w c = (r, w')"
  shows "hist w' = hist w @ down_if (\<exists>err. r = ChErr err)"
  using assms(2) observedD(2) [OF assms(1)] by (auto simp: open_on_def split: option.splits prod.splits sum.splits)

lemma Channel_observed:
  assumes "observed L handler hist" "Channel L w c = (r, c', w')"
  shows "\<exists>k. hist w' = hist w @ replicate k ODown \<and> ((\<forall>ch. r \<noteq> ChOk ch) \<longrightarrow> 0 < k)"
proof -
  note A = reconnect_observed [OF assms(1)] open_on_observed [OF assms(1)]
  have np: "r \<noteq> ChPanic" using Channel_no_panic [of L w c] assms(2) by simp
  obtain e c1 w1 where r: "(if IsClosed L w c then reconnect L w c else (None, c, w)) = (e, c1, w1)"
    by (metis prod_cases3)
  then have 1: "hist w1 = hist w @ down_if (e \<noteq> None)" using A(1) by (auto split: if_splits)
  obtain q w2 where o: "open_on L w1 c1 = (q, w2)" by fastforce
  obtain e2 c2 w3 where rc: "reconnect L w2 c1 = (e2, c2, w3)" by (metis prod_cases3)
  obtain q' w4 where o': "open_on L w3 c2 = (q', w4)" by fastforce
  consider "e \<noteq> None" "w' = w1" | "e = None" "w' = w2" "r = q" "\<nexists>err. q = ChErr err"
    | "e = None" "\<exists>err. q = ChErr err" "e2 \<noteq> None" "w' = w3"
    | "e = None" "\<exists>err. q = ChErr err" "e2 = None" "w' = w4" "r = q'"
    using assms(2) r o rc o' by (auto simp: Channel_def split: option.splits chan_result.splits)
  then show ?thesis
  proof cases
    case 1
    then show ?thesis using \<open>hist w1 = _\<close> by (intro exI [of _ 1]) simp
  next
    case 2
    then have "\<exists>ch. r = ChOk ch" using np by (cases r) auto
    then show ?thesis using \<open>hist w1 = _\<close> 2 A(2) [OF o] by (intro exI [of _ 0]) auto
  next
    case 3
    then show ?thesis using \<open>hist w1 = _\<close> A(2) [OF o] A(1) [OF rc] by (intro exI [of _ 2]) (auto simp: numeral_2_eq_2)
  next
    case 4
    then show ?thesis using \<open>hist w1 = _\<close> A(2) [OF o] A(1) [OF rc] A(2) [OF o']
      by (intro exI [of _ "if \<exists>err. q' = ChErr err then 2 else 1"]) (auto simp: numeral_2_eq_2)
  qed
qed

lemma protocol_down: "quiet m \<Longrightarrow> m \<noteq> Draining \<Longrightarrow> protocol m (replicate k ODown) = Some (if k = 0 then m else Down)"
proof (induction k arbitrary: m)
  case (Suc k)
  then show ?case using Suc.IH [of Down] by (auto simp: quiet_def)
qed simp

lemma quiet_replicate [simp]: "taken (replicate k ODown) = []" "waits (replicate k ODown) = 0"
  by (induction k) simp_all

lemma setup_observed:
  assumes "observed L handler hist" "Subscribe_setup L c w ch q k = (e, w')"
  shows "hist w' = hist w @ down_if (e \<noteq> None)"
  using assms(2) observedD(3-5) [OF assms(1)]
  by (fastforce simp: Subscribe_setup_def declareExchanges_def declareQueues_def split: prod.splits option.splits)

lemma handle_observed:
  assumes "observed L handler hist" "handle L handler w d = (es, w')"
  shows "\<exists>r. hist w' = hist w @ [ORan (delivery_message d) r, if r = None then OAcked d else ONacked d False]"
  using assms(2) observedD(12) [OF assms(1), of w "delivery_message d"] observedD(9,10) [OF assms(1)]
  by (auto simp: handle_def Let_def split: prod.splits if_splits)

text \<open>A bounded \<^verbatim>\<open>drain\<close> either has handled as many deliveries as its bound, or it has returned, after the end of consuming.\<close>

lemma drain_loop_observed:
  assumes "observed L handler hist"
  shows "drain_loop n L handler w ch = (r, es, w') \<Longrightarrow>
    \<exists>h. hist w' = hist w @ h \<and> protocol Draining h = Some (if r = None then Draining else Down) \<and> waits h = 0 \<and>
      (r = None \<longrightarrow> length (taken h) = n)"
proof (induction n arbitrary: w r es w')
  case 0
  then show ?case by simp
next
  case (Suc n)
  obtain ev w1 where sel: "q_select L w ch = (ev, w1)" by fastforce
  note S = observedD(8) [OF assms sel]
  show ?case
  proof (cases "\<exists>d. ev = EvDelivery (Some d)")
    case True
    then obtain d where d: "ev = EvDelivery (Some d)" by blast
    obtain es1 w2 where h: "handle L handler w1 d = (es1, w2)" by fastforce
    obtain r2 es2 w3 where l: "drain_loop n L handler w2 ch = (r2, es2, w3)" by (metis prod_cases3)
    obtain q where q: "hist w2 = hist w1 @ [ORan (delivery_message d) q, if q = None then OAcked d else ONacked d False]"
      using handle_observed [OF assms h] by blast
    obtain hs where hs: "hist w3 = hist w2 @ hs" "protocol Draining hs = Some (if r2 = None then Draining else Down)" "waits hs = 0"
      "r2 = None \<longrightarrow> length (taken hs) = n" using Suc.IH [OF l] by blast
    have "r = r2" "w' = w3" using Suc.prems sel d h l by auto
    then show ?thesis using S d q hs
      by (intro exI [of _ "[OTaken d, ORan (delivery_message d) q, if q = None then OAcked d else ONacked d False] @ hs"]) auto
  next
    case False
    then have "w' = w1" "r \<noteq> None" "select_obs ev = OEnded"
      using Suc.prems sel by (auto split: drain_event.splits option.splits)
    then show ?thesis using S by (intro exI [of _ "[OEnded]"]) simp
  qed
qed

lemma drain_observed:
  assumes "observed L handler hist" "drain n L handler w ch q = (r, es, w')" "quiet m" "m \<noteq> Draining"
  shows "\<exists>h. hist w' = hist w @ h \<and> protocol m h = Some (if r = None then Draining else Down) \<and> waits h = 0 \<and>
    (r = None \<longrightarrow> length (taken h) = n)"
proof -
  obtain e w1 where c: "q_Consume L w ch q [False, False, False, False] = (e, w1)" by fastforce
  note C = observedD(6) [OF assms(1) c]
  have start: "next_mode m OConsuming = Some Draining" "next_mode m ODown = Some Down" using assms(3,4) by (auto simp: quiet_def)
  show ?thesis
  proof (cases e)
    case None
    then have "drain_loop n L handler w1 ch = (r, es, w')" using assms(2) c by (simp add: drain_def)
    from drain_loop_observed [OF assms(1) this] obtain h where "hist w' = hist w1 @ h"
      "protocol Draining h = Some (if r = None then Draining else Down)" "waits h = 0" "r = None \<longrightarrow> length (taken h) = n" by blast
    then show ?thesis using C None start by (intro exI [of _ "OConsuming # h"]) simp
  next
    case (Some err)
    then have "w' = w1" "r \<noteq> None" using assms(2) c by (auto simp: drain_def)
    then show ?thesis using C Some start by (intro exI [of _ "[ODown]"]) auto
  qed
qed

lemma pause_observed:
  assumes "observed L handler hist" "pause L w bo = (r, es, w')"
  shows "(r = SubReturn \<and> hist w' = hist w) \<or> (\<exists>bo'. r = SubGo bo' \<and> hist w' = hist w @ [OWaited bo])"
  using assms(2) observedD(11) [OF assms(1), of w bo] by (auto simp: pause_def sleepBackoff_def split: prod.splits bool.splits)

lemma Subscribe_round_observed:
  assumes "observed L handler hist" "Subscribe_round n L c handler q k bo conn w = (r, es, conn', w')"
  shows "\<exists>h m. hist w' = hist w @ h \<and> protocol Fresh h = Some m \<and> quiet m \<and>
    (\<forall>bo'. r = SubGo bo' \<longrightarrow> m = Fresh \<and> 0 < waits h) \<and> (r = SubBusy \<longrightarrow> length (taken h) = n)"
proof (cases "q_ctxErr L w")
  case True
  then show ?thesis using assms(2) by (intro exI [of _ "[]"] exI [of _ Fresh]) (simp add: Subscribe_round_def quiet_def)
next
  case False
  text \<open>Ending with a pause after a history that left the subscription down.\<close>
  have paused: ?thesis if "hist w1 = hist w @ h1" "protocol Fresh h1 = Some Down" "pause L w1 bo1 = (r, es1, w')" for w1 h1 bo1 es1
    using pause_observed [OF assms(1) that(3)]
  proof (elim disjE exE conjE)
    assume "r = SubReturn" "hist w' = hist w1"
    then show ?thesis using that by (intro exI [of _ h1] exI [of _ Down]) (simp add: quiet_def)
  next
    fix bo' assume "r = SubGo bo'" "hist w' = hist w1 @ [OWaited bo1]"
    then show ?thesis using that by (intro exI [of _ "h1 @ [OWaited bo1]"] exI [of _ Fresh]) (simp add: quiet_def)
  qed
  obtain cr c1 w1 where ch: "Channel L w conn = (cr, c1, w1)" by (metis prod_cases3)
  obtain j where j: "hist w1 = hist w @ replicate j ODown" "(\<forall>ch. cr \<noteq> ChOk ch) \<longrightarrow> 0 < j"
    using Channel_observed [OF assms(1) ch] by blast
  define m1 where "m1 = (if j = 0 then Fresh else Down)"
  have m1: "protocol Fresh (replicate j ODown) = Some m1" "quiet m1" "m1 \<noteq> Draining"
    using protocol_down [of Fresh j] by (simp_all add: m1_def quiet_def)
  show ?thesis
  proof (cases "\<exists>ch. cr = ChOk ch")
    case False2: False
    then obtain es1 where "pause L w1 bo = (r, es1, w')"
      using assms(2) False ch by (cases cr) (auto simp: Subscribe_round_def split: prod.splits)
    moreover have "protocol Fresh (replicate j ODown) = Some Down" using m1(1) j(2) False2 by (simp add: m1_def)
    ultimately show ?thesis using paused j(1) by blast
  next
    case True
    then obtain cn where cn: "cr = ChOk cn" by blast
    obtain e w2 where su: "Subscribe_setup L c w1 cn q k = (e, w2)" by fastforce
    note S = setup_observed [OF assms(1) su]
    show ?thesis
    proof (cases e)
      case (Some err)
      then obtain es1 where "pause L (snd (q_CloseChan L w2 cn)) bo = (r, es1, w')"
        using assms(2) False ch cn su by (auto simp: Subscribe_round_def split: prod.splits)
      moreover have "hist (snd (q_CloseChan L w2 cn)) = hist w @ replicate j ODown @ [ODown]"
        using observedD(7) [OF assms(1)] S Some j(1) by simp
      moreover have "protocol Fresh (replicate j ODown @ [ODown]) = Some Down" using m1 by (auto simp: m1_def)
      ultimately show ?thesis using paused by blast
    next
      case None
      obtain dr es1 w3 where dr: "drain n L handler w2 cn q = (dr, es1, w3)" by (metis prod_cases3)
      from drain_observed [OF assms(1) dr m1(2,3)] obtain h where h: "hist w3 = hist w2 @ h"
        "protocol m1 h = Some (if dr = None then Draining else Down)" "waits h = 0" "dr = None \<longrightarrow> length (taken h) = n" by blast
      have h3: "hist w3 = hist w @ replicate j ODown @ h" using S None j(1) h(1) by simp
      show ?thesis
      proof (cases dr)
        case None2: None
        then have "r = SubBusy" "w' = w3" using assms(2) False ch cn su None dr by (auto simp: Subscribe_round_def)
        then show ?thesis using h3 h(2,4) m1(1) None2
          by (intro exI [of _ "replicate j ODown @ h"] exI [of _ Draining]) (simp add: quiet_def)
      next
        case (Some x)
        let ?w4 = "snd (q_CloseChan L w3 cn)"
        have h4: "hist ?w4 = hist w @ replicate j ODown @ h" using observedD(7) [OF assms(1)] h3 by simp
        have d4: "protocol Fresh (replicate j ODown @ h) = Some Down" using h(2) m1(1) Some by simp
        show ?thesis
        proof (cases "q_ctxErr L ?w4")
          case True
          then have "r = SubReturn" "w' = ?w4" using assms(2) False ch cn su None dr Some by (auto simp: Subscribe_round_def Let_def)
          then show ?thesis using h4 d4 by (intro exI [of _ "replicate j ODown @ h"] exI [of _ Down]) (simp add: quiet_def)
        next
          case go: False
          then obtain es2 where "pause L ?w4 second = (r, es2, w')"
            using assms(2) False ch cn su None dr Some by (auto simp: Subscribe_round_def Let_def split: prod.splits)
          then show ?thesis using paused h4 d4 by blast
        qed
      qed
    qed
  qed
qed

lemma Subscribe_from_observed:
  assumes "observed L handler hist"
  shows "Subscribe_from n L c handler q k bo conn w = (r, es, conn', w') \<Longrightarrow>
    \<exists>h m. hist w' = hist w @ h \<and> protocol Fresh h = Some m \<and> quiet m \<and> (\<not> r \<longrightarrow> n \<le> Suc (waits h + length (taken h)))"
proof (induction n arbitrary: bo conn w r es conn' w')
  case 0
  then show ?case by (intro exI [of _ "[]"] exI [of _ Fresh]) (simp add: quiet_def)
next
  case (Suc n)
  obtain r1 es1 c1 w1 where rd: "Subscribe_round n L c handler q k bo conn w = (r1, es1, c1, w1)" by (metis prod_cases4)
  obtain h1 m1 where h1: "hist w1 = hist w @ h1" "protocol Fresh h1 = Some m1" "quiet m1"
    "\<forall>bo'. r1 = SubGo bo' \<longrightarrow> m1 = Fresh \<and> 0 < waits h1" "r1 = SubBusy \<longrightarrow> length (taken h1) = n"
    using Subscribe_round_observed [OF assms rd] by blast
  show ?case
  proof (cases r1)
    case (SubGo bo')
    obtain r2 es2 where S: "Subscribe_from n L c handler q k bo' c1 w1 = (r2, es2, conn', w')" "r = r2"
      using Suc.prems rd SubGo by (auto split: prod.splits)
    obtain h2 m2 where h2: "hist w' = hist w1 @ h2" "protocol Fresh h2 = Some m2" "quiet m2"
      "\<not> r2 \<longrightarrow> n \<le> Suc (waits h2 + length (taken h2))" using Suc.IH [OF S(1)] by blast
    then show ?thesis using h1 SubGo S(2) by (intro exI [of _ "h1 @ h2"] exI [of _ m2]) auto
  qed (use Suc.prems rd h1 in \<open>auto intro!: exI [of _ h1] exI [of _ m1]\<close>)
qed

section \<open>The topology\<close>

text \<open>What a broker keeps of declarations, as AMQP documents it: a queue's arguments and the bindings
  \<open>(exchange, pattern, queue)\<close>. Setting up a channel or an exchange changes neither.\<close>

definition broker_ok ::
  "'w amqp_lib \<Rightarrow> ('w \<Rightarrow> string \<rightharpoonup> string gomap) \<Rightarrow> ('w \<Rightarrow> (string \<times> string \<times> string) set) \<Rightarrow> bool" where
  "broker_ok L queues bindings \<longleftrightarrow>
     (\<forall>w ch q fl args w'. q_QueueDeclare L w ch q fl args = (None, w') \<longrightarrow>
        queues w' = (queues w)(q \<mapsto> args) \<and> bindings w' = bindings w) \<and>
     (\<forall>w ch q k x w'. q_QueueBind L w ch q k x = (None, w') \<longrightarrow>
        queues w' = queues w \<and> bindings w' = insert (x, k, q) (bindings w))"

lemmas broker_okD =
  broker_ok_def [THEN iffD1, THEN conjunct1, rule_format]
  broker_ok_def [THEN iffD1, THEN conjunct2, rule_format]

text \<open>The matching rule of topic exchanges on lists of words: \<^verbatim>\<open>*\<close> stands for one word, \<^verbatim>\<open>#\<close> for any number
  of words.\<close>

definition topic_ok :: "(string list \<Rightarrow> string list \<Rightarrow> bool) \<Rightarrow> bool" where
  "topic_ok M \<longleftrightarrow> M [] [] \<and>
     (\<forall>p ps ks. p \<noteq> ''*'' \<longrightarrow> p \<noteq> ''#'' \<longrightarrow> M (p # ps) (p # ks) = M ps ks) \<and>
     (\<forall>ps k ks. M (''*'' # ps) (k # ks) = M ps ks) \<and>
     (\<forall>ps ks. M (''#'' # ps) ks = (M ps ks \<or> (\<exists>k ks'. ks = k # ks' \<and> M (''#'' # ps) ks')))"

lemma topic_ok_refl:
  assumes "topic_ok M"
  shows "M ps ps"
proof (induction ps)
  case Nil
  then show ?case using assms by (simp add: topic_ok_def)
next
  case (Cons p ps)
  have hash: "M (''#'' # ps) ks \<longleftrightarrow> M ps ks \<or> (\<exists>k ks'. ks = k # ks' \<and> M (''#'' # ps) ks')" for ks
    using assms unfolding topic_ok_def by blast
  consider "p = ''#''" | "p = ''*''" | "p \<noteq> ''#''" "p \<noteq> ''*''" by blast
  then show ?case
  proof cases
    case 1
    have "M (''#'' # ps) ps" using hash [of ps] Cons by blast
    then show ?thesis using hash [of "''#'' # ps"] 1 by blast
  qed (use assms Cons in \<open>simp_all add: topic_ok_def\<close>)
qed

definition routed :: "(string list \<Rightarrow> string list \<Rightarrow> bool) \<Rightarrow> (string \<times> string \<times> string) set \<Rightarrow> string \<Rightarrow> string \<Rightarrow> string set" where
  "routed M bs exchange key =
     {q. \<exists>pat. (exchange, pat, q) \<in> bs \<and> M (Split pat (CHR ''.'')) (Split key (CHR ''.''))}"

lemma declareQueues_None:
  assumes "broker_ok L queues bindings" and "declareQueues L w c ch q k = (None, w')"
  shows "queues w' q = Some (queue_args c k) \<and> queues w' (dlq_of q) = Some [] \<and>
    (cs_dlx c, k, dlq_of q) \<in> bindings w' \<and> (cs_exchange c, k, q) \<in> bindings w'"
proof -
  have ne: "dlq_of q \<noteq> q" by (simp add: dlq_of_def)
  obtain w1 w2 w3 where s:
    "q_QueueDeclare L w ch (dlq_of q) [True, False, False, False] [] = (None, w1)"
    "q_QueueBind L w1 ch (dlq_of q) k (cs_dlx c) = (None, w2)"
    "q_QueueDeclare L w2 ch q [True, False, False, False] (queue_args c k) = (None, w3)"
    "q_QueueBind L w3 ch q k (cs_exchange c) = (None, w')"
    using assms(2) unfolding declareQueues_def by (auto split: prod.splits option.splits)
  show ?thesis
    using broker_okD(1) [OF assms(1) s(1)] broker_okD(2) [OF assms(1) s(2)] broker_okD(1) [OF assms(1) s(3)]
      broker_okD(2) [OF assms(1) s(4)] ne by auto
qed

section \<open>Publishing\<close>

text \<open>A publish that reports success has appended the message to what the broker accepted; one that
  fails may have done so before the failure. Opening and closing channels accepts nothing.\<close>

definition accepts_ok :: "'w amqp_lib \<Rightarrow> ('w \<Rightarrow> (string \<times> string \<times> publishing) list) \<Rightarrow> bool" where
  "accepts_ok L accepted \<longleftrightarrow>
     (\<forall>w ch x k m w'. q_Publish L w ch x k m = (None, w') \<longrightarrow> accepted w' = accepted w @ [(x, k, m)]) \<and>
     (\<forall>w ch x k m e w'. q_Publish L w ch x k m = (Some e, w') \<longrightarrow> accepted w' \<in> {accepted w, accepted w @ [(x, k, m)]}) \<and>
     (\<forall>w d r w'. q_DialConfig L w d = (r, w') \<longrightarrow> accepted w' = accepted w) \<and>
     (\<forall>w c r w'. q_Channel L w c = (r, w') \<longrightarrow> accepted w' = accepted w) \<and>
     (\<forall>w c r w'. q_CloseChan L w c = (r, w') \<longrightarrow> accepted w' = accepted w) \<and>
     (\<forall>w ch x t fl r w'. q_ExchangeDeclare L w ch x t fl = (r, w') \<longrightarrow> accepted w' = accepted w)"

lemmas accepts_okD =
  accepts_ok_def [THEN iffD1, THEN conjunct1, rule_format]
  accepts_ok_def [THEN iffD1, THEN conjunct2, THEN conjunct1, rule_format]
  accepts_ok_def [THEN iffD1, THEN conjunct2, THEN conjunct2, THEN conjunct1, rule_format]
  accepts_ok_def [THEN iffD1, THEN conjunct2, THEN conjunct2, THEN conjunct2, THEN conjunct1, rule_format]
  accepts_ok_def [THEN iffD1, THEN conjunct2, THEN conjunct2, THEN conjunct2, THEN conjunct2, THEN conjunct1, rule_format]
  accepts_ok_def [THEN iffD1, THEN conjunct2, THEN conjunct2, THEN conjunct2, THEN conjunct2, THEN conjunct2, rule_format]

lemma dial_accepts: "accepts_ok L accepted \<Longrightarrow> dial L w c = (e, c', w') \<Longrightarrow> accepted w' = accepted w"
  by (auto simp: dial_def dest: accepts_okD(3) split: prod.splits sum.splits)

lemma reconnect_accepts: "accepts_ok L accepted \<Longrightarrow> reconnect L w c = (e, c', w') \<Longrightarrow> accepted w' = accepted w"
  by (auto simp: reconnect_def dest: dial_accepts split: if_splits)

lemma open_on_accepts: "accepts_ok L accepted \<Longrightarrow> open_on L w c = (r, w') \<Longrightarrow> accepted w' = accepted w"
  by (auto simp: open_on_def dest: accepts_okD(4) split: option.splits prod.splits sum.splits)

lemma Channel_accepts:
  assumes "accepts_ok L accepted" and "Channel L w c = (r, c', w')"
  shows "accepted w' = accepted w"
proof -
  note A = reconnect_accepts [OF assms(1)] open_on_accepts [OF assms(1)]
  obtain e c1 w1 where r: "(if IsClosed L w c then reconnect L w c else (None, c, w)) = (e, c1, w1)"
    by (metis prod_cases3)
  then have 1: "accepted w1 = accepted w" using A(1) by (auto split: if_splits)
  obtain q w2 where o: "open_on L w1 c1 = (q, w2)" by fastforce
  obtain e2 c2 w3 where rc: "reconnect L w2 c1 = (e2, c2, w3)" by (metis prod_cases3)
  obtain q' w4 where o': "open_on L w3 c2 = (q', w4)" by fastforce
  have "w' \<in> {w1, w2, w3, w4}"
    using assms(2) r o rc o' by (auto simp: Channel_def split: option.splits chan_result.splits)
  then show ?thesis using 1 A(2) [OF o] A(1) [OF rc] A(2) [OF o'] by auto
qed

lemma openChannel_accepts:
  assumes "accepts_ok L accepted" and "openChannel L w conn p = (r, conn', p', w')"
  shows "accepted w' = accepted w \<and> pb_exchange p' = pb_exchange p"
  using assms(2) accepts_okD(5,6) [OF assms(1)]
  by (auto simp: openChannel_def dest!: Channel_accepts [OF assms(1)]
      split: option.splits prod.splits chan_result.splits)

lemma amqp_headers_Inject:
  "amqp_headers ctxRid inject msg =
     ac.Inject inject [(''x-request-id'', VString (if am_RequestID msg = [] then ctxRid else am_RequestID msg))]"
  by (simp add: amqp_headers_def ac.Inject_def Let_def)

lemma inject_keeps_key: "k \<notin> fst ` set ps \<Longrightarrow> map_of (ac.Inject ps c) k = map_of c k"
  by (induction ps arbitrary: c) (auto simp: amqpTableCarrier_Set_def)

definition sent_as :: "Publisher \<Rightarrow> string \<Rightarrow> (string \<times> string) list \<Rightarrow> amqp_Message \<Rightarrow> string \<times> string \<times> publishing \<Rightarrow> bool" where
  "sent_as p ctxRid inject msg s \<longleftrightarrow> (case s of (x, k, m) \<Rightarrow>
     x = pb_exchange p \<and> k = am_RoutingKey msg \<and> pu_Body m = am_Body msg \<and> pu_Persistent m \<and>
     pu_Headers m = amqp_headers ctxRid inject msg)"

lemma publish_accepts:
  assumes "accepts_ok L accepted" and "publish L w p ctxRid inject msg = (r, w')"
  shows "\<exists>ms. accepted w' = accepted w @ ms \<and> length ms \<le> 1 \<and> (\<forall>s \<in> set ms. sent_as p ctxRid inject msg s) \<and>
    (r = PubOk \<longrightarrow> ms \<noteq> []) \<and> (r = PubPanic \<longleftrightarrow> pb_ch p = None)"
proof (cases "pb_ch p")
  case None
  then show ?thesis using assms(2) by (auto simp: publish_def)
next
  case (Some ch)
  let ?m = "amqp_publishing L w ctxRid inject msg"
  have s: "sent_as p ctxRid inject msg (pb_exchange p, am_RoutingKey msg, ?m)"
    by (simp add: sent_as_def amqp_publishing_def)
  obtain e where q: "q_Publish L w ch (pb_exchange p) (am_RoutingKey msg) ?m = (e, w')"
    "r = (case e of None \<Rightarrow> PubOk | Some x \<Rightarrow> PubErr x)"
    using assms(2) Some by (auto simp: publish_def split: prod.splits option.splits)
  show ?thesis
  proof (cases e)
    case None
    then show ?thesis using q s accepts_okD(1) [OF assms(1)] Some
      by (intro exI [of _ "[(pb_exchange p, am_RoutingKey msg, ?m)]"]) auto
  next
    case (Some x)
    then consider "accepted w' = accepted w" | "accepted w' = accepted w @ [(pb_exchange p, am_RoutingKey msg, ?m)]"
      using q accepts_okD(2) [OF assms(1)] by fastforce
    then show ?thesis
    proof cases
      case 1
      then show ?thesis using q Some \<open>pb_ch p = Some ch\<close> by (intro exI [of _ "[]"]) simp
    next
      case 2
      then show ?thesis using s q Some \<open>pb_ch p = Some ch\<close>
        by (intro exI [of _ "[(pb_exchange p, am_RoutingKey msg, ?m)]"]) simp
    qed
  qed
qed

lemma amqp_Publish_accepts:
  assumes "accepts_ok L accepted" and "amqp_Publish L w conn p ctxRid inject msg = (r, conn', p', w')"
  shows "\<exists>ms. accepted w' = accepted w @ ms \<and> length ms \<le> 2 \<and> (r = PubOk \<longrightarrow> ms \<noteq> []) \<and>
    (\<forall>s \<in> set ms. sent_as p ctxRid inject msg s) \<and> (pb_ch p \<noteq> None \<longrightarrow> r \<noteq> PubPanic)"
proof -
  obtain r1 w1 where a: "publish L w p ctxRid inject msg = (r1, w1)" by fastforce
  note A = publish_accepts [OF assms(1) a]
  show ?thesis
  proof (cases r1)
    case (PubErr err)
    obtain e c2 p2 w2 where o: "openChannel L (close_stale L w1 p) conn p = (e, c2, p2, w2)" by (metis prod_cases4)
    have cl: "accepted (close_stale L w1 p) = accepted w1"
      using accepts_okD(5) [OF assms(1)] by (auto simp: close_stale_def prod_eq_iff split: option.splits)
    have 2: "accepted w2 = accepted w1" "pb_exchange p2 = pb_exchange p"
      using openChannel_accepts [OF assms(1) o] cl by auto
    show ?thesis
    proof (cases e)
      case None
      obtain r3 w3 where b: "publish L w2 p2 ctxRid inject msg = (r3, w3)" by fastforce
      have res: "r = r3" "w' = w3" using assms(2) a PubErr o None b by (auto simp: amqp_Publish_def)
      have ch: "pb_ch p2 \<noteq> None"
        using o None by (auto simp: openChannel_def split: option.splits prod.splits chan_result.splits)
      obtain xs where xs: "accepted w1 = accepted w @ xs" "length xs \<le> 1" "\<forall>s \<in> set xs. sent_as p ctxRid inject msg s"
        using A by blast
      obtain ys where ys: "accepted w3 = accepted w2 @ ys" "length ys \<le> 1" "\<forall>s \<in> set ys. sent_as p2 ctxRid inject msg s"
        "r3 = PubOk \<longrightarrow> ys \<noteq> []" "r3 = PubPanic \<longleftrightarrow> pb_ch p2 = None"
        using publish_accepts [OF assms(1) b] by auto
      have "\<forall>s \<in> set ys. sent_as p ctxRid inject msg s" using ys(3) 2(2) by (simp add: sent_as_def)
      then show ?thesis using xs ys res 2(1) ch by (intro exI [of _ "xs @ ys"]) auto
    next
      case (Some rerr)
      then have "w' = w2" "\<exists>x. r = PubErr x" using assms(2) a PubErr o by (auto simp: amqp_Publish_def)
      moreover obtain xs where "accepted w1 = accepted w @ xs" "length xs \<le> 1" "\<forall>s \<in> set xs. sent_as p ctxRid inject msg s"
        using A by blast
      ultimately show ?thesis using 2(1) by (intro exI [of _ xs]) auto
    qed
  qed (use A assms(2) a in \<open>force simp: amqp_Publish_def\<close>)+
qed

section \<open>A concrete broker\<close>

text \<open>A broker that keeps queues, bindings, accepted messages and a history; \<open>bk_script\<close> are the deliveries to come,
  after which the context ends, and \<open>bk_stale\<close> are the channels on which publishing fails.\<close>

record broker =
  bk_queues :: "string gomap gomap"
  bk_bindings :: "(string \<times> string \<times> string) list"
  bk_accepted :: "(string \<times> string \<times> publishing) list"
  bk_script :: "delivery list"
  bk_stale :: "nat list"
  bk_next :: nat
  bk_hist :: "r_obs list"

definition observe :: "broker \<Rightarrow> r_obs \<Rightarrow> broker" where
  "observe w x = w\<lparr>bk_hist := bk_hist w @ [x]\<rparr>"

definition picky_consumer :: "broker \<Rightarrow> amqp_Message \<Rightarrow> string option \<times> broker" where
  "picky_consumer w m = (let r = (if am_Body m = [] then Some ''empty'' else None) in (r, observe w (ORan m r)))"

definition broker_lib :: "broker amqp_lib" where
  "broker_lib =
     \<lparr>q_DialConfig = (\<lambda>w dsn. (Inr 1, w)), q_IsClosed = (\<lambda>w c. False),
      q_Channel = (\<lambda>w c. (Inr (bk_next w), w\<lparr>bk_next := bk_next w + 1\<rparr>)), q_CloseConn = (\<lambda>w c. (None, w)),
      q_ExchangeDeclare = (\<lambda>w ch x t fl. (None, w)),
      q_QueueDeclare = (\<lambda>w ch q fl args. (None, w\<lparr>bk_queues := AList.update q args (bk_queues w)\<rparr>)),
      q_QueueBind = (\<lambda>w ch q k x. (None, w\<lparr>bk_bindings := (x, k, q) # bk_bindings w\<rparr>)),
      q_Consume = (\<lambda>w ch q fl. (None, observe w OConsuming)), q_CloseChan = (\<lambda>w ch. (None, w)),
      q_Publish = (\<lambda>w ch x k m. if ch \<in> set (bk_stale w) then (Some ''channel/connection is not open'', w)
                                 else (None, w\<lparr>bk_accepted := bk_accepted w @ [(x, k, m)]\<rparr>)),
      q_select = (\<lambda>w ch. case bk_script w of [] \<Rightarrow> (EvDone, observe w OEnded)
                                            | d # ds \<Rightarrow> (EvDelivery (Some d), observe (w\<lparr>bk_script := ds\<rparr>) (OTaken d))),
      q_Ack = (\<lambda>w d. (Some ''not acknowledged'', observe w (OAcked d))), q_Nack = (\<lambda>w d rq. (None, observe w (ONacked d rq))),
      q_ctxErr = (\<lambda>w. bk_script w = []), q_wait = (\<lambda>w d. (False, w)), q_now = (\<lambda>w. 0),
      q_journal = (\<lambda>w. ([], [], []))\<rparr>"

lemma broker_lib_ok: "broker_ok broker_lib (\<lambda>w. map_of (bk_queues w)) (\<lambda>w. set (bk_bindings w))"
  by (auto simp: broker_ok_def broker_lib_def)

lemma broker_lib_observed: "observed broker_lib picky_consumer bk_hist"
  by (simp add: observed_def broker_lib_def observe_def picky_consumer_def Let_def split: list.split)

lemma broker_lib_accepts: "accepts_ok broker_lib bk_accepted"
  by (auto simp: accepts_ok_def broker_lib_def split: if_splits)

definition demo_broker :: broker where
  "demo_broker = \<lparr>bk_queues = [], bk_bindings = [], bk_accepted = [], bk_script = [], bk_stale = [7], bk_next = 8,
     bk_hist = []\<rparr>"

definition demo_delivery :: "string \<Rightarrow> delivery" where
  "demo_delivery b = \<lparr>dl_Tag = 1, dl_Exchange = ''ex'', dl_RoutingKey = ''order.new'', dl_Body = b, dl_Headers = []\<rparr>"

text \<open>Topic matching as a program.\<close>

fun topic_match :: "string list \<Rightarrow> string list \<Rightarrow> bool" where
  "topic_match [] ks = (ks = [])"
| "topic_match (p # ps) [] = (p = ''#'' \<and> topic_match ps [])"
| "topic_match (p # ps) (k # ks) =
     (if p = ''#'' then topic_match ps (k # ks) \<or> topic_match (p # ps) ks
      else (p = ''*'' \<or> p = k) \<and> topic_match ps ks)"

lemma topic_match_ok: "topic_ok topic_match"
proof -
  have hash: "topic_match (''#'' # ps) ks \<longleftrightarrow> topic_match ps ks \<or> (\<exists>k ks'. ks = k # ks' \<and> topic_match (''#'' # ps) ks')" for ps ks
    by (cases ks) auto
  show ?thesis unfolding topic_ok_def by (intro conjI allI impI) (simp, simp, simp, rule hash)
qed

section \<open>Properties\<close>

text \<open>C16. A subscription answers every delivery it takes from the broker exactly once, before it takes the next one, and in
  order: it runs the handler on the delivery's message and asks for an Ack if the handler succeeded and for a Nack that does not requeue
  it, so that it goes to the dead-letter queue, if the handler failed. This holds through all reconnections, whatever calls
  fail; whether the client manages to send an answer is not looked at. Nor does the loop stall: it starts to consume whenever its channel
  is set up, waits only after a failure or the end of consuming, and while it has not returned each unit of its bound but one is a
  delivery handled or a back-off waited for.\<close>

theorem rabbit_settles_each_delivery:
  assumes "observed L handler hist" and "Subscribe n L c handler q k conn w = (returned, es, conn', w')"
  shows "\<exists>h m. hist w' = hist w @ h \<and> protocol Fresh h = Some m \<and> length (results h) = length (taken h) \<and>
    answers h = map2 (\<lambda>d r. (d, r = None)) (taken h) (results h) \<and>
    (\<not> returned \<longrightarrow> n \<le> Suc (waits h + length (taken h)))"
proof -
  obtain h m where h: "hist w' = hist w @ h" "protocol Fresh h = Some m" "quiet m" "\<not> returned \<longrightarrow> n \<le> Suc (waits h + length (taken h))"
    using Subscribe_from_observed [OF assms(1) assms(2) [unfolded Subscribe_def]] by blast
  then show ?thesis using protocol_answers [OF h(2,3)] by (intro exI [of _ h] exI [of _ m]) simp
qed

theorem rabbit_settles_each_delivery_witness:
  "\<exists>h m. bk_hist (snd (snd (snd (Subscribe 2 broker_lib (amqp_NewConsumer ''ex'') picky_consumer ''orders'' ''order.*''
        \<lparr>cn_dsn = [], cn_conn = Some 1\<rparr> (demo_broker\<lparr>bk_script := [demo_delivery ''a'', demo_delivery []]\<rparr>))))) = h \<and>
    protocol Fresh h = Some m \<and> answers h = map2 (\<lambda>d r. (d, r = None)) (taken h) (results h)"
proof -
  let ?s = "Subscribe 2 broker_lib (amqp_NewConsumer ''ex'') picky_consumer ''orders'' ''order.*''
        \<lparr>cn_dsn = [], cn_conn = Some 1\<rparr> (demo_broker\<lparr>bk_script := [demo_delivery ''a'', demo_delivery []]\<rparr>)"
  obtain r es conn' w' where s: "?s = (r, es, conn', w')" by (metis prod_cases4)
  from rabbit_settles_each_delivery [OF broker_lib_observed s] show ?thesis unfolding s by (auto simp: demo_broker_def)
qed

text \<open>C17. Once a subscription is set up, what its queue rejects reaches its dead-letter queue: the exchange
  and the key the queue dead-letters to are routed to the queue \<^verbatim>\<open><name>.dlq\<close>. The code uses the
  binding pattern itself as the dead-letter key; a topic pattern matches itself, wildcards included.\<close>

theorem dead_letters_reach_dlq:
  assumes "broker_ok L queues bindings" and "topic_ok M"
    and "Subscribe_setup L (amqp_NewConsumer exchange) w ch q k = (None, w')"
  shows "\<exists>args dlx key. queues w' q = Some args \<and> map_of args ''x-dead-letter-exchange'' = Some dlx \<and>
    map_of args ''x-dead-letter-routing-key'' = Some key \<and> queues w' (dlq_of q) \<noteq> None \<and>
    dlq_of q \<in> routed M (bindings w') dlx key"
proof -
  obtain w1 where "declareQueues L w1 (amqp_NewConsumer exchange) ch q k = (None, w')"
    using assms(3) by (auto simp: Subscribe_setup_def split: prod.splits option.splits)
  from declareQueues_None [OF assms(1) this] show ?thesis
    using topic_ok_refl [OF assms(2), of "Split k (CHR ''.'')"] by (auto simp: queue_args_def routed_def)
qed

theorem dead_letters_reach_dlq_witness:
  "\<exists>args dlx key. map_of (bk_queues (snd (Subscribe_setup broker_lib (amqp_NewConsumer ''ex'') demo_broker 7 ''orders'' ''order.*''))) ''orders'' = Some args \<and>
    map_of args ''x-dead-letter-exchange'' = Some dlx \<and> map_of args ''x-dead-letter-routing-key'' = Some key \<and>
    map_of (bk_queues (snd (Subscribe_setup broker_lib (amqp_NewConsumer ''ex'') demo_broker 7 ''orders'' ''order.*''))) (dlq_of ''orders'') \<noteq> None \<and>
    dlq_of ''orders'' \<in> routed topic_match (set (bk_bindings (snd (Subscribe_setup broker_lib (amqp_NewConsumer ''ex'') demo_broker 7 ''orders'' ''order.*'')))) dlx key"
  by (rule dead_letters_reach_dlq [OF broker_lib_ok topic_match_ok])
    (simp add: Subscribe_setup_def declareExchanges_def declareQueues_def broker_lib_def)

text \<open>C29. Publishing sends the message at most twice and, if it reports success, at least once, always to
  the publisher's exchange under the message's key, with its body and a request id that the consumer
  side reads back; a publisher that holds a channel never runs into a nil one.\<close>

theorem rabbit_publish_delivers:
  assumes "accepts_ok L accepted" and "''x-request-id'' \<notin> fst ` set inject"
    and "amqp_Publish L w conn p ctxRid inject msg = (r, conn', p', w')"
  shows "\<exists>ms. accepted w' = accepted w @ ms \<and> length ms \<le> 2 \<and> (r = PubOk \<longrightarrow> ms \<noteq> []) \<and>
    (\<forall>(x, k, m) \<in> set ms. x = pb_exchange p \<and> k = am_RoutingKey msg \<and> pu_Body m = am_Body msg \<and>
      delivery_rid \<lparr>dl_Tag = tag, dl_Exchange = x, dl_RoutingKey = k, dl_Body = pu_Body m, dl_Headers = pu_Headers m\<rparr>
        = (if am_RequestID msg = [] then ctxRid else am_RequestID msg)) \<and>
    (pb_ch p \<noteq> None \<longrightarrow> r \<noteq> PubPanic)"
proof -
  obtain ms where ms: "accepted w' = accepted w @ ms" "length ms \<le> 2" "r = PubOk \<longrightarrow> ms \<noteq> []"
    "\<forall>s \<in> set ms. sent_as p ctxRid inject msg s" "pb_ch p \<noteq> None \<longrightarrow> r \<noteq> PubPanic"
    using amqp_Publish_accepts [OF assms(1,3)] by blast
  have "delivery_rid d = (if am_RequestID msg = [] then ctxRid else am_RequestID msg)"
    if "dl_Headers d = amqp_headers ctxRid inject msg" for d
    using that inject_keeps_key [OF assms(2)] by (simp add: delivery_rid_def amqp_headers_Inject)
  then show ?thesis using ms by (intro exI [of _ ms]) (auto simp: sent_as_def)
qed

theorem rabbit_publish_delivers_witness:
  "\<exists>ms. bk_accepted (snd (snd (snd (amqp_Publish broker_lib demo_broker (Some \<lparr>cn_dsn = [], cn_conn = Some 1\<rparr>)
      \<lparr>pb_ch = Some 7, pb_exchange = ''ex''\<rparr> ''r1'' [] \<lparr>am_RoutingKey = ''k'', am_Body = ''b'', am_RequestID = []\<rparr>)))) = ms \<and>
    length ms \<le> 2 \<and> ms \<noteq> []"
proof -
  let ?p = "amqp_Publish broker_lib demo_broker (Some \<lparr>cn_dsn = [], cn_conn = Some 1\<rparr>)
      \<lparr>pb_ch = Some 7, pb_exchange = ''ex''\<rparr> ''r1'' [] \<lparr>am_RoutingKey = ''k'', am_Body = ''b'', am_RequestID = []\<rparr>"
  have ok: "fst ?p = PubOk"
    by (simp add: amqp_Publish_def publish_def openChannel_def Channel_def open_on_def IsClosed_def close_stale_def
        broker_lib_def demo_broker_def)
  obtain r c p' w' where p: "?p = (r, c, p', w')" by (metis prod_cases4)
  have "\<exists>ms. bk_accepted w' = bk_accepted demo_broker @ ms \<and> length ms \<le> 2 \<and> (r = PubOk \<longrightarrow> ms \<noteq> [])"
    using rabbit_publish_delivers [OF broker_lib_accepts _ p] by fastforce
  moreover have "r = PubOk" "bk_accepted demo_broker = []" using ok p by (simp_all add: demo_broker_def)
  ultimately show ?thesis unfolding p by simp
qed

end
