(* ===== verification/Health.thy ===== *)
theory Health
  imports Kafka RabbitMQ
begin

text \<open>
  The health endpoint \<^verbatim>\<open>internal/delivery/http/handler/health_handler.go\<close> and the probes that exist for
  it: those of Kafka and RabbitMQ (theories \<open>Kafka\<close> and \<open>RabbitMQ\<close>), SMTP
  (\<^verbatim>\<open>pkg/notification/email/health.go\<close>), Firebase (\<^verbatim>\<open>pkg/notification/firebase/health.go\<close>) and the
  Redis probe that \<^verbatim>\<open>cmd/api/main.go\<close> registers.

  A probe is a function of the instant it runs at; dialling and pinging are parameters that return
  an error text or nothing.
\<close>

section \<open>The handler\<close>

type_synonym Checker = "time \<Rightarrow> string"

record HealthHandler =
  hh_ping :: "time \<Rightarrow> duration \<Rightarrow> string option"
  hh_extras :: "Checker gomap"
  hh_startTime :: time
  hh_version :: string
  hh_probeTimeout :: duration

definition NewHealthHandler :: "(time \<Rightarrow> duration \<Rightarrow> string option) \<Rightarrow> time \<Rightarrow> string \<Rightarrow> duration \<Rightarrow> HealthHandler" where
  "NewHealthHandler ping startTime version probeTimeout =
     \<lparr>hh_ping = ping, hh_extras = [], hh_startTime = startTime, hh_version = version,
      hh_probeTimeout = (if probeTimeout \<le> 0 then 2 * second else probeTimeout)\<rparr>"

definition AddChecker :: "HealthHandler \<Rightarrow> string \<Rightarrow> Checker \<Rightarrow> HealthHandler" where
  "AddChecker h name fn = h\<lparr>hh_extras := AList.update name fn (hh_extras h)\<rparr>"

record health_report =
  hr_code :: int
  hr_status :: string
  hr_services :: "string gomap"
  hr_version :: string
  hr_uptime :: duration

text \<open>\<^verbatim>\<open>Duration.Round(time.Second)\<close> on durations that are not negative: halves round up.\<close>

definition round_second :: "duration \<Rightarrow> duration" where
  "round_second d = (if 2 * (d mod second) < second then d - d mod second else d - d mod second + second)"

text \<open>The loop over the registered probes; the accumulator is the state the loop changes.\<close>

fun run_probes :: "time \<Rightarrow> (string \<times> Checker) list \<Rightarrow> string gomap \<times> string \<times> int \<Rightarrow> string gomap \<times> string \<times> int" where
  "run_probes now [] acc = acc"
| "run_probes now ((name, check) # ps) (services, overall, httpCode) =
     (let result = check now;
          services' = AList.update name result services
      in if result = ''down'' then run_probes now ps (services', ''degraded'', 503)
         else run_probes now ps (services', overall, httpCode))"

definition Check :: "HealthHandler \<Rightarrow> time \<Rightarrow> health_report" where
  "Check h now =
     (let acc = (case hh_ping h now (hh_probeTimeout h) of
                   Some err \<Rightarrow> ([(''database'', ''down'')], ''degraded'', 503)
                 | None \<Rightarrow> ([(''database'', ''ok'')], ''ok'', 200))
      in case run_probes now (hh_extras h) acc of
           (services, overall, httpCode) \<Rightarrow>
             \<lparr>hr_code = httpCode, hr_status = overall, hr_services = services, hr_version = hh_version h,
              hr_uptime = round_second (now - hh_startTime h)\<rparr>)"

section \<open>The probes\<close>

definition email_HealthCheck :: "(string \<Rightarrow> duration \<Rightarrow> string option) \<Rightarrow> string \<Rightarrow> int \<Rightarrow> time option \<Rightarrow> Checker" where
  "email_HealthCheck dialTimeout host port deadline now =
     (let addr = JoinHostPort host (Itoa port);
          timeout = (case deadline of Some dl \<Rightarrow> dl - now | None \<Rightarrow> 5 * second)
      in case dialTimeout addr timeout of Some err \<Rightarrow> ''error: '' @ err | None \<Rightarrow> ''ok'')"

record serviceAccount =
  sa_ProjectID :: string
  sa_PrivateKey :: string
  sa_ClientEmail :: string
  sa_TokenURI :: string

text \<open>\<open>unmarshal\<close> is \<^verbatim>\<open>json.Unmarshal\<close> of the credentials.\<close>

definition firebase_HealthCheck ::
  "(string \<Rightarrow> string + serviceAccount) \<Rightarrow> (string \<Rightarrow> duration \<Rightarrow> string option) \<Rightarrow> string \<Rightarrow> time option \<Rightarrow> Checker" where
  "firebase_HealthCheck unmarshal dialTimeout credentialsJSON deadline now =
     (if credentialsJSON = [] then ''error: FIREBASE_CREDENTIALS_JSON not set''
      else case unmarshal credentialsJSON of
        Inl err \<Rightarrow> ''error: invalid credentials JSON: '' @ err
      | Inr sa \<Rightarrow>
          if sa_ProjectID sa = [] \<or> sa_ClientEmail sa = []
          then ''error: credentials missing project_id or client_email''
          else
            let timeout = (case deadline of Some dl \<Rightarrow> dl - now | None \<Rightarrow> 5 * second)
            in case dialTimeout ''oauth2.googleapis.com:443'' timeout of
                 Some err \<Rightarrow> ''error: cannot reach oauth2.googleapis.com: '' @ err
               | None \<Rightarrow> ''ok'')"

definition redis_probe :: "(time \<Rightarrow> duration \<Rightarrow> string option) \<Rightarrow> duration \<Rightarrow> Checker" where
  "redis_probe ping probeTimeout now = (case ping now probeTimeout of Some err \<Rightarrow> ''down'' | None \<Rightarrow> ''ok'')"

section \<open>Lemmas\<close>

lemma run_probes_overall:
  "run_probes now ps (s, ov, cd) = (s', ov', cd') \<Longrightarrow>
     (ov', cd') = (if \<exists>p \<in> set ps. snd p now = ''down'' then (''degraded'', 503) else (ov, cd))"
proof (induction ps arbitrary: s ov cd)
  case (Cons p ps)
  obtain name check where p: "p = (name, check)" by (cases p)
  show ?case
  proof (cases "check now = ''down''")
    case True
    then show ?thesis using Cons.IH [of "AList.update name (check now) s" "''degraded''" 503] Cons.prems p
      by (auto simp: Let_def split: if_splits)
  next
    case False
    then show ?thesis using Cons.IH [of "AList.update name (check now) s" ov cd] Cons.prems p
      by (auto simp: Let_def)
  qed
qed simp

lemma run_probes_services:
  "run_probes now ps (s, ov, cd) = (s', ov', cd') \<Longrightarrow> wf_gomap ps \<Longrightarrow>
     map_of s' = map_of s ++ (\<lambda>k. map_option (\<lambda>check. check now) (map_of ps k))"
proof (induction ps arbitrary: s ov cd)
  case (Cons p ps)
  obtain name check where p: "p = (name, check)" by (cases p)
  obtain ov1 cd1 where r: "run_probes now ps (AList.update name (check now) s, ov1, cd1) = (s', ov', cd')"
    using Cons.prems(1) p by (simp add: Let_def split: if_splits)
  have "map_of s' = map_of (AList.update name (check now) s) ++ (\<lambda>k. map_option (\<lambda>check. check now) (map_of ps k))"
    by (rule Cons.IH [OF r]) (use Cons.prems(2) in simp)
  moreover have "map_of ps name = None" using Cons.prems(2) p by (auto simp: map_of_eq_None_iff)
  ultimately show ?case using p by (auto simp: map_add_def fun_eq_iff split: option.splits)
qed (auto simp: map_add_def fun_eq_iff)

lemma AddChecker_wf: "wf_gomap (hh_extras h) \<Longrightarrow> wf_gomap (hh_extras (AddChecker h name fn))"
  by (simp add: AddChecker_def)

lemma round_second_close: "\<bar>round_second d - d\<bar> * 2 \<le> second \<and> round_second d mod second = 0"
  by (auto simp: round_second_def mod_diff_left_eq abs_if)

section \<open>Properties\<close>

text \<open>The health report names the database and every registered probe with its own result, and it is
  degraded, with status 503, exactly when the ping of the database fails or some probe answers
  \<^verbatim>\<open>down\<close>; the order of the probes does not matter.\<close>

lemma health_report_faithful:
  assumes "wf_gomap (hh_extras h)" and "map_of (hh_extras h) ''database'' = None"
  shows "let r = Check h now; bad = (hh_ping h now (hh_probeTimeout h) \<noteq> None \<or> (\<exists>p \<in> set (hh_extras h). snd p now = ''down'')) in
    hr_code r = (if bad then 503 else 200) \<and> hr_status r = (if bad then ''degraded'' else ''ok'') \<and>
    map_of (hr_services r) = (\<lambda>k. map_option (\<lambda>check. check now) (map_of (hh_extras h) k))
      (''database'' \<mapsto> if hh_ping h now (hh_probeTimeout h) = None then ''ok'' else ''down'')"
proof (cases "hh_ping h now (hh_probeTimeout h)")
  case None
  obtain s ov cd where r: "run_probes now (hh_extras h) ([(''database'', ''ok'')], ''ok'', 200) = (s, ov, cd)"
    by (metis prod_cases3)
  show ?thesis using None r run_probes_overall [OF r] run_probes_services [OF r assms(1)] assms(2)
    by (auto simp: Check_def Let_def fun_eq_iff map_add_def split: option.splits if_splits)
next
  case (Some err)
  obtain s ov cd where r: "run_probes now (hh_extras h) ([(''database'', ''down'')], ''degraded'', 503) = (s, ov, cd)"
    by (metis prod_cases3)
  show ?thesis using Some r run_probes_overall [OF r] run_probes_services [OF r assms(1)] assms(2)
    by (auto simp: Check_def Let_def fun_eq_iff map_add_def split: option.splits if_splits)
qed

definition demo_health :: HealthHandler where
  "demo_health = AddChecker (NewHealthHandler (\<lambda>t d. None) 0 ''1'' 0) ''redis'' (\<lambda>t. ''down'')"

text \<open>A broker that cannot be reached does not degrade the health report: the probes of Kafka and
  RabbitMQ answer \<^verbatim>\<open>down: <error>\<close>, and those of SMTP and Firebase \<^verbatim>\<open>error: <error>\<close>, which the
  endpoint does not recognise. With every one of the four failing, the report is \<^verbatim>\<open>ok\<close> with 200.\<close>

lemma unreachable_brokers_report_ok:
  fixes h0 :: HealthHandler
  assumes "hh_ping h0 now (hh_probeTimeout h0) = None" and "hh_extras h0 = []"
  shows "let h = AddChecker (AddChecker (AddChecker (AddChecker h0
        ''kafka'' (\<lambda>t. kafka_healthCheckWithDialer brokers (\<lambda>addr. Some err)))
        ''rabbitmq'' (\<lambda>t. amqp_healthCheckWithDialer dsn (\<lambda>dsn. Some err)))
        ''smtp'' (email_HealthCheck (\<lambda>addr d. Some err) host port dl))
        ''firebase'' (firebase_HealthCheck um (\<lambda>addr d. Some err) creds dl)
    in hr_code (Check h now) = 200 \<and> hr_status (Check h now) = ''ok''"
proof -
  have "kafka_healthCheckWithDialer brokers (\<lambda>addr. Some err) \<noteq> ''down''"
    "amqp_healthCheckWithDialer dsn (\<lambda>dsn. Some err) \<noteq> ''down''"
    "email_HealthCheck (\<lambda>addr d. Some err) host port dl now \<noteq> ''down''"
    "firebase_HealthCheck um (\<lambda>addr d. Some err) creds dl now \<noteq> ''down''"
    by (simp_all add: kafka_healthCheckWithDialer_def amqp_healthCheckWithDialer_def email_HealthCheck_def
        firebase_HealthCheck_def Let_def split: sum.splits)
  then show ?thesis using assms by (simp add: Check_def AddChecker_def Let_def)
qed

end
