(* ===== verification/Settings.thy ===== *)
theory Settings
  imports Prelude
begin

text \<open>
  The service's configuration: \<^verbatim>\<open>config/config.go\<close> and \<^verbatim>\<open>config/service_urls.go\<close>.

  The library that reads the sources (\<^verbatim>\<open>viper\<close>, with the \<^verbatim>\<open>.env\<close> file already in the environment) is a
  parameter: the value of a key under a set of bindings and defaults, as a text, and the conversions of texts
  to numbers and flags. \<open>viper_ok\<close> is what it documents: an environment variable wins over the file, the file
  over the default, and an empty variable counts as set.
\<close>

section \<open>The configuration\<close>

record RateLimitConfig =
  rl_Backend :: string
  rl_Max :: int
  rl_Window :: string
  rl_Prefix :: string

record SMTPConfig =
  sm_Host :: string
  sm_Port :: int
  sm_Username :: string
  sm_Password :: string
  sm_From :: string
  sm_Timeout :: string

record FirebaseConfig =
  fb_CredentialsJSON :: string

record NotificationConfig =
  nt_SMTP :: SMTPConfig
  nt_Firebase :: FirebaseConfig

record HealthConfig =
  hc_ProbeTimeout :: string

record JWTConfig =
  jwt_Secret :: string
  jwt_Issuer :: string
  jwt_Audience :: string
  jwt_Expiry :: string
  jwt_RefreshExpiry :: string

record ObservabilityConfig =
  obs_Provider :: string
  obs_TracingEnabled :: bool
  obs_OTLPEndpoint :: string

record AppConfig =
  app_Env :: string
  app_Port :: string
  app_Name :: string
  app_CORSAllowedOrigins :: string
  app_TrustedProxies :: string
  app_BcryptCost :: int

record DBConfig =
  dbc_Driver :: string
  dbc_Host :: string
  dbc_Port :: string
  dbc_Name :: string
  dbc_User :: string
  dbc_Password :: string
  dbc_MaxOpenConns :: int
  dbc_MaxIdleConns :: int
  dbc_ConnMaxLife :: string
  dbc_AutoMigrate :: bool
  dbc_SSLMode :: string
  dbc_QueryTimeout :: string

record RedisConfig =
  rd_URL :: string
  rd_Password :: string
  rd_DB :: int
  rd_PoolSize :: int
  rd_MinIdleConns :: int
  rd_DialTimeout :: string
  rd_ReadTimeout :: string
  rd_WriteTimeout :: string
  rd_MaxRetries :: int

record KafkaConfig =
  kc_Brokers :: string
  kc_GroupID :: string
  kc_HeartbeatInterval :: string
  kc_SessionTimeout :: string
  kc_RebalanceTimeout :: string

record RabbitMQConfig =
  rq_DSN :: string
  rq_Exchange :: string

record LogConfig =
  lg_Level :: string
  lg_ToFile :: bool
  lg_FilePath :: string
  lg_Dir :: string
  lg_Rotation :: string
  lg_MaxAgeDays :: int
  lg_BodyMaxBytes :: int
  lg_HTTPBodies :: bool

record ServiceURLs =
  su_UserURL :: string
  su_OrderURL :: string

record Config_root =
  cfg_App :: AppConfig
  cfg_DB :: DBConfig
  cfg_Redis :: RedisConfig
  cfg_Kafka :: KafkaConfig
  cfg_RabbitMQ :: RabbitMQConfig
  cfg_Log :: LogConfig
  cfg_Services :: ServiceURLs
  cfg_JWT :: JWTConfig
  cfg_Observability :: ObservabilityConfig
  cfg_Health :: HealthConfig
  cfg_RateLimit :: RateLimitConfig
  cfg_Notification :: NotificationConfig

definition bindings :: "string gomap" where
  "bindings =
     [(''app.env'', ''APP_ENV''),
      (''app.port'', ''APP_PORT''),
      (''app.name'', ''APP_NAME''),
      (''app.cors_allowed_origins'', ''APP_CORS_ALLOWED_ORIGINS''),
      (''db.driver'', ''DB_DRIVER''),
      (''db.host'', ''DB_HOST''),
      (''db.port'', ''DB_PORT''),
      (''db.name'', ''DB_NAME''),
      (''db.user'', ''DB_USER''),
      (''db.password'', ''DB_PASSWORD''),
      (''db.max_open_conns'', ''DB_MAX_OPEN_CONNS''),
      (''db.max_idle_conns'', ''DB_MAX_IDLE_CONNS''),
      (''db.conn_max_life'', ''DB_CONN_MAX_LIFE''),
      (''db.auto_migrate'', ''DB_AUTO_MIGRATE''),
      (''db.sslmode'', ''DB_SSL_MODE''),
      (''redis.url'', ''REDIS_URL''),
      (''redis.password'', ''REDIS_PASSWORD''),
      (''redis.db'', ''REDIS_DB''),
      (''redis.pool_size'', ''REDIS_POOL_SIZE''),
      (''redis.min_idle_conns'', ''REDIS_MIN_IDLE_CONNS''),
      (''redis.dial_timeout'', ''REDIS_DIAL_TIMEOUT''),
      (''redis.read_timeout'', ''REDIS_READ_TIMEOUT''),
      (''redis.write_timeout'', ''REDIS_WRITE_TIMEOUT''),
      (''redis.max_retries'', ''REDIS_MAX_RETRIES''),
      (''kafka.brokers'', ''KAFKA_BROKERS''),
      (''kafka.group_id'', ''KAFKA_GROUP_ID''),
      (''kafka.heartbeat_interval'', ''KAFKA_HEARTBEAT_INTERVAL''),
      (''kafka.session_timeout'', ''KAFKA_SESSION_TIMEOUT''),
      (''kafka.rebalance_timeout'', ''KAFKA_REBALANCE_TIMEOUT''),
      (''rabbitmq.dsn'', ''RABBITMQ_DSN''),
      (''rabbitmq.exchange'', ''RABBITMQ_EXCHANGE''),
      (''log.level'', ''LOG_LEVEL''),
      (''log.to_file'', ''LOG_TO_FILE''),
      (''log.file_path'', ''LOG_FILE_PATH''),
      (''log.dir'', ''LOG_DIR''),
      (''log.rotation'', ''LOG_ROTATION''),
      (''log.max_age_days'', ''LOG_MAX_AGE_DAYS''),
      (''log.body_max_bytes'', ''LOG_BODY_MAX_BYTES''),
      (''log.http_bodies'', ''LOG_HTTP_BODIES''),
      (''services.user_url'', ''USER_SERVICE_URL''),
      (''services.order_url'', ''ORDER_SERVICE_URL''),
      (''jwt.secret'', ''JWT_SECRET''),
      (''jwt.issuer'', ''JWT_ISSUER''),
      (''jwt.audience'', ''JWT_AUDIENCE''),
      (''jwt.expiry'', ''JWT_EXPIRY''),
      (''jwt.refresh_expiry'', ''JWT_REFRESH_EXPIRY''),
      (''app.trusted_proxies'', ''APP_TRUSTED_PROXIES''),
      (''app.bcrypt_cost'', ''BCRYPT_COST''),
      (''db.query_timeout'', ''DB_QUERY_TIMEOUT''),
      (''observability.provider'', ''OBSERVABILITY_PROVIDER''),
      (''observability.tracing_enabled'', ''OTEL_TRACING_ENABLED''),
      (''observability.otlp_endpoint'', ''OTEL_EXPORTER_OTLP_ENDPOINT''),
      (''health.probe_timeout'', ''HEALTH_PROBE_TIMEOUT''),
      (''rate_limit.backend'', ''RATE_LIMIT_BACKEND''),
      (''rate_limit.max'', ''RATE_LIMIT_MAX''),
      (''rate_limit.window'', ''RATE_LIMIT_WINDOW''),
      (''rate_limit.prefix'', ''RATE_LIMIT_PREFIX''),
      (''notification.smtp.host'', ''SMTP_HOST''),
      (''notification.smtp.port'', ''SMTP_PORT''),
      (''notification.smtp.username'', ''SMTP_USERNAME''),
      (''notification.smtp.password'', ''SMTP_PASSWORD''),
      (''notification.smtp.from'', ''SMTP_FROM''),
      (''notification.smtp.timeout'', ''SMTP_TIMEOUT''),
      (''notification.firebase.credentials_json'', ''FIREBASE_CREDENTIALS_JSON'')]"

definition defaults :: "string gomap" where
  "defaults =
     [(''app.env'', ''development''),
      (''app.port'', ''8080''),
      (''app.name'', ''wapgo-service''),
      (''app.cors_allowed_origins'', ''http://localhost:3000''),
      (''db.driver'', ''mysql''),
      (''db.host'', ''localhost''),
      (''db.port'', ''3306''),
      (''db.max_open_conns'', ''25''),
      (''db.max_idle_conns'', ''5''),
      (''db.conn_max_life'', ''5m''),
      (''db.auto_migrate'', ''false''),
      (''db.sslmode'', ''disable''),
      (''redis.url'', []),
      (''redis.db'', ''0''),
      (''redis.pool_size'', ''20''),
      (''redis.min_idle_conns'', ''5''),
      (''redis.dial_timeout'', ''5s''),
      (''redis.read_timeout'', ''3s''),
      (''redis.write_timeout'', ''3s''),
      (''redis.max_retries'', ''3''),
      (''log.level'', ''info''),
      (''log.to_file'', ''false''),
      (''log.file_path'', ''logs/app.log''),
      (''log.dir'', ''logs''),
      (''log.rotation'', ''size''),
      (''log.max_age_days'', ''30''),
      (''log.body_max_bytes'', ''16384''),
      (''log.http_bodies'', ''true''),
      (''jwt.issuer'', ''wapgo-service''),
      (''jwt.audience'', ''wapgo-api''),
      (''jwt.expiry'', ''15m''),
      (''jwt.refresh_expiry'', ''168h''),
      (''app.bcrypt_cost'', ''12''),
      (''db.query_timeout'', ''5s''),
      (''observability.provider'', ''elastic_apm''),
      (''observability.tracing_enabled'', ''false''),
      (''health.probe_timeout'', ''2s''),
      (''rate_limit.backend'', ''memory''),
      (''rate_limit.max'', ''100''),
      (''rate_limit.window'', ''1m''),
      (''rate_limit.prefix'', ''wapgo:rl''),
      (''notification.smtp.port'', ''587''),
      (''notification.smtp.timeout'', ''10s''),
      (''kafka.heartbeat_interval'', ''3s''),
      (''kafka.session_timeout'', ''30s''),
      (''kafka.rebalance_timeout'', ''30s'')]"

text \<open>The keys of the fields that are numbers, and of those that are flags.\<close>

definition int_keys :: "string list" where
  "int_keys = [''app.bcrypt_cost'', ''db.max_open_conns'', ''db.max_idle_conns'', ''redis.db'', ''redis.pool_size'', ''redis.min_idle_conns'', ''redis.max_retries'', ''log.max_age_days'', ''log.body_max_bytes'', ''rate_limit.max'', ''notification.smtp.port'']"

definition bool_keys :: "string list" where
  "bool_keys = [''db.auto_migrate'', ''log.to_file'', ''log.http_bodies'', ''observability.tracing_enabled'']"

definition string_keys :: "string list" where
  "string_keys =
     [''app.env'',
      ''app.port'',
      ''app.name'',
      ''app.cors_allowed_origins'',
      ''app.trusted_proxies'',
      ''db.driver'',
      ''db.host'',
      ''db.port'',
      ''db.name'',
      ''db.user'',
      ''db.password'',
      ''db.conn_max_life'',
      ''db.sslmode'',
      ''db.query_timeout'',
      ''redis.url'',
      ''redis.password'',
      ''redis.dial_timeout'',
      ''redis.read_timeout'',
      ''redis.write_timeout'',
      ''kafka.brokers'',
      ''kafka.group_id'',
      ''kafka.heartbeat_interval'',
      ''kafka.session_timeout'',
      ''kafka.rebalance_timeout'',
      ''rabbitmq.dsn'',
      ''rabbitmq.exchange'',
      ''log.level'',
      ''log.file_path'',
      ''log.dir'',
      ''log.rotation'',
      ''services.user_url'',
      ''services.order_url'',
      ''jwt.secret'',
      ''jwt.issuer'',
      ''jwt.audience'',
      ''jwt.expiry'',
      ''jwt.refresh_expiry'',
      ''observability.provider'',
      ''observability.otlp_endpoint'',
      ''health.probe_timeout'',
      ''rate_limit.backend'',
      ''rate_limit.window'',
      ''rate_limit.prefix'',
      ''notification.smtp.host'',
      ''notification.smtp.username'',
      ''notification.smtp.password'',
      ''notification.smtp.from'',
      ''notification.smtp.timeout'',
      ''notification.firebase.credentials_json'']"

record viper =
  vp_ReadInConfig :: "string option"
  vp_Get :: "string gomap \<Rightarrow> string gomap \<Rightarrow> string \<Rightarrow> string"
  vp_int :: "string \<Rightarrow> int option"
  vp_bool :: "string \<Rightarrow> bool option"

text \<open>The keys whose text does not convert, and the configuration filled in field by field.\<close>

definition bad_keys :: "viper \<Rightarrow> string list" where
  "bad_keys V =
     filter (\<lambda>k. vp_int V (vp_Get V bindings defaults k) = None) int_keys @
     filter (\<lambda>k. vp_bool V (vp_Get V bindings defaults k) = None) bool_keys"

definition Unmarshal :: "(string \<Rightarrow> string) \<Rightarrow> (string \<Rightarrow> int) \<Rightarrow> (string \<Rightarrow> bool) \<Rightarrow> Config_root" where
  "Unmarshal str num flag =
       \<lparr>cfg_App = \<lparr>app_Env = str ''app.env'',
          app_Port = str ''app.port'',
          app_Name = str ''app.name'',
          app_CORSAllowedOrigins = str ''app.cors_allowed_origins'',
          app_TrustedProxies = str ''app.trusted_proxies'',
          app_BcryptCost = num ''app.bcrypt_cost''\<rparr>,
        cfg_DB = \<lparr>dbc_Driver = str ''db.driver'',
          dbc_Host = str ''db.host'',
          dbc_Port = str ''db.port'',
          dbc_Name = str ''db.name'',
          dbc_User = str ''db.user'',
          dbc_Password = str ''db.password'',
          dbc_MaxOpenConns = num ''db.max_open_conns'',
          dbc_MaxIdleConns = num ''db.max_idle_conns'',
          dbc_ConnMaxLife = str ''db.conn_max_life'',
          dbc_AutoMigrate = flag ''db.auto_migrate'',
          dbc_SSLMode = str ''db.sslmode'',
          dbc_QueryTimeout = str ''db.query_timeout''\<rparr>,
        cfg_Redis = \<lparr>rd_URL = str ''redis.url'',
          rd_Password = str ''redis.password'',
          rd_DB = num ''redis.db'',
          rd_PoolSize = num ''redis.pool_size'',
          rd_MinIdleConns = num ''redis.min_idle_conns'',
          rd_DialTimeout = str ''redis.dial_timeout'',
          rd_ReadTimeout = str ''redis.read_timeout'',
          rd_WriteTimeout = str ''redis.write_timeout'',
          rd_MaxRetries = num ''redis.max_retries''\<rparr>,
        cfg_Kafka = \<lparr>kc_Brokers = str ''kafka.brokers'',
          kc_GroupID = str ''kafka.group_id'',
          kc_HeartbeatInterval = str ''kafka.heartbeat_interval'',
          kc_SessionTimeout = str ''kafka.session_timeout'',
          kc_RebalanceTimeout = str ''kafka.rebalance_timeout''\<rparr>,
        cfg_RabbitMQ = \<lparr>rq_DSN = str ''rabbitmq.dsn'',
          rq_Exchange = str ''rabbitmq.exchange''\<rparr>,
        cfg_Log = \<lparr>lg_Level = str ''log.level'',
          lg_ToFile = flag ''log.to_file'',
          lg_FilePath = str ''log.file_path'',
          lg_Dir = str ''log.dir'',
          lg_Rotation = str ''log.rotation'',
          lg_MaxAgeDays = num ''log.max_age_days'',
          lg_BodyMaxBytes = num ''log.body_max_bytes'',
          lg_HTTPBodies = flag ''log.http_bodies''\<rparr>,
        cfg_Services = \<lparr>su_UserURL = str ''services.user_url'',
          su_OrderURL = str ''services.order_url''\<rparr>,
        cfg_JWT = \<lparr>jwt_Secret = str ''jwt.secret'',
          jwt_Issuer = str ''jwt.issuer'',
          jwt_Audience = str ''jwt.audience'',
          jwt_Expiry = str ''jwt.expiry'',
          jwt_RefreshExpiry = str ''jwt.refresh_expiry''\<rparr>,
        cfg_Observability = \<lparr>obs_Provider = str ''observability.provider'',
          obs_TracingEnabled = flag ''observability.tracing_enabled'',
          obs_OTLPEndpoint = str ''observability.otlp_endpoint''\<rparr>,
        cfg_Health = \<lparr>hc_ProbeTimeout = str ''health.probe_timeout''\<rparr>,
        cfg_RateLimit = \<lparr>rl_Backend = str ''rate_limit.backend'',
          rl_Max = num ''rate_limit.max'',
          rl_Window = str ''rate_limit.window'',
          rl_Prefix = str ''rate_limit.prefix''\<rparr>,
        cfg_Notification = \<lparr>nt_SMTP = \<lparr>sm_Host = str ''notification.smtp.host'',
            sm_Port = num ''notification.smtp.port'',
            sm_Username = str ''notification.smtp.username'',
            sm_Password = str ''notification.smtp.password'',
            sm_From = str ''notification.smtp.from'',
            sm_Timeout = str ''notification.smtp.timeout''\<rparr>,
          nt_Firebase = \<lparr>fb_CredentialsJSON = str ''notification.firebase.credentials_json''\<rparr>\<rparr>\<rparr>"

definition Load :: "viper \<Rightarrow> string + Config_root" where
  "Load V = (case vp_ReadInConfig V of
     Some err \<Rightarrow> Inl (wrap ''reading config'' err)
   | None \<Rightarrow>
       if bad_keys V \<noteq> [] then Inl (wrap ''unmarshalling config'' (Join (bad_keys V) '', ''))
       else Inr (Unmarshal (vp_Get V bindings defaults)
         (\<lambda>k. the (vp_int V (vp_Get V bindings defaults k))) (\<lambda>k. the (vp_bool V (vp_Get V bindings defaults k)))))"

definition Enabled :: "RedisConfig \<Rightarrow> bool" where
  "Enabled c \<longleftrightarrow> TrimSpace (rd_URL c) \<noteq> []"

section \<open>Where a value comes from\<close>

text \<open>The name of the variable that \<^verbatim>\<open>AutomaticEnv\<close> derives from a key.\<close>

definition auto_name :: "string \<Rightarrow> string" where
  "auto_name k = map (\<lambda>c. if c = CHR ''.'' then CHR ''_'' else to_upper_char c) k"

definition source_value :: "(string \<Rightarrow> string option) \<Rightarrow> (string \<Rightarrow> string option) \<Rightarrow> string gomap \<Rightarrow> string gomap \<Rightarrow> string \<Rightarrow> string" where
  "source_value env file bs ds k = (case env (auto_name k) of
     Some x \<Rightarrow> x
   | None \<Rightarrow> (case (case map_of bs k of Some name \<Rightarrow> env name | None \<Rightarrow> None) of
        Some x \<Rightarrow> x
      | None \<Rightarrow> (case file k of
           Some x \<Rightarrow> x
         | None \<Rightarrow> (case map_of ds k of Some x \<Rightarrow> x | None \<Rightarrow> []))))"

definition viper_ok :: "(string \<Rightarrow> string option) \<Rightarrow> (string \<Rightarrow> string option) \<Rightarrow> viper \<Rightarrow> bool" where
  "viper_ok env file V \<longleftrightarrow> (\<forall>bs ds k. vp_Get V bs ds k = source_value env file bs ds k) \<and>
     (\<forall>n. vp_int V (Itoa n) = Some n) \<and> vp_int V [] = Some 0 \<and>
     vp_bool V ''true'' = Some True \<and> vp_bool V ''false'' = Some False \<and> vp_bool V [] = Some False"

definition default_config :: Config_root where
  "default_config =
     \<lparr>cfg_App = \<lparr>app_Env = ''development'',
        app_Port = ''8080'',
        app_Name = ''wapgo-service'',
        app_CORSAllowedOrigins = ''http://localhost:3000'',
        app_TrustedProxies = [],
        app_BcryptCost = 12\<rparr>,
      cfg_DB = \<lparr>dbc_Driver = ''mysql'',
        dbc_Host = ''localhost'',
        dbc_Port = ''3306'',
        dbc_Name = [],
        dbc_User = [],
        dbc_Password = [],
        dbc_MaxOpenConns = 25,
        dbc_MaxIdleConns = 5,
        dbc_ConnMaxLife = ''5m'',
        dbc_AutoMigrate = False,
        dbc_SSLMode = ''disable'',
        dbc_QueryTimeout = ''5s''\<rparr>,
      cfg_Redis = \<lparr>rd_URL = [],
        rd_Password = [],
        rd_DB = 0,
        rd_PoolSize = 20,
        rd_MinIdleConns = 5,
        rd_DialTimeout = ''5s'',
        rd_ReadTimeout = ''3s'',
        rd_WriteTimeout = ''3s'',
        rd_MaxRetries = 3\<rparr>,
      cfg_Kafka = \<lparr>kc_Brokers = [],
        kc_GroupID = [],
        kc_HeartbeatInterval = ''3s'',
        kc_SessionTimeout = ''30s'',
        kc_RebalanceTimeout = ''30s''\<rparr>,
      cfg_RabbitMQ = \<lparr>rq_DSN = [],
        rq_Exchange = []\<rparr>,
      cfg_Log = \<lparr>lg_Level = ''info'',
        lg_ToFile = False,
        lg_FilePath = ''logs/app.log'',
        lg_Dir = ''logs'',
        lg_Rotation = ''size'',
        lg_MaxAgeDays = 30,
        lg_BodyMaxBytes = 16384,
        lg_HTTPBodies = True\<rparr>,
      cfg_Services = \<lparr>su_UserURL = [],
        su_OrderURL = []\<rparr>,
      cfg_JWT = \<lparr>jwt_Secret = [],
        jwt_Issuer = ''wapgo-service'',
        jwt_Audience = ''wapgo-api'',
        jwt_Expiry = ''15m'',
        jwt_RefreshExpiry = ''168h''\<rparr>,
      cfg_Observability = \<lparr>obs_Provider = ''elastic_apm'',
        obs_TracingEnabled = False,
        obs_OTLPEndpoint = []\<rparr>,
      cfg_Health = \<lparr>hc_ProbeTimeout = ''2s''\<rparr>,
      cfg_RateLimit = \<lparr>rl_Backend = ''memory'',
        rl_Max = 100,
        rl_Window = ''1m'',
        rl_Prefix = ''wapgo:rl''\<rparr>,
      cfg_Notification = \<lparr>nt_SMTP = \<lparr>sm_Host = [],
          sm_Port = 587,
          sm_Username = [],
          sm_Password = [],
          sm_From = [],
          sm_Timeout = ''10s''\<rparr>,
        nt_Firebase = \<lparr>fb_CredentialsJSON = []\<rparr>\<rparr>\<rparr>"

definition config_keys :: "string list" where
  "config_keys = string_keys @ int_keys @ bool_keys"

section \<open>Lemmas\<close>

text \<open>Every field has a variable, no two share one, and every default belongs to a field.\<close>

lemma variables_distinct: "distinct (map snd bindings)"
  by (simp add: bindings_def)

lemma keys_bound: "list_all (\<lambda>k. map_of bindings k \<noteq> None) config_keys" "list_all (\<lambda>(k, x). k \<in> set config_keys) defaults"
  by code_simp+

lemma digit_chars:
  "digit 0 = CHR ''0''" "digit (Suc 0) = CHR ''1''" "digit 2 = CHR ''2''" "digit 3 = CHR ''3''" "digit 4 = CHR ''4''" "digit 5 = CHR ''5''" "digit 6 = CHR ''6''" "digit 7 = CHR ''7''" "digit 8 = CHR ''8''" "digit 9 = CHR ''9''"
  by code_simp+

lemma Itoa_defaults: "Itoa 0 = ''0''" "Itoa 3 = ''3''" "Itoa 5 = ''5''" "Itoa 12 = ''12''" "Itoa 20 = ''20''" "Itoa 25 = ''25''" "Itoa 30 = ''30''" "Itoa 100 = ''100''" "Itoa 587 = ''587''" "Itoa 16384 = ''16384''"
  by (simp_all add: Itoa_def nat_str.simps digit_chars)

definition table_get :: "string \<Rightarrow> string" where
  "table_get k = (case map_of defaults k of Some x \<Rightarrow> x | None \<Rightarrow> [])"

lemma viper_defaults:
  assumes "viper_ok (\<lambda>_. None) (\<lambda>_. None) V"
  shows "vp_Get V bindings defaults = table_get"
proof
  show "vp_Get V bindings defaults k = table_get k" for k
    using assms by (cases "map_of bindings k") (simp_all add: viper_ok_def source_value_def table_get_def)
qed

lemma viper_numbers:
  assumes "viper_ok env file V"
  shows "vp_int V ''0'' = Some 0" "vp_int V ''3'' = Some 3" "vp_int V ''5'' = Some 5" "vp_int V ''12'' = Some 12" "vp_int V ''20'' = Some 20" "vp_int V ''25'' = Some 25" "vp_int V ''30'' = Some 30" "vp_int V ''100'' = Some 100" "vp_int V ''587'' = Some 587" "vp_int V ''16384'' = Some 16384"
proof -
  have "vp_int V (Itoa n) = Some n" for n using assms by (simp add: viper_ok_def)
  note I = this
  show "vp_int V ''0'' = Some 0" "vp_int V ''3'' = Some 3" "vp_int V ''5'' = Some 5" "vp_int V ''12'' = Some 12" "vp_int V ''20'' = Some 20" "vp_int V ''25'' = Some 25" "vp_int V ''30'' = Some 30" "vp_int V ''100'' = Some 100" "vp_int V ''587'' = Some 587" "vp_int V ''16384'' = Some 16384"
    using I [of 0] I [of 3] I [of 5] I [of 12] I [of 20] I [of 25] I [of 30] I [of 100] I [of 587] I [of 16384] by (simp_all add: Itoa_defaults)
qed

lemma table_values:
  "table_get ''app.env'' = ''development''"
  "table_get ''app.port'' = ''8080''"
  "table_get ''app.name'' = ''wapgo-service''"
  "table_get ''app.cors_allowed_origins'' = ''http://localhost:3000''"
  "table_get ''app.trusted_proxies'' = []"
  "table_get ''app.bcrypt_cost'' = ''12''"
  "table_get ''db.driver'' = ''mysql''"
  "table_get ''db.host'' = ''localhost''"
  "table_get ''db.port'' = ''3306''"
  "table_get ''db.name'' = []"
  "table_get ''db.user'' = []"
  "table_get ''db.password'' = []"
  "table_get ''db.max_open_conns'' = ''25''"
  "table_get ''db.max_idle_conns'' = ''5''"
  "table_get ''db.conn_max_life'' = ''5m''"
  "table_get ''db.auto_migrate'' = ''false''"
  "table_get ''db.sslmode'' = ''disable''"
  "table_get ''db.query_timeout'' = ''5s''"
  "table_get ''redis.url'' = []"
  "table_get ''redis.password'' = []"
  "table_get ''redis.db'' = ''0''"
  "table_get ''redis.pool_size'' = ''20''"
  "table_get ''redis.min_idle_conns'' = ''5''"
  "table_get ''redis.dial_timeout'' = ''5s''"
  "table_get ''redis.read_timeout'' = ''3s''"
  "table_get ''redis.write_timeout'' = ''3s''"
  "table_get ''redis.max_retries'' = ''3''"
  "table_get ''kafka.brokers'' = []"
  "table_get ''kafka.group_id'' = []"
  "table_get ''kafka.heartbeat_interval'' = ''3s''"
  "table_get ''kafka.session_timeout'' = ''30s''"
  "table_get ''kafka.rebalance_timeout'' = ''30s''"
  "table_get ''rabbitmq.dsn'' = []"
  "table_get ''rabbitmq.exchange'' = []"
  "table_get ''log.level'' = ''info''"
  "table_get ''log.to_file'' = ''false''"
  "table_get ''log.file_path'' = ''logs/app.log''"
  "table_get ''log.dir'' = ''logs''"
  "table_get ''log.rotation'' = ''size''"
  "table_get ''log.max_age_days'' = ''30''"
  "table_get ''log.body_max_bytes'' = ''16384''"
  "table_get ''log.http_bodies'' = ''true''"
  "table_get ''services.user_url'' = []"
  "table_get ''services.order_url'' = []"
  "table_get ''jwt.secret'' = []"
  "table_get ''jwt.issuer'' = ''wapgo-service''"
  "table_get ''jwt.audience'' = ''wapgo-api''"
  "table_get ''jwt.expiry'' = ''15m''"
  "table_get ''jwt.refresh_expiry'' = ''168h''"
  "table_get ''observability.provider'' = ''elastic_apm''"
  "table_get ''observability.tracing_enabled'' = ''false''"
  "table_get ''observability.otlp_endpoint'' = []"
  "table_get ''health.probe_timeout'' = ''2s''"
  "table_get ''rate_limit.backend'' = ''memory''"
  "table_get ''rate_limit.max'' = ''100''"
  "table_get ''rate_limit.window'' = ''1m''"
  "table_get ''rate_limit.prefix'' = ''wapgo:rl''"
  "table_get ''notification.smtp.host'' = []"
  "table_get ''notification.smtp.port'' = ''587''"
  "table_get ''notification.smtp.username'' = []"
  "table_get ''notification.smtp.password'' = []"
  "table_get ''notification.smtp.from'' = []"
  "table_get ''notification.smtp.timeout'' = ''10s''"
  "table_get ''notification.firebase.credentials_json'' = []"
  by code_simp+

text \<open>An empty \<^verbatim>\<open>REDIS_URL\<close> switches Redis off, whatever the file says.\<close>

lemma empty_redis_url_disables:
  assumes "viper_ok env file V" and "env ''REDIS_URL'' = Some []" and "Load V = Inr cfg"
  shows "\<not> Enabled (cfg_Redis cfg)"
proof -
  have "auto_name ''redis.url'' = ''REDIS_URL''" by code_simp
  then have "vp_Get V bindings defaults ''redis.url'' = []" using assms(1,2) by (simp add: viper_ok_def source_value_def)
  moreover have "cfg = Unmarshal (vp_Get V bindings defaults)
      (\<lambda>k. the (vp_int V (vp_Get V bindings defaults k))) (\<lambda>k. the (vp_bool V (vp_Get V bindings defaults k)))"
    using assms(3) by (simp add: Load_def split: option.splits if_splits)
  ultimately show ?thesis by (simp add: Unmarshal_def Enabled_def TrimSpace_def trim_by_def)
qed

text \<open>With an empty environment and no file, \<^verbatim>\<open>Load\<close> gives the defaults in their fields: every field is filled from
  its own key, and the fields without a default are empty.\<close>

lemma config_defaults:
  assumes "viper_ok (\<lambda>_. None) (\<lambda>_. None) V" and "vp_ReadInConfig V = None"
  shows "Load V = Inr default_config"
proof -
  note N = viper_numbers [OF assms(1)] and G = viper_defaults [OF assms(1)]
  have B: "vp_bool V ''true'' = Some True" "vp_bool V ''false'' = Some False" "vp_bool V [] = Some False" "vp_int V [] = Some 0"
    using assms(1) by (simp_all add: viper_ok_def)
  have "bad_keys V = []" unfolding bad_keys_def G int_keys_def bool_keys_def
    by (simp add: table_values N B)
  moreover have "Unmarshal table_get (\<lambda>k. the (vp_int V (table_get k))) (\<lambda>k. the (vp_bool V (table_get k))) = default_config"
    unfolding Unmarshal_def default_config_def by (simp add: table_values N B)
  ultimately show ?thesis using assms(2) by (simp add: Load_def G)
qed

text \<open>A reader without sources: it knows the defaults and converts decimal numbers.\<close>

definition plain_viper :: viper where
  "plain_viper = \<lparr>vp_ReadInConfig = None, vp_Get = (\<lambda>bs ds k. case map_of ds k of Some x \<Rightarrow> x | None \<Rightarrow> []),
     vp_int = (\<lambda>s. if s = [] then Some 0 else if hd s = CHR ''-'' then Some (- int (dec_number (tl s))) else Some (int (dec_number s))),
     vp_bool = (\<lambda>s. if s = ''true'' then Some True else if s = ''false'' \<or> s = [] then Some False else None)\<rparr>"

lemma plain_int: "vp_int plain_viper (Itoa n) = Some n"
proof (cases "n < 0")
  case True
  then show ?thesis by (simp add: plain_viper_def Itoa_def)
next
  case False
  have "hd (nat_str (nat n)) \<noteq> CHR ''-''"
    using nat_str_digits [of "hd (nat_str (nat n))" "nat n"] by (auto simp: is_digit_def ord_char_def)
  then show ?thesis using False by (simp add: plain_viper_def Itoa_def)
qed

lemma plain_viper_ok: "viper_ok (\<lambda>_. None) (\<lambda>_. None) plain_viper"
proof -
  have "vp_Get plain_viper bs ds k = source_value (\<lambda>_. None) (\<lambda>_. None) bs ds k" for bs ds k
    by (cases "map_of bs k") (simp_all add: plain_viper_def source_value_def)
  then show ?thesis using plain_int by (simp add: viper_ok_def) (simp add: plain_viper_def)
qed

end
