(* ===== verification/App.thy ===== *)
theory App
  imports Settings Auth_Token
begin

text \<open>
  Start and stop of the service: \<^verbatim>\<open>cmd/api/main.go\<close>. The configuration decides which implementations the
  service runs with; \<open>start\<close> makes these decisions and gives the resulting wiring, or the fatal message the process ends
  with. Connecting to the database, setting up observability and migrating are parameters: each has an error or
  succeeds. Log messages are left out.
\<close>

section \<open>Durations\<close>

text \<open>\<^verbatim>\<open>time.ParseDuration\<close>. The fraction of a unit is cut off to whole nanoseconds; the library computes it in
  floating point, which gives the same number when the unit is a multiple of the fraction's denominator.\<close>

fun leadingInt :: "int \<Rightarrow> string \<Rightarrow> (int \<times> string) option" where
  "leadingInt x [] = Some (x, [])"
| "leadingInt x (c # s) =
     (if \<not> is_digit c then Some (x, c # s)
      else if x > 2 ^ 63 div 10 then None
      else let y = x * 10 + int (ord_char c - 48) in if y > 2 ^ 63 then None else leadingInt y s)"

fun leadingFraction :: "int \<Rightarrow> int \<Rightarrow> bool \<Rightarrow> string \<Rightarrow> int \<times> int \<times> string" where
  "leadingFraction x scale overflow [] = (x, scale, [])"
| "leadingFraction x scale overflow (c # s) =
     (if \<not> is_digit c then (x, scale, c # s)
      else if overflow \<or> x > (2 ^ 63 - 1) div 10 then leadingFraction x scale True s
      else let y = x * 10 + int (ord_char c - 48) in
           if y > 2 ^ 63 then leadingFraction x scale True s else leadingFraction y (scale * 10) False s)"

definition unitMap :: "int gomap" where
  "unitMap = [(''ns'', 1), (''us'', 1000), ([CHR 0xC2, CHR 0xB5, CHR ''s''], 1000), ([CHR 0xCE, CHR 0xBC, CHR ''s''], 1000),
     (''ms'', 1000000), (''s'', 1000000000), (''m'', 60000000000), (''h'', 3600000000000)]"

definition num_char :: "char \<Rightarrow> bool" where
  "num_char c \<longleftrightarrow> c = CHR ''.'' \<or> is_digit c"

text \<open>One number with its unit: its value and the rest of the text.\<close>

definition duration_part :: "string \<Rightarrow> (int \<times> string) option" where
  "duration_part s =
     (if s = [] \<or> \<not> num_char (hd s) then None
      else case leadingInt 0 s of
        None \<Rightarrow> None
      | Some (v, s1) \<Rightarrow>
          let pre = (length s1 \<noteq> length s);
              dot = (s1 \<noteq> [] \<and> hd s1 = CHR ''.'');
              fr = (if dot then leadingFraction 0 1 False (drop 1 s1) else (0, 1, s1));
              f = fst fr; scale = fst (snd fr); s2 = snd (snd fr);
              post = (dot \<and> length s2 \<noteq> length (drop 1 s1));
              u = takeWhile (\<lambda>c. \<not> num_char c) s2;
              rest = dropWhile (\<lambda>c. \<not> num_char c) s2 in
          if \<not> pre \<and> \<not> post then None
          else if u = [] then None
          else (case map_of unitMap u of
             None \<Rightarrow> None
           | Some unit \<Rightarrow>
               if v > 2 ^ 63 div unit then None
               else let w = v * unit + f * unit div scale in if w > 2 ^ 63 then None else Some (w, rest)))"

fun duration_sum :: "nat \<Rightarrow> int \<Rightarrow> string \<Rightarrow> int option" where
  "duration_sum 0 d s = (if s = [] then Some d else None)"
| "duration_sum (Suc n) d s =
     (if s = [] then Some d
      else case duration_part s of
        None \<Rightarrow> None
      | Some (w, rest) \<Rightarrow> if d + w > 2 ^ 63 then None else duration_sum n (d + w) rest)"

text \<open>Each part is not empty, so as many rounds as the text has characters are enough.\<close>

definition ParseDuration :: "string \<Rightarrow> int option" where
  "ParseDuration s0 =
     (let neg = HasPrefix s0 ''-''; s = (if neg \<or> HasPrefix s0 ''+'' then drop 1 s0 else s0) in
      if s = ''0'' then Some 0
      else if s = [] then None
      else case duration_sum (length s) 0 s of
        None \<Rightarrow> None
      | Some d \<Rightarrow> if neg then Some (- d) else if d > 2 ^ 63 - 1 then None else Some d)"

section \<open>The wiring\<close>

datatype store = RedisStore string | MemoryStore string

datatype limiter_choice = SharedLimiter string int int | LocalLimiter int int

datatype probe_choice = RedisProbe int | KafkaProbe string | RabbitProbe string | NotConfigured

record wiring =
  wr_queryTimeout :: int
  wr_migrated :: bool
  wr_cacher :: store
  wr_blacklist :: store
  wr_jwt :: Config
  wr_refreshExpiry :: int
  wr_bcryptCost :: int
  wr_probeTimeout :: int
  wr_checkers :: "(string \<times> probe_choice) list"
  wr_limiter :: limiter_choice
  wr_trustedProxies :: "string list"
  wr_proxyCheck :: bool
  wr_addr :: string

datatype startup = Fatal string | Running wiring

definition parseTrustedProxies :: "string \<Rightarrow> string list" where
  "parseTrustedProxies raw = (if raw = [] then [] else filter (\<lambda>t. t \<noteq> []) (map TrimSpace (Split raw (CHR '',''))))"

text \<open>\<^verbatim>\<open>newRedisClient\<close>: \<open>parseURL\<close> is the client library's parser.\<close>

record redis_options =
  ro_Addr :: string
  ro_Password :: string
  ro_DB :: int
  ro_PoolSize :: int
  ro_MinIdleConns :: int
  ro_MaxRetries :: int
  ro_DialTimeout :: int
  ro_ReadTimeout :: int
  ro_WriteTimeout :: int

definition local_redis :: redis_options where
  "local_redis = \<lparr>ro_Addr = ''localhost:6379'', ro_Password = [], ro_DB = 0, ro_PoolSize = 0, ro_MinIdleConns = 0,
     ro_MaxRetries = 0, ro_DialTimeout = 0, ro_ReadTimeout = 0, ro_WriteTimeout = 0\<rparr>"

definition newRedisClient :: "(string \<Rightarrow> redis_options option) \<Rightarrow> RedisConfig \<Rightarrow> redis_options" where
  "newRedisClient parseURL cfg =
     (let o0 = (case parseURL (rd_URL cfg) of None \<Rightarrow> local_redis | Some r \<Rightarrow> r);
          o1 = (if rd_Password cfg \<noteq> [] then o0\<lparr>ro_Password := rd_Password cfg\<rparr> else o0);
          o2 = (if rd_DB cfg > 0 then o1\<lparr>ro_DB := rd_DB cfg\<rparr> else o1);
          o3 = (if rd_PoolSize cfg > 0 then o2\<lparr>ro_PoolSize := rd_PoolSize cfg\<rparr> else o2);
          o4 = (if rd_MinIdleConns cfg > 0 then o3\<lparr>ro_MinIdleConns := rd_MinIdleConns cfg\<rparr> else o3);
          o5 = (if rd_MaxRetries cfg > 0 then o4\<lparr>ro_MaxRetries := rd_MaxRetries cfg\<rparr> else o4);
          o6 = (case ParseDuration (rd_DialTimeout cfg) of Some d \<Rightarrow> o5\<lparr>ro_DialTimeout := d\<rparr> | None \<Rightarrow> o5);
          o7 = (case ParseDuration (rd_ReadTimeout cfg) of Some d \<Rightarrow> o6\<lparr>ro_ReadTimeout := d\<rparr> | None \<Rightarrow> o6) in
      case ParseDuration (rd_WriteTimeout cfg) of Some d \<Rightarrow> o7\<lparr>ro_WriteTimeout := d\<rparr> | None \<Rightarrow> o7)"

text \<open>A duration with a fallback, for the settings where only a positive one is accepted.\<close>

definition positive_or :: "int \<Rightarrow> string \<Rightarrow> int" where
  "positive_or d s = (case ParseDuration s of None \<Rightarrow> d | Some x \<Rightarrow> if x \<le> 0 then d else x)"

definition parsed_or :: "int \<Rightarrow> string \<Rightarrow> int" where
  "parsed_or d s = (case ParseDuration s of None \<Rightarrow> d | Some x \<Rightarrow> x)"

definition checkers :: "Config_root \<Rightarrow> int \<Rightarrow> (string \<times> probe_choice) list" where
  "checkers cfg probeTimeout =
     (if Enabled (cfg_Redis cfg) then [(''redis'', RedisProbe probeTimeout)] else []) @
     [(''kafka'', if kc_Brokers (cfg_Kafka cfg) \<noteq> [] then KafkaProbe (kc_Brokers (cfg_Kafka cfg)) else NotConfigured),
      (''rabbitmq'', if rq_DSN (cfg_RabbitMQ cfg) \<noteq> [] then RabbitProbe (rq_DSN (cfg_RabbitMQ cfg)) else NotConfigured)]"

definition global_limiter :: "Config_root \<Rightarrow> limiter_choice" where
  "global_limiter cfg =
     (let rl = cfg_RateLimit cfg; rlWindow = positive_or minute (rl_Window rl) in
      if rl_Backend rl = ''redis'' \<and> Enabled (cfg_Redis cfg) then SharedLimiter (rl_Prefix rl) (rl_Max rl) rlWindow
      else LocalLimiter (rl_Max rl) rlWindow)"

record outside =
  os_observability :: "string option"
  os_database :: "string option"
  os_sqlDB :: "string option"
  os_migrate :: "string option"

definition wire :: "Config_root \<Rightarrow> wiring" where
  "wire cfg =
     (let redisEnabled = Enabled (cfg_Redis cfg);
          jwt = cfg_JWT cfg;
          probeTimeout = parsed_or 0 (hc_ProbeTimeout (cfg_Health cfg));
          trusted = parseTrustedProxies (app_TrustedProxies (cfg_App cfg)) in
      \<lparr>wr_queryTimeout = positive_or (5 * second) (dbc_QueryTimeout (cfg_DB cfg)),
       wr_migrated = dbc_AutoMigrate (cfg_DB cfg),
       wr_cacher = (if redisEnabled then RedisStore ''wapgo'' else MemoryStore ''wapgo''),
       wr_blacklist = (if redisEnabled then RedisStore [] else MemoryStore []),
       wr_jwt = \<lparr>Secret = jwt_Secret jwt, Issuer = jwt_Issuer jwt, Audience = jwt_Audience jwt,
         Expiry = parsed_or (15 * minute) (jwt_Expiry jwt)\<rparr>,
       wr_refreshExpiry = parsed_or (7 * 24 * hour) (jwt_RefreshExpiry jwt),
       wr_bcryptCost = (if app_BcryptCost (cfg_App cfg) < 10 then 12 else app_BcryptCost (cfg_App cfg)),
       wr_probeTimeout = probeTimeout,
       wr_checkers = checkers cfg probeTimeout,
       wr_limiter = global_limiter cfg,
       wr_trustedProxies = trusted,
       wr_proxyCheck = (length trusted > 0),
       wr_addr = '':'' @ app_Port (cfg_App cfg)\<rparr>)"

text \<open>The start of \<^verbatim>\<open>main\<close>, with the calls that were made to the outside.\<close>

datatype outside_call = SetupObservability | ConnectDatabase | GetSqlDB | AutoMigrate | Listen string

definition start :: "viper \<Rightarrow> outside \<Rightarrow> startup \<times> outside_call list" where
  "start V w = (case Load V of
     Inl err \<Rightarrow> (Fatal ''failed to load config'', [])
   | Inr cfg \<Rightarrow>
       if os_observability w \<noteq> None then (Fatal ''failed to setup observability provider'', [SetupObservability])
       else if os_database w \<noteq> None then (Fatal ''failed to connect to database'', [SetupObservability, ConnectDatabase])
       else if os_sqlDB w \<noteq> None then (Fatal ''failed to get underlying sql.DB'', [SetupObservability, ConnectDatabase, GetSqlDB])
       else if dbc_AutoMigrate (cfg_DB cfg) then
         if app_Env (cfg_App cfg) = ''production''
         then (Fatal ''DB_AUTO_MIGRATE is not allowed in production; run ./cmd/migrate instead'', [SetupObservability, ConnectDatabase, GetSqlDB])
         else if os_migrate w \<noteq> None then (Fatal ''auto-migrate failed'', [SetupObservability, ConnectDatabase, GetSqlDB, AutoMigrate])
         else (Running (wire cfg), [SetupObservability, ConnectDatabase, GetSqlDB, AutoMigrate, Listen (wr_addr (wire cfg))])
       else (Running (wire cfg), [SetupObservability, ConnectDatabase, GetSqlDB, Listen (wr_addr (wire cfg))]))"

text \<open>The stack of middlewares, the error handler and the order of the shutdown.\<close>

datatype fiber_error = FiberError int | OtherError string

definition ErrorHandler :: "(int \<Rightarrow> string) \<Rightarrow> fiber_error \<Rightarrow> int \<times> bool \<times> string" where
  "ErrorHandler statusText err =
     (let code = (case err of FiberError c \<Rightarrow> c | OtherError e \<Rightarrow> 500) in (code, False, statusText code))"

datatype shutdown_step = StopHTTP | StopObservability | CloseRedis | CloseDatabase

definition shutdown :: "wiring \<Rightarrow> shutdown_step list" where
  "shutdown w = [StopHTTP, StopObservability] @ (case wr_cacher w of RedisStore p \<Rightarrow> [CloseRedis] | MemoryStore p \<Rightarrow> []) @ [CloseDatabase]"

section \<open>Lemmas\<close>

lemma leadingInt_rest: "leadingInt x s = Some (v, r) \<Longrightarrow> length r \<le> length s"
  by (induction x s rule: leadingInt.induct) (auto simp: Let_def split: if_splits)

lemma leadingFraction_rest: "length (snd (snd (leadingFraction x sc ov s))) \<le> length s"
  by (induction s arbitrary: x sc ov) (simp_all add: Let_def le_SucI)

lemma unit_shorter: "takeWhile P s \<noteq> [] \<Longrightarrow> length (dropWhile P s) < length s"
  by (induction s) (auto simp: less_Suc_eq_le length_dropWhile_le split: if_splits)

lemma duration_part_shorter:
  assumes "duration_part s = Some (w, rest)"
  shows "length rest < length s"
proof -
  obtain v s1 where L: "leadingInt 0 s = Some (v, s1)" using assms by (auto simp: duration_part_def split: option.splits if_splits)
  define s2 where "s2 = snd (snd (if s1 \<noteq> [] \<and> hd s1 = CHR ''.'' then leadingFraction 0 1 False (drop 1 s1) else (0, 1, s1)))"
  have "length s2 \<le> length s1" using leadingFraction_rest [of 0 1 False "drop 1 s1"] by (auto simp: s2_def)
  moreover have "rest = dropWhile (\<lambda>c. \<not> num_char c) s2" and "takeWhile (\<lambda>c. \<not> num_char c) s2 \<noteq> []"
    using assms L unfolding duration_part_def s2_def by (auto simp: Let_def split: option.splits if_splits)
  ultimately show ?thesis using unit_shorter [of "\<lambda>c. \<not> num_char c" s2] leadingInt_rest [OF L] by simp
qed

text \<open>Every round consumes at least one character, so \<open>length s\<close> rounds are enough.\<close>

lemma duration_fuel: "length s \<le> n \<Longrightarrow> duration_sum n d s = duration_sum (length s) d s"
proof (induction n arbitrary: d s rule: less_induct)
  case (less n)
  show ?case
  proof (cases "s = []")
    case False
    then obtain n' k where n: "n = Suc n'" "length s = Suc k" using less.prems by (cases n; cases s) auto
    have "duration_sum n' d' rest = duration_sum k d' rest" if "duration_part s = Some (w, rest)" for d' w rest
    proof -
      have "length rest \<le> k" using duration_part_shorter [OF that] n by simp
      then show ?thesis using less.IH [of n' rest d'] less.IH [of k rest d'] n less.prems by simp
    qed
    then show ?thesis using False n by (auto split: option.split)
  qed (cases n; simp)
qed

lemma positive_or_pos: "0 < d \<Longrightarrow> 0 < positive_or d s"
  by (auto simp: positive_or_def split: option.split)

lemma wire_limiter:
  "case wr_limiter (wire cfg) of
     SharedLimiter p m d \<Rightarrow> 0 < d \<and> wr_cacher (wire cfg) = RedisStore ''wapgo''
   | LocalLimiter m d \<Rightarrow> 0 < d"
  using positive_or_pos [of minute] by (simp add: wire_def global_limiter_def Let_def)

lemma parse_durations:
  "ParseDuration ''15m'' = Some (15 * minute)" "ParseDuration ''168h'' = Some (168 * hour)" "ParseDuration ''5s'' = Some (5 * second)"
  "ParseDuration ''1h30m'' = Some (90 * minute)" "ParseDuration ''1.5s'' = Some 1500000000" "ParseDuration ''-2ms'' = Some (-2000000)"
  "ParseDuration ''5'' = None" "ParseDuration ''s'' = None"
  by code_simp+

section \<open>Properties\<close>

text \<open>C34. Whatever the configuration: in production the service never migrates the schema by itself; and once it
  listens, the query timeout and the rate limiter's window are positive (of the other durations nothing is promised, see below),
  passwords are hashed with a cost of at least 10, cache and token blacklist are both shared or both local, and the limiter is shared
  only when they are.\<close>

theorem startup_safe:
  assumes "start V w = (s, calls)" and "Load V = Inr cfg"
  shows "(app_Env (cfg_App cfg) = ''production'' \<longrightarrow> AutoMigrate \<notin> set calls) \<and>
    (Listen addr \<in> set calls \<longrightarrow> s = Running (wire cfg) \<and> 0 < wr_queryTimeout (wire cfg) \<and> 10 \<le> wr_bcryptCost (wire cfg) \<and>
       ((\<exists>p. wr_cacher (wire cfg) = RedisStore p) \<longleftrightarrow> (\<exists>p. wr_blacklist (wire cfg) = RedisStore p)) \<and>
       (case wr_limiter (wire cfg) of
          SharedLimiter p m d \<Rightarrow> 0 < d \<and> wr_cacher (wire cfg) = RedisStore ''wapgo''
        | LocalLimiter m d \<Rightarrow> 0 < d))"
proof -
  have "app_Env (cfg_App cfg) = ''production'' \<longrightarrow> AutoMigrate \<notin> set calls" "Listen addr \<in> set calls \<longrightarrow> s = Running (wire cfg)"
    using assms by (auto simp: start_def split: if_splits)
  moreover have "0 < wr_queryTimeout (wire cfg)" using positive_or_pos [of "5 * second"] by (simp add: wire_def Let_def)
  moreover have "10 \<le> wr_bcryptCost (wire cfg)" by (simp add: wire_def Let_def)
  moreover have "(\<exists>p. wr_cacher (wire cfg) = RedisStore p) \<longleftrightarrow> (\<exists>p. wr_blacklist (wire cfg) = RedisStore p)"
    by (simp add: wire_def Let_def)
  ultimately show ?thesis using wire_limiter [of cfg] by blast
qed

definition calm :: outside where
  "calm = \<lparr>os_observability = None, os_database = None, os_sqlDB = None, os_migrate = None\<rparr>"

lemma plain_load: "Load plain_viper = Inr default_config"
  using config_defaults [OF plain_viper_ok] by (simp add: plain_viper_def)

lemma plain_start: "start plain_viper calm = (Running (wire default_config), [SetupObservability, ConnectDatabase, GetSqlDB, Listen '':8080''])"
  by (simp add: start_def plain_load calm_def wire_def Let_def default_config_def)

theorem startup_safe_witness:
  "start plain_viper calm = (Running (wire default_config), [SetupObservability, ConnectDatabase, GetSqlDB, Listen '':8080'']) \<and>
   Expiry (wr_jwt (wire default_config)) = 15 * minute \<and> 10 \<le> wr_bcryptCost (wire default_config)"
  using startup_safe [OF plain_start plain_load, of "'':8080''"] plain_start parse_durations(1)
  by (simp add: wire_def Let_def default_config_def parsed_or_def)

text \<open>The other durations are taken as they are: a probe timeout that does not parse is 0, and the lifetimes of the tokens can be
  configured to be negative.\<close>

lemma other_durations_unchecked:
  assumes "hc_ProbeTimeout (cfg_Health cfg) = ''5''" and "jwt_Expiry (cfg_JWT cfg) = ''-2ms''" and "jwt_RefreshExpiry (cfg_JWT cfg) = ''-2ms''"
  shows "wr_probeTimeout (wire cfg) = 0" and "Expiry (wr_jwt (wire cfg)) < 0" and "wr_refreshExpiry (wire cfg) < 0"
  using assms parse_durations(6,7) by (simp_all add: wire_def Let_def parsed_or_def)

end
