(* ===== verification/Query_Timeout.thy ===== *)
theory Query_Timeout
  imports Prelude "HOL-Library.Multiset"
begin

text \<open>
  Deadlines on database statements: \<^verbatim>\<open>pkg/database/timeout.go\<close>, together with the tracing plugin that shares its statements
  (\<^verbatim>\<open>elasticGORMPlugin\<close> of \<^verbatim>\<open>pkg/observability/elastic_provider.go\<close>) and the two statements of \<^verbatim>\<open>FindAllPaged\<close>
  (\<^verbatim>\<open>internal/repository/db/user_repository.go\<close>). The plugins register callbacks with the database mapper, which runs the
  callbacks of a statement one after the other; which ones follows from the registrations and from what the mapper documents of \<^verbatim>\<open>Before\<close>
  and \<^verbatim>\<open>After\<close>, and the order of the two plugins is left open. A context is modelled by its
  deadline, the cancellations it depends on and the values the plugins store in it.
\<close>

section \<open>Contexts and statements\<close>

datatype ctx_error = Canceled | DeadlineExceeded

record qctx =
  cx_deadline :: "time option"
  cx_cancels :: "nat list"
  cx_cancelKey :: "nat option"
  cx_apm :: "string option"

definition Background :: qctx where
  "Background = \<lparr>cx_deadline = None, cx_cancels = [], cx_cancelKey = None, cx_apm = None\<rparr>"

record qstmt =
  qt_Context :: "qctx option"
  qt_span :: "string option"

text \<open>What a query saw when it ran: the deadline of its context and the context's error.\<close>

record qrun =
  qr_deadline :: "time option"
  qr_err :: "ctx_error option"

text \<open>The world of the callbacks: the statement (if any), the next fresh cancellation, the cancelled ones, the queries
  that ran, the ended spans with the errors captured for them, and whether a nil context was used.\<close>

record qstate =
  qs_Statement :: "qstmt option"
  qs_Error :: "go_err option"
  qs_next :: nat
  qs_cancelled :: "nat list"
  qs_runs :: "qrun list"
  qs_spans :: "(string \<times> go_err option) list"
  qs_panic :: bool

definition ctx_err :: "nat list \<Rightarrow> time \<Rightarrow> qctx \<Rightarrow> ctx_error option" where
  "ctx_err cancelled now c =
     (if list_ex (\<lambda>i. i \<in> set cancelled) (cx_cancels c) then Some Canceled
      else case cx_deadline c of
        None \<Rightarrow> None
      | Some d \<Rightarrow> if now < d then None else Some DeadlineExceeded)"

section \<open>The timeout plugin\<close>

definition NewQueryTimeoutPlugin :: "duration \<Rightarrow> duration" where
  "NewQueryTimeoutPlugin timeout = (if timeout \<le> 0 then 5 * second else timeout)"

text \<open>\<open>qt_before\<close> and \<open>qt_after\<close> are \<^verbatim>\<open>before\<close> and \<^verbatim>\<open>after\<close>.\<close>

definition qt_before :: "duration \<Rightarrow> time \<Rightarrow> qstate \<Rightarrow> qstate" where
  "qt_before timeout now db = (case qs_Statement db of
     None \<Rightarrow> db
   | Some s \<Rightarrow>
       let base = (case qt_Context s of None \<Rightarrow> Background | Some c \<Rightarrow> c) in
       if cx_deadline base \<noteq> None then db
       else let cancel = qs_next db;
                ctx = base\<lparr>cx_deadline := Some (now + timeout), cx_cancels := cancel # cx_cancels base, cx_cancelKey := Some cancel\<rparr> in
            db\<lparr>qs_next := Suc cancel, qs_Statement := Some (s\<lparr>qt_Context := Some ctx\<rparr>)\<rparr>)"

definition qt_after :: "qstate \<Rightarrow> qstate" where
  "qt_after db = (case qs_Statement db of
     None \<Rightarrow> db
   | Some s \<Rightarrow> (case qt_Context s of
       None \<Rightarrow> db\<lparr>qs_panic := True\<rparr>
     | Some c \<Rightarrow> (case cx_cancelKey c of
         None \<Rightarrow> db
       | Some cancel \<Rightarrow> db\<lparr>qs_cancelled := cancel # qs_cancelled db\<rparr>)))"

section \<open>The tracing plugin\<close>

definition gorm_ErrRecordNotFound :: go_err where
  "gorm_ErrRecordNotFound = Sentinel ''gorm.ErrRecordNotFound''"

definition apm_before :: "string \<Rightarrow> qstate \<Rightarrow> qstate" where
  "apm_before op db = (case qs_Statement db of
     None \<Rightarrow> db
   | Some s \<Rightarrow> (case qt_Context s of
       None \<Rightarrow> db
     | Some c \<Rightarrow> let span = ''db.'' @ op in
         db\<lparr>qs_Statement := Some (s\<lparr>qt_Context := Some (c\<lparr>cx_apm := Some span\<rparr>), qt_span := Some span\<rparr>)\<rparr>))"

definition apm_after :: "qstate \<Rightarrow> qstate" where
  "apm_after db = (case qs_Statement db of
     None \<Rightarrow> db
   | Some s \<Rightarrow> (case qt_span s of
       None \<Rightarrow> db
     | Some span \<Rightarrow>
         let captured = (case qs_Error db of None \<Rightarrow> None | Some e \<Rightarrow> if Is e gorm_ErrRecordNotFound then None else Some e) in
         db\<lparr>qs_Statement := Some (s\<lparr>qt_span := None\<rparr>), qs_spans := qs_spans db @ [(span, captured)]\<rparr>))"

section \<open>Registration and execution\<close>

text \<open>A registration: the processor, the callback it stands before (\<open>True\<close>) or after, and its name.\<close>

type_synonym registration = "string \<times> bool \<times> string \<times> string"

definition qt_Initialize :: "registration list" where
  "qt_Initialize =
     [(''query'', True, ''gorm:query'', ''qt:before:query''), (''query'', False, ''gorm:query'', ''qt:after:query''),
      (''create'', True, ''gorm:create'', ''qt:before:create''), (''create'', False, ''gorm:create'', ''qt:after:create''),
      (''update'', True, ''gorm:update'', ''qt:before:update''), (''update'', False, ''gorm:update'', ''qt:after:update''),
      (''delete'', True, ''gorm:delete'', ''qt:before:delete''), (''delete'', False, ''gorm:delete'', ''qt:after:delete''),
      (''row'', True, ''gorm:row'', ''qt:before:row''), (''row'', False, ''gorm:row'', ''qt:after:row''),
      (''raw'', True, ''gorm:raw'', ''qt:before:raw''), (''raw'', False, ''gorm:raw'', ''qt:after:raw'')]"

definition apm_Initialize :: "registration list" where
  "apm_Initialize = concat (map (\<lambda>op. [(op, True, ''gorm:'' @ op, ''apm:before_'' @ op), (op, False, ''gorm:after_'' @ op, ''apm:after_'' @ op)])
     [''query'', ''create'', ''update'', ''delete'', ''row'', ''raw''])"

datatype callback = QtBefore | QtAfter | ApmBefore string | ApmAfter | RunQuery "go_err option"

text \<open>The callbacks a plugin registers, by the names it registers them under, and the mapper's own.\<close>

fun callback_name :: "string \<Rightarrow> callback \<Rightarrow> string" where
  "callback_name op QtBefore = ''qt:before:'' @ op"
| "callback_name op QtAfter = ''qt:after:'' @ op"
| "callback_name op (ApmBefore x) = ''apm:before_'' @ x"
| "callback_name op ApmAfter = ''apm:after_'' @ op"
| "callback_name op (RunQuery a) = ''gorm:'' @ op"

text \<open>What the mapper documents of registration: a processor runs the callbacks registered for it, each once, and a callback
  registered before or after another runs before or after that one. \<open>pre\<close> and \<open>post\<close> are the callbacks around the mapper's own
  callback of the processor \<open>op\<close>, which is the only one the registrations here can refer to; the rest of the order is open.\<close>

definition registered :: "registration list \<Rightarrow> string \<Rightarrow> callback list \<Rightarrow> callback list \<Rightarrow> bool" where
  "registered regs op pre post \<longleftrightarrow>
     mset (map (callback_name op) (pre @ post)) = mset (map (\<lambda>(p, b, target, n). n) (filter (\<lambda>(p, b, target, n). p = op) regs)) \<and>
     list_all (\<lambda>(p, b, target, n). p = op \<and> target = ''gorm:'' @ op \<longrightarrow> n \<in> set (map (callback_name op) (if b then pre else post))) regs"

text \<open>The mapper's own callback runs the query under the statement's context: \<^verbatim>\<open>database/sql\<close> returns the context's error when
  it has ended, and otherwise the database answers with an error or none.\<close>

definition run_query :: "time \<Rightarrow> go_err option \<Rightarrow> qstate \<Rightarrow> qstate" where
  "run_query now answer db = (case qs_Statement db of
     None \<Rightarrow> db
   | Some s \<Rightarrow> (case qt_Context s of
       None \<Rightarrow> db\<lparr>qs_panic := True\<rparr>
     | Some c \<Rightarrow>
         let e = ctx_err (qs_cancelled db) now c in
         db\<lparr>qs_runs := qs_runs db @ [\<lparr>qr_deadline = cx_deadline c, qr_err = e\<rparr>],
            qs_Error := (case e of
               Some Canceled \<Rightarrow> Some (Sentinel ''context.Canceled'')
             | Some DeadlineExceeded \<Rightarrow> Some (Sentinel ''context.DeadlineExceeded'')
             | None \<Rightarrow> answer)\<rparr>))"

fun callback_step :: "duration \<Rightarrow> time \<Rightarrow> callback \<Rightarrow> qstate \<Rightarrow> qstate" where
  "callback_step timeout now QtBefore db = qt_before timeout now db"
| "callback_step timeout now QtAfter db = qt_after db"
| "callback_step timeout now (ApmBefore op) db = apm_before op db"
| "callback_step timeout now ApmAfter db = apm_after db"
| "callback_step timeout now (RunQuery a) db = run_query now a db"

definition execute :: "duration \<Rightarrow> callback list \<Rightarrow> time \<Rightarrow> qstate \<Rightarrow> qstate" where
  "execute timeout cbs now db = fold (callback_step timeout now) cbs db"

text \<open>A statement as \<^verbatim>\<open>db.WithContext(ctx)\<close> starts one.\<close>

definition WithContext :: "qctx \<Rightarrow> nat \<Rightarrow> nat list \<Rightarrow> qstate" where
  "WithContext c next cancelled = \<lparr>qs_Statement = Some \<lparr>qt_Context = Some c, qt_span = None\<rparr>, qs_Error = None,
     qs_next = next, qs_cancelled = cancelled, qs_runs = [], qs_spans = [], qs_panic = False\<rparr>"

text \<open>\<^verbatim>\<open>FindAllPaged\<close>: the count and the page are two executions on the statement \<open>base\<close>; the page is not asked for when the
  count failed.\<close>

definition FindAllPaged_run ::
  "duration \<Rightarrow> callback list \<Rightarrow> callback list \<Rightarrow> time \<Rightarrow> time \<Rightarrow> qstate \<Rightarrow> go_err option \<times> qstate" where
  "FindAllPaged_run timeout countCbs findCbs t1 t2 base =
     (let s1 = execute timeout countCbs t1 base in
      case qs_Error s1 of
        Some e \<Rightarrow> (Some (Wrap ''count users'' e), s1)
      | None \<Rightarrow>
          let s2 = execute timeout findCbs t2 s1 in
          (map_option (Wrap ''find all users paged'') (qs_Error s2), s2))"

section \<open>Lemmas\<close>

text \<open>What the timeout plugin and the queries see does not depend on the tracing plugin.\<close>

definition untraced_ctx :: "qctx \<Rightarrow> qctx" where
  "untraced_ctx c = c\<lparr>cx_apm := None\<rparr>"

definition untraced_stmt :: "qstmt \<Rightarrow> qstmt" where
  "untraced_stmt s = \<lparr>qt_Context = map_option untraced_ctx (qt_Context s), qt_span = None\<rparr>"

definition untraced :: "qstate \<Rightarrow> qstate" where
  "untraced db = db\<lparr>qs_Statement := map_option untraced_stmt (qs_Statement db), qs_spans := []\<rparr>"

lemmas untraced_defs = untraced_def untraced_stmt_def untraced_ctx_def

fun is_core :: "callback \<Rightarrow> bool" where
  "is_core (ApmBefore op) = False"
| "is_core ApmAfter = False"
| "is_core _ = True"

lemma apm_untraced: "\<not> is_core c \<Longrightarrow> untraced (callback_step timeout now c db) = untraced db"
  by (cases c) (simp_all add: apm_before_def apm_after_def untraced_defs Let_def split: option.split)

lemma ctx_err_untraced: "ctx_err cs now (untraced_ctx c) = ctx_err cs now c"
  by (simp add: ctx_err_def untraced_ctx_def)

lemma core_untraced: "is_core c \<Longrightarrow> untraced (callback_step timeout now c db) = callback_step timeout now c (untraced db)"
  by (cases c) (auto simp: qt_before_def qt_after_def run_query_def untraced_defs Let_def Background_def ctx_err_def split: option.splits)

lemma execute_untraced: "untraced (execute timeout cbs now db) = execute timeout (filter is_core cbs) now (untraced db)"
  unfolding execute_def
proof (induction cbs arbitrary: db)
  case (Cons c cbs)
  then show ?case using apm_untraced core_untraced by (cases "is_core c") simp_all
qed simp

lemma untraced_sel [simp]:
  "qs_cancelled (untraced db) = qs_cancelled db" "qs_next (untraced db) = qs_next db" "qs_runs (untraced db) = qs_runs db"
  "qs_panic (untraced db) = qs_panic db" "qs_Error (untraced db) = qs_Error db"
  by (simp_all add: untraced_def)

lemma untraced_WithContext: "untraced (WithContext c next cs) = WithContext (untraced_ctx c) next cs"
  by (simp add: WithContext_def untraced_defs)

text \<open>One execution of the timeout plugin around a query, on a context without a deadline and on one with a deadline.\<close>

definition timed_ctx :: "duration \<Rightarrow> time \<Rightarrow> nat \<Rightarrow> qctx \<Rightarrow> qctx" where
  "timed_ctx timeout now n c = c\<lparr>cx_deadline := Some (now + timeout), cx_cancels := n # cx_cancels c, cx_cancelKey := Some n\<rparr>"

lemma timed_execute:
  assumes "cx_deadline c = None"
  shows "execute timeout [QtBefore, RunQuery a, QtAfter] now (WithContext c next cs) =
    (let r = run_query now a (WithContext (timed_ctx timeout now next c) (Suc next) cs) in r\<lparr>qs_cancelled := next # cs\<rparr>)"
  using assms by (simp add: execute_def WithContext_def qt_before_def timed_ctx_def run_query_def qt_after_def Let_def)

definition fresh_ctx :: "qctx \<Rightarrow> nat \<Rightarrow> nat list \<Rightarrow> bool" where
  "fresh_ctx c next cs \<longleftrightarrow> cx_cancelKey c = None \<and> (\<forall>i \<in> set (cx_cancels c @ cs). i < next)"

text \<open>The registrations of the two plugins put the callbacks of the timeout plugin around every query.\<close>

lemma core_names:
  "callback_name op c = ''qt:before:'' @ op \<longleftrightarrow> c = QtBefore" "callback_name op c = ''qt:after:'' @ op \<longleftrightarrow> c = QtAfter"
  by (cases c; simp)+

lemma filter_core_one:
  assumes "length (filter (\<lambda>c. c = QtBefore) xs) = (if x = QtBefore then 1 else 0)"
    "length (filter (\<lambda>c. c = QtAfter) xs) = (if x = QtAfter then 1 else 0)"
    "x = QtBefore \<or> x = QtAfter" "\<forall>a. RunQuery a \<notin> set xs"
  shows "filter is_core xs = [x]"
proof -
  have e: "filter is_core xs = filter (\<lambda>c. c = x) xs"
  proof (rule filter_cong [OF refl])
    fix c assume c: "c \<in> set xs"
    show "is_core c = (c = x)" using assms c by (cases c; cases x) (auto simp: filter_empty_conv)
  qed
  have "length (filter (\<lambda>c. c = x) xs) = 1" using assms by auto
  then obtain y where "filter (\<lambda>c. c = x) xs = [y]" by (auto simp: length_Suc_conv)
  moreover then have "y = x" using filter_set [of "\<lambda>c. c = x" xs] by auto
  ultimately show ?thesis using e by simp
qed

lemma filter_names: "length (filter (\<lambda>c. c = QtBefore) xs) = count (mset (map (callback_name op) xs)) (''qt:before:'' @ op)"
  "length (filter (\<lambda>c. c = QtAfter) xs) = count (mset (map (callback_name op) xs)) (''qt:after:'' @ op)"
  by (induction xs) (auto simp: core_names [simplified])

abbreviation gorm_ops :: "string list" where
  "gorm_ops \<equiv> [''query'', ''create'', ''update'', ''delete'', ''row'', ''raw'']"

lemma gorm_ops_cases:
  assumes "op \<in> set gorm_ops"
  obtains "op = ''query''" | "op = ''create''" | "op = ''update''" | "op = ''delete''" | "op = ''row''" | "op = ''raw''"
  using assms by auto

definition registered_names :: "registration list \<Rightarrow> string \<Rightarrow> string list" where
  "registered_names regs op = map (\<lambda>(p, b, target, n). n) (filter (\<lambda>(p, b, target, n). p = op) regs)"

lemma plugin_names:
  assumes "op \<in> set gorm_ops" "apm = [] \<or> apm = apm_Initialize"
  shows "\<exists>ns. registered_names (qt_Initialize @ apm) op = [''qt:before:'' @ op, ''qt:after:'' @ op] @ ns \<and>
    set ns \<subseteq> {''apm:before_'' @ op, ''apm:after_'' @ op}"
proof -
  have "registered_names qt_Initialize op = [''qt:before:'' @ op, ''qt:after:'' @ op]"
    by (rule gorm_ops_cases [OF assms(1)]) (simp_all add: registered_names_def qt_Initialize_def)
  moreover have "registered_names apm_Initialize op = [''apm:before_'' @ op, ''apm:after_'' @ op]"
    by (rule gorm_ops_cases [OF assms(1)]) (simp_all add: registered_names_def apm_Initialize_def)
  moreover have "registered_names (xs @ ys) op = registered_names xs op @ registered_names ys op" for xs ys
    by (simp add: registered_names_def)
  moreover have "registered_names [] op = []" by (simp add: registered_names_def)
  ultimately show ?thesis using assms(2) by (elim disjE) simp_all
qed

lemma qt_registrations:
  "op \<in> set gorm_ops \<Longrightarrow> (op, True, ''gorm:'' @ op, ''qt:before:'' @ op) \<in> set qt_Initialize"
  "op \<in> set gorm_ops \<Longrightarrow> (op, False, ''gorm:'' @ op, ''qt:after:'' @ op) \<in> set qt_Initialize"
  by (erule gorm_ops_cases; simp add: qt_Initialize_def)+

text \<open>A name that occurs once, on one of the two sides.\<close>

lemma sole_name:
  assumes "mset (map f (xs @ ys)) = mset zs" "count (mset zs) x = 1"
  shows "x \<in> f ` set xs \<Longrightarrow> count (mset (map f xs)) x = 1 \<and> count (mset (map f ys)) x = 0"
    and "x \<in> f ` set ys \<Longrightarrow> count (mset (map f ys)) x = 1 \<and> count (mset (map f xs)) x = 0"
proof -
  have t: "count (mset (map f xs)) x + count (mset (map f ys)) x = 1"
    using assms by (metis count_union map_append mset_append)
  have pos: "x \<in> f ` set zs \<Longrightarrow> 0 < count (mset (map f zs)) x" for x zs
    by (simp only: count_greater_zero_iff set_mset_mset set_map)
  show "x \<in> f ` set xs \<Longrightarrow> count (mset (map f xs)) x = 1 \<and> count (mset (map f ys)) x = 0"
    using t pos [of x xs] by linarith
  show "x \<in> f ` set ys \<Longrightarrow> count (mset (map f ys)) x = 1 \<and> count (mset (map f xs)) x = 0"
    using t pos [of x ys] by linarith
qed

lemma registered_core:
  assumes "op \<in> set gorm_ops" "apm = [] \<or> apm = apm_Initialize" "registered (qt_Initialize @ apm) op pre post"
  shows "filter is_core pre = [QtBefore] \<and> filter is_core post = [QtAfter]"
proof -
  define b where "b = ''qt:before:'' @ op"
  define a where "a = ''qt:after:'' @ op"
  define g where "g = ''gorm:'' @ op"
  define n where "n = callback_name op"
  obtain ns where "registered_names (qt_Initialize @ apm) op = [b, a] @ ns" and "set ns \<subseteq> {''apm:before_'' @ op, ''apm:after_'' @ op}"
    using plugin_names [OF assms(1,2)] unfolding a_def b_def by blast
  then have ns: "registered_names (qt_Initialize @ apm) op = [b, a] @ ns" "b \<notin> set ns" "a \<notin> set ns" "g \<notin> set ([b, a] @ ns)" "a \<noteq> b"
    by (auto simp: a_def b_def g_def)
  have M: "mset (map n (pre @ post)) = mset ([b, a] @ ns)"
    using assms(3) unfolding registered_def registered_names_def [symmetric] ns(1) n_def by (rule conjunct1)
  have L: "list_all (\<lambda>(p, b, target, m). p = op \<and> target = g \<longrightarrow> m \<in> set (map n (if b then pre else post))) (qt_Initialize @ apm)"
    using assms(3) unfolding registered_def n_def g_def by (rule conjunct2)
  have "(op, True, g, b) \<in> set (qt_Initialize @ apm)" "(op, False, g, a) \<in> set (qt_Initialize @ apm)"
    using qt_registrations [OF assms(1)] by (simp_all only: a_def b_def g_def set_append UnI1)
  then have ins: "b \<in> n ` set pre" "a \<in> n ` set post" using L unfolding list_all_iff set_map by fastforce+
  have cnt: "count (mset ([b, a] @ ns)) b = 1" "count (mset ([b, a] @ ns)) a = 1" using ns(2,3,5) by (simp_all add: count_eq_zero_iff)
  have "set (map n (pre @ post)) = set ([b, a] @ ns)" using M by (metis set_mset_mset)
  then have "g \<notin> n ` set (pre @ post)" using ns(4) by (simp only: set_map simp_thms)
  moreover have "n (RunQuery x) = g" for x by (simp add: n_def g_def)
  ultimately have run: "\<forall>x. RunQuery x \<notin> set pre" "\<forall>x. RunQuery x \<notin> set post" by (metis UnCI image_eqI set_append)+
  have F: "length (filter (\<lambda>c. c = QtBefore) xs) = count (mset (map n xs)) b" "length (filter (\<lambda>c. c = QtAfter) xs) = count (mset (map n xs)) a" for xs
    unfolding n_def a_def b_def by (rule filter_names)+
  note S = sole_name(1) [OF M cnt(1) ins(1)] sole_name(2) [OF M cnt(2) ins(2)]
  have "filter is_core pre = [QtBefore]" by (rule filter_core_one) (use S run F in simp_all)
  moreover have "filter is_core post = [QtAfter]" by (rule filter_core_one) (use S run F in simp_all)
  ultimately show ?thesis by blast
qed

text \<open>One execution of the timeout plugin around a query, on any statement.\<close>

definition base_ctx :: "qstmt \<Rightarrow> qctx" where
  "base_ctx s = (case qt_Context s of None \<Rightarrow> Background | Some c \<Rightarrow> c)"

lemma core_execute:
  assumes "qs_Statement db = Some s" "\<forall>i \<in> set (qs_cancelled db). i < qs_next db" "0 < timeout"
    and "st = execute timeout [QtBefore, RunQuery a, QtAfter] now db"
  shows "qs_panic st = qs_panic db"
    and "qs_runs st = qs_runs db @ [\<lparr>qr_deadline = Some (case cx_deadline (base_ctx s) of None \<Rightarrow> now + timeout | Some d \<Rightarrow> d),
      qr_err = ctx_err (qs_cancelled db) now (base_ctx s)\<rparr>]"
    and "qs_cancelled st = (case cx_deadline (base_ctx s) of None \<Rightarrow> [qs_next db]
      | Some d \<Rightarrow> (case cx_cancelKey (base_ctx s) of None \<Rightarrow> [] | Some k \<Rightarrow> [k])) @ qs_cancelled db"
proof -
  have fresh: "qs_next db \<notin> set (qs_cancelled db)" using assms(2) by blast
  show "qs_panic st = qs_panic db"
    and "qs_runs st = qs_runs db @ [\<lparr>qr_deadline = Some (case cx_deadline (base_ctx s) of None \<Rightarrow> now + timeout | Some d \<Rightarrow> d),
      qr_err = ctx_err (qs_cancelled db) now (base_ctx s)\<rparr>]"
    and "qs_cancelled st = (case cx_deadline (base_ctx s) of None \<Rightarrow> [qs_next db]
      | Some d \<Rightarrow> (case cx_cancelKey (base_ctx s) of None \<Rightarrow> [] | Some k \<Rightarrow> [k])) @ qs_cancelled db"
    using assms(1,3,4) fresh
    by (auto simp: execute_def qt_before_def qt_after_def run_query_def base_ctx_def Background_def ctx_err_def Let_def
        split: option.splits)
qed

section \<open>Properties\<close>

text \<open>C14. Every database statement has a deadline. Whatever kind of statement runs, with the tracing plugin or without it and in
  whatever order the mapper puts the callbacks the plugins register, the query runs under the deadline of the statement's context or, if
  that has none, under the configured timeout (5 seconds when that is not positive). It starts with no error but that of the
  statement's own context; if that was cancelled, as it is when a statement is used again, the query is refused. The timer of the
  plugin is always released afterwards.\<close>

theorem query_deadline:
  assumes "op \<in> set gorm_ops" and "apm = [] \<or> apm = apm_Initialize" and "registered (qt_Initialize @ apm) op pre post"
    and "qs_Statement db = Some s" and "\<forall>i \<in> set (qs_cancelled db). i < qs_next db"
    and "c = (case qt_Context s of None \<Rightarrow> Background | Some c \<Rightarrow> c)"
    and "st = execute (NewQueryTimeoutPlugin timeout) (pre @ RunQuery a # post) now db"
  shows "qs_panic st = qs_panic db \<and>
    qs_runs st = qs_runs db @ [\<lparr>qr_deadline = Some (case cx_deadline c of
        None \<Rightarrow> now + (if timeout \<le> 0 then 5 * second else timeout) | Some d \<Rightarrow> d), qr_err = ctx_err (qs_cancelled db) now c\<rparr>] \<and>
    (cx_deadline c = None \<longrightarrow> qs_cancelled st = qs_next db # qs_cancelled db)"
proof -
  let ?t = "NewQueryTimeoutPlugin timeout"
  have pos: "0 < ?t" by (simp add: NewQueryTimeoutPlugin_def)
  have core: "filter is_core (pre @ RunQuery a # post) = [QtBefore, RunQuery a, QtAfter]"
    using registered_core [OF assms(1-3)] by simp
  have U: "untraced st = execute ?t [QtBefore, RunQuery a, QtAfter] now (untraced db)"
    unfolding assms(7) execute_untraced core ..
  have S: "qs_Statement (untraced db) = Some (untraced_stmt s)" using assms(4) by (simp add: untraced_def)
  have B: "base_ctx (untraced_stmt s) = untraced_ctx c"
    using assms(6) by (simp add: base_ctx_def untraced_stmt_def untraced_ctx_def Background_def split: option.split)
  have I: "\<forall>i \<in> set (qs_cancelled (untraced db)). i < qs_next (untraced db)" using assms(5) by simp
  have D: "cx_deadline (untraced_ctx c) = cx_deadline c" by (simp add: untraced_ctx_def)
  note E = core_execute [OF S I pos U, unfolded B D ctx_err_untraced untraced_sel]
  show ?thesis using E by (simp add: NewQueryTimeoutPlugin_def split: option.splits)
qed

text \<open>C12. The paged listing of users does not survive the timeout plugin. Count and page are executions on one statement:
  the count's callbacks leave their cancelled context in it, and the page's query runs on that context. When the
  request's context has no deadline and the count succeeds, the page therefore always fails as cancelled, whatever the
  database would answer, with or without the tracing plugin.\<close>

theorem paged_listing_cancelled:
  assumes "filter is_core countCbs = [QtBefore, RunQuery None, QtAfter]" and "filter is_core findCbs = [QtBefore, RunQuery answer, QtAfter]"
    and "cx_deadline c = None" and "fresh_ctx c next cs" and "ctx_err cs t1 c = None" and "0 < timeout"
  shows "fst (FindAllPaged_run timeout countCbs findCbs t1 t2 (WithContext c next cs)) =
    Some (Wrap ''find all users paged'' (Sentinel ''context.Canceled''))"
proof -
  let ?s1 = "execute timeout countCbs t1 (WithContext c next cs)"
  let ?s2 = "execute timeout findCbs t2 ?s1"
  have d: "cx_deadline (untraced_ctx c) = None" using assms(3) by (simp add: untraced_ctx_def)
  have nx: "next \<notin> set cs" "list_ex (\<lambda>i. i \<in> set cs) (cx_cancels c) = False"
    using assms(4,5) by (auto simp: fresh_ctx_def ctx_err_def split: if_splits)
  have U1: "untraced ?s1 = (let r = run_query t1 None (WithContext (timed_ctx timeout t1 next (untraced_ctx c)) (Suc next) cs) in
    r\<lparr>qs_cancelled := next # cs\<rparr>)"
    unfolding execute_untraced assms(1) untraced_WithContext by (rule timed_execute [OF d])
  have "qs_Error (untraced ?s1) = None"
    unfolding U1 using nx assms(6) by (simp add: run_query_def WithContext_def Let_def timed_ctx_def untraced_ctx_def ctx_err_def)
  moreover have "qs_Error (untraced ?s2) = Some (Sentinel ''context.Canceled'')"
    unfolding execute_untraced [of timeout findCbs] assms(2) U1
    by (simp add: execute_def run_query_def WithContext_def Let_def timed_ctx_def qt_before_def qt_after_def ctx_err_def)
  ultimately show ?thesis by (simp add: FindAllPaged_run_def Let_def)
qed

text \<open>Callbacks as both plugins register them, for a count and for a find.\<close>

definition query_callbacks :: "go_err option \<Rightarrow> callback list" where
  "query_callbacks answer = [ApmBefore ''query'', QtBefore, RunQuery answer, ApmAfter, QtAfter]"

theorem query_deadline_witness:
  "qs_runs (execute (NewQueryTimeoutPlugin 0) ([ApmBefore ''raw'', QtBefore] @ RunQuery None # [ApmAfter, QtAfter]) second
     (WithContext Background 0 [])) = [\<lparr>qr_deadline = Some (6 * second), qr_err = None\<rparr>]"
  using query_deadline [of "''raw''" apm_Initialize "[ApmBefore ''raw'', QtBefore]" "[ApmAfter, QtAfter]" "WithContext Background 0 []"
      "\<lparr>qt_Context = Some Background, qt_span = None\<rparr>" Background _ 0 None second, OF _ _ _ _ _ _ refl]
  by (simp add: registered_def qt_Initialize_def apm_Initialize_def WithContext_def Background_def ctx_err_def)

theorem paged_listing_cancelled_witness:
  "fst (FindAllPaged_run (5 * second) (query_callbacks None) (query_callbacks None) second second (WithContext Background 0 [])) =
     Some (Wrap ''find all users paged'' (Sentinel ''context.Canceled''))"
  using paged_listing_cancelled [of "query_callbacks None" "query_callbacks None" None Background 0 "[]" second "5 * second" second]
  by (simp add: query_callbacks_def fresh_ctx_def Background_def ctx_err_def)

text \<open>With a deadline of the caller the same listing is not affected: the plugin leaves a longer deadline alone, too.\<close>

lemma paged_listing_with_deadline:
  "fst (FindAllPaged_run (5 * second) (query_callbacks None) (query_callbacks None) second second
     (WithContext (Background\<lparr>cx_deadline := Some (hour)\<rparr>) 0 [])) = None"
  by (simp add: FindAllPaged_run_def execute_def query_callbacks_def WithContext_def Background_def qt_before_def qt_after_def
      apm_before_def apm_after_def run_query_def ctx_err_def Let_def)

text \<open>Both plugins cover every kind of statement, on either side.\<close>

lemma plugins_cover:
  "op \<in> {''query'', ''create'', ''update'', ''delete'', ''row'', ''raw''} \<Longrightarrow> L \<in> {qt_Initialize, apm_Initialize} \<Longrightarrow>
     length (filter (\<lambda>(p, b, at, n). p = op \<and> b) L) = 1 \<and> length (filter (\<lambda>(p, b, at, n). p = op \<and> \<not> b) L) = 1"
  by (elim insertE emptyE; simp add: qt_Initialize_def apm_Initialize_def)

end
