(* ===== verification/Observability.thy ===== *)
theory Observability
  imports App Query_Timeout
begin

text \<open>
  Tracing and metrics: \<^verbatim>\<open>pkg/observability\<close>. The tracing libraries are parameters: a record of the errors their set-up may
  give, and a global state that says which tracer and propagator is installed. Spans are the list of what was recorded. A
  handler's outcome is an answer with a status, an error that it returns with the status set so far, or a panic; what becomes
  of it is decided by the recovery middleware and the service's error handler. The database plugin is in \<^verbatim>\<open>Query_Timeout\<close>.
\<close>

section \<open>Choosing a provider\<close>

record otelConfig =
  ot_ServiceName :: string
  ot_ServiceVersion :: string
  ot_Environment :: string
  ot_OTLPEndpoint :: string
  ot_Enabled :: bool

datatype exporter = OTLP string | StdoutExporter

datatype tracer = DefaultTracer | NoopTracer | SdkTracer exporter "(string \<times> string) list" | ApmBridge

record otel_global =
  og_tracer :: tracer
  og_w3c :: bool

datatype Provider = NoopProvider | OtelProvider string bool | ElasticProvider

record tracing_env =
  te_resource :: "string option"
  te_otlp :: "string \<Rightarrow> string option"
  te_stdout :: "string option"
  te_apmotel :: "string option"

definition newOTelProvider :: "tracing_env \<Rightarrow> otelConfig \<Rightarrow> otel_global \<Rightarrow> (string + Provider) \<times> otel_global" where
  "newOTelProvider w cfg g =
     (if \<not> ot_Enabled cfg then (Inr (OtelProvider (ot_ServiceName cfg) False), g\<lparr>og_tracer := NoopTracer\<rparr>)
      else case te_resource w of
        Some err \<Rightarrow> (Inl (wrap ''otel resource'' err), g)
      | None \<Rightarrow>
          let exporter = (if ot_OTLPEndpoint cfg \<noteq> [] then OTLP (ot_OTLPEndpoint cfg) else StdoutExporter);
              err = (if ot_OTLPEndpoint cfg \<noteq> [] then te_otlp w (ot_OTLPEndpoint cfg) else te_stdout w) in
          (case err of
             Some e \<Rightarrow> (Inl (wrap ''otel exporter'' e), g)
           | None \<Rightarrow> (Inr (OtelProvider (ot_ServiceName cfg) True),
               \<lparr>og_tracer = SdkTracer exporter
                  [(''service.name'', ot_ServiceName cfg), (''service.version'', ot_ServiceVersion cfg),
                   (''telemetry.sdk.language'', ''go''), (''deployment.environment'', ot_Environment cfg)], og_w3c = True\<rparr>)))"

definition newElasticProvider :: "tracing_env \<Rightarrow> otel_global \<Rightarrow> (string + Provider) \<times> otel_global" where
  "newElasticProvider w g = (case te_apmotel w of
     Some err \<Rightarrow> (Inl (wrap ''apmotel tracer provider'' err), g)
   | None \<Rightarrow> (Inr ElasticProvider, \<lparr>og_tracer = ApmBridge, og_w3c = True\<rparr>))"

definition observability_New ::
  "tracing_env \<Rightarrow> ObservabilityConfig \<Rightarrow> string \<Rightarrow> string \<Rightarrow> string \<Rightarrow> otel_global \<Rightarrow> (string + Provider) \<times> otel_global" where
  "observability_New w cfg serviceName serviceVersion environment g =
     (if obs_Provider cfg = ''none'' then (Inr NoopProvider, g)
      else if obs_Provider cfg = ''elastic_apm'' then
        (case newElasticProvider w g of
           (Inl err, g') \<Rightarrow> (Inl (wrap ''elastic apm provider'' err), g')
         | (Inr p, g') \<Rightarrow> (Inr p, g'))
      else
        (case newOTelProvider w \<lparr>ot_ServiceName = serviceName, ot_ServiceVersion = serviceVersion, ot_Environment = environment,
                ot_OTLPEndpoint = obs_OTLPEndpoint cfg, ot_Enabled = obs_TracingEnabled cfg\<rparr> g of
           (Inl err, g') \<Rightarrow> (Inl (wrap ''otel provider'' err), g')
         | (Inr p, g') \<Rightarrow> (Inr p, g')))"

text \<open>The end of a provider: the SDK's own shutdown, or flushing against the caller's context, which may end first.\<close>

definition provider_Shutdown :: "string option \<Rightarrow> string option \<Rightarrow> Provider \<Rightarrow> string option" where
  "provider_Shutdown sdk ctxDone p = (case p of
     NoopProvider \<Rightarrow> None
   | OtelProvider n enabled \<Rightarrow> if enabled then sdk else None
   | ElasticProvider \<Rightarrow> ctxDone)"

section \<open>Contexts\<close>

record trace_ctx =
  tc_otel :: "string option"
  tc_apm :: "string option"

definition no_trace :: trace_ctx where
  "no_trace = \<lparr>tc_otel = None, tc_apm = None\<rparr>"

definition TraceID :: "trace_ctx \<Rightarrow> string" where
  "TraceID ctx = (case tc_otel ctx of
     Some t \<Rightarrow> t
   | None \<Rightarrow> (case tc_apm ctx of Some t \<Rightarrow> t | None \<Rightarrow> []))"

text \<open>A request's locals and its user context.\<close>

definition TraceContext :: "trace_ctx option \<Rightarrow> trace_ctx option \<Rightarrow> trace_ctx" where
  "TraceContext otel_ctx userContext = (case otel_ctx of
     Some ctx \<Rightarrow> ctx
   | None \<Rightarrow> (case userContext of Some ctx \<Rightarrow> ctx | None \<Rightarrow> no_trace))"

definition hc_Keys :: "(string \<times> string) list \<Rightarrow> string list" where
  "hc_Keys headers = map fst headers"

section \<open>Requests\<close>

datatype served = Answered int | Failed int fiber_error | Panicked

text \<open>The status of the response when the handlers are done, before any error handler.\<close>

fun pending_status :: "served \<Rightarrow> int option" where
  "pending_status (Answered s) = Some s"
| "pending_status (Failed s e) = Some s"
| "pending_status Panicked = None"

record metrics =
  me_total :: "(string \<times> string \<times> string) list"
  me_durations :: "(string \<times> string \<times> int) list"

text \<open>The counter vector is kept as the list of its increments; the value of a counter is their number.\<close>

definition counter :: "metrics \<Rightarrow> string \<Rightarrow> string \<Rightarrow> string \<Rightarrow> nat" where
  "counter M route method status = count_list (me_total M) (route, method, status)"

record http_call =
  hc_route :: string
  hc_method :: string
  hc_outcome :: served
  hc_elapsed :: duration

definition MetricsMiddleware :: "http_call \<Rightarrow> metrics \<Rightarrow> served \<times> metrics" where
  "MetricsMiddleware r M = (case pending_status (hc_outcome r) of
     None \<Rightarrow> (Panicked, M)
   | Some s \<Rightarrow> (hc_outcome r,
       \<lparr>me_total = (hc_route r, hc_method r, Itoa s) # me_total M,
        me_durations = (hc_route r, hc_method r, hc_elapsed r) # me_durations M\<rparr>))"

record http_span =
  hs_name :: string
  hs_attributes :: "(string \<times> string) list"
  hs_recorded :: bool

text \<open>The span of the OpenTelemetry middleware: it ends in any case, and carries the outcome unless the handler panicked.\<close>

definition otel_HTTPMiddleware :: "string \<Rightarrow> string \<Rightarrow> http_call \<Rightarrow> served \<times> http_span" where
  "otel_HTTPMiddleware path rid r =
     (let start = (if rid \<noteq> [] then [(''http.request_id'', rid)] else []) in
      (hc_outcome r,
       \<lparr>hs_name = hc_method r @ '' '' @ path,
        hs_attributes = start @ (case pending_status (hc_outcome r) of
           None \<Rightarrow> []
         | Some s \<Rightarrow> [(''http.request.method'', hc_method r), (''http.route'', hc_route r), (''http.response.status_code'', Itoa s)]),
        hs_recorded = (case hc_outcome r of Failed s e \<Rightarrow> True | _ \<Rightarrow> False)\<rparr>))"

text \<open>What the client receives: a panic becomes an error in the recovery middleware, and an error a response in the error
  handler.\<close>

definition client_status :: "(int \<Rightarrow> string) \<Rightarrow> served \<Rightarrow> int" where
  "client_status statusText q = (case q of
     Answered s \<Rightarrow> s
   | Failed s e \<Rightarrow> fst (ErrorHandler statusText e)
   | Panicked \<Rightarrow> fst (ErrorHandler statusText (OtherError ''panic'')))"

definition serve_all :: "http_call list \<Rightarrow> metrics \<Rightarrow> metrics" where
  "serve_all rs M = fold (\<lambda>r M. snd (MetricsMiddleware r M)) rs M"

section \<open>Redis hooks\<close>

record redis_span =
  rs_name :: string
  rs_statement :: string
  rs_captured :: "go_err option"

definition redis_Nil :: go_err where
  "redis_Nil = Sentinel ''redis.Nil''"

definition redis_ProcessHook :: "(string \<times> string) \<Rightarrow> go_err option \<Rightarrow> go_err option \<times> redis_span" where
  "redis_ProcessHook cmd answer = (case cmd of (name, text) \<Rightarrow>
     (answer, \<lparr>rs_name = ''redis.'' @ name, rs_statement = text,
        rs_captured = (case answer of None \<Rightarrow> None | Some e \<Rightarrow> if Is e redis_Nil then None else Some e)\<rparr>))"

definition redis_ProcessPipelineHook :: "go_err option \<Rightarrow> go_err option \<times> redis_span" where
  "redis_ProcessPipelineHook answer = (answer, \<lparr>rs_name = ''redis.pipeline'', rs_statement = [], rs_captured = None\<rparr>)"

section \<open>Lemmas\<close>

text \<open>A provider that cannot be set up leaves the globals alone; tracing switched off installs the tracer that does nothing.\<close>

lemma New_failed: "observability_New w cfg n v e g = (Inl err, g') \<Longrightarrow> g' = g"
  by (auto simp: observability_New_def newOTelProvider_def newElasticProvider_def Let_def split: if_splits option.splits sum.splits prod.splits)

lemma New_none: "obs_Provider cfg = ''none'' \<Longrightarrow> observability_New w cfg n v e g = (Inr NoopProvider, g)"
  by (simp add: observability_New_def)

lemma New_disabled:
  "obs_Provider cfg \<notin> {''none'', ''elastic_apm''} \<Longrightarrow> \<not> obs_TracingEnabled cfg \<Longrightarrow>
     observability_New w cfg n v e g = (Inr (OtelProvider n False), g\<lparr>og_tracer := NoopTracer\<rparr>)"
  by (simp add: observability_New_def newOTelProvider_def)

lemma serve_all_total:
  "me_total (serve_all rs M) =
     rev (List.map_filter (\<lambda>r. map_option (\<lambda>s. (hc_route r, hc_method r, Itoa s)) (pending_status (hc_outcome r))) rs) @ me_total M"
  by (induction rs arbitrary: M) (auto simp: serve_all_def MetricsMiddleware_def List.map_filter_def split: option.splits)

lemma Itoa_inj: "Itoa i = Itoa j \<Longrightarrow> i = j"
proof -
  assume e: "Itoa i = Itoa j"
  have d: "Itoa k \<noteq> CHR ''-'' # nat_str n" if "0 \<le> k" for k n
  proof -
    have "CHR ''-'' \<notin> set (nat_str (nat k))" using nat_str_digits [of "CHR ''-''" "nat k"] by (auto simp: is_digit_def ord_char_def)
    then show ?thesis using that by (auto simp: Itoa_def)
  qed
  consider "0 \<le> i" "0 \<le> j" | "i < 0" "j < 0" | "0 \<le> i" "j < 0" | "i < 0" "0 \<le> j" by linarith
  then show ?thesis
  proof cases
    case 1
    then show ?thesis using e nat_str_inj [of "nat i" "nat j"] by (simp add: Itoa_def)
  next
    case 2
    then show ?thesis using e nat_str_inj [of "nat (- i)" "nat (- j)"] by (simp add: Itoa_def)
  next
    case 3
    then show ?thesis using e d [of i "nat (- j)"] by (simp add: Itoa_def)
  next
    case 4
    then show ?thesis using e d [of j "nat (- i)"] by (simp add: Itoa_def)
  qed
qed

lemma count_map_filter: "count_list (List.map_filter f xs) y = length (filter (\<lambda>x. f x = Some y) xs)"
  by (induction xs) (auto simp: List.map_filter_def)

lemma count_rev: "count_list (rev xs) y = count_list xs y"
  by (induction xs) simp_all

lemma serve_counter:
  "counter (serve_all rs M) route method (Itoa s) = counter M route method (Itoa s) +
     length (filter (\<lambda>r. hc_route r = route \<and> hc_method r = method \<and> pending_status (hc_outcome r) = Some s) rs)"
proof -
  have K: "(\<lambda>r. map_option (\<lambda>k. (hc_route r, hc_method r, Itoa k)) (pending_status (hc_outcome r)) = Some (route, method, Itoa s)) =
    (\<lambda>r. hc_route r = route \<and> hc_method r = method \<and> pending_status (hc_outcome r) = Some s)"
    using Itoa_inj by (intro ext) auto
  show ?thesis unfolding counter_def serve_all_total count_list_append count_rev count_map_filter K by (rule add.commute)
qed

lemma serve_one: "serve_all [r] M = snd (MetricsMiddleware r M)"
  by (simp add: serve_all_def)

section \<open>Properties\<close>

text \<open>What the request counter counts. After any sequence of requests it has, for each route, method and status, one
  increment for every request whose handlers ended with that status set, and none for a panic. So requests that fail with
  an error are counted under the status that was set before the error handler, not under the one the client receives: an
  error with status 404 or 500 and nothing set counts as 200.\<close>

lemma metrics_count:
  "counter (serve_all rs M) route method (Itoa s) = counter M route method (Itoa s) +
     length (filter (\<lambda>r. hc_route r = route \<and> hc_method r = method \<and> pending_status (hc_outcome r) = Some s) rs) \<and>
   counter (serve_all [\<lparr>hc_route = route, hc_method = method, hc_outcome = Failed 200 (FiberError c), hc_elapsed = d\<rparr>] M) route method (Itoa 200) =
     Suc (counter M route method (Itoa 200)) \<and>
   client_status statusText (Failed 200 (FiberError c)) = c \<and>
   serve_all [\<lparr>hc_route = route, hc_method = method, hc_outcome = Panicked, hc_elapsed = d\<rparr>] M = M \<and>
   client_status statusText Panicked = 500"
  unfolding serve_counter serve_one by (simp add: client_status_def ErrorHandler_def MetricsMiddleware_def counter_def)

end
