(* ===== verification/Service.thy ===== *)
theory Service
  imports Handlers Journal Health Observability
begin

text \<open>
  The HTTP service as a whole: the stack of middlewares of \<^verbatim>\<open>cmd/api/main.go\<close>, the routes of
  \<^verbatim>\<open>internal/delivery/http/route/router.go\<close>, and the middlewares that only configure Fiber's own
  (\<^verbatim>\<open>security.go\<close>, \<^verbatim>\<open>cors.go\<close>, \<^verbatim>\<open>recover.go\<close>). A request is given by the endpoint its method and path lead to, which Fiber finds;
  it runs through the request id, the global rate limiter, the request log and the metrics to the handlers of
  the other theories. The log line
  holds the path as requested, the metrics the path of the route. A preflight request is answered with 204 by Fiber's CORS
  middleware, behind the request log and ahead of the metrics. Left out are the response headers of the configured
  middlewares and the tracing middleware of the observability provider, which passes requests on.
\<close>

section \<open>Configured middlewares\<close>

record helmet_Config =
  hm_XSSProtection :: string
  hm_ContentTypeNosniff :: string
  hm_XFrameOptions :: string
  hm_HSTSMaxAge :: int
  hm_HSTSExcludeSubdomains :: bool
  hm_HSTSPreloadEnabled :: bool
  hm_ContentSecurityPolicy :: string
  hm_ReferrerPolicy :: string
  hm_PermissionPolicy :: string

definition SecurityHeaders :: helmet_Config where
  "SecurityHeaders = \<lparr>hm_XSSProtection = ''1; mode=block'', hm_ContentTypeNosniff = ''nosniff'', hm_XFrameOptions = ''DENY'',
     hm_HSTSMaxAge = 31536000, hm_HSTSExcludeSubdomains = False, hm_HSTSPreloadEnabled = False,
     hm_ContentSecurityPolicy = ''default-src '' @ [CHR 0x27] @ ''self'' @ [CHR 0x27],
     hm_ReferrerPolicy = ''strict-origin-when-cross-origin'', hm_PermissionPolicy = ''geolocation=(), microphone=(), camera=()''\<rparr>"

record cors_Config =
  co_AllowOrigins :: string
  co_AllowMethods :: string
  co_AllowHeaders :: string
  co_ExposeHeaders :: string
  co_AllowCredentials :: bool
  co_MaxAge :: int

definition CORS :: "string \<Rightarrow> cors_Config" where
  "CORS allowedOrigins =
     \<lparr>co_AllowOrigins = (if allowedOrigins = [] then ''http://localhost:3000'' else allowedOrigins),
      co_AllowMethods = ''GET,POST,PUT,DELETE,OPTIONS'',
      co_AllowHeaders = ''Origin,Content-Type,Accept,Authorization,X-Request-ID'', co_ExposeHeaders = ''X-Request-ID'',
      co_AllowCredentials = False, co_MaxAge = 300\<rparr>"

text \<open>\<^verbatim>\<open>Recover\<close> without a stack trace: a panic ends as an error.\<close>

fun Recover :: "served \<Rightarrow> served" where
  "Recover Panicked = Failed 200 (OtherError ''panic'')"
| "Recover q = q"

section \<open>Routes\<close>

datatype 'q endpoint = Welcome | HealthEP | MetricsEP | DocsEP | AuthEP auth_request | UserEP "'q user_request" | NoRoute
  | is_Preflight: Preflight

text \<open>What the routes share, and the state they work on: one database, cache and blacklist, and the limiters of the two
  groups.\<close>

record ('d, 's, 'b, 'q) parts =
  pt_lib :: auth_libs
  pt_auth :: "('d, 's, 'b) authUseCase"
  pt_vals :: auth_vals
  pt_users :: "'d UserRepository"
  pt_deps :: "'q user_deps"
  pt_env :: string
  pt_health :: HealthHandler

record ('d, 's, 'b, 'l) service =
  sv_auth :: "('d, 's, 'b) auth_state"
  sv_authLimiter :: MemoryLimiter
  sv_userLimiter :: MemoryLimiter
  sv_limiter :: 'l
  sv_metrics :: metrics
  sv_log :: "request_line list"

fun fiber_code :: "fiber_err \<Rightarrow> int" where
  "fiber_code ErrUnauthorized = 401"
| "fiber_code ErrForbidden = 403"
| "fiber_code FiberNotFound = 404"

text \<open>A handler's response sets the status; an error leaves the status of the response at 200.\<close>

fun served_of :: "Handlers.outcome \<Rightarrow> served" where
  "served_of (Handled r) = Answered (fst r)"
| "served_of (outcome.FiberError e) = Failed 200 (fiber_error.FiberError (fiber_code e))"
| "served_of (Limited hs) = Answered 429"

definition guarded_page :: "string \<Rightarrow> served" where
  "guarded_page env = (case prodGuard env () of
     Inl e \<Rightarrow> Failed 200 (fiber_error.FiberError (fiber_code e))
   | Inr _ \<Rightarrow> Answered 200)"

definition Setup_routes ::
  "('d, 's, 'b, 'q) parts \<Rightarrow> ('d, 's, 'b, 'l) service \<Rightarrow> time \<Rightarrow> string \<Rightarrow> string \<Rightarrow> 'q endpoint \<Rightarrow> served \<times> ('d, 's, 'b, 'l) service" where
  "Setup_routes P s now ip raw ep = (case ep of
     Welcome \<Rightarrow> (Answered 200, s)
   | HealthEP \<Rightarrow> (Answered (hr_code (Check (pt_health P) now)), s)
   | MetricsEP \<Rightarrow> (guarded_page (pt_env P), s)
   | DocsEP \<Rightarrow> (guarded_page (pt_env P), s)
   | AuthEP r \<Rightarrow>
       (case RegisterAuthRoutes (pt_lib P) (pt_auth P) (pt_env P) (pt_vals P)
               \<lparr>aa_state = sv_auth s, aa_limiter = sv_authLimiter s\<rparr> now ip raw r of
          (q, a) \<Rightarrow> (served_of q, s\<lparr>sv_auth := aa_state a, sv_authLimiter := aa_limiter a\<rparr>))
   | UserEP r \<Rightarrow>
       (case RegisterUserRoutes (l_jwt (pt_lib P)) (a_jwtCfg (pt_auth P)) (a_bl (pt_auth P)) (pt_users P) (pt_deps P)
               \<lparr>ua_db = st_db (sv_auth s), ua_bl = st_bl (sv_auth s), ua_limiter = sv_userLimiter s\<rparr> now ip raw r of
          (q, u) \<Rightarrow> (served_of q,
            s\<lparr>sv_auth := (sv_auth s)\<lparr>st_db := ua_db u, st_bl := ua_bl u\<rparr>, sv_userLimiter := ua_limiter u\<rparr>))
   | NoRoute \<Rightarrow> (Failed 200 (fiber_error.FiberError 404), s)
   | Preflight \<Rightarrow> (Answered 204, s))"

section \<open>The stack\<close>

record 'q http_request =
  rq_now :: time
  rq_stop :: time
  rq_client :: string
  rq_route :: string
  rq_rawpath :: string
  rq_verb :: string
  rq_auth :: string
  rq_header_id :: string
  rq_fresh_id :: string
  rq_endpoint :: "'q endpoint"

datatype reply = TooMany string "(string \<times> string) list" | Reply string int

text \<open>The middlewares in their order: \<^verbatim>\<open>Recover\<close>, \<^verbatim>\<open>RequestID\<close>, the limiter, \<^verbatim>\<open>RequestLogger\<close>, \<^verbatim>\<open>CORS\<close>, \<^verbatim>\<open>MetricsMiddleware\<close>, then the
  routes, and around all of them the app's error handler.\<close>

definition serve ::
  "(int \<Rightarrow> string) \<Rightarrow> 'l Limiter \<Rightarrow> ('d, 's, 'b, 'q) parts \<Rightarrow> ('d, 's, 'b, 'l) service \<Rightarrow> 'q http_request \<Rightarrow>
   reply \<times> ('d, 's, 'b, 'l) service" where
  "serve statusText L P s r =
     (let rid = RequestID_mw (rq_header_id r) (rq_fresh_id r);
          line = (\<lambda>st. \<lparr>rq_method = rq_verb r, rq_path = rq_rawpath r, rq_status = st,
                       rq_latency = rq_stop r - rq_now r, rq_ip = rq_client r\<rparr>) in
      case RateLimiterWith L (sv_limiter s) (rq_now r) (rq_client r) of
        (LTooMany hs, l) \<Rightarrow> (TooMany rid hs, s\<lparr>sv_limiter := l\<rparr>)
      | (LNext hs, l) \<Rightarrow>
          (case Setup_routes P (s\<lparr>sv_limiter := l\<rparr>) (rq_now r) (rq_client r) (rq_auth r) (rq_endpoint r) of
             (q, s1) \<Rightarrow>
               let mm = (if is_Preflight (rq_endpoint r) then (q, sv_metrics s1)
                   else MetricsMiddleware \<lparr>hc_route = rq_route r, hc_method = rq_verb r, hc_outcome = q,
                     hc_elapsed = rq_stop r - rq_now r\<rparr> (sv_metrics s1)) in
               (Reply rid (client_status statusText (Recover (fst mm))),
                s1\<lparr>sv_metrics := snd mm,
                  sv_log := sv_log s1 @ (case pending_status (fst mm) of None \<Rightarrow> [] | Some st \<Rightarrow> [line st])\<rparr>)))"

fun serve_trace ::
  "(int \<Rightarrow> string) \<Rightarrow> 'l Limiter \<Rightarrow> ('d, 's, 'b, 'q) parts \<Rightarrow> ('d, 's, 'b, 'l) service \<Rightarrow> 'q http_request list \<Rightarrow>
   reply list \<times> ('d, 's, 'b, 'l) service" where
  "serve_trace statusText L P s [] = ([], s)"
| "serve_trace statusText L P s (r # rs) =
     (case serve statusText L P s r of (q, s1) \<Rightarrow>
        (case serve_trace statusText L P s1 rs of (qs, s2) \<Rightarrow> (q # qs, s2)))"

text \<open>The requests of a client that were let through.\<close>

fun is_reply :: "reply \<Rightarrow> bool" where
  "is_reply (Reply i c) = True"
| "is_reply (TooMany i hs) = False"

definition let_through :: "string \<Rightarrow> 'q http_request list \<Rightarrow> reply list \<Rightarrow> int" where
  "let_through ip rs qs = int (length (filter (\<lambda>(r, q). rq_client r = ip \<and> is_reply q) (zip rs qs)))"

section \<open>Lemmas\<close>

lemma Setup_routes_keeps:
  "sv_limiter (snd (Setup_routes P s now ip raw ep)) = sv_limiter s" "sv_metrics (snd (Setup_routes P s now ip raw ep)) = sv_metrics s"
  "sv_log (snd (Setup_routes P s now ip raw ep)) = sv_log s"
  by (auto simp: Setup_routes_def split: endpoint.splits prod.splits)

lemma serve_limiter:
  "sv_limiter (snd (serve statusText L P s r)) = snd (lAllow L (sv_limiter s) (rq_now r) (rq_client r))"
proof -
  have "snd (RateLimiterWith L (sv_limiter s) (rq_now r) (rq_client r)) = snd (lAllow L (sv_limiter s) (rq_now r) (rq_client r))"
    by (auto simp: RateLimiterWith_def Let_def split: prod.splits sum.splits)
  then show ?thesis using Setup_routes_keeps(1) [of P "s\<lparr>sv_limiter := snd (lAllow L (sv_limiter s) (rq_now r) (rq_client r))\<rparr>"
      "rq_now r" "rq_client r" "rq_auth r" "rq_endpoint r"]
    by (auto simp: serve_def Let_def split: prod.splits limited.splits)
qed

lemma limiter_cases:
  "RateLimiterWith L l now ip = (LTooMany hs, l') \<Longrightarrow> l' = snd (lAllow L l now ip)"
  by (auto simp: RateLimiterWith_def Let_def split: prod.splits sum.splits if_splits)

lemma serve_rejects:
  "fst (serve statusText L P s r) = TooMany i hs \<Longrightarrow>
     snd (serve statusText L P s r) = s\<lparr>sv_limiter := snd (lAllow L (sv_limiter s) (rq_now r) (rq_client r))\<rparr>"
  using limiter_cases by (fastforce simp: serve_def Let_def split: prod.splits limited.splits)

lemma mem_limiter_next:
  "(\<exists>hs l'. RateLimiterWith MemLimiter l now ip = (LNext hs, l')) \<longleftrightarrow> is_allowed (fst (lAllow MemLimiter l now ip))"
  by (cases "mem_Allow l now ip") (auto simp: RateLimiterWith_def MemLimiter_def is_allowed_def Let_def)

lemma mem_serve_reply:
  "is_reply (fst (serve statusText MemLimiter P s r)) \<longleftrightarrow>
     is_allowed (fst (lAllow MemLimiter (sv_limiter s) (rq_now r) (rq_client r)))"
proof -
  have "is_reply (fst (serve statusText MemLimiter P s r)) \<longleftrightarrow>
      (\<exists>hs l'. RateLimiterWith MemLimiter (sv_limiter s) (rq_now r) (rq_client r) = (LNext hs, l'))"
    by (auto simp: serve_def Let_def split: prod.splits limited.splits)
  then show ?thesis unfolding mem_limiter_next .
qed

lemma let_through_allowed:
  "let_through ip rs (fst (serve_trace statusText MemLimiter P s rs)) =
     allowed_calls MemLimiter (sv_limiter s) ip (map (\<lambda>r. (rq_now r, rq_client r)) rs)"
proof (induction rs arbitrary: s)
  case (Cons r rs)
  let ?x = "serve statusText MemLimiter P s r"
  have "let_through ip (r # rs) (fst (serve_trace statusText MemLimiter P s (r # rs))) =
    (if rq_client r = ip \<and> is_reply (fst ?x) then 1 else 0) +
    let_through ip rs (fst (serve_trace statusText MemLimiter P (snd ?x) rs))"
    by (auto simp: let_through_def split: prod.splits)
  then show ?case using Cons [of "snd ?x"] mem_serve_reply [of statusText P s r]
    by (simp add: serve_limiter)
qed (simp add: let_through_def)

text \<open>What a request that the limiter lets through ends in.\<close>

lemma serve_reply:
  assumes "RateLimiterWith L (sv_limiter s) (rq_now r) (rq_client r) = (LNext hs, l)"
    and "Setup_routes P (s\<lparr>sv_limiter := l\<rparr>) (rq_now r) (rq_client r) (rq_auth r) (rq_endpoint r) = (q, s1)"
    and "\<not> is_Preflight (rq_endpoint r)" and "pending_status q = Some st"
  shows "serve statusText L P s r =
    (Reply (RequestID_mw (rq_header_id r) (rq_fresh_id r)) (client_status statusText (Recover q)),
     s1\<lparr>sv_metrics := \<lparr>me_total = (rq_route r, rq_verb r, Itoa st) # me_total (sv_metrics s),
            me_durations = (rq_route r, rq_verb r, rq_stop r - rq_now r) # me_durations (sv_metrics s)\<rparr>,
        sv_log := sv_log s @ [\<lparr>rq_method = rq_verb r, rq_path = rq_rawpath r, rq_status = st,
          rq_latency = rq_stop r - rq_now r, rq_ip = rq_client r\<rparr>]\<rparr>)"
proof -
  have "sv_metrics s1 = sv_metrics s" "sv_log s1 = sv_log s"
    using Setup_routes_keeps(2,3) [of P "s\<lparr>sv_limiter := l\<rparr>" "rq_now r" "rq_client r" "rq_auth r" "rq_endpoint r"] assms(2) by simp_all
  then show ?thesis using assms by (simp add: serve_def MetricsMiddleware_def Let_def)
qed

text \<open>A preflight request is logged with its status, and counted by the limiter but not by the metrics.\<close>

lemma serve_preflight:
  assumes "RateLimiterWith L (sv_limiter s) (rq_now r) (rq_client r) = (LNext hs, l)" and "rq_endpoint r = Preflight"
  shows "serve statusText L P s r =
    (Reply (RequestID_mw (rq_header_id r) (rq_fresh_id r)) 204,
     s\<lparr>sv_limiter := l, sv_log := sv_log s @ [\<lparr>rq_method = rq_verb r, rq_path = rq_rawpath r, rq_status = 204,
          rq_latency = rq_stop r - rq_now r, rq_ip = rq_client r\<rparr>]\<rparr>)"
  using assms by (simp add: serve_def Setup_routes_def client_status_def Let_def)

lemma unauthorized_route:
  assumes "Middleware (l_jwt (pt_lib P)) (a_jwtCfg (pt_auth P)) [a_bl (pt_auth P)] (st_bl (sv_auth s)) now raw = (Inl e, bl)"
  shows "Setup_routes P s now ip raw (UserEP u) =
    (Failed 200 (fiber_error.FiberError (fiber_code e)), s\<lparr>sv_auth := (sv_auth s)\<lparr>st_bl := bl\<rparr>\<rparr>)"
  using assms by (simp add: Setup_routes_def RegisterUserRoutes_def)

section \<open>Properties\<close>

text \<open>C9. The global quota holds for the service as it is wired. Over any period as long as the window, whatever endpoints
  and tokens are used and however requests of clients interleave, at most twice the quota less one requests of a
  client get past the limiter, and at most the quota if it had no open window when the period began; every other request
  is answered 429 and changes nothing but the limiter: no user, session, blacklist, log line or metric.\<close>

theorem service_quota:
  assumes "0 < mx" and "0 < win" and "ml_inv mx win (sv_limiter s)"
    and "timed_from t (map (\<lambda>r. (rq_now r, rq_client r)) rs)" and "\<forall>r \<in> set rs. rq_now r < t + win"
  shows "let_through ip rs (fst (serve_trace statusText MemLimiter P s rs)) \<le> 2 * mx - 1 \<and>
    (ml_view (sv_limiter s) t ip = None \<longrightarrow> let_through ip rs (fst (serve_trace statusText MemLimiter P s rs)) \<le> mx) \<and>
    (fst (serve statusText MemLimiter P s r) = TooMany i hs \<longrightarrow>
       snd (serve statusText MemLimiter P s r) = s\<lparr>sv_limiter := snd (mem_Allow (sv_limiter s) (rq_now r) (rq_client r))\<rparr>)"
proof -
  have "\<forall>x \<in> set (map (\<lambda>r. (rq_now r, rq_client r)) rs). fst x < t + win" using assms(5) by auto
  from limiter.quota [OF MemLimiter_limiter [OF assms(1,2)] assms(3,4) this]
  show ?thesis unfolding let_through_allowed using serve_rejects [of statusText MemLimiter P s r i hs]
    by (auto simp: MemLimiter_def)
qed

text \<open>C13. A request for the users without an accepted token gets 401 and touches no user, session or limiter of the group,
  yet it is recorded as a success: both the request log and the request counter have it with status 200, because the
  authentication middleware answers by an error and the app's error handler sets the status after they have
  read it.\<close>

theorem unauthorized_recorded_as_ok:
  assumes "RateLimiterWith L (sv_limiter s) (rq_now r) (rq_client r) = (LNext hs, l)" and "rq_endpoint r = UserEP u"
    and "Middleware (l_jwt (pt_lib P)) (a_jwtCfg (pt_auth P)) [a_bl (pt_auth P)] (st_bl (sv_auth s)) (rq_now r) (rq_auth r) =
      (Inl ErrUnauthorized, bl)"
    and "serve statusText L P s r = (q, s')"
  shows "(\<exists>rid. q = Reply rid 401) \<and> st_db (sv_auth s') = st_db (sv_auth s) \<and> st_cache (sv_auth s') = st_cache (sv_auth s) \<and>
    sv_userLimiter s' = sv_userLimiter s \<and>
    (\<exists>line. sv_log s' = sv_log s @ [line] \<and> rq_status line = 200) \<and>
    counter (sv_metrics s') (rq_route r) (rq_verb r) (Itoa 200) = Suc (counter (sv_metrics s) (rq_route r) (rq_verb r) (Itoa 200))"
proof -
  have "Setup_routes P (s\<lparr>sv_limiter := l\<rparr>) (rq_now r) (rq_client r) (rq_auth r) (rq_endpoint r) =
      (Failed 200 (fiber_error.FiberError 401), s\<lparr>sv_limiter := l, sv_auth := (sv_auth s)\<lparr>st_bl := bl\<rparr>\<rparr>)"
    using unauthorized_route [of P "s\<lparr>sv_limiter := l\<rparr>"] assms(2,3) by simp
  from serve_reply [OF assms(1) this, of 200 statusText] assms(2,4)
  show ?thesis by (auto simp: client_status_def ErrorHandler_def counter_def)
qed

text \<open>The service over the instances of the other theories, with a quota of two requests a minute.\<close>

definition demo_parts :: "(User list, MemCacher, MemBlacklist, unit) parts" where
  "demo_parts = \<lparr>pt_lib = Auth_Properties.demo_lib, pt_auth = demo_auth,
     pt_vals = \<lparr>v_Login = (\<lambda>_. None), v_Refresh = (\<lambda>_. None), v_Forgot = (\<lambda>_. None), v_Reset = (\<lambda>_. None)\<rparr>,
     pt_users = NewUserRepository (gorm_table True), pt_deps = demo_deps, pt_env = ''production'',
     pt_health = NewHealthHandler (\<lambda>t d. None) 0 ''1'' 0\<rparr>"

definition demo_service :: "(User list, MemCacher, MemBlacklist, MemoryLimiter) service" where
  "demo_service = \<lparr>sv_auth = demo_state 0, sv_authLimiter = NewMemory 10 minute, sv_userLimiter = NewMemory 20 minute,
     sv_limiter = NewMemory 2 minute, sv_metrics = \<lparr>me_total = [], me_durations = []\<rparr>, sv_log = []\<rparr>"

definition demo_request :: "time \<Rightarrow> unit endpoint \<Rightarrow> unit http_request" where
  "demo_request now ep = \<lparr>rq_now = now, rq_stop = now + 1, rq_client = ''ip'', rq_route = ''/r'', rq_rawpath = ''/r/1'', rq_verb = ''GET'', rq_auth = [],
     rq_header_id = ''id'', rq_fresh_id = ''f'', rq_endpoint = ep\<rparr>"

lemma demo_first: "\<exists>hs l. RateLimiterWith MemLimiter (sv_limiter demo_service) 1 ''ip'' = (LNext hs, l)"
proof -
  have "limiter MemLimiter ml_view (\<lambda>_. ml_inv 2 minute) 2 minute" by (rule MemLimiter_limiter) simp_all
  moreover have "ml_inv 2 minute (NewMemory 2 minute)" "ml_view (NewMemory 2 minute) 1 ''ip'' = None"
    by (simp_all add: ml_inv_def ml_view_def NewMemory_def)
  moreover obtain res where "fst (lAllow MemLimiter (NewMemory 2 minute) 1 ''ip'') = Inr res"
    by (cases "mem_Allow (NewMemory 2 minute) 1 ''ip''") (simp add: MemLimiter_def)
  ultimately have "is_allowed (fst (lAllow MemLimiter (NewMemory 2 minute) 1 ''ip''))"
    using limiter.allow_result [of MemLimiter ml_view "\<lambda>_. ml_inv 2 minute" 2 minute 1 "NewMemory 2 minute" "''ip''" res]
    by (simp add: is_allowed_def bump_def)
  then show ?thesis unfolding mem_limiter_next by (simp add: demo_service_def)
qed

theorem service_quota_witness:
  "let_through ''ip'' [demo_request 1 Welcome, demo_request 2 DocsEP, demo_request 3 (UserEP (ReqListUsers ())), demo_request 4 HealthEP]
     (fst (serve_trace (\<lambda>c. []) MemLimiter demo_parts demo_service
       [demo_request 1 Welcome, demo_request 2 DocsEP, demo_request 3 (UserEP (ReqListUsers ())), demo_request 4 HealthEP])) \<le> 2"
proof -
  have "ml_view (sv_limiter demo_service) 1 ''ip'' = None" by (simp add: ml_view_def NewMemory_def demo_service_def)
  then show ?thesis
    using service_quota [of 2 minute demo_service 1
        "[demo_request 1 Welcome, demo_request 2 DocsEP, demo_request 3 (UserEP (ReqListUsers ())), demo_request 4 HealthEP]"
        "''ip''" "\<lambda>c. []" demo_parts]
    by (simp add: ml_inv_def NewMemory_def demo_service_def demo_request_def del: serve_trace.simps)
qed

theorem unauthorized_recorded_as_ok_witness:
  "\<exists>line. sv_log (snd (serve (\<lambda>c. []) MemLimiter demo_parts demo_service (demo_request 1 (UserEP (ReqListUsers ()))))) = [line] \<and>
     rq_status line = 200"
proof -
  let ?r = "demo_request 1 (UserEP (ReqListUsers ()))"
  have M: "Middleware (l_jwt (pt_lib demo_parts)) (a_jwtCfg (pt_auth demo_parts)) [a_bl (pt_auth demo_parts)] (st_bl (sv_auth demo_service))
      (rq_now ?r) (rq_auth ?r) = (Inl ErrUnauthorized, st_bl (sv_auth demo_service))"
    by (simp add: Middleware_def demo_request_def HasPrefix_def)
  have R: "rq_now ?r = 1" "rq_client ?r = ''ip''" "rq_endpoint ?r = UserEP (ReqListUsers ())" by (simp_all add: demo_request_def)
  obtain hs l where "RateLimiterWith MemLimiter (sv_limiter demo_service) (rq_now ?r) (rq_client ?r) = (LNext hs, l)"
    using demo_first unfolding R by blast
  from unauthorized_recorded_as_ok [OF this R(3) M prod.collapse [symmetric], of "\<lambda>c. []"]
  show ?thesis by (auto simp: demo_service_def)
qed

end
