(* ===== verification/Auth_Race.thy ===== *)
theory Auth_Race
  imports Auth_Properties
begin

text \<open>
  Refreshing in two steps. \<^verbatim>\<open>Refresh\<close> of \<^verbatim>\<open>internal/usecase/auth_usecase.go\<close> holds no lock from the lookup of the session to its
  deletion, so requests may interleave there. \<open>Refresh_lookup\<close> is the method up to the deletion and \<open>Refresh_commit\<close> the rest;
  one after the other they are \<open>Refresh\<close>.
\<close>

section \<open>The two steps\<close>

type_synonym looked_up = "Claims \<times> int \<times> int"

definition Refresh_lookup ::
  "auth_libs \<Rightarrow> ('d, 's, 'b) authUseCase \<Rightarrow> ('d, 's, 'b) auth_state \<Rightarrow> time \<Rightarrow> string \<Rightarrow> (go_err + looked_up) \<times> ('d, 's, 'b) auth_state" where
  "Refresh_lookup lib a st now refreshToken =
     (case Verify (l_jwt lib) now refreshToken (a_refreshCfg a) of
        Inl _ \<Rightarrow> (Inl ErrInvalidToken, st)
      | Inr claims \<Rightarrow>
          (case get_session (a_cacher a) (st_cache st) now (refreshKeyPrefix @ ID claims) of
             (Inl e, s1) \<Rightarrow>
               (if e = ErrCacheMiss then (Inl ErrInvalidToken, st\<lparr>st_cache := s1\<rparr>)
                else (Inl (Wrap ''refresh session lookup'' (cache_error e)), st\<lparr>st_cache := s1\<rparr>))
           | (Inr (subject, ver), s1) \<Rightarrow>
               if subject \<noteq> Subject claims then (Inl ErrInvalidToken, st\<lparr>st_cache := s1\<rparr>)
               else (case get_version (a_cacher a) s1 now (Subject claims) of
                 (currentVersion, s2) \<Rightarrow> (Inr (claims, ver, currentVersion), st\<lparr>st_cache := s2\<rparr>))))"

definition Refresh_commit ::
  "auth_libs \<Rightarrow> ('d, 's, 'b) authUseCase \<Rightarrow> ('d, 's, 'b) auth_state \<Rightarrow> time \<Rightarrow> nat list \<Rightarrow> nat list \<Rightarrow> looked_up \<Rightarrow>
   (go_err + LoginResponse) \<times> ('d, 's, 'b) auth_state" where
  "Refresh_commit lib a st now rndA rndR x = (case x of (claims, ver, currentVersion) \<Rightarrow>
     let s3 = snd (cDel (a_cacher a) (st_cache st) now [refreshKeyPrefix @ ID claims]) in
     if ver < currentVersion then (Inl ErrInvalidToken, st\<lparr>st_cache := s3\<rparr>)
     else
       (case uuid_Parse (l_uuid lib) (Subject claims) of
          Inl _ \<Rightarrow> (Inl ErrInvalidToken, st\<lparr>st_cache := s3\<rparr>)
        | Inr userID \<Rightarrow>
            (case rFindByID (a_userRepo a) (st_db st) userID of
               (Inl _, d) \<Rightarrow> (Inl ErrInvalidToken, st\<lparr>st_cache := s3, st_db := d\<rparr>)
             | (Inr _, d) \<Rightarrow>
                 (case issueTokenPair lib a s3 now rndA rndR (Subject claims) of
                    (r, s4) \<Rightarrow> (r, st\<lparr>st_cache := s4, st_db := d\<rparr>)))))"

lemma Refresh_split:
  "Refresh lib a st now rA rR tok =
     (case Refresh_lookup lib a st now tok of
        (Inl e, st') \<Rightarrow> (Inl e, st')
      | (Inr x, st') \<Rightarrow> Refresh_commit lib a st' now rA rR x)"
proof (cases "Verify (l_jwt lib) now tok (a_refreshCfg a)")
  case (Inl e)
  then show ?thesis by (simp add: Refresh_def Refresh_lookup_def)
next
  case (Inr c)
  obtain r s1 where g: "get_session (a_cacher a) (st_cache st) now (refreshKeyPrefix @ ID c) = (r, s1)" by fastforce
  obtain cur s2 where v: "get_version (a_cacher a) s1 now (Subject c) = (cur, s2)" by fastforce
  show ?thesis
  proof (cases r)
    case (Inl e)
    then show ?thesis using Inr g by (simp add: Refresh_def Refresh_lookup_def)
  next
    case found: (Inr y)
    obtain sub ver where y: "y = (sub, ver)" by fastforce
    show ?thesis
    proof (cases "sub = Subject c")
      case False
      then show ?thesis using Inr g found y by (simp add: Refresh_def Refresh_lookup_def)
    next
      case True
      then show ?thesis using Inr g found y v
        by (cases "uuid_Parse (l_uuid lib) (Subject c)")
          (simp_all add: Refresh_verified [OF Inr _ v refl] Refresh_lookup_def Refresh_commit_def Let_def split: prod.split sum.split)
    qed
  qed
qed

section \<open>Interleavings\<close>

text \<open>Any number of refreshes run at the same time, with other operations in between: a state holds the clock, what the
  pending refreshes have looked up, and the state of the service. An event is a lookup, the commit of a pending refresh, or a
  whole operation.\<close>

datatype conc_ev = ELook string "go_err + looked_up" | ECommit looked_up "nat list" "go_err + LoginResponse" | EOp auth_op

type_synonym ('d, 's, 'b) conc = "time \<times> looked_up list \<times> ('d, 's, 'b) auth_state"

inductive conc_step :: "auth_libs \<Rightarrow> ('d, 's, 'b) authUseCase \<Rightarrow> ('d, 's, 'b) conc \<Rightarrow> conc_ev \<Rightarrow> ('d, 's, 'b) conc \<Rightarrow> bool"
  for lib a where
  look: "t \<le> u \<Longrightarrow> Refresh_lookup lib a st u tok = (Inr l, st') \<Longrightarrow> conc_step lib a (t, P, st) (ELook tok (Inr l)) (u, l # P, st')"
| look_fails: "t \<le> u \<Longrightarrow> Refresh_lookup lib a st u tok = (Inl e, st') \<Longrightarrow> conc_step lib a (t, P, st) (ELook tok (Inl e)) (u, P, st')"
| commit: "t \<le> u \<Longrightarrow> l \<in> set P \<Longrightarrow> Refresh_commit lib a st u rA rR l = (r, st') \<Longrightarrow>
    conc_step lib a (t, P, st) (ECommit l rR r) (u, remove1 l P, st')"
| whole: "t \<le> u \<Longrightarrow> conc_step lib a (t, P, st) (EOp op) (u, P, auth_step lib a st (u, op))"

inductive conc_run :: "auth_libs \<Rightarrow> ('d, 's, 'b) authUseCase \<Rightarrow> ('d, 's, 'b) conc \<Rightarrow> conc_ev list \<Rightarrow> ('d, 's, 'b) conc \<Rightarrow> bool"
  for lib a where
  conc_refl: "conc_run lib a x [] x"
| conc_more: "conc_step lib a x e y \<Longrightarrow> conc_run lib a y es z \<Longrightarrow> conc_run lib a x (e # es) z"

inductive_cases conc_commitE: "conc_step lib a x (ECommit l rR r) y"

text \<open>The session keys an event may write.\<close>

fun ev_writes :: "conc_ev \<Rightarrow> string \<Rightarrow> bool" where
  "ev_writes (ELook tok r) j = False"
| "ev_writes (ECommit l rR r) j = (j = newJTI rR)"
| "ev_writes (EOp op) j = (\<exists>rR. op_rR op = Some rR \<and> j = newJTI rR)"

lemma op_rR_writes: "\<not> ev_writes (EOp op) j \<Longrightarrow> \<not> op_writes lib op (refreshKeyPrefix @ j)"
  by (cases op) auto

lemma path_lookup: "cache_path (a_cacher a) t W (st_cache st) (st_cache (snd (Refresh_lookup lib a st t tok)))"
proof (cases "Verify (l_jwt lib) t tok (a_refreshCfg a)")
  case (Inr c)
  obtain r s1 where g: "get_session (a_cacher a) (st_cache st) t (refreshKeyPrefix @ ID c) = (r, s1)" by fastforce
  obtain cur s2 where v: "get_version (a_cacher a) s1 t (Subject c) = (cur, s2)" by fastforce
  have p: "cache_path (a_cacher a) t W (st_cache st) s1"
    using path_session [OF path_refl, of "a_cacher a" t W "st_cache st"] g by (metis snd_conv)
  then have "cache_path (a_cacher a) t W (st_cache st) s2"
    using path_version [of "a_cacher a" t W "st_cache st" s1 "Subject c"] v by simp
  then show ?thesis using Inr g v p by (auto simp: Refresh_lookup_def split: sum.splits)
qed (simp add: Refresh_lookup_def path_refl)

lemma path_commit:
  assumes "\<And>sub v. W (refreshKeyPrefix @ newJTI rR) (GoSession sub v)"
  shows "cache_path (a_cacher a) t W (snd (cDel (a_cacher a) (st_cache st) t [refreshKeyPrefix @ ID c]))
    (st_cache (snd (Refresh_commit lib a st t rA rR (c, v, cur))))"
  using path_issue [where W = W and a = a, OF path_refl assms, where lib = lib and rA = rA and sub = "Subject c" and t = t]
  by (auto simp: Refresh_commit_def Let_def path_refl split: sum.splits prod.splits) (metis snd_conv)

section \<open>Lemmas\<close>

context auth_service
begin

text \<open>No session under an identifier, from an instant on.\<close>

definition no_session :: "time \<Rightarrow> 's \<Rightarrow> string \<Rightarrow> bool" where
  "no_session t s j \<longleftrightarrow> (\<forall>u\<ge>t. peek s u (refreshKeyPrefix @ j) = None)"

lemma path_no_session:
  assumes "cache_path (a_cacher a) u W s s'" "inv s" "0 \<le> u" "t \<le> u" "\<forall>v. \<not> W (refreshKeyPrefix @ j) v" "no_session t s j"
  shows "no_session u s' j"
  unfolding no_session_def
proof (intro allI impI)
  fix w assume w: "u \<le> w"
  have "peek s w (refreshKeyPrefix @ j) = None" using assms(4,6) w by (simp add: no_session_def)
  then show "peek s' w (refreshKeyPrefix @ j) = None" using path_avoid [OF assms(1-3) w assms(5)] by auto
qed

lemma conc_step_inv:
  assumes "conc_step lib a (t, P, st) e (u, Q, st')" "inv (st_cache st)" "0 \<le> t"
  shows "inv (st_cache st')" "t \<le> u"
proof -
  show "t \<le> u" using assms(1) by cases auto
  from assms(1) show "inv (st_cache st')"
  proof cases
    case (look tok l)
    then show ?thesis using path_inv [OF path_lookup assms(2)] by (metis snd_conv)
  next
    case (look_fails tok e)
    then show ?thesis using path_inv [OF path_lookup assms(2)] by (metis snd_conv)
  next
    case (commit l rA rR r)
    obtain c v cur where l: "l = (c, v, cur)" by (cases l)
    have "inv (snd (cDel (a_cacher a) (st_cache st) u [refreshKeyPrefix @ ID c]))" by (rule inv_del [OF assms(2)])
    from path_inv [OF path_commit [where W = "\<lambda>_ _. True"] this] show ?thesis using commit l by (metis snd_conv)
  next
    case (whole op)
    then show ?thesis using step_inv [OF assms(2)] by simp
  qed
qed

lemma conc_step_no_session:
  assumes "conc_step lib a (t, P, st) e (u, Q, st')" "inv (st_cache st)" "0 \<le> t" "\<not> ev_writes e j" "no_session t (st_cache st) j"
  shows "no_session u (st_cache st') j"
proof -
  have u: "t \<le> u" "0 \<le> u" using conc_step_inv(2) [OF assms(1-3)] assms(3) by simp_all
  note keep = path_no_session [OF _ assms(2) u(2,1) _ assms(5)]
  from assms(1) show ?thesis
  proof cases
    case (look tok l)
    then show ?thesis using keep [OF path_lookup [where W = "\<lambda>_ _. False"]] by (metis snd_conv)
  next
    case (look_fails tok e)
    then show ?thesis using keep [OF path_lookup [where W = "\<lambda>_ _. False"]] by (metis snd_conv)
  next
    case (commit l rA rR r)
    obtain c v cur where l: "l = (c, v, cur)" by (cases l)
    let ?s = "snd (cDel (a_cacher a) (st_cache st) u [refreshKeyPrefix @ ID c])"
    have "cache_path (a_cacher a) u (\<lambda>_ _. False) (st_cache st) ?s" by (rule path_del [OF path_refl]) simp
    then have "no_session u ?s j" by (rule keep) simp
    then have "no_session u (st_cache (snd (Refresh_commit lib a st u rA rR (c, v, cur)))) j"
      by (rule path_no_session [OF path_commit [where W = "\<lambda>k _. k = refreshKeyPrefix @ newJTI rR"] inv_del [OF assms(2)] u(2) order_refl, rotated 2])
        (use commit assms(4) in simp_all)
    then show ?thesis using commit l by (metis snd_conv)
  next
    case (whole op)
    have "\<forall>v. \<not> op_stores lib op (refreshKeyPrefix @ j) v" using op_rR_writes [of op j lib] whole assms(4) stores_writes by blast
    then show ?thesis using keep [OF auth_step_path] whole by simp
  qed
qed

lemma conc_run_no_session:
  assumes "conc_run lib a x es y" "inv (st_cache (snd (snd x)))" "0 \<le> fst x" "\<forall>e \<in> set es. \<not> ev_writes e j"
    and "no_session (fst x) (st_cache (snd (snd x))) j"
  shows "inv (st_cache (snd (snd y))) \<and> fst x \<le> fst y \<and> no_session (fst y) (st_cache (snd (snd y))) j"
  using assms
proof (induction rule: conc_run.induct)
  case (conc_more x e y es z)
  obtain t P st u Q st' where xy: "x = (t, P, st)" "y = (u, Q, st')" by (cases x; cases y) auto
  note step = conc_more.hyps(1) [unfolded xy]
  have p: "inv (st_cache st)" "0 \<le> t" "\<not> ev_writes e j" "no_session t (st_cache st) j" using conc_more.prems xy by simp_all
  have "inv (st_cache st')" "t \<le> u" "no_session u (st_cache st') j"
    using conc_step_inv [OF step p(1,2)] conc_step_no_session [OF step p] by simp_all
  then show ?case using conc_more.IH conc_more.prems p(2) xy by simp
qed simp

lemma lookup_no_session:
  assumes "inv (st_cache st)" "Verify (l_jwt lib) t tok (a_refreshCfg a) = Inr c" "peek (st_cache st) t (refreshKeyPrefix @ ID c) = None"
  shows "fst (Refresh_lookup lib a st t tok) = Inl ErrInvalidToken"
proof -
  have "fst (cGet (a_cacher a) (st_cache st) t (refreshKeyPrefix @ ID c) TSession) = Inl ErrCacheMiss"
    by (rule get_miss [OF assms(1,3)])
  then have "fst (get_session (a_cacher a) (st_cache st) t (refreshKeyPrefix @ ID c)) = Inl ErrCacheMiss"
    by (auto simp: get_session_def split: prod.splits)
  then show ?thesis using assms(2) by (auto simp: Refresh_lookup_def split: prod.splits)
qed

end

context auth_reliable
begin

lemma lookup_ok:
  assumes "inv (st_cache st)" "Verify (l_jwt lib) t tok (a_refreshCfg a) = Inr c"
    and "peek (st_cache st) t (refreshKeyPrefix @ ID c) = marshal (GoSession (Subject c) v)"
  obtains s where "Refresh_lookup lib a st t tok = (Inr (c, v, pw_version peek (st_cache st) t (Subject c)), st\<lparr>st_cache := s\<rparr>)"
    "inv s" "\<And>t'. t \<le> t' \<Longrightarrow> peek s t' = peek (st_cache st) t'"
proof -
  let ?k = "refreshKeyPrefix @ ID c"
  let ?g = "cGet (a_cacher a) (st_cache st) t ?k TSession"
  obtain d where d: "marshal (GoSession (Subject c) v) = Some d" by simp
  have "fst ?g = Inr (GoSession (Subject c) v)"
    using assms(1,3) d session_roundtrip [OF d] get_total [OF assms(1), of t ?k TSession] by (simp add: decode_def)
  then have g: "get_session (a_cacher a) (st_cache st) t ?k = (Inr (Subject c, v), snd ?g)"
    by (auto simp: get_session_def split: prod.splits)
  have i: "inv (snd ?g)" by (rule inv_get [OF assms(1)])
  have f: "peek (snd ?g) t' = peek (st_cache st) t'" if "t \<le> t'" for t' by (rule get_frame [OF assms(1) that])
  let ?w = "cGet (a_cacher a) (snd ?g) t (versionKeyPrefix @ Subject c) TInt"
  have w: "get_version (a_cacher a) (snd ?g) t (Subject c) = (pw_version peek (st_cache st) t (Subject c), snd ?w)"
    using get_version_fst [OF i, of t "Subject c"] get_version_snd [of "a_cacher a" "snd ?g" t "Subject c"] f [of t]
    by (intro prod_eqI) (simp_all add: pw_version_def)
  show thesis
  proof (rule that)
    show "Refresh_lookup lib a st t tok = (Inr (c, v, pw_version peek (st_cache st) t (Subject c)), st\<lparr>st_cache := snd ?w\<rparr>)"
      using assms(2) g w by (simp add: Refresh_lookup_def)
    show "inv (snd ?w)" by (rule inv_get [OF i])
    show "peek (snd ?w) t' = peek (st_cache st) t'" if "t \<le> t'" for t' using get_frame [OF i that] f [OF that] by simp
  qed
qed

lemma commit_ok:
  assumes "inv (st_cache st)" "cur \<le> v" "uuid_Parse (l_uuid lib) (Subject c) = Inr uid"
    and "rFindByID (a_userRepo a) (st_db st) uid = (Inr u, st_db st)"
    and "Sign (l_jwt lib) t rA (Subject c) [] ''access'' (a_jwtCfg a) = Inr (x, j)"
    and "Sign (l_jwt lib) t rR (Subject c) [] ''refresh'' (a_refreshCfg a) = Inr (y, j')"
  obtains resp s where "Refresh_commit lib a st t rA rR (c, v, cur) = (Inr resp, st\<lparr>st_cache := s\<rparr>)" "inv s"
    "AccessToken resp = x" "RefreshToken resp = y"
proof -
  let ?s3 = "snd (cDel (a_cacher a) (st_cache st) t [refreshKeyPrefix @ ID c])"
  have s3: "inv ?s3" by (rule inv_del [OF assms(1)])
  obtain resp s where I: "issueTokenPair lib a ?s3 t rA rR (Subject c) = (Inr resp, s)" "AccessToken resp = x" "RefreshToken resp = y"
    using issue_total [OF s3 assms(5,6)] by blast
  have "cache_path (a_cacher a) t (\<lambda>_ _. True) ?s3 (snd (issueTokenPair lib a ?s3 t rA rR (Subject c)))"
    by (rule path_issue [OF path_refl]) simp
  then have "inv s" using path_inv s3 I(1) by force
  moreover have "Refresh_commit lib a st t rA rR (c, v, cur) = (Inr resp, st\<lparr>st_cache := s\<rparr>)"
    using assms(2-4) I(1) by (simp add: Refresh_commit_def Let_def)
  ultimately show thesis using that I by blast
qed

lemma commit_closes:
  assumes "conc_step lib a (t, P, st) (ECommit (c, v, cur) rR r) (u, Q, st')" "inv (st_cache st)" "0 \<le> t" "newJTI rR \<noteq> ID c"
  shows "no_session u (st_cache st') (ID c)"
proof -
  have u: "t \<le> u" "0 \<le> u" using conc_step_inv(2) [OF assms(1-3)] assms(3) by simp_all
  let ?s = "snd (cDel (a_cacher a) (st_cache st) u [refreshKeyPrefix @ ID c])"
  have "no_session u ?s (ID c)" using del_ok [OF assms(2) del_total [OF assms(2)]] by (simp add: no_session_def)
  then have closed: "no_session u (st_cache (snd (Refresh_commit lib a st u rA rR (c, v, cur)))) (ID c)" for rA
    by (rule path_no_session [OF path_commit [where W = "\<lambda>k _. k = refreshKeyPrefix @ newJTI rR"] inv_del [OF assms(2)] u(2) order_refl, rotated 2])
      (use assms(4) in simp_all)
  from assms(1) obtain rA where "Refresh_commit lib a st u rA rR (c, v, cur) = (r, st')" by (auto elim: conc_commitE)
  then show ?thesis using closed [of rA] by simp
qed

lemma window_closes:
  assumes "conc_step lib a (t, P, st) (ECommit (c, v, cur) rR r) x" "inv (st_cache st)" "0 \<le> t" "newJTI rR \<noteq> ID c"
    and "conc_run lib a x evs (t', P', st')" "\<forall>e \<in> set evs. \<not> ev_writes e (ID c)"
    and "t' \<le> u" "Verify (l_jwt lib) u tok (a_refreshCfg a) = Inr c"
  shows "fst (Refresh_lookup lib a st' u tok) = Inl ErrInvalidToken"
proof -
  obtain t1 Q st1 where x: "x = (t1, Q, st1)" by (cases x)
  note step = assms(1) [unfolded x]
  have "inv (st_cache st1)" "0 \<le> t1" using conc_step_inv [OF step assms(2,3)] assms(3) by simp_all
  then have R: "inv (st_cache st')" "no_session t' (st_cache st') (ID c)"
    using conc_run_no_session [OF assms(5) _ _ assms(6)] commit_closes [OF step assms(2-4)] x by simp_all
  then have "peek (st_cache st') u (refreshKeyPrefix @ ID c) = None" using assms(7) by (simp add: no_session_def)
  then show ?thesis by (rule lookup_no_session [OF R(1) assms(8)])
qed

text \<open>Two requests with the same token that both look the session up before one of them deletes it.\<close>

lemma race:
  assumes "inv (st_cache st)" and "t1 \<le> t2"
    and "Verify (l_jwt lib) t1 tok (a_refreshCfg a) = Inr c" and "Verify (l_jwt lib) t2 tok (a_refreshCfg a) = Inr c"
    and "peek (st_cache st) t1 (refreshKeyPrefix @ ID c) = marshal (GoSession (Subject c) v)"
    and "peek (st_cache st) t2 (refreshKeyPrefix @ ID c) = marshal (GoSession (Subject c) v)"
    and "pw_version peek (st_cache st) t1 (Subject c) \<le> v" and "pw_version peek (st_cache st) t2 (Subject c) \<le> v"
    and "uuid_Parse (l_uuid lib) (Subject c) = Inr uid" and "rFindByID (a_userRepo a) (st_db st) uid = (Inr u, st_db st)"
    and "Sign (l_jwt lib) t3 rA (Subject c) [] ''access'' (a_jwtCfg a) = Inr (x, j)"
    and "Sign (l_jwt lib) t3 rR (Subject c) [] ''refresh'' (a_refreshCfg a) = Inr (y, k)"
    and "Sign (l_jwt lib) t4 rA' (Subject c) [] ''access'' (a_jwtCfg a) = Inr (x', j')"
    and "Sign (l_jwt lib) t4 rR' (Subject c) [] ''refresh'' (a_refreshCfg a) = Inr (y', k')"
  shows "\<exists>l1 l2 st1 st2 st3 st4 r1 r2. Refresh_lookup lib a st t1 tok = (Inr l1, st1) \<and> Refresh_lookup lib a st1 t2 tok = (Inr l2, st2) \<and>
    Refresh_commit lib a st2 t3 rA rR l1 = (Inr r1, st3) \<and> Refresh_commit lib a st3 t4 rA' rR' l2 = (Inr r2, st4) \<and>
    AccessToken r1 = x \<and> RefreshToken r1 = y \<and> AccessToken r2 = x' \<and> RefreshToken r2 = y'"
proof -
  obtain s1 where 1: "Refresh_lookup lib a st t1 tok = (Inr (c, v, pw_version peek (st_cache st) t1 (Subject c)), st\<lparr>st_cache := s1\<rparr>)"
    "inv s1" "\<And>t'. t1 \<le> t' \<Longrightarrow> peek s1 t' = peek (st_cache st) t'"
    by (rule lookup_ok [OF assms(1,3,5)]) (rule that)
  have i1: "inv (st_cache (st\<lparr>st_cache := s1\<rparr>))" using 1(2) by simp
  have p1: "peek (st_cache (st\<lparr>st_cache := s1\<rparr>)) t2 (refreshKeyPrefix @ ID c) = marshal (GoSession (Subject c) v)"
    using 1(3) [OF assms(2)] assms(6) by simp
  obtain s2 where 2: "Refresh_lookup lib a (st\<lparr>st_cache := s1\<rparr>) t2 tok =
      (Inr (c, v, pw_version peek s1 t2 (Subject c)), st\<lparr>st_cache := s2\<rparr>)" "inv s2"
    using lookup_ok [OF i1 assms(4) p1] by auto
  have v2: "pw_version peek s1 t2 (Subject c) \<le> v" using 1(3) [OF assms(2)] assms(8) by (simp add: pw_version_def)
  have i2: "inv (st_cache (st\<lparr>st_cache := s2\<rparr>))" "rFindByID (a_userRepo a) (st_db (st\<lparr>st_cache := s2\<rparr>)) uid = (Inr u, st_db (st\<lparr>st_cache := s2\<rparr>))"
    using 2(2) assms(10) by simp_all
  obtain r1 s3 where 3: "Refresh_commit lib a (st\<lparr>st_cache := s2\<rparr>) t3 rA rR (c, v, pw_version peek (st_cache st) t1 (Subject c)) =
      (Inr r1, st\<lparr>st_cache := s2, st_cache := s3\<rparr>)" "inv s3" "AccessToken r1 = x" "RefreshToken r1 = y"
    by (rule commit_ok [OF i2(1) assms(7,9) i2(2) assms(11,12)])
  have i3: "inv (st_cache (st\<lparr>st_cache := s3\<rparr>))" "rFindByID (a_userRepo a) (st_db (st\<lparr>st_cache := s3\<rparr>)) uid = (Inr u, st_db (st\<lparr>st_cache := s3\<rparr>))"
    using 3(2) assms(10) by simp_all
  obtain r2 s4 where 4: "Refresh_commit lib a (st\<lparr>st_cache := s3\<rparr>) t4 rA' rR' (c, v, pw_version peek s1 t2 (Subject c)) =
      (Inr r2, st\<lparr>st_cache := s3, st_cache := s4\<rparr>)" "AccessToken r2 = x'" "RefreshToken r2 = y'"
    by (rule commit_ok [OF i3(1) v2 assms(9) i3(2) assms(13,14)])
  have first: "Refresh_commit lib a (st\<lparr>st_cache := s2\<rparr>) t3 rA rR (c, v, pw_version peek (st_cache st) t1 (Subject c)) =
      (Inr r1, st\<lparr>st_cache := s3\<rparr>)" using 3(1) by simp
  show ?thesis using 1(1) 2(1) first 3(3,4) 4 by blast
qed

end

section \<open>Properties\<close>

text \<open>C10. The rotation of refresh tokens is not atomic: when two requests with the same token both pass the lookup before one
  of them deletes the session, both succeed and get token pairs of their own, although in any sequence of whole requests a
  token refreshes only once.\<close>

theorem refresh_race:
  assumes "a = NewAuthUseCase U MemoryCacher cfg rexp bl cost" and "mem_inv (st_cache st)" and "t1 \<le> t2"
    and "Verify (l_jwt lib) t1 tok cfg = Inr c" and "Verify (l_jwt lib) t2 tok cfg = Inr c"
    and "mem_peek (st_cache st) t1 (refreshKeyPrefix @ ID c) = marshal (GoSession (Subject c) v)"
    and "mem_peek (st_cache st) t2 (refreshKeyPrefix @ ID c) = marshal (GoSession (Subject c) v)"
    and "pw_version mem_peek (st_cache st) t1 (Subject c) \<le> v" and "pw_version mem_peek (st_cache st) t2 (Subject c) \<le> v"
    and "uuid_Parse (l_uuid lib) (Subject c) = Inr uid" and "rFindByID U (st_db st) uid = (Inr u, st_db st)"
    and "Sign (l_jwt lib) t3 rA (Subject c) [] ''access'' cfg = Inr (x, j)"
    and "Sign (l_jwt lib) t3 rR (Subject c) [] ''refresh'' (a_refreshCfg a) = Inr (y, k)"
    and "Sign (l_jwt lib) t4 rA' (Subject c) [] ''access'' cfg = Inr (x', j')"
    and "Sign (l_jwt lib) t4 rR' (Subject c) [] ''refresh'' (a_refreshCfg a) = Inr (y', k')"
  shows "\<exists>l1 l2 st1 st2 st3 st4 r1 r2. Refresh_lookup lib a st t1 tok = (Inr l1, st1) \<and> Refresh_lookup lib a st1 t2 tok = (Inr l2, st2) \<and>
    Refresh_commit lib a st2 t3 rA rR l1 = (Inr r1, st3) \<and> Refresh_commit lib a st3 t4 rA' rR' l2 = (Inr r2, st4) \<and>
    RefreshToken r1 = y \<and> RefreshToken r2 = y' \<and>
    Refresh lib a st t1 rA rR tok = Refresh_commit lib a st1 t1 rA rR l1"
proof -
  have cfg: "a_jwtCfg a = cfg" "a_userRepo a = U" using assms(1) by (simp_all add: NewAuthUseCase_def)
  have V: "Verify (l_jwt lib) t tok (a_refreshCfg a) = Verify (l_jwt lib) t tok cfg" for t using assms(1) by simp
  have R: "\<exists>l1 l2 st1 st2 st3 st4 r1 r2. Refresh_lookup lib a st t1 tok = (Inr l1, st1) \<and> Refresh_lookup lib a st1 t2 tok = (Inr l2, st2) \<and>
    Refresh_commit lib a st2 t3 rA rR l1 = (Inr r1, st3) \<and> Refresh_commit lib a st3 t4 rA' rR' l2 = (Inr r2, st4) \<and>
    AccessToken r1 = x \<and> RefreshToken r1 = y \<and> AccessToken r2 = x' \<and> RefreshToken r2 = y'"
    using ma.race [of st t1 t2 lib tok U cfg rexp bl cost c v uid u t3 rA x j rR y k t4 rA' x' j' rR' y' k', folded assms(1), OF assms(2,3)]
      assms(4-) cfg V by simp
  then obtain l1 l2 st1 st2 st3 st4 r1 r2 where "Refresh_lookup lib a st t1 tok = (Inr l1, st1)" "Refresh_lookup lib a st1 t2 tok = (Inr l2, st2)"
    "Refresh_commit lib a st2 t3 rA rR l1 = (Inr r1, st3)" "Refresh_commit lib a st3 t4 rA' rR' l2 = (Inr r2, st4)"
    "RefreshToken r1 = y" "RefreshToken r2 = y'" by blast
  moreover from this(1) have "Refresh lib a st t1 rA rR tok = Refresh_commit lib a st1 t1 rA rR l1" by (simp add: Refresh_split)
  ultimately show ?thesis by blast
qed

theorem refresh_race_witness:
  "\<exists>l1 l2 st1 st2 st3 st4 r1 r2. Refresh_lookup demo_lib demo_auth (demo_state 0) (1100 * second) ''R1'' = (Inr l1, st1) \<and>
    Refresh_lookup demo_lib demo_auth st1 (1100 * second) ''R1'' = (Inr l2, st2) \<and>
    Refresh_commit demo_lib demo_auth st2 (1100 * second) [3] [4] l1 = (Inr r1, st3) \<and>
    Refresh_commit demo_lib demo_auth st3 (1100 * second) [5] [6] l2 = (Inr r2, st4) \<and>
    RefreshToken r1 = ''R2'' \<and> RefreshToken r2 = ''R3'' \<and>
    Refresh demo_lib demo_auth (demo_state 0) (1100 * second) [3] [4] ''R1'' = Refresh_commit demo_lib demo_auth st1 (1100 * second) [3] [4] l1"
  by (rule refresh_race [OF demo_auth_def demo_inv(1), where c = "demo_claims (1000 * second) [2] ''refresh'' (9000 * second)"
        and v = 0 and uid = 1 and u = demo_user and x = "''A2''" and x' = "''A3''"
        and j = "newJTI [3]" and k = "newJTI [4]" and j' = "newJTI [5]" and k' = "newJTI [6]"])
    (use demo_Sign in \<open>simp_all add: demo_Verify demo_fields demo_peek demo_uuid demo_find demo_db\<close>)

text \<open>C11. The window of that race closes with the first commit: however many refreshes and other operations run interleaved,
  once one refresh with a token has committed, no lookup with the token succeeds any more, in any later state, provided its
  identifier is not drawn again. So at most those requests refresh that had looked the session up before.\<close>

theorem refresh_window_closes:
  assumes "a = NewAuthUseCase U MemoryCacher cfg rexp bl cost" and "mem_inv (st_cache st)" and "0 \<le> t"
    and "conc_step lib a (t, P, st) (ECommit (c, v, cur) rR r) x" and "newJTI rR \<noteq> ID c"
    and "conc_run lib a x evs (t', P', st')" and "\<forall>e \<in> set evs. \<not> ev_writes e (ID c)"
    and "t' \<le> u" and "Verify (l_jwt lib) u tok cfg = Inr c"
  shows "fst (Refresh_lookup lib a st' u tok) = Inl ErrInvalidToken \<and> fst (Refresh lib a st' u rA rR' tok) = Inl ErrInvalidToken"
proof -
  have V: "Verify (l_jwt lib) u tok (a_refreshCfg a) = Inr c" using assms(1,9) by simp
  have "fst (Refresh_lookup lib a st' u tok) = Inl ErrInvalidToken"
    using ma.window_closes [of lib U cfg rexp bl cost, folded assms(1), OF assms(4,2,3,5-8) V] .
  then show ?thesis by (auto simp: Refresh_split split: prod.splits sum.splits)
qed

theorem refresh_window_closes_witness:
  "fst (Refresh_lookup demo_lib demo_auth (auth_step demo_lib demo_auth
      (snd (Refresh_commit demo_lib demo_auth (demo_state 0) (1100 * second) [3] [4] (demo_claims (1000 * second) [2] ''refresh'' (9000 * second), 0, 0)))
      (1200 * second, DoLogin [5] [6] \<lparr>li_Email = ''a@x'', li_Password = ''secret12''\<rparr>)) (1300 * second) ''R1'') = Inl ErrInvalidToken \<and>
   fst (Refresh demo_lib demo_auth (auth_step demo_lib demo_auth
      (snd (Refresh_commit demo_lib demo_auth (demo_state 0) (1100 * second) [3] [4] (demo_claims (1000 * second) [2] ''refresh'' (9000 * second), 0, 0)))
      (1200 * second, DoLogin [5] [6] \<lparr>li_Email = ''a@x'', li_Password = ''secret12''\<rparr>)) (1300 * second) [7] [8] ''R1'') = Inl ErrInvalidToken"
proof -
  let ?c = "demo_claims (1000 * second) [2] ''refresh'' (9000 * second)"
  let ?op = "DoLogin [5] [6] \<lparr>li_Email = ''a@x'', li_Password = ''secret12''\<rparr>"
  obtain r st where R: "Refresh_commit demo_lib demo_auth (demo_state 0) (1100 * second) [3] [4] (?c, 0, 0) = (r, st)" by fastforce
  have step: "conc_step demo_lib demo_auth (1000 * second, [(?c, 0, 0)], demo_state 0) (ECommit (?c, 0, 0) [4] r) (1100 * second, [], st)"
    using conc_step.commit [OF _ _ R, of "1000 * second" "[(?c, 0, 0)]"] by simp
  have run: "conc_run demo_lib demo_auth (1100 * second, [], st) [EOp ?op] (1200 * second, [], auth_step demo_lib demo_auth st (1200 * second, ?op))"
    by (rule conc_more [OF conc_step.whole conc_refl]) simp
  show ?thesis unfolding R snd_conv
    by (rule refresh_window_closes [OF demo_auth_def demo_inv(1) _ step _ run]) (simp_all add: demo_Verify demo_fields demo_newJTI)
qed

end
