(* ===== verification/Auth_Backends.thy ===== *)
theory Auth_Backends
  imports Auth_Properties
begin

text \<open>
  The two configurations of the service: cache and blacklist in memory, or both in Redis (\<^verbatim>\<open>cmd/api/main.go\<close> chooses by the Redis
  address). As long as Redis answers, no client can tell them apart. The contract of \<open>cacher\<close> lets a backend fail; here it answers,
  for the times to live that it keeps exactly.
\<close>

section \<open>Backends that answer\<close>

locale answering_cacher = cacher +
  assumes answers_get: "inv s \<Longrightarrow> fst (cGet C s t k ty) = decode (peek s t k) ty"
    and answers_set: "inv s \<Longrightarrow> 0 \<le> t \<Longrightarrow> okTTL ttl \<Longrightarrow> marshal v \<noteq> None \<Longrightarrow> fst (cSet C s t k v ttl) = None"
    and answers_del: "inv s \<Longrightarrow> fst (cDel C s t ks) = None"

sublocale reliable_cacher \<subseteq> answers: answering_cacher C peek inv okTTL
  by unfold_locales (simp_all add: get_total set_total del_total)

locale answering_blacklist = blacklist +
  assumes answers_revoke: "inv s \<Longrightarrow> 0 \<le> t \<Longrightarrow> okTTL ttl \<Longrightarrow> 0 < ttl \<Longrightarrow> j \<noteq> [] \<Longrightarrow> fst (bRevoke B s t j ttl) = None"
    and answers_isrevoked: "inv s \<Longrightarrow> j \<noteq> [] \<Longrightarrow> fst (bIsRevoked B s t j) = Inr (revoked s t j)"

sublocale reliable_blacklist \<subseteq> answers: answering_blacklist B revoked inv okTTL
  by unfold_locales (simp_all add: revoke_total isrevoked_total)

text \<open>A Redis server that is up: every command succeeds and keeps it up. \<open>up\<close> is a set of server states.\<close>

definition redis_up :: "'r redis_client \<Rightarrow> ('r \<Rightarrow> bool) \<Rightarrow> bool" where
  "redis_up R up \<longleftrightarrow> (\<forall>s t. up s \<longrightarrow>
     (\<forall>k. (\<exists>r. fst (r_GET R s t k) = Inr r) \<and> up (snd (r_GET R s t k))) \<and>
     (\<forall>k d ttl. (0 \<le> t \<longrightarrow> redis_ttl ttl \<longrightarrow> fst (r_SET R s t k d ttl) = None) \<and> up (snd (r_SET R s t k d ttl))) \<and>
     (\<forall>ks. fst (r_DEL R s t ks) = None \<and> up (snd (r_DEL R s t ks))) \<and>
     (\<forall>k. (\<exists>n. fst (r_EXISTS R s t k) = Inr n) \<and> up (snd (r_EXISTS R s t k))))"

lemma redis_up_law:
  assumes "redis_up R up" "up s"
  shows "\<exists>r. fst (r_GET R s t k) = Inr r" "up (snd (r_GET R s t k))"
    and "0 \<le> t \<Longrightarrow> redis_ttl ttl \<Longrightarrow> fst (r_SET R s t k d ttl) = None" "up (snd (r_SET R s t k d ttl))"
    and "fst (r_DEL R s t ks) = None" "up (snd (r_DEL R s t ks))"
    and "\<exists>n. fst (r_EXISTS R s t k) = Inr n" "up (snd (r_EXISTS R s t k))"
  using assms unfolding redis_up_def by blast+

lemma redis_table_up: "redis_up redis_table rs_up"
  by (auto simp: redis_up_def redis_table_def redis_ttl_def)

lemma redis_Get_up:
  assumes "redis_ok R view" "redis_up R up" "up s"
  shows "fst (redis_Get R ns s t k ty) = decode (redis_peek view ns s t k) ty"
  using redis_get_law(1) [OF assms(1), of s t "prefixed ns k"] redis_up_law(1) [OF assms(2,3), of t "prefixed ns k"]
  by (auto simp: redis_Get_def decode_def split: prod.splits sum.splits option.splits)

lemma redis_Set_snd_up:
  assumes "redis_up R up" "up s"
  shows "up (snd (redis_Set R ns s t k v ttl))"
  using redis_up_law(4) [OF assms] assms(2) by (cases "marshal v") (simp_all add: redis_Set_split)

lemma redis_Set_fst_up:
  assumes "redis_up R up" "up s" "0 \<le> t" "redis_ttl ttl" "marshal v \<noteq> None"
  shows "fst (redis_Set R ns s t k v ttl) = None"
  using redis_up_law(3) [OF assms(1-4)] assms(5) by (auto simp: redis_Set_split)

lemma redis_Del_up:
  assumes "redis_up R up" "up s"
  shows "up (snd (redis_Del R ns s t ks))" "fst (redis_Del R ns s t ks) = None"
  using redis_up_law(5,6) [OF assms] by (simp_all add: redis_Del_split)

lemma redis_Revoke_up:
  assumes "redis_up R up" "up s"
  shows "up (snd (redis_Revoke R s t j ttl))"
    and "0 \<le> t \<Longrightarrow> redis_ttl ttl \<Longrightarrow> j \<noteq> [] \<Longrightarrow> fst (redis_Revoke R s t j ttl) = None"
  using redis_up_law(3,4) [OF assms] assms(2) by (cases "j = []"; simp add: redis_Revoke_split)+

lemma redis_IsRevoked_up:
  assumes "redis_ok R view" "redis_up R up" "up s"
  shows "up (snd (redis_IsRevoked R s t j))"
    and "j \<noteq> [] \<Longrightarrow> fst (redis_IsRevoked R s t j) = Inr (rbl_revoked view s t j)"
proof -
  show "up (snd (redis_IsRevoked R s t j))" using redis_up_law(8) [OF assms(2,3)] assms(3) by (simp add: redis_IsRevoked_snd)
  show "fst (redis_IsRevoked R s t j) = Inr (rbl_revoked view s t j)" if "j \<noteq> []"
    using redis_exists_law(1) [OF assms(1), of s t "blacklistKeyPrefix @ j"]
      redis_up_law(7) [OF assms(2,3), of t "blacklistKeyPrefix @ j"] that
    by (auto simp: redis_IsRevoked_def rbl_revoked_def split: prod.splits if_splits)
qed

lemma redis_answers:
  assumes "redis_ok R view" "redis_up R up"
  shows "answering_cacher (RedisCacher R ns) (redis_peek view ns) up redis_ttl"
  by unfold_locales
    (simp_all add: RedisCacher_def redis_Get_snd redis_Exists_snd redis_Get_result [OF assms(1)]
       redis_get_law(2) [OF assms(1)] redis_exists_law(2) [OF assms(1)] redis_Set_peek [OF assms(1)]
       redis_Set_other [OF assms(1)] redis_Del_peek [OF assms(1)] redis_Exists_result [OF assms(1)] redis_view_fade [OF assms(1)]
       redis_up_law [OF assms(2)] redis_Get_up [OF assms] redis_Set_snd_up [OF assms(2)] redis_Set_fst_up [OF assms(2)] redis_Del_up [OF assms(2)]
       del: not_None_eq)

lemma redis_blacklist_answers:
  assumes "redis_ok R view" "redis_up R up"
  shows "answering_blacklist (RedisBlacklist R) (rbl_revoked view) up redis_ttl"
  by unfold_locales
    (simp_all add: RedisBlacklist_def redis_IsRevoked_unchanged [OF assms(1)]
       redis_Revoke_failed [OF assms(1)] redis_Revoke_revoked [OF assms(1)]
       redis_IsRevoked_result [OF assms(1)] redis_Revoke_up [OF assms(2)] redis_IsRevoked_up [OF assms] redis_Revoke_split(2) del: not_None_eq)

interpretation ra: answering_cacher "RedisCacher redis_table ns" "redis_peek rs_view ns" rs_up redis_ttl
  for ns by (rule redis_answers [OF redis_table_ok redis_table_up])

interpretation rba: answering_blacklist "RedisBlacklist redis_table" "rbl_revoked rs_view" rs_up redis_ttl
  by (rule redis_blacklist_answers [OF redis_table_ok redis_table_up])

section \<open>What clients see\<close>

text \<open>The answers of a sequence of operations.\<close>

datatype auth_out = OTokens "go_err + LoginResponse" | ODone "go_err option" | OToken "go_err + string" | OAccess "fiber_err + Claims"

fun auth_do ::
  "auth_libs \<Rightarrow> ('d, 's, 'b) authUseCase \<Rightarrow> ('d, 's, 'b) auth_state \<Rightarrow> time \<times> auth_op \<Rightarrow> auth_out \<times> ('d, 's, 'b) auth_state" where
  "auth_do lib a st (t, DoLogin rA rR req) = apfst OTokens (Login lib a st t rA rR req)"
| "auth_do lib a st (t, DoRefresh rA rR tok) = apfst OTokens (Refresh lib a st t rA rR tok)"
| "auth_do lib a st (t, DoLogout acc ref) = apfst ODone (Logout lib a st t acc ref)"
| "auth_do lib a st (t, DoForgot rnd email) = apfst OToken (ForgotPassword lib a st t rnd email)"
| "auth_do lib a st (t, DoReset salt req) = apfst ODone (ResetPassword lib a st t salt req)"
| "auth_do lib a st (t, DoCheck raw) = (case Middleware (l_jwt lib) (a_jwtCfg a) [a_bl a] (st_bl st) t raw of
     (r, b) \<Rightarrow> (OAccess r, st\<lparr>st_bl := b\<rparr>))"

fun auth_run ::
  "auth_libs \<Rightarrow> ('d, 's, 'b) authUseCase \<Rightarrow> ('d, 's, 'b) auth_state \<Rightarrow> (time \<times> auth_op) list \<Rightarrow> auth_out list" where
  "auth_run lib a st [] = []"
| "auth_run lib a st (x # xs) = (case auth_do lib a st x of (r, st') \<Rightarrow> r # auth_run lib a st' xs)"

text \<open>The state after an operation is that of \<open>auth_step\<close>.\<close>

lemma auth_do_step: "snd (auth_do lib a st x) = auth_step lib a st x"
  by (cases "(lib, a, st, x)" rule: auth_do.cases) (simp_all split: prod.split)

section \<open>Two backends of one service\<close>

text \<open>Two caches agree from an instant on when they answer every key alike, and two blacklists when they revoke the same identifiers.
  The laws of both interfaces are enough to keep the agreement.\<close>

locale two_backends =
  C: answering_cacher C1 peek1 inv1 ok1 + D: answering_cacher C2 peek2 inv2 ok2 +
  B: answering_blacklist B1 rev1 binv1 bok1 + E: answering_blacklist B2 rev2 binv2 bok2
  for C1 :: "'s1 Cacher" and peek1 inv1 ok1 and C2 :: "'s2 Cacher" and peek2 inv2 ok2
    and B1 :: "'b1 Blacklist" and rev1 binv1 bok1 and B2 :: "'b2 Blacklist" and rev2 binv2 bok2 +
  fixes a1 :: "('d, 's1, 'b1) authUseCase" and a2 :: "('d, 's2, 'b2) authUseCase" and lib :: auth_libs
  assumes a1: "a_cacher a1 = C1" "a_bl a1 = Some B1"
    and a2: "a_cacher a2 = C2" "a_bl a2 = Some B2"
    and same: "a_userRepo a2 = a_userRepo a1" "a_jwtCfg a2 = a_jwtCfg a1" "a_refreshCfg a2 = a_refreshCfg a1"
      "a_bcryptCost a2 = a_bcryptCost a1"
    and ttls: "ok1 (Expiry (a_refreshCfg a1))" "ok2 (Expiry (a_refreshCfg a1))" "ok1 resetTTL" "ok2 resetTTL"
      "ok1 versionTTL" "ok2 versionTTL"
begin

definition caches_agree :: "time \<Rightarrow> 's1 \<Rightarrow> 's2 \<Rightarrow> bool" where
  "caches_agree t s1 s2 \<longleftrightarrow> inv1 s1 \<and> inv2 s2 \<and> (\<forall>t'\<ge>t. \<forall>k. peek1 s1 t' k = peek2 s2 t' k)"

definition lists_agree :: "time \<Rightarrow> 'b1 \<Rightarrow> 'b2 \<Rightarrow> bool" where
  "lists_agree t b1 b2 \<longleftrightarrow> binv1 b1 \<and> binv2 b2 \<and> (\<forall>t'\<ge>t. \<forall>j. rev1 b1 t' j = rev2 b2 t' j)"

definition states_agree :: "time \<Rightarrow> ('d, 's1, 'b1) auth_state \<Rightarrow> ('d, 's2, 'b2) auth_state \<Rightarrow> bool" where
  "states_agree t x y \<longleftrightarrow> st_db x = st_db y \<and> caches_agree t (st_cache x) (st_cache y) \<and> lists_agree t (st_bl x) (st_bl y)"

definition outs_agree where
  "outs_agree t p q \<longleftrightarrow> fst p = fst q \<and> states_agree t (snd p) (snd q)"

lemma agree_get:
  assumes "caches_agree t s1 s2"
  obtains r u1 u2 where "cGet C1 s1 t k ty = (r, u1)" "cGet C2 s2 t k ty = (r, u2)" "caches_agree t u1 u2"
proof (rule that)
  have i: "inv1 s1" "inv2 s2" "peek1 s1 t k = peek2 s2 t k" using assms by (simp_all add: caches_agree_def)
  show "cGet C1 s1 t k ty = (decode (peek1 s1 t k) ty, snd (cGet C1 s1 t k ty))"
    using C.answers_get [OF i(1)] by (metis prod.collapse)
  show "cGet C2 s2 t k ty = (decode (peek1 s1 t k) ty, snd (cGet C2 s2 t k ty))"
    using D.answers_get [OF i(2)] i(3) by (metis prod.collapse)
  show "caches_agree t (snd (cGet C1 s1 t k ty)) (snd (cGet C2 s2 t k ty))"
    using assms C.get_frame [OF i(1)] D.get_frame [OF i(2)] C.inv_get D.inv_get by (simp add: caches_agree_def)
qed

lemma agree_set:
  assumes "caches_agree t s1 s2" "0 \<le> t" "ok1 ttl" "ok2 ttl" "marshal v \<noteq> None"
  obtains u1 u2 where "cSet C1 s1 t k v ttl = (None, u1)" "cSet C2 s2 t k v ttl = (None, u2)" "caches_agree t u1 u2"
proof (rule that)
  have i: "inv1 s1" "inv2 s2" using assms(1) by (simp_all add: caches_agree_def)
  have f: "fst (cSet C1 s1 t k v ttl) = None" "fst (cSet C2 s2 t k v ttl) = None"
    using C.answers_set [OF i(1) assms(2,3,5)] D.answers_set [OF i(2) assms(2,4,5)] by simp_all
  show "cSet C1 s1 t k v ttl = (None, snd (cSet C1 s1 t k v ttl))" "cSet C2 s2 t k v ttl = (None, snd (cSet C2 s2 t k v ttl))"
    using f by (metis prod.collapse)+
  show "caches_agree t (snd (cSet C1 s1 t k v ttl)) (snd (cSet C2 s2 t k v ttl))"
    using assms(1) C.set_ok [OF i(1) assms(2,3) f(1)] D.set_ok [OF i(2) assms(2,4) f(2)] C.inv_set [OF i(1)] D.inv_set [OF i(2)]
    by (simp add: caches_agree_def)
qed

lemma agree_del:
  assumes "caches_agree t s1 s2"
  shows "caches_agree t (snd (cDel C1 s1 t ks)) (snd (cDel C2 s2 t ks))"
proof -
  have i: "inv1 s1" "inv2 s2" using assms(1) by (simp_all add: caches_agree_def)
  show ?thesis
    using assms C.del_ok [OF i(1) C.answers_del [OF i(1)]] D.del_ok [OF i(2) D.answers_del [OF i(2)]] C.inv_del [OF i(1)] D.inv_del [OF i(2)]
    by (simp add: caches_agree_def)
qed

lemma agree_session:
  assumes "caches_agree t s1 s2"
  obtains r u1 u2 where "get_session C1 s1 t k = (r, u1)" "get_session C2 s2 t k = (r, u2)" "caches_agree t u1 u2"
proof (rule agree_get [OF assms, of k TSession])
  fix r u1 u2
  assume "cGet C1 s1 t k TSession = (r, u1)" "cGet C2 s2 t k TSession = (r, u2)" "caches_agree t u1 u2"
  then show thesis
    using that [of "case r of Inl e \<Rightarrow> Inl e | Inr (GoSession sub ver) \<Rightarrow> Inr (sub, ver) | Inr _ \<Rightarrow> Inl CacheGetUnmarshal" u1 u2]
    by (simp add: get_session_def split: sum.splits gval.splits)
qed

lemma agree_string:
  assumes "caches_agree t s1 s2"
  obtains r u1 u2 where "get_string C1 s1 t k = (r, u1)" "get_string C2 s2 t k = (r, u2)" "caches_agree t u1 u2"
proof (rule agree_get [OF assms, of k TString])
  fix r u1 u2
  assume "cGet C1 s1 t k TString = (r, u1)" "cGet C2 s2 t k TString = (r, u2)" "caches_agree t u1 u2"
  then show thesis
    using that [of "case r of Inl e \<Rightarrow> Inl e | Inr (GoString x) \<Rightarrow> Inr x | Inr _ \<Rightarrow> Inl CacheGetUnmarshal" u1 u2]
    by (simp add: get_string_def split: sum.splits gval.splits)
qed

lemma agree_version:
  assumes "caches_agree t s1 s2"
  obtains v u1 u2 where "get_version C1 s1 t sub = (v, u1)" "get_version C2 s2 t sub = (v, u2)" "caches_agree t u1 u2"
proof (rule agree_get [OF assms, of "versionKeyPrefix @ sub" TInt])
  fix r u1 u2
  assume "cGet C1 s1 t (versionKeyPrefix @ sub) TInt = (r, u1)" "cGet C2 s2 t (versionKeyPrefix @ sub) TInt = (r, u2)" "caches_agree t u1 u2"
  then show thesis
    using that [of "case r of Inr (GoInt v) \<Rightarrow> v | _ \<Rightarrow> 0" u1 u2]
    by (simp add: get_version_def split: sum.splits gval.splits)
qed

lemma agree_issue:
  assumes "caches_agree t s1 s2" "0 \<le> t"
  obtains r u1 u2 where "issueTokenPair lib a1 s1 t rA rR sub = (r, u1)" "issueTokenPair lib a2 s2 t rA rR sub = (r, u2)"
    "caches_agree t u1 u2"
proof -
  consider (acc) e where "Sign (l_jwt lib) t rA sub [] ''access'' (a_jwtCfg a1) = Inl e"
    | (ref) acc i e where "Sign (l_jwt lib) t rA sub [] ''access'' (a_jwtCfg a1) = Inr (acc, i)"
        "Sign (l_jwt lib) t rR sub [] ''refresh'' (a_refreshCfg a1) = Inl e"
    | (both) acc i ref j where "Sign (l_jwt lib) t rA sub [] ''access'' (a_jwtCfg a1) = Inr (acc, i)"
        "Sign (l_jwt lib) t rR sub [] ''refresh'' (a_refreshCfg a1) = Inr (ref, j)"
    by (metis sum.exhaust surj_pair)
  then show ?thesis
  proof cases
    case (both acc i ref j)
    note S = both
    obtain v u1 u2 where v: "get_version C1 s1 t sub = (v, u1)" "get_version C2 s2 t sub = (v, u2)" "caches_agree t u1 u2"
      by (rule agree_version [OF assms(1)])
    obtain w1 w2 where "cSet C1 u1 t (refreshKeyPrefix @ j) (GoSession sub v) (Expiry (a_refreshCfg a1)) = (None, w1)"
        "cSet C2 u2 t (refreshKeyPrefix @ j) (GoSession sub v) (Expiry (a_refreshCfg a1)) = (None, w2)" "caches_agree t w1 w2"
      by (rule agree_set [OF v(3) assms(2) ttls(1,2), of "GoSession sub v"]) simp
    then show ?thesis using that S v(1,2) by (simp add: issueTokenPair_def same a1 a2)
  qed (use that assms(1) in \<open>simp_all add: issueTokenPair_def same\<close>)
qed

lemma agree_Login:
  assumes "states_agree t x y" "0 \<le> t"
  shows "outs_agree t (Login lib a1 x t rA rR req) (Login lib a2 y t rA rR req)"
proof -
  note S = assms(1) [unfolded states_agree_def]
  obtain f d where f: "rFindByEmail (a_userRepo a1) (st_db y) (li_Email req) = (f, d)" by fastforce
  show ?thesis
  proof (cases f)
    case (Inl e)
    then show ?thesis using S f by (simp add: Login_def same states_agree_def outs_agree_def split: if_splits)
  next
    case (Inr u)
    obtain r u1 u2 where "issueTokenPair lib a1 (st_cache x) t rA rR (uuid_String (l_uuid lib) (u_ID u)) = (r, u1)"
        "issueTokenPair lib a2 (st_cache y) t rA rR (uuid_String (l_uuid lib) (u_ID u)) = (r, u2)" "caches_agree t u1 u2"
      by (rule agree_issue [OF _ assms(2)]) (use S in blast)
    then show ?thesis
      using S f Inr by (simp add: Login_def same states_agree_def outs_agree_def split: option.splits)
  qed
qed

lemma agree_Refresh:
  assumes "states_agree t x y" "0 \<le> t"
  shows "outs_agree t (Refresh lib a1 x t rA rR tok) (Refresh lib a2 y t rA rR tok)"
proof (cases "Verify (l_jwt lib) t tok (a_refreshCfg a1)")
  case (Inl e)
  then show ?thesis using assms(1) by (simp add: Refresh_def same outs_agree_def)
next
  case (Inr c)
  note S = assms(1) [unfolded states_agree_def]
  let ?k = "refreshKeyPrefix @ ID c"
  obtain f u1 u2 where f: "get_session C1 (st_cache x) t ?k = (f, u1)" "get_session C2 (st_cache y) t ?k = (f, u2)" "caches_agree t u1 u2"
    by (rule agree_session) (use S in blast)
  obtain cur v1 v2 where v: "get_version C1 u1 t (Subject c) = (cur, v1)" "get_version C2 u2 t (Subject c) = (cur, v2)" "caches_agree t v1 v2"
    by (rule agree_version [OF f(3)])
  define w1 w2 where "w1 = snd (cDel C1 v1 t [?k])" and "w2 = snd (cDel C2 v2 t [?k])"
  have w: "caches_agree t w1 w2" unfolding w1_def w2_def by (rule agree_del [OF v(3)])
  obtain r z1 z2 where z: "issueTokenPair lib a1 w1 t rA rR (Subject c) = (r, z1)"
    "issueTokenPair lib a2 w2 t rA rR (Subject c) = (r, z2)" "caches_agree t z1 z2"
    by (rule agree_issue [OF w assms(2)])
  show ?thesis
  proof (cases "\<exists>ver. f = Inr (Subject c, ver)")
    case False
    then show ?thesis using S f Inr by (cases f) (auto simp: Refresh_def same a1 a2 states_agree_def outs_agree_def split: if_splits)
  next
    case True
    then obtain ver where ver: "f = Inr (Subject c, ver)" by blast
    have V: "Verify (l_jwt lib) t tok (a_refreshCfg a2) = Inr c" using Inr by (simp add: same)
    have g: "get_session (a_cacher a1) (st_cache x) t ?k = (Inr (Subject c, ver), u1)"
      "get_session (a_cacher a2) (st_cache y) t ?k = (Inr (Subject c, ver), u2)"
      "get_version (a_cacher a1) u1 t (Subject c) = (cur, v1)" "get_version (a_cacher a2) u2 t (Subject c) = (cur, v2)"
      "w1 = snd (cDel (a_cacher a1) v1 t [?k])" "w2 = snd (cDel (a_cacher a2) v2 t [?k])"
      using f v ver by (simp_all add: a1 a2 w1_def w2_def)
    note R = Refresh_verified [OF Inr g(1,3,5), of rA rR] Refresh_verified [OF V g(2,4,6), of rA rR]
    have db: "st_db x = st_db y" using S by blast
    consider "ver < cur" | (bad) e where "\<not> ver < cur" "uuid_Parse (l_uuid lib) (Subject c) = Inl e"
      | (ok) uid where "\<not> ver < cur" "uuid_Parse (l_uuid lib) (Subject c) = Inr uid"
      by (metis sum.exhaust)
    then show ?thesis
    proof cases
      case ok
      obtain g d where "rFindByID (a_userRepo a1) (st_db y) uid = (g, d)" by fastforce
      then show ?thesis using S w z ok db by (cases g) (auto simp: R states_agree_def outs_agree_def same)
    qed (use S w in \<open>simp_all add: R states_agree_def outs_agree_def\<close>)
  qed
qed

text \<open>The times that tokens have left at an instant are times to live both blacklists keep.\<close>

definition lifetimes_ok :: "time \<Rightarrow> bool" where
  "lifetimes_ok t \<longleftrightarrow> (\<forall>cfg \<in> {a_jwtCfg a1, a_refreshCfg a1}. \<forall>tok c e. Verify (l_jwt lib) t tok cfg = Inr c \<longrightarrow>
     ExpiresAt c = Some e \<longrightarrow> t < e \<longrightarrow> bok1 (e - t) \<and> bok2 (e - t))"

lemma agree_blacklist:
  assumes "lists_agree t b1 b2" "0 \<le> t" "lifetimes_ok t" "cfg \<in> {a_jwtCfg a1, a_refreshCfg a1}" "Verify (l_jwt lib) t tok cfg = Inr c"
  obtains (panic) "blacklist_claims (Some B1) b1 t c = BlPanic" "blacklist_claims (Some B2) b2 t c = BlPanic"
    | (ok) u1 u2 where "blacklist_claims (Some B1) b1 t c = BlDone u1" "blacklist_claims (Some B2) b2 t c = BlDone u2" "lists_agree t u1 u2"
proof -
  have i: "binv1 b1" "binv2 b2" using assms(1) by (simp_all add: lists_agree_def)
  consider "ID c = []" | "ID c \<noteq> []" "ExpiresAt c = None" | (late) e where "ID c \<noteq> []" "ExpiresAt c = Some e" "e \<le> t"
    | (live) e where "ID c \<noteq> []" "ExpiresAt c = Some e" "t < e"
    by (cases "ExpiresAt c") force+
  then show ?thesis
  proof cases
    case (live e)
    let ?u1 = "bRevoke B1 b1 t (ID c) (e - t)" and ?u2 = "bRevoke B2 b2 t (ID c) (e - t)"
    have ttl: "bok1 (e - t)" "bok2 (e - t)" "0 < e - t" using assms(3-5) live by (auto simp: lifetimes_ok_def)
    have f: "fst ?u1 = None" "fst ?u2 = None"
      using B.answers_revoke [OF i(1) assms(2) ttl(1,3) live(1)] E.answers_revoke [OF i(2) assms(2) ttl(2,3) live(1)] by simp_all
    have "lists_agree t (snd ?u1) (snd ?u2)"
      using assms(1) B.revoke_ok [OF i(1) ttl(1,3) f(1)] E.revoke_ok [OF i(2) ttl(2,3) f(2)] B.inv_revoke [OF i(1)] E.inv_revoke [OF i(2)]
      by (simp add: lists_agree_def)
    then show ?thesis using ok f live by (cases ?u1; cases ?u2) (simp add: blacklist_claims_def)
  qed (use ok [OF _ _ assms(1)] panic in \<open>simp_all add: blacklist_claims_def\<close>)
qed

lemma agree_logout_refresh:
  assumes "states_agree t x y" "0 \<le> t" "lifetimes_ok t"
  shows "outs_agree t (logout_refresh lib a1 x t ref) (logout_refresh lib a2 y t ref)"
proof (cases "ref = [] \<or> isl (Verify (l_jwt lib) t ref (a_refreshCfg a1))")
  case True
  then show ?thesis using assms(1) by (auto simp: logout_refresh_def same outs_agree_def split: sum.splits)
next
  case False
  note S = assms(1) [unfolded states_agree_def]
  obtain c where c: "Verify (l_jwt lib) t ref (a_refreshCfg a1) = Inr c" using False by (cases "Verify (l_jwt lib) t ref (a_refreshCfg a1)") auto
  have d: "caches_agree t (snd (cDel C1 (st_cache x) t [refreshKeyPrefix @ ID c])) (snd (cDel C2 (st_cache y) t [refreshKeyPrefix @ ID c]))"
    by (rule agree_del) (use S in blast)
  have "lists_agree t (st_bl x) (st_bl y)" using S by blast
  from agree_blacklist [OF this assms(2,3) _ c] show ?thesis
    using S d c False by cases (simp_all add: logout_refresh_def Let_def same a1 a2 states_agree_def outs_agree_def)
qed

lemma agree_Logout:
  assumes "states_agree t x y" "0 \<le> t" "lifetimes_ok t"
  shows "outs_agree t (Logout lib a1 x t acc ref) (Logout lib a2 y t acc ref)"
proof (cases "Verify (l_jwt lib) t acc (a_jwtCfg a1)")
  case (Inl e)
  then show ?thesis using assms(1) by (simp add: Logout_def same outs_agree_def)
next
  case (Inr c)
  note S = assms(1) [unfolded states_agree_def]
  have l: "lists_agree t (st_bl x) (st_bl y)" using S by blast
  have m: "a_jwtCfg a1 \<in> {a_jwtCfg a1, a_refreshCfg a1}" by simp
  show ?thesis
  proof (cases rule: agree_blacklist [OF l assms(2,3) m Inr, case_names panic ok])
    case (ok u1 u2)
    have "states_agree t (x\<lparr>st_bl := u1\<rparr>) (y\<lparr>st_bl := u2\<rparr>)" using S ok by (simp add: states_agree_def)
    from agree_logout_refresh [OF this assms(2,3)] show ?thesis using Inr ok by (simp add: Logout_def same a1 a2)
  qed (use S Inr in \<open>simp_all add: Logout_def same a1 a2 states_agree_def outs_agree_def\<close>)
qed

lemma agree_Forgot:
  assumes "states_agree t x y" "0 \<le> t"
  shows "outs_agree t (ForgotPassword lib a1 x t rnd email) (ForgotPassword lib a2 y t rnd email)"
proof -
  note S = assms(1) [unfolded states_agree_def]
  obtain f d where f: "rFindByEmail (a_userRepo a1) (st_db y) email = (f, d)" by fastforce
  show ?thesis
  proof (cases f)
    case (Inl e)
    then show ?thesis using S f by (simp add: ForgotPassword_def same states_agree_def outs_agree_def)
  next
    case (Inr u)
    let ?k = "resetKeyPrefix @ uuid_String (l_uuid lib) rnd"
    obtain u1 u2 where "cSet C1 (st_cache x) t ?k (GoString (u_Email u)) resetTTL = (None, u1)"
        "cSet C2 (st_cache y) t ?k (GoString (u_Email u)) resetTTL = (None, u2)" "caches_agree t u1 u2"
      by (rule agree_set [OF _ assms(2) ttls(3,4), of "st_cache x" "st_cache y" "GoString (u_Email u)" ?k]) (use S in simp_all)
    then show ?thesis using S f Inr by (simp add: ForgotPassword_def Let_def same a1 a2 states_agree_def outs_agree_def)
  qed
qed

lemma agree_bump:
  assumes "caches_agree t s1 s2" "0 \<le> t"
  shows "caches_agree t (bump_version C1 s1 t sub) (bump_version C2 s2 t sub)"
proof -
  obtain v u1 u2 where v: "get_version C1 s1 t sub = (v, u1)" "get_version C2 s2 t sub = (v, u2)" "caches_agree t u1 u2"
    by (rule agree_version [OF assms(1)])
  obtain w1 w2 where "cSet C1 u1 t (versionKeyPrefix @ sub) (GoInt (int64 (v + 1))) versionTTL = (None, w1)"
      "cSet C2 u2 t (versionKeyPrefix @ sub) (GoInt (int64 (v + 1))) versionTTL = (None, w2)" "caches_agree t w1 w2"
    by (rule agree_set [OF v(3) assms(2) ttls(5,6), of "GoInt (int64 (v + 1))" "versionKeyPrefix @ sub"]) simp
  then show ?thesis using v by (simp add: bump_version_def)
qed

lemma agree_Reset:
  assumes "states_agree t x y" "0 \<le> t"
  shows "outs_agree t (ResetPassword lib a1 x t salt req) (ResetPassword lib a2 y t salt req)"
proof -
  note S = assms(1) [unfolded states_agree_def]
  let ?k = "resetKeyPrefix @ rp_Token req"
  obtain f u1 u2 where f: "get_string C1 (st_cache x) t ?k = (f, u1)" "get_string C2 (st_cache y) t ?k = (f, u2)" "caches_agree t u1 u2"
    by (rule agree_string) (use S in blast)
  have d: "caches_agree t (bump_version C1 (snd (cDel C1 u1 t [?k])) t sub) (bump_version C2 (snd (cDel C2 u2 t [?k])) t sub)" for sub
    by (rule agree_bump [OF agree_del [OF f(3)] assms(2)])
  show ?thesis
  proof (cases f)
    case (Inl e)
    then show ?thesis using S f by (simp add: ResetPassword_def Let_def same a1 a2 states_agree_def outs_agree_def)
  next
    case (Inr email)
    obtain g d1 where g: "rFindByEmail (a_userRepo a1) (st_db y) email = (g, d1)" by fastforce
    show ?thesis
      using S f(1,2,3) d Inr g
      by (simp add: ResetPassword_def Let_def same a1 a2 states_agree_def outs_agree_def split: sum.split prod.split)
  qed
qed

lemma agree_check:
  assumes "lists_agree t b1 b2"
  obtains r u1 u2 where "Middleware L cfg [Some B1] b1 t raw = (r, u1)" "Middleware L cfg [Some B2] b2 t raw = (r, u2)" "lists_agree t u1 u2"
proof -
  have i: "binv1 b1" "binv2 b2" using assms by (simp_all add: lists_agree_def)
  have q: "bIsRevoked B1 b1 t j = (Inr (rev1 b1 t j), snd (bIsRevoked B1 b1 t j))"
    "bIsRevoked B2 b2 t j = (Inr (rev1 b1 t j), snd (bIsRevoked B2 b2 t j))"
    "lists_agree t (snd (bIsRevoked B1 b1 t j)) (snd (bIsRevoked B2 b2 t j))" if "j \<noteq> []" for j
    using assms B.answers_isrevoked [OF i(1) that, of t] E.answers_isrevoked [OF i(2) that, of t]
      B.isrevoked_frame [OF i(1)] E.isrevoked_frame [OF i(2)] B.inv_isrevoked [OF i(1)] E.inv_isrevoked [OF i(2)]
    by (simp_all add: lists_agree_def prod_eq_iff)
  show ?thesis
  proof (cases "HasPrefix raw ''Bearer ''")
    case True
    show ?thesis
    proof (cases "Verify L t (TrimPrefix raw ''Bearer '') cfg")
      case (Inr c)
      show ?thesis
      proof (cases "(TokenType c = [] \<or> TokenType c = ''access'') \<and> ID c \<noteq> []")
        case asked: True
        then have j: "ID c \<noteq> []" by blast
        obtain v1 v2 where v: "bIsRevoked B1 b1 t (ID c) = (Inr (rev1 b1 t (ID c)), v1)"
          "bIsRevoked B2 b2 t (ID c) = (Inr (rev1 b1 t (ID c)), v2)" "lists_agree t v1 v2"
          using q [OF j] by blast
        have "Middleware L cfg [Some B1] b1 t raw = (if rev1 b1 t (ID c) then Inl ErrUnauthorized else Inr c, v1)"
          "Middleware L cfg [Some B2] b2 t raw = (if rev1 b1 t (ID c) then Inl ErrUnauthorized else Inr c, v2)"
          using asked True Inr v(1,2) by (auto simp: Middleware_def)
        then show ?thesis using that v(3) by blast
      next
        case False
        then have "Middleware L cfg [Some B1] b1 t raw = (if TokenType c \<noteq> [] \<and> TokenType c \<noteq> ''access'' then Inl ErrUnauthorized else Inr c, b1)"
          "Middleware L cfg [Some B2] b2 t raw = (if TokenType c \<noteq> [] \<and> TokenType c \<noteq> ''access'' then Inl ErrUnauthorized else Inr c, b2)"
          using True Inr by (auto simp: Middleware_def)
        then show ?thesis using that assms by blast
      qed
    qed (use that assms True in \<open>simp add: Middleware_def\<close>)
  qed (use that assms in \<open>simp add: Middleware_def\<close>)
qed

lemma agree_do:
  assumes "states_agree t x y" "0 \<le> t" "lifetimes_ok t"
  shows "outs_agree t (auth_do lib a1 x (t, op)) (auth_do lib a2 y (t, op))"
proof (cases op)
  case (DoCheck raw)
  note S = assms(1) [unfolded states_agree_def]
  obtain r u1 u2 where "Middleware (l_jwt lib) (a_jwtCfg a1) [Some B1] (st_bl x) t raw = (r, u1)"
      "Middleware (l_jwt lib) (a_jwtCfg a1) [Some B2] (st_bl y) t raw = (r, u2)" "lists_agree t u1 u2"
    by (rule agree_check) (use S in blast)
  then show ?thesis using DoCheck S by (simp add: same a1 a2 states_agree_def outs_agree_def)
qed (use assms agree_Login agree_Refresh agree_Logout agree_Forgot agree_Reset in \<open>simp_all add: outs_agree_def\<close>)

lemma agree_later: "states_agree t x y \<Longrightarrow> t \<le> t' \<Longrightarrow> states_agree t' x y"
  by (simp add: states_agree_def caches_agree_def lists_agree_def)

lemma agree_run:
  assumes "states_agree t x y" "0 \<le> t" "clock_ok t ops" "\<forall>z \<in> set ops. lifetimes_ok (fst z)"
  shows "auth_run lib a1 x ops = auth_run lib a2 y ops"
  using assms
proof (induction ops arbitrary: x y t)
  case (Cons z ops)
  obtain u op where z: "z = (u, op)" by (cases z)
  have u: "t \<le> u" "0 \<le> u" "lifetimes_ok u" "clock_ok u ops" using Cons.prems z by auto
  have "outs_agree u (auth_do lib a1 x z) (auth_do lib a2 y z)"
    unfolding z by (rule agree_do [OF agree_later [OF Cons.prems(1) u(1)] u(2,3)])
  then have "fst (auth_do lib a1 x z) = fst (auth_do lib a2 y z)"
    "states_agree u (snd (auth_do lib a1 x z)) (snd (auth_do lib a2 y z))" by (simp_all add: outs_agree_def)
  moreover from this(2) have "auth_run lib a1 (snd (auth_do lib a1 x z)) ops = auth_run lib a2 (snd (auth_do lib a2 y z)) ops"
    by (rule Cons.IH [OF _ u(2,4)]) (use Cons.prems in simp)
  ultimately show ?case by (cases "auth_do lib a1 x z"; cases "auth_do lib a2 y z") simp
qed simp

end

section \<open>Memory and Redis\<close>

lemma refresh_expiry [simp]: "Expiry (a_refreshCfg (NewAuthUseCase U C cfg rexp bl cost)) = rexp"
  and same_settings: "a_refreshCfg (NewAuthUseCase U C cfg rexp bl cost) = a_refreshCfg (NewAuthUseCase U C' cfg rexp bl' cost)"
    "a_bcryptCost (NewAuthUseCase U C cfg rexp bl cost) = a_bcryptCost (NewAuthUseCase U C' cfg rexp bl' cost)"
  by (simp_all add: NewAuthUseCase_def)

lemma service_ttls: "redis_ttl resetTTL" "redis_ttl versionTTL"
  by (simp_all add: redis_ttl_def resetTTL_def versionTTL_def)

lemma memory_and_redis:
  assumes "redis_ok R view" "redis_up R up" "redis_ttl rexp"
  shows "two_backends MemoryCacher mem_peek mem_inv (\<lambda>_. True) (RedisCacher R ns) (redis_peek view ns) up redis_ttl
    MemoryBlacklist mbl_revoked wf_gomap (\<lambda>_. True) (RedisBlacklist R) (rbl_revoked view) up redis_ttl
    (NewAuthUseCase U MemoryCacher cfg rexp (Some MemoryBlacklist) cost)
    (NewAuthUseCase U (RedisCacher R ns) cfg rexp (Some (RedisBlacklist R)) cost)"
  unfolding two_backends_def two_backends_axioms_def
  by (intro conjI mc.answers.answering_cacher_axioms redis_answers [OF assms(1,2)] mbl.answers.answering_blacklist_axioms
      redis_blacklist_answers [OF assms(1,2)])
    (simp_all add: assms(3) service_ttls, (rule same_settings)+)

text \<open>The server of the witnesses, for every refresh expiry of whole milliseconds.\<close>

interpretation mr: two_backends MemoryCacher mem_peek mem_inv "\<lambda>_. True" "RedisCacher redis_table ns" "redis_peek rs_view ns" rs_up redis_ttl
    MemoryBlacklist mbl_revoked wf_gomap "\<lambda>_. True" "RedisBlacklist redis_table" "rbl_revoked rs_view" rs_up redis_ttl
    "NewAuthUseCase U MemoryCacher cfg (int n * millisecond) (Some MemoryBlacklist) cost"
    "NewAuthUseCase U (RedisCacher redis_table ns) cfg (int n * millisecond) (Some (RedisBlacklist redis_table)) cost" lib
  for ns U cfg n cost lib
  by (rule memory_and_redis [OF redis_table_ok redis_table_up]) (simp add: redis_ttl_def)

section \<open>Properties\<close>

text \<open>C8. As long as every Redis command succeeds and all instants and lifetimes are whole milliseconds (Redis keeps no finer
  ones), the two configurations of the service are equivalent: from states with the same content, every sequence of logins, refreshes,
  logouts, password resets and access checks gets the same answers with cache and blacklist in Redis as with both in memory. When Redis
  fails they differ, see below.\<close>

theorem backends_agree:
  assumes "redis_ok R view" and "redis_up R up" and "redis_ttl rexp"
    and "st_db x = st_db y" and "mem_inv (st_cache x)" and "wf_gomap (st_bl x)" and "up (st_cache y)" and "up (st_bl y)"
    and "\<forall>u\<ge>t. \<forall>k. mem_peek (st_cache x) u k = view (st_cache y) u (prefixed ns k)"
    and "\<forall>u\<ge>t. \<forall>j. mbl_revoked (st_bl x) u j = (view (st_bl y) u (blacklistKeyPrefix @ j) \<noteq> None)"
    and "\<forall>u tok c e. Verify (l_jwt lib) u tok cfg = Inr c \<and> ExpiresAt c = Some e \<longrightarrow> e mod millisecond = 0"
    and "0 \<le> t" and "clock_ok t ops" and "\<forall>z \<in> set ops. fst z mod millisecond = 0"
  shows "auth_run lib (NewAuthUseCase U MemoryCacher cfg rexp (Some MemoryBlacklist) cost) x ops =
    auth_run lib (NewAuthUseCase U (RedisCacher R ns) cfg rexp (Some (RedisBlacklist R)) cost) y ops"
proof -
  note mr = memory_and_redis [OF assms(1-3), of ns U cfg cost]
  show ?thesis
  proof (rule two_backends.agree_run [OF mr _ assms(12,13)])
    show "two_backends.states_agree mem_peek mem_inv (redis_peek view ns) up mbl_revoked wf_gomap (rbl_revoked view) up t x y"
      using assms(4-10)
      by (simp add: two_backends.states_agree_def [OF mr] two_backends.caches_agree_def [OF mr] two_backends.lists_agree_def [OF mr]
          rbl_revoked_def)
    have "redis_ttl (e - u)" if "u mod millisecond = 0" "e mod millisecond = 0" "u < e" for u e
      using that by (simp add: redis_ttl_def mod_diff_eq [symmetric])
    then show "\<forall>z \<in> set ops. two_backends.lifetimes_ok (\<lambda>_. True) redis_ttl
        (NewAuthUseCase U MemoryCacher cfg rexp (Some MemoryBlacklist) cost) lib (fst z)"
      using assms(11,14) by (auto simp: two_backends.lifetimes_ok_def [OF mr])
  qed
qed

text \<open>The demo service on Redis, with the same user, session and reset token.\<close>

definition demo_redis :: "(User list, redis_server, redis_server) auth_state" where
  "demo_redis = \<lparr>st_db = [demo_user],
     st_cache = \<lparr>rs_up = True, rs_kv =
       [(''app:'' @ refreshKeyPrefix @ newJTI [2], (JObj [(''sub'', JStr ''uu''), (''ver'', JNum 0)], 0)),
        (''app:'' @ resetKeyPrefix @ ''tok'', (JStr ''a@x'', 0))]\<rparr>,
     st_bl = \<lparr>rs_up = True, rs_kv = []\<rparr>\<rparr>"

lemma demo_redis_state:
  "st_db (demo_state 0) = st_db demo_redis" "rs_up (st_cache demo_redis)" "rs_up (st_bl demo_redis)"
  "mem_peek (st_cache (demo_state 0)) u k = rs_view (st_cache demo_redis) u (prefixed ''app'' k)"
  "mbl_revoked (st_bl (demo_state 0)) u j = (rs_view (st_bl demo_redis) u (blacklistKeyPrefix @ j) \<noteq> None)"
  by (simp_all add: demo_state_def demo_redis_def mem_peek_def rs_view_def prefixed_def entry_expired_def mbl_revoked_def)

lemma demo_expiries: "Verify (l_jwt demo_lib) u tok demo_cfg = Inr c \<and> ExpiresAt c = Some e \<longrightarrow> e mod millisecond = 0"
  using demo_payload by (fastforce simp: demo_tokens_def demo_fields)

theorem backends_agree_witness:
  "auth_run demo_lib demo_auth (demo_state 0)
     [(1100 * second, DoRefresh [3] [4] ''R1''), (1200 * second, DoRefresh [5] [6] ''R1''), (1300 * second, DoLogout ''A2'' []),
      (1400 * second, DoCheck ''Bearer A2'')] =
   auth_run demo_lib (NewAuthUseCase (NewUserRepository (gorm_table True)) (RedisCacher redis_table ''app'') demo_cfg (9000 * second)
       (Some (RedisBlacklist redis_table)) 12) demo_redis
     [(1100 * second, DoRefresh [3] [4] ''R1''), (1200 * second, DoRefresh [5] [6] ''R1''), (1300 * second, DoLogout ''A2'' []),
      (1400 * second, DoCheck ''Bearer A2'')]"
  unfolding demo_auth_def
  by (rule backends_agree [OF redis_table_ok redis_table_up, where t = 0])
    (use demo_inv demo_expiries in \<open>simp_all add: demo_redis_state redis_ttl_def\<close>)

text \<open>When Redis fails, the middleware lets a revoked token through, which the blacklist in memory would have refused.\<close>

lemma revoked_token_passes_failing_redis:
  assumes "Verify L now tok cfg = Inr c" and "TokenType c = ''access''" and "ID c \<noteq> []"
    and "isl (fst (bIsRevoked (RedisBlacklist R) s now (ID c)))" and "mbl_revoked b now (ID c)"
  shows "fst (Middleware L cfg [Some (RedisBlacklist R)] s now (''Bearer '' @ tok)) = Inr c"
    and "fst (Middleware L cfg [Some MemoryBlacklist] b now (''Bearer '' @ tok)) = Inl ErrUnauthorized"
  using assms mem_IsRevoked_result [of "ID c" b now] HasPrefix_append [of "''Bearer ''" tok] TrimPrefix_append [of "''Bearer ''" tok]
  by (auto simp: Middleware_def MemoryBlacklist_def split: sum.splits prod.splits)

end
