(* ===== verification/Logging.thy ===== *)
theory Logging
  imports Prelude
begin

text \<open>
  Logging: \<^verbatim>\<open>pkg/logger/logger.go\<close>, \<^verbatim>\<open>pkg/logger/sinks.go\<close> and \<^verbatim>\<open>pkg/auditlog/auditlog.go\<close>, with the calendar the daily writer needs
  of the package \<^verbatim>\<open>time\<close>. The logging library and its size-based rotation are not modelled beyond their configuration: a log
  line is the list of its fields. The daily writer works on the files of one directory, a map from names to
  the list of writes each with its time; the directory's path is taken to be clean and free of pattern characters. The local zone has a
  fixed offset from UTC, so that a day of \<^verbatim>\<open>AddDate\<close> is 24 hours; changes to and from summer time are left out.
\<close>

section \<open>Dates\<close>

text \<open>Days are counted from the first day of year 1; a zone is its offset from UTC in nanoseconds.\<close>

abbreviation day :: duration where "day \<equiv> 86400000000000"

definition leap :: "nat \<Rightarrow> bool" where
  "leap y \<longleftrightarrow> y mod 4 = 0 \<and> (y mod 100 \<noteq> 0 \<or> y mod 400 = 0)"

definition year_days :: "nat \<Rightarrow> nat" where
  "year_days y = (if leap y then 366 else 365)"

definition month_lengths :: "nat \<Rightarrow> nat list" where
  "month_lengths y = [31, if leap y then 29 else 28, 31, 30, 31, 30, 31, 31, 30, 31, 30, 31]"

function civil_year :: "nat \<Rightarrow> nat \<Rightarrow> nat \<times> nat" where
  "civil_year y n = (if n < year_days y then (y, n) else civil_year (Suc y) (n - year_days y))"
  by pat_completeness auto

termination
  by (relation "measure (\<lambda>(y, n). n)") (auto simp: year_days_def)

declare civil_year.simps [simp del]

fun civil_month :: "nat list \<Rightarrow> nat \<Rightarrow> nat \<Rightarrow> nat \<times> nat" where
  "civil_month [] m d = (m, d)"
| "civil_month (l # ls) m d = (if d < l then (m, d) else civil_month ls (Suc m) (d - l))"

definition civil :: "nat \<Rightarrow> nat \<times> nat \<times> nat" where
  "civil n = (case civil_year 1 n of (y, k) \<Rightarrow> case civil_month (month_lengths y) 1 k of (m, d) \<Rightarrow> (y, m, Suc d))"

text \<open>The day number of a date; year 0, which a text can name, is before the first day.\<close>

fun year_start :: "nat \<Rightarrow> int" where
  "year_start 0 = -366"
| "year_start (Suc y) = year_start y + int (year_days y)"

definition day_number :: "nat \<Rightarrow> nat \<Rightarrow> nat \<Rightarrow> int" where
  "day_number y m d = year_start y + int (sum_list (take (m - 1) (month_lengths y))) + int d - 1"

definition pad_zero :: "nat \<Rightarrow> nat \<Rightarrow> string" where
  "pad_zero w n = replicate (w - length (nat_str n)) (CHR ''0'') @ nat_str n"

text \<open>\<^verbatim>\<open>t.Format("2006-01-02")\<close> of an instant in a zone.\<close>

definition local_day :: "int \<Rightarrow> time \<Rightarrow> nat" where
  "local_day zone t = nat ((t + zone) div day)"

definition format_date :: "nat \<Rightarrow> string" where
  "format_date n = (case civil n of (y, m, d) \<Rightarrow> pad_zero 4 y @ ''-'' @ pad_zero 2 m @ ''-'' @ pad_zero 2 d)"

text \<open>\<^verbatim>\<open>time.Parse("2006-01-02", s)\<close>: midnight UTC of that day, as a day number.\<close>

definition parse_date :: "string \<Rightarrow> int option" where
  "parse_date s =
     (let y = take 4 s; m = take 2 (drop 5 s); d = drop 8 s in
      if length s = 10 \<and> list_all is_digit (y @ m @ d) \<and> s ! 4 = CHR ''-'' \<and> s ! 7 = CHR ''-'' then
        let yy = dec_number y; mm = dec_number m; dd = dec_number d in
        if 1 \<le> mm \<and> mm \<le> 12 \<and> 1 \<le> dd \<and> dd \<le> month_lengths yy ! (mm - 1) then Some (day_number yy mm dd) else None
      else None)"

section \<open>The daily writer\<close>

datatype file_handle = OpenFile string | ClosedFile string

record dailyWriter =
  dw_base :: string
  dw_maxAge :: int
  dw_curDate :: string
  dw_f :: "file_handle option"

type_synonym log_files = "(time \<times> string) list gomap"

definition newDailyWriter :: "string \<Rightarrow> int \<Rightarrow> dailyWriter" where
  "newDailyWriter base maxAge = \<lparr>dw_base = base, dw_maxAge = maxAge, dw_curDate = [], dw_f = None\<rparr>"

definition dated_name :: "string \<Rightarrow> string \<Rightarrow> string" where
  "dated_name base date = base @ ''-'' @ date @ ''.log''"

definition glob_log :: "string \<Rightarrow> string \<Rightarrow> bool" where
  "glob_log base n \<longleftrightarrow> HasPrefix n (base @ ''-'') \<and> HasSuffix n ''.log'' \<and> length base + 5 \<le> length n"

definition expired_file :: "string \<Rightarrow> time \<Rightarrow> string \<Rightarrow> bool" where
  "expired_file base cutoff n =
     (case parse_date (TrimSuffix (TrimPrefix n (base @ ''-'')) ''.log'') of
        None \<Rightarrow> False
      | Some D \<Rightarrow> D * day < cutoff)"

definition cleanup :: "time \<Rightarrow> dailyWriter \<Rightarrow> log_files \<Rightarrow> log_files" where
  "cleanup now w fs =
     (if dw_maxAge w \<le> 0 then fs
      else let cutoff = now - dw_maxAge w * day in
           filter (\<lambda>(n, ls). \<not> (glob_log (dw_base w) n \<and> expired_file (dw_base w) cutoff n)) fs)"

text \<open>\<open>openErr\<close> is the error of opening a file, if any.\<close>

definition rotate :: "(string \<Rightarrow> string option) \<Rightarrow> time \<Rightarrow> string \<Rightarrow> dailyWriter \<Rightarrow> log_files \<Rightarrow> string option \<times> dailyWriter \<times> log_files" where
  "rotate openErr now today w fs =
     (let w1 = (case dw_f w of Some (OpenFile n) \<Rightarrow> w\<lparr>dw_f := Some (ClosedFile n)\<rparr> | _ \<Rightarrow> w);
          path = dated_name (dw_base w) today in
      case openErr path of
        Some err \<Rightarrow> (Some err, w1, fs)
      | None \<Rightarrow>
          let fs1 = (if map_of fs path = None then AList.update path [] fs else fs);
              w2 = w1\<lparr>dw_f := Some (OpenFile path), dw_curDate := today\<rparr> in
          (None, w2, cleanup now w2 fs1))"

text \<open>Writing to the open file; the bytes of a file that was removed meanwhile are lost with it.\<close>

definition file_Write :: "time \<Rightarrow> string \<Rightarrow> dailyWriter \<Rightarrow> log_files \<Rightarrow> string option \<times> log_files" where
  "file_Write now p w fs = (case dw_f w of
     Some (OpenFile n) \<Rightarrow> (None, case map_of fs n of None \<Rightarrow> fs | Some ls \<Rightarrow> AList.update n (ls @ [(now, p)]) fs)
   | _ \<Rightarrow> (Some ''file already closed'', fs))"

definition dw_Write :: "(string \<Rightarrow> string option) \<Rightarrow> int \<Rightarrow> time \<Rightarrow> string \<Rightarrow> dailyWriter \<Rightarrow> log_files \<Rightarrow> string option \<times> dailyWriter \<times> log_files" where
  "dw_Write openErr zone now p w fs =
     (let today = format_date (local_day zone now) in
      if dw_f w = None \<or> today \<noteq> dw_curDate w then
        (case rotate openErr now today w fs of
           (Some err, w', fs') \<Rightarrow> (Some err, w', fs')
         | (None, w', fs') \<Rightarrow> (case file_Write now p w' fs' of (e, fs'') \<Rightarrow> (e, w', fs'')))
      else (case file_Write now p w fs of (e, fs') \<Rightarrow> (e, w, fs')))"

text \<open>A history of writes, each with its time, its text and the errors of opening files then; the result lists the
  writes that reported success.\<close>

fun dw_run :: "int \<Rightarrow> (time \<times> string \<times> (string \<Rightarrow> string option)) list \<Rightarrow> dailyWriter \<Rightarrow> log_files \<Rightarrow> (time \<times> string) list \<times> dailyWriter \<times> log_files" where
  "dw_run zone [] w fs = ([], w, fs)"
| "dw_run zone ((now, p, openErr) # xs) w fs =
     (case dw_Write openErr zone now p w fs of (e, w', fs') \<Rightarrow>
        (case dw_run zone xs w' fs' of (ok, r) \<Rightarrow> ((if e = None then (now, p) # ok else ok), r)))"

section \<open>Sinks\<close>

record SinkConfig =
  sk_Dir :: string
  sk_Rotation :: string
  sk_MaxAgeDays :: int
  sk_MaxSizeMB :: int
  sk_Console :: bool

datatype sink_writer = Daily string dailyWriter | BySize string int int bool

record sink =
  si_name :: string
  si_writer :: sink_writer
  si_console :: bool

definition newSinkLogger :: "string \<Rightarrow> SinkConfig \<Rightarrow> sink" where
  "newSinkLogger name cfg =
     \<lparr>si_name = name,
      si_writer = (if sk_Rotation cfg = ''daily'' then Daily (sk_Dir cfg) (newDailyWriter name (sk_MaxAgeDays cfg))
        else BySize (sk_Dir cfg @ ''/'' @ name @ ''.log'') (sk_MaxSizeMB cfg) (sk_MaxAgeDays cfg) True),
      si_console = sk_Console cfg\<rparr>"

definition sink_defaults :: "SinkConfig \<Rightarrow> SinkConfig" where
  "sink_defaults cfg =
     \<lparr>sk_Dir = (if sk_Dir cfg = [] then ''logs'' else sk_Dir cfg),
      sk_Rotation = (if sk_Rotation cfg = [] then ''size'' else sk_Rotation cfg),
      sk_MaxAgeDays = (if sk_MaxAgeDays cfg = 0 then 30 else sk_MaxAgeDays cfg),
      sk_MaxSizeMB = (if sk_MaxSizeMB cfg = 0 then 100 else sk_MaxSizeMB cfg), sk_Console = sk_Console cfg\<rparr>"

record sinks =
  apiSink :: "sink option"
  consumerSink :: "sink option"
  thirdPartySink :: "sink option"
  traceSink :: "sink option"

text \<open>Until they are set up, the sinks write nothing.\<close>

definition no_sinks :: sinks where
  "no_sinks = \<lparr>apiSink = None, consumerSink = None, thirdPartySink = None, traceSink = None\<rparr>"

definition SetupSinks :: "(string \<Rightarrow> string option) \<Rightarrow> SinkConfig \<Rightarrow> sinks \<Rightarrow> string option \<times> sinks" where
  "SetupSinks mkdirAll cfg0 s =
     (let cfg = sink_defaults cfg0 in
      case mkdirAll (sk_Dir cfg) of
        Some err \<Rightarrow> (Some err, s)
      | None \<Rightarrow> (None, \<lparr>apiSink = Some (newSinkLogger ''api'' cfg), consumerSink = Some (newSinkLogger ''consumer'' cfg),
          thirdPartySink = Some (newSinkLogger ''thirdparty'' cfg), traceSink = Some (newSinkLogger ''trace'' cfg)\<rparr>))"

section \<open>The application log\<close>

datatype log_writer = Stdout | ConsoleWriter | RotatingFile string int int int bool

record app_logger =
  al_level :: string
  al_writers :: "log_writer list"
  al_fields :: "(string \<times> string) list"

text \<open>\<open>parseLevel\<close> is the logging library's, \<open>mkdirAll\<close> creates the directory of the log file.\<close>

definition Setup_logger ::
  "(string \<Rightarrow> string option) \<Rightarrow> (string \<Rightarrow> string option) \<Rightarrow> string \<Rightarrow> string \<Rightarrow> string \<Rightarrow> bool \<Rightarrow> string \<Rightarrow> app_logger" where
  "Setup_logger parseLevel mkdirAll env level filePath toFile serviceName =
     \<lparr>al_level = (case parseLevel level of None \<Rightarrow> ''info'' | Some l \<Rightarrow> l),
      al_writers = (if env = ''production'' then [Stdout] else [ConsoleWriter]) @
        (if toFile \<and> filePath \<noteq> [] \<and> mkdirAll filePath = None then [RotatingFile filePath 100 7 30 True] else []),
      al_fields = [(''service'', serviceName)]\<rparr>"

text \<open>A context is the list of its values, the innermost first.\<close>

datatype ctx_key = RequestIDKey | AuditKey
datatype ctx_val = StrVal string | AuditVal app_logger

type_synonym ctx_values = "(ctx_key \<times> ctx_val) list"

definition WithRequestID :: "ctx_values \<Rightarrow> string \<Rightarrow> ctx_values" where
  "WithRequestID ctx requestID = (RequestIDKey, StrVal requestID) # ctx"

definition RequestIDFromContext :: "ctx_values \<Rightarrow> string" where
  "RequestIDFromContext ctx = (case map_of ctx RequestIDKey of Some (StrVal i) \<Rightarrow> i | _ \<Rightarrow> [])"

definition log_FromContext :: "app_logger \<Rightarrow> ctx_values \<Rightarrow> app_logger" where
  "log_FromContext L ctx =
     (let rid = RequestIDFromContext ctx in if rid \<noteq> [] then L\<lparr>al_fields := al_fields L @ [(''request_id'', rid)]\<rparr> else L)"

section \<open>The audit log\<close>

record 'd Entry =
  en_Timestamp :: time
  en_ActorID :: string
  en_ActorEmail :: string
  en_Action :: string
  en_Entity :: string
  en_EntityID :: string
  en_RequestID :: string
  en_Detail :: "'d option"

datatype 'd field_val = FStr string | FTime time | FAny 'd

definition audit_Log :: "time \<Rightarrow> app_logger \<Rightarrow> 'd Entry \<Rightarrow> (string \<times> 'd field_val) list" where
  "audit_Log now L e =
     map (\<lambda>(k, x). (k, FStr x)) (al_fields L) @
     [(''audit'', FStr ''true''), (''timestamp'', FTime (if en_Timestamp e = 0 then now else en_Timestamp e)),
      (''actor_id'', FStr (en_ActorID e)), (''action'', FStr (en_Action e)), (''entity'', FStr (en_Entity e)),
      (''entity_id'', FStr (en_EntityID e))] @
     (if en_ActorEmail e \<noteq> [] then [(''actor_email'', FStr (en_ActorEmail e))] else []) @
     (if en_RequestID e \<noteq> [] then [(''request_id'', FStr (en_RequestID e))] else []) @
     (case en_Detail e of None \<Rightarrow> [] | Some d \<Rightarrow> [(''detail'', FAny d)]) @ [(''message'', FStr ''audit'')]"

definition WithAuditLogger :: "ctx_values \<Rightarrow> app_logger \<Rightarrow> ctx_values" where
  "WithAuditLogger ctx l = (AuditKey, AuditVal l) # ctx"

definition audit_FromContext :: "ctx_values \<Rightarrow> app_logger option" where
  "audit_FromContext ctx = (case map_of ctx AuditKey of Some (AuditVal l) \<Rightarrow> Some l | _ \<Rightarrow> None)"

section \<open>Lemmas on dates\<close>

lemma year_start_1: "year_start 1 = 0"
  by (simp add: year_days_def leap_def)

lemma civil_year_spec:
  "civil_year y n = (y', k) \<Longrightarrow> y \<le> y' \<and> k < year_days y' \<and> year_start y + int n = year_start y' + int k"
proof (induction y n rule: civil_year.induct)
  case (1 y n)
  show ?case
  proof (cases "n < year_days y")
    case True
    then show ?thesis using 1(2) by (simp add: civil_year.simps [of y n])
  next
    case False
    then have "civil_year (Suc y) (n - year_days y) = (y', k)" using 1(2) by (simp add: civil_year.simps [of y n])
    from 1(1) [OF False this] False show ?thesis by auto
  qed
qed

lemma civil_month_spec:
  "civil_month ls m0 d = (m, e) \<Longrightarrow> d < sum_list ls \<Longrightarrow>
     \<exists>i < length ls. m = m0 + i \<and> e < ls ! i \<and> d = sum_list (take i ls) + e"
proof (induction ls m0 d rule: civil_month.induct)
  case (2 l ls m0 d)
  show ?case
  proof (cases "d < l")
    case True
    then show ?thesis using 2(2) by (intro exI [of _ 0]) simp
  next
    case False
    then obtain i where "i < length ls" "m = Suc m0 + i" "e < ls ! i" "d - l = sum_list (take i ls) + e"
      using 2 by fastforce
    then show ?thesis using False by (intro exI [of _ "Suc i"]) simp
  qed
qed simp

lemma month_lengths_sum: "sum_list (month_lengths y) = year_days y" and month_lengths_12 [simp]: "length (month_lengths y) = 12"
  by (simp_all add: month_lengths_def year_days_def)

lemma civil_spec:
  assumes "civil n = (y, m, d)"
  shows "1 \<le> m \<and> m \<le> 12 \<and> 1 \<le> d \<and> d \<le> month_lengths y ! (m - 1) \<and> day_number y m d = int n"
proof -
  obtain k where Y: "civil_year 1 n = (y, k)" and M: "civil_month (month_lengths y) 1 k = (m, d - 1)" and d: "1 \<le> d"
    using assms by (auto simp: civil_def split: prod.splits)
  note cy = civil_year_spec [OF Y]
  with civil_month_spec [OF M] obtain i where "i < 12" "m = Suc i" "d - 1 < month_lengths y ! i"
    "k = sum_list (take i (month_lengths y)) + (d - 1)" by (auto simp: month_lengths_sum)
  with cy d show ?thesis unfolding year_start_1 day_number_def by (simp add: of_nat_diff)
qed

lemma nat_str_length: "n < 10 ^ Suc w \<Longrightarrow> length (nat_str n) \<le> Suc w"
proof (induction w arbitrary: n)
  case (Suc w)
  show ?case
  proof (cases "n < 10")
    case False
    have "n div 10 < 10 ^ Suc w" using Suc.prems by (simp add: less_mult_imp_div_less)
    from Suc.IH [OF this] False show ?thesis by (simp add: nat_str.simps [of n])
  qed (subst nat_str.simps, simp)
qed (subst nat_str.simps, simp)

lemma pad_length: "n < 10 ^ Suc w \<Longrightarrow> length (pad_zero (Suc w) n) = Suc w"
  using nat_str_length [of n w] by (simp add: pad_zero_def)

lemma pad_digits: "list_all is_digit (pad_zero w n)"
  using nat_str_digits [of _ n] by (auto simp: pad_zero_def list_all_iff is_digit_def ord_char_def)

lemma dec_zero: "dec_number (CHR ''0'' # s) = dec_number s"
  by (simp add: dec_number_def ord_char_def)

lemma dec_pad [simp]: "dec_number (pad_zero w n) = n"
proof -
  have "dec_number (replicate k (CHR ''0'') @ nat_str n) = n" for k by (induction k) (simp_all add: dec_zero)
  then show ?thesis by (simp add: pad_zero_def)
qed

lemma parse_format:
  assumes "fst (civil n) < 10000"
  shows "parse_date (format_date n) = Some (int n)"
proof -
  obtain y m d where C: "civil n = (y, m, d)" by (metis prod_cases3)
  note S = civil_spec [OF C]
  have "month_lengths y ! (m - 1) \<le> 31"
  proof -
    have "month_lengths y ! (m - 1) \<in> set (month_lengths y)" using S by (intro nth_mem) auto
    then show ?thesis by (auto simp: month_lengths_def split: if_splits)
  qed
  then have L: "length (pad_zero 4 y) = 4" "length (pad_zero 2 m) = 2" "length (pad_zero 2 d) = 2"
  proof -
    have "m < 10 ^ Suc (Suc 0)" "d < 10 ^ Suc (Suc 0)" "y < 10 ^ Suc 3"
      using S \<open>month_lengths y ! (m - 1) \<le> 31\<close> assms C by simp_all
    from this [THEN pad_length] show "length (pad_zero 4 y) = 4" "length (pad_zero 2 m) = 2" "length (pad_zero 2 d) = 2"
      by (simp_all add: numeral_2_eq_2)
  qed
  let ?s = "pad_zero 4 y @ ''-'' @ pad_zero 2 m @ ''-'' @ pad_zero 2 d"
  have T: "take 4 ?s = pad_zero 4 y" "take 2 (drop 5 ?s) = pad_zero 2 m" "drop 8 ?s = pad_zero 2 d" "length ?s = 10" "?s ! 4 = CHR ''-''" "?s ! 7 = CHR ''-''"
    using L by (simp_all add: nth_append)
  show ?thesis unfolding format_date_def C prod.case parse_date_def Let_def T
    using S by (simp add: pad_digits)
qed

section \<open>Lemmas on the daily writer\<close>

lemma dated_parts:
  "TrimSuffix (TrimPrefix (dated_name base date) (base @ ''-'')) ''.log'' = date"
  unfolding dated_name_def using TrimPrefix_append [of "base @ ''-''" "date @ ''.log''"] TrimSuffix_append by simp

lemma keys_cleanup: "map_of (cleanup now w fs) n = None \<or> map_of (cleanup now w fs) n = map_of fs n" if "wf_gomap fs"
  using that unfolding cleanup_def Let_def by (induction fs) (auto simp: map_of_eq_None_iff)

text \<open>A clean-up takes away expired dated files of its own base only, and leaves every other file as it was.\<close>

lemma cleanup_keeps:
  assumes "\<not> (glob_log (dw_base w) n \<and> expired_file (dw_base w) (now - dw_maxAge w * day) n)"
  shows "map_of (cleanup now w fs) n = map_of fs n"
  using assms by (induction fs) (auto simp: cleanup_def Let_def)

lemma wf_cleanup: "wf_gomap fs \<Longrightarrow> wf_gomap (cleanup now w fs)"
  by (simp add: cleanup_def Let_def distinct_map_filter)

lemma cleanup_removes:
  "n \<in> set (map fst (cleanup now w fs)) \<Longrightarrow> 0 < dw_maxAge w \<Longrightarrow> glob_log (dw_base w) n \<Longrightarrow>
     \<not> expired_file (dw_base w) (now - dw_maxAge w * day) n"
  by (auto simp: cleanup_def Let_def)

text \<open>The name of the file of an instant. It is expired only long after every instant of its day.\<close>

definition file_of :: "int \<Rightarrow> string \<Rightarrow> time \<Rightarrow> string" where
  "file_of zone base t = dated_name base (format_date (local_day zone t))"

definition ok_time :: "int \<Rightarrow> time \<Rightarrow> bool" where
  "ok_time zone t \<longleftrightarrow> 0 \<le> t + zone \<and> fst (civil (local_day zone t)) < 10000"

text \<open>The clean-up reads the local date in a file name as a date in UTC: the file stays until that midnight is more than the
  configured age back.\<close>

definition recent :: "int \<Rightarrow> int \<Rightarrow> time \<Rightarrow> time \<Rightarrow> bool" where
  "recent zone maxAge now t \<longleftrightarrow> maxAge \<le> 0 \<or> now \<le> (int (local_day zone t) + maxAge) * day"

lemma local_day_bound: "0 \<le> t + zone \<Longrightarrow> t + zone < (int (local_day zone t) + 1) * day"
proof -
  assume nn: "0 \<le> t + zone"
  have "(t + zone) mod day < day" by (rule pos_mod_bound) simp
  then have "t + zone < ((t + zone) div day + 1) * day" using div_mult_mod_eq [of "t + zone" day] by (simp add: algebra_simps)
  then show ?thesis using nn by (simp add: local_day_def pos_imp_zdiv_nonneg_iff)
qed

lemma not_recent:
  assumes "ok_time zone t" "int (local_day zone t) * day + maxAge * day < now" "0 < maxAge"
  shows "\<not> recent zone maxAge now t"
  using assms by (simp add: recent_def algebra_simps)

text \<open>East of UTC a line is safe for one day less than the configured age; west of UTC the offset is missing from that, too.\<close>

lemma young_recent:
  assumes "0 \<le> t + zone" "now - t \<le> (maxAge - 1) * day + zone"
  shows "recent zone maxAge now t"
  using assms local_day_bound [of t zone] by (simp add: recent_def algebra_simps)

lemma expired_not_recent:
  assumes "ok_time zone t" "expired_file base (now - maxAge * day) (file_of zone base t)" "0 < maxAge"
  shows "\<not> recent zone maxAge now t"
proof (rule not_recent [OF assms(1) _ assms(3)])
  show "int (local_day zone t) * day + maxAge * day < now"
    using assms(1,2) parse_format [of "local_day zone t"]
    by (simp add: expired_file_def file_of_def dated_parts ok_time_def)
qed

text \<open>What holds between two writes: \<open>W\<close> are the writes that reported success so far. The open file is that of the current
  date and is still there, unless it has expired.\<close>

definition lines_kept :: "int \<Rightarrow> string \<Rightarrow> int \<Rightarrow> time \<Rightarrow> (time \<times> string) set \<Rightarrow> log_files \<Rightarrow> bool" where
  "lines_kept zone base maxAge now W fs \<longleftrightarrow>
     (\<forall>(t, p) \<in> W. t \<le> now \<and> ok_time zone t \<and>
        (recent zone maxAge now t \<longrightarrow> (\<exists>ls. map_of fs (file_of zone base t) = Some ls \<and> (t, p) \<in> set ls)))"

definition handle_ok :: "time \<Rightarrow> dailyWriter \<Rightarrow> log_files \<Rightarrow> bool" where
  "handle_ok now w fs \<longleftrightarrow> (\<forall>n. dw_f w = Some (OpenFile n) \<longrightarrow>
     (\<exists>D. dw_curDate w = format_date D \<and> n = dated_name (dw_base w) (format_date D) \<and> fst (civil D) < 10000 \<and>
        (map_of fs n = None \<longrightarrow> 0 < dw_maxAge w \<and> int D * day + dw_maxAge w * day < now)))"

lemma kept_later: "lines_kept zone base maxAge now W fs \<Longrightarrow> now \<le> now' \<Longrightarrow> lines_kept zone base maxAge now' W fs"
  by (fastforce simp: lines_kept_def recent_def)

lemma handle_later: "handle_ok now w fs \<Longrightarrow> now \<le> now' \<Longrightarrow> handle_ok now' w fs"
  by (fastforce simp: handle_ok_def)

lemma write_keeps:
  assumes "lines_kept zone (dw_base w) (dw_maxAge w) now W fs" and H: "handle_ok now w fs" and "ok_time zone now"
    and "file_Write now p w fs = (e, fs')" and cur: "dw_curDate w = format_date (local_day zone now)"
  shows "lines_kept zone (dw_base w) (dw_maxAge w) now (if e = None then insert (now, p) W else W) fs' \<and> handle_ok now w fs'"
proof (cases "\<exists>n. dw_f w = Some (OpenFile n)")
  case False
  then have "e \<noteq> None" "fs' = fs" using assms(4) by (auto simp: file_Write_def split: option.splits file_handle.splits)
  then show ?thesis using assms(1,2) by auto
next
  case True
  then obtain n D where n: "dw_f w = Some (OpenFile n)" "n = dated_name (dw_base w) (format_date D)" "dw_curDate w = format_date D"
    "fst (civil D) < 10000" "map_of fs n = None \<longrightarrow> 0 < dw_maxAge w \<and> int D * day + dw_maxAge w * day < now"
    using H unfolding handle_ok_def by blast
  have "D = local_day zone now"
    using parse_format [OF n(4)] parse_format [of "local_day zone now"] assms(3) n(3) cur by (simp add: ok_time_def)
  then have nf: "n = file_of zone (dw_base w) now" using n(2) by (simp add: file_of_def)
  show ?thesis
  proof (cases "map_of fs n")
    case None
    then have "e = None" "fs' = fs" using assms(4) n(1) by (auto simp: file_Write_def)
    moreover have "\<not> recent zone (dw_maxAge w) now now"
      using not_recent [OF assms(3)] n(5) None \<open>D = local_day zone now\<close> by blast
    ultimately show ?thesis using assms(1-3) by (auto simp: lines_kept_def)
  next
    case (Some ls)
    then have e: "e = None" "fs' = AList.update n (ls @ [(now, p)]) fs" using assms(4) n(1) by (auto simp: file_Write_def)
    have "lines_kept zone (dw_base w) (dw_maxAge w) now W fs'" using assms(1) Some unfolding lines_kept_def e(2)
      by (fastforce split: prod.splits)
    moreover have "handle_ok now w fs'" using H n(1) e(2) by (auto simp: handle_ok_def)
    ultimately show ?thesis using e nf assms(3) by (auto simp: lines_kept_def)
  qed
qed

lemma rotate_keeps:
  assumes K: "lines_kept zone (dw_base w) (dw_maxAge w) now W fs" and "handle_ok now w fs" and ok: "ok_time zone now"
    and R: "rotate openErr now (format_date (local_day zone now)) w fs = (e, w', fs')"
  shows "lines_kept zone (dw_base w) (dw_maxAge w) now W fs' \<and> handle_ok now w' fs' \<and> dw_base w' = dw_base w \<and> dw_maxAge w' = dw_maxAge w \<and>
    (e = None \<longrightarrow> dw_curDate w' = format_date (local_day zone now))"
proof -
  let ?D = "local_day zone now"
  let ?path = "dated_name (dw_base w) (format_date ?D)"
  let ?fs1 = "if map_of fs ?path = None then AList.update ?path [] fs else fs"
  show ?thesis
  proof (cases "openErr ?path")
    case (Some err)
    then show ?thesis using assms by (auto simp: rotate_def Let_def handle_ok_def split: option.splits file_handle.splits)
  next
    case None
    then have w': "e = None" "dw_f w' = Some (OpenFile ?path)" "dw_curDate w' = format_date ?D" "dw_base w' = dw_base w"
      "dw_maxAge w' = dw_maxAge w" "fs' = cleanup now w' ?fs1"
      using R by (auto simp: rotate_def Let_def split: option.splits file_handle.splits)
    have keep: "map_of fs' n = map_of ?fs1 n"
      if "\<not> (0 < dw_maxAge w \<and> expired_file (dw_base w) (now - dw_maxAge w * day) n)" for n
    proof (cases "0 < dw_maxAge w")
      case True
      then show ?thesis using that cleanup_keeps [of w' n now ?fs1] w' by auto
    qed (simp add: w' cleanup_def)
    have "lines_kept zone (dw_base w) (dw_maxAge w) now W fs'"
      unfolding lines_kept_def
    proof (intro ballI, clarify, intro conjI impI)
      fix t p assume tp: "(t, p) \<in> W"
      then show "t \<le> now" "ok_time zone t" using K by (auto simp: lines_kept_def)
      assume r: "recent zone (dw_maxAge w) now t"
      then obtain ls where ls: "map_of fs (file_of zone (dw_base w) t) = Some ls" "(t, p) \<in> set ls"
        using K tp by (fastforce simp: lines_kept_def)
      have "map_of fs' (file_of zone (dw_base w) t) = map_of ?fs1 (file_of zone (dw_base w) t)"
        using keep expired_not_recent [OF \<open>ok_time zone t\<close>] r by blast
      then show "\<exists>ls. map_of fs' (file_of zone (dw_base w) t) = Some ls \<and> (t, p) \<in> set ls" using ls by auto
    qed
    moreover have "handle_ok now w' fs'"
    proof -
      have "0 < dw_maxAge w \<and> int ?D * day + dw_maxAge w * day < now" if "map_of fs' ?path = None"
      proof -
        have "map_of ?fs1 ?path \<noteq> None" by simp
        then have "0 < dw_maxAge w" "expired_file (dw_base w) (now - dw_maxAge w * day) ?path" using keep [of ?path] that by metis+
        then show ?thesis using parse_format [of ?D] ok by (simp add: expired_file_def dated_parts ok_time_def)
      qed
      then show ?thesis using w' ok by (auto simp: handle_ok_def ok_time_def)
    qed
    ultimately show ?thesis using w' by simp
  qed
qed

lemma dw_Write_keeps:
  assumes "lines_kept zone (dw_base w) (dw_maxAge w) now W fs" and "handle_ok now w fs" and "ok_time zone now"
    and "dw_Write openErr zone now p w fs = (e, w', fs')"
  shows "lines_kept zone (dw_base w') (dw_maxAge w') now (if e = None then insert (now, p) W else W) fs' \<and> handle_ok now w' fs' \<and>
    dw_base w' = dw_base w \<and> dw_maxAge w' = dw_maxAge w"
proof (cases "dw_f w = None \<or> format_date (local_day zone now) \<noteq> dw_curDate w")
  case False
  then have "file_Write now p w fs = (e, fs')" "w' = w" using assms(4) by (auto simp: dw_Write_def Let_def split: prod.splits)
  then show ?thesis using write_keeps [OF assms(1-3)] False by simp
next
  case True
  obtain e1 w1 fs1 where R: "rotate openErr now (format_date (local_day zone now)) w fs = (e1, w1, fs1)" by (metis prod_cases3)
  note K = rotate_keeps [OF assms(1-3) R]
  show ?thesis
  proof (cases e1)
    case None
    then have "file_Write now p w1 fs1 = (e, fs')" "w' = w1" using True assms(4) R by (auto simp: dw_Write_def Let_def split: prod.splits)
    then show ?thesis using write_keeps [of zone w1 now W fs1 p e fs'] K assms(3) None by simp
  next
    case (Some err)
    then have "e = Some err" "w' = w1" "fs' = fs1" using True assms(4) R by (auto simp: dw_Write_def Let_def)
    then show ?thesis using K by simp
  qed
qed

lemma dw_run_keeps:
  assumes "lines_kept zone (dw_base w) (dw_maxAge w) now W fs" and "handle_ok now w fs"
    and "list_all (ok_time zone) (map fst xs)" and "sorted (now # map fst xs)" and "dw_run zone xs w fs = (ok, w', fs')"
  shows "lines_kept zone (dw_base w) (dw_maxAge w) (last (now # map fst xs)) (W \<union> set ok) fs'"
  using assms
proof (induction xs arbitrary: now W w fs ok)
  case (Cons x xs)
  obtain t p oe where x: "x = (t, p, oe)" by (metis prod_cases3)
  obtain e w1 fs1 where S: "dw_Write oe zone t p w fs = (e, w1, fs1)" by (metis prod_cases3)
  obtain ok1 where R: "dw_run zone xs w1 fs1 = (ok1, w', fs')" and ok: "ok = (if e = None then (t, p) # ok1 else ok1)"
    using Cons.prems(5) x S by (auto split: prod.splits)
  have "now \<le> t" "ok_time zone t" using Cons.prems(3,4) x by auto
  then have K: "lines_kept zone (dw_base w) (dw_maxAge w) t (if e = None then insert (t, p) W else W) fs1" "handle_ok t w1 fs1"
    "dw_base w1 = dw_base w" "dw_maxAge w1 = dw_maxAge w"
    using dw_Write_keeps [OF kept_later handle_later _ S] Cons.prems(1,2) by force+
  have "lines_kept zone (dw_base w1) (dw_maxAge w1) (last (t # map fst xs)) ((if e = None then insert (t, p) W else W) \<union> set ok1) fs'"
    using Cons.IH [of w1 t "if e = None then insert (t, p) W else W" fs1 ok1] K R Cons.prems(3,4) x by simp
  then show ?case using ok K x by auto
qed simp

section \<open>Properties\<close>

text \<open>C20. The daily log files keep their lines. After any history of writes of a sink on any directory, in a zone with a fixed offset,
  with rotations, clean-ups and failing opens in between and a clock that does not go back, every line whose write reported success is
  in the file of its local date, as long as the midnight of that date, read in UTC, is not further back than the configured
  age; without a maximum age every line is kept for ever. A line is therefore safe while its age is at most one day less than the
  configured one plus the zone's offset (which is negative west of UTC).\<close>

theorem log_lines_kept:
  assumes "dw_run zone xs (newDailyWriter base maxAge) fs = (ok, w, fs')" and "sorted (map fst xs)"
    and "list_all (ok_time zone) (map fst xs)" and "(t, p) \<in> set ok"
    and "maxAge \<le> 0 \<or> last (map fst xs) \<le> (int (local_day zone t) + maxAge) * day \<or> last (map fst xs) - t \<le> (maxAge - 1) * day + zone"
  shows "\<exists>ls. map_of fs' (dated_name base (format_date (local_day zone t))) = Some ls \<and> (t, p) \<in> set ls"
proof -
  have "xs \<noteq> []" using assms(1,4) by auto
  then obtain x xs' where xs: "xs = x # xs'" by (cases xs) auto
  have "lines_kept zone base maxAge (last (fst x # map fst xs)) ({} \<union> set ok) fs'"
    using dw_run_keeps [of zone "newDailyWriter base maxAge" "fst x" "{}" fs xs ok w fs'] assms xs
    by (simp add: newDailyWriter_def lines_kept_def handle_ok_def)
  moreover from this have "0 \<le> t + zone" using assms(4) by (fastforce simp: lines_kept_def ok_time_def)
  then have "recent zone maxAge (last (map fst xs)) t"
    using assms(5) young_recent [of t zone "last (map fst xs)" maxAge] by (auto simp: recent_def)
  ultimately show ?thesis using assms(4) xs by (fastforce simp: lines_kept_def file_of_def)
qed

lemma dates:
  "format_date 0 = ''0001-01-01''" "format_date 59 = ''0001-03-01''" "parse_date ''0004-02-29'' = Some 1154"
  "parse_date ''0003-02-29'' = None" "parse_date ''0003-2-09'' = None" "parse_date ''0003-13-09'' = None"
  by code_simp+

lemma two_days:
  "dw_run 0 [(hour, ''a'', Map.empty), (25 * hour, ''b'', Map.empty)] (newDailyWriter ''api'' 2) [(''api-old.log'', [])] =
     ([(hour, ''a''), (25 * hour, ''b'')],
      \<lparr>dw_base = ''api'', dw_maxAge = 2, dw_curDate = ''0001-01-02'', dw_f = Some (OpenFile ''api-0001-01-02.log'')\<rparr>,
      [(''api-old.log'', []), (''api-0001-01-01.log'', [(hour, ''a'')]), (''api-0001-01-02.log'', [(25 * hour, ''b'')])])"
  by code_simp

theorem log_lines_kept_witness:
  "\<exists>ls. map_of [(''api-old.log'', []), (''api-0001-01-01.log'', [(hour, ''a'')]), (''api-0001-01-02.log'', [(25 * hour, ''b'')])]
     (dated_name ''api'' (format_date (local_day 0 hour))) = Some ls \<and> (hour, ''a'') \<in> set ls"
proof (rule log_lines_kept [OF two_days])
  show "list_all (ok_time 0) (map fst [(hour, ''a'', Map.empty), (25 * hour, ''b'', Map.empty :: string \<Rightarrow> string option)])"
    by code_simp
qed simp_all

text \<open>Eight hours west of UTC, with a maximum age of two days, a line 17 hours and a minute old is removed.\<close>

lemma west_of_utc_line_lost:
  "map fst (snd (snd (dw_run (-8 * hour) [(31 * hour, ''a'', Map.empty), (48 * hour + minute, ''b'', Map.empty)] (newDailyWriter ''api'' 2) []))) =
     [''api-0001-01-02.log'']"
  by code_simp

text \<open>A day later the first file is gone, and only that one.\<close>

lemma third_day:
  "map fst (snd (snd (dw_run 0 [(hour, ''a'', Map.empty), (25 * hour, ''b'', Map.empty), (71 * hour, ''c'', Map.empty)]
     (newDailyWriter ''api'' 2) [(''api-old.log'', []), (''api2-0001-01-01.log'', [])]))) =
     [''api-old.log'', ''api2-0001-01-01.log'', ''api-0001-01-02.log'', ''api-0001-01-03.log'']"
  by code_simp

text \<open>The audit line carries who did what; a context hands back the innermost request id and audit log.\<close>

lemma audit_fields:
  "(''actor_id'', FStr (en_ActorID e)) \<in> set (audit_Log now L e)" "(''action'', FStr (en_Action e)) \<in> set (audit_Log now L e)"
  "(''entity_id'', FStr (en_EntityID e)) \<in> set (audit_Log now L e)" "0 < now \<Longrightarrow> (''timestamp'', FTime 0) \<notin> set (audit_Log now L e)"
  by (auto simp: audit_Log_def split: option.splits)

lemma context_values:
  "RequestIDFromContext (WithAuditLogger (WithRequestID ctx i) l) = i" "audit_FromContext (WithRequestID (WithAuditLogger ctx l) i) = Some l"
  "i \<noteq> [] \<Longrightarrow> (''request_id'', i) \<in> set (al_fields (log_FromContext L (WithRequestID ctx i)))"
  by (simp_all add: WithRequestID_def WithAuditLogger_def RequestIDFromContext_def audit_FromContext_def log_FromContext_def)

text \<open>The four sinks, when they are set up, have a writer each on a file of their own.\<close>

lemma sinks_set_up:
  assumes "SetupSinks mkdirAll cfg s = (None, s')"
  shows "list_all (\<lambda>(get, name). \<exists>k. get s' = Some k \<and> si_name k = name \<and>
      (case si_writer k of Daily dir w \<Rightarrow> sk_Rotation cfg = ''daily'' \<and> dw_base w = name \<and> dw_f w = None
       | BySize path mb age c \<Rightarrow> sk_Rotation cfg \<noteq> ''daily'' \<and> mb \<noteq> 0 \<and> age \<noteq> 0 \<and> HasSuffix path (''/'' @ name @ ''.log'')))
    [(apiSink, ''api''), (consumerSink, ''consumer''), (thirdPartySink, ''thirdparty''), (traceSink, ''trace'')]"
  using assms by (auto simp: SetupSinks_def newSinkLogger_def sink_defaults_def newDailyWriter_def HasSuffix_iff Let_def
      split: option.splits if_splits)

end
