(* ===== verification/Validation.thy ===== *)
theory Validation
  imports Handlers
begin

text \<open>
  The validator: \<^verbatim>\<open>pkg/validator/validator.go\<close>. What the validation library finds in a request is a parameter; its field
  errors, the name a field has in them, and the message the client gets are modelled.
\<close>

record FieldError =
  fe_Field :: string
  fe_Tag :: string
  fe_Param :: string

text \<open>What the library answers: nothing, the failed fields in the order of the struct, or that the value cannot be
  validated at all.\<close>

datatype struct_result = Valid | FieldErrors "FieldError list" | InvalidValidation string

text \<open>The name function \<^verbatim>\<open>New\<close> registers: the JSON name of the field, which is the first part of its tag.\<close>

definition json_field_name :: "string \<Rightarrow> string" where
  "json_field_name tag =
     (let name = takeWhile (\<lambda>c. c \<noteq> CHR '','') tag in if name = ''-'' then [] else name)"

definition msgForTag :: "FieldError \<Rightarrow> string" where
  "msgForTag fe =
     (if fe_Tag fe = ''required'' then ''is required''
      else if fe_Tag fe = ''email'' then ''must be a valid email''
      else if fe_Tag fe = ''min'' then ''must be at least '' @ fe_Param fe @ '' characters''
      else if fe_Tag fe = ''max'' then ''must be at most '' @ fe_Param fe @ '' characters''
      else if fe_Tag fe = ''uuid4'' then ''must be a valid UUID''
      else ''is invalid'')"

definition Validate :: "('i \<Rightarrow> struct_result) \<Rightarrow> 'i \<Rightarrow> string option" where
  "Validate struct i = (case struct i of
     Valid \<Rightarrow> None
   | FieldErrors ve \<Rightarrow> Some (Join (map (\<lambda>fe. fe_Field fe @ '': '' @ msgForTag fe) ve) ''; '')
   | InvalidValidation err \<Rightarrow> Some err)"

section \<open>Lemmas\<close>

lemma Join_parts: "x \<in> set xs \<Longrightarrow> Contains (Join xs sep) x"
proof (induction xs sep rule: Join.induct)
  case (3 y z zs sep)
  then consider "x = y" | "Contains (Join (z # zs) sep) x" by auto
  then show ?case
  proof cases
    case 1
    then show ?thesis unfolding Contains_iff by (intro exI [of _ "[]"] exI [of _ "sep @ Join (z # zs) sep"]) simp
  next
    case 2
    then obtain a b where "Join (z # zs) sep = a @ x @ b" unfolding Contains_iff by blast
    then show ?thesis unfolding Contains_iff by (intro exI [of _ "y @ sep @ a"] exI [of _ b]) simp
  qed
qed (auto simp: Contains_iff intro: exI [of _ "[]"])

text \<open>A message names every failed field with what is wrong; a handler behind it is not run, and the client gets that
  message with 400.\<close>

lemma Validate_message:
  assumes "struct i = FieldErrors ve" and "fe \<in> set ve"
  shows "\<exists>m. Validate struct i = Some m \<and> Contains m (fe_Field fe @ '': '' @ msgForTag fe) \<and>
    parse_validate (Inr i) (Validate struct) = Inl (BadRequest m)"
  using assms Join_parts [of "fe_Field fe @ '': '' @ msgForTag fe" "map (\<lambda>fe. fe_Field fe @ '': '' @ msgForTag fe) ve" "''; ''"]
  by (auto simp: Validate_def parse_validate_def)

lemma Validate_none: "Validate struct i = None \<longleftrightarrow> struct i = Valid"
  by (simp add: Validate_def split: struct_result.split)

lemma field_names:
  "json_field_name ''email'' = ''email''" "json_field_name ''name,omitempty'' = ''name''" "json_field_name ''-'' = []"
  by (simp_all add: json_field_name_def)

end
