(* ===== verification/Google_Auth.thy ===== *)
theory Google_Auth
  imports Prelude
begin

text \<open>
  Sign-in with Google: \<^verbatim>\<open>pkg/auth/google/oauth.go\<close>. The OAuth2 library is a parameter: exchanging a code for a token, asking for a
  URL with a token, building the consent URL; so is the JSON decoder.
\<close>

record google_Config =
  gc_ClientID :: string
  gc_ClientSecret :: string
  gc_RedirectURL :: string

record UserInfo =
  ui_ID :: string
  ui_Email :: string
  ui_Name :: string
  ui_Picture :: string

text \<open>The configuration handed to the library; the endpoint is Google's.\<close>

record oauth2_Config =
  oc_ClientID :: string
  oc_ClientSecret :: string
  oc_RedirectURL :: string
  oc_Scopes :: "string list"

definition google_New :: "google_Config \<Rightarrow> oauth2_Config" where
  "google_New cfg = \<lparr>oc_ClientID = gc_ClientID cfg, oc_ClientSecret = gc_ClientSecret cfg, oc_RedirectURL = gc_RedirectURL cfg,
     oc_Scopes = [''openid'', ''email'', ''profile'']\<rparr>"

record 't oauth_lib =
  ol_AuthCodeURL :: "oauth2_Config \<Rightarrow> string \<Rightarrow> string"
  ol_Exchange :: "oauth2_Config \<Rightarrow> string \<Rightarrow> string + 't"
  ol_Get :: "oauth2_Config \<Rightarrow> 't \<Rightarrow> string \<Rightarrow> string + int \<times> string"
  ol_Decode :: "string \<Rightarrow> string + UserInfo"

definition AuthURL :: "'t oauth_lib \<Rightarrow> oauth2_Config \<Rightarrow> string \<Rightarrow> string" where
  "AuthURL lib cfg state = ol_AuthCodeURL lib cfg state"

text \<open>At most 4 KB of the answer are read.\<close>

definition Exchange :: "'t oauth_lib \<Rightarrow> oauth2_Config \<Rightarrow> string \<Rightarrow> string + UserInfo" where
  "Exchange lib cfg code = (case ol_Exchange lib cfg code of
     Inl err \<Rightarrow> Inl (wrap ''google oauth exchange'' err)
   | Inr token \<Rightarrow> (case ol_Get lib cfg token ''https://www.googleapis.com/oauth2/v2/userinfo'' of
       Inl err \<Rightarrow> Inl (wrap ''google userinfo fetch'' err)
     | Inr (status, body) \<Rightarrow>
         if status \<noteq> 200 then Inl (''google userinfo: unexpected status '' @ Itoa status)
         else (case ol_Decode lib (take 4096 body) of
           Inl err \<Rightarrow> Inl (wrap ''google userinfo decode'' err)
         | Inr info \<Rightarrow> Inr info)))"

text \<open>User information is only ever what Google answered with 200 under a token the code was exchanged for.\<close>

lemma Exchange_ok:
  assumes "Exchange lib cfg code = Inr info"
  obtains token body where "ol_Exchange lib cfg code = Inr token"
    "ol_Get lib cfg token ''https://www.googleapis.com/oauth2/v2/userinfo'' = Inr (200, body)" "ol_Decode lib (take 4096 body) = Inr info"
  using assms by (auto simp: Exchange_def split: sum.splits prod.splits if_splits)

end
