(* ===== verification/Database.thy ===== *)
theory Database
  imports App
begin

text \<open>
  Opening the database: \<^verbatim>\<open>pkg/database/database.go\<close>, the connection string of \<^verbatim>\<open>cmd/migrate/main.go\<close>, and what they use of
  \<^verbatim>\<open>net/url\<close>, \<^verbatim>\<open>net\<close> and \<^verbatim>\<open>database/sql\<close>. The SQL driver of MySQL (which formats its own connection strings) and the
  database mapper are parameters. Error texts leave out quoting and the text of a failed duration parse.
\<close>

section \<open>Escaping in URLs\<close>

datatype encoding = encodePath | encodeUserPassword | encodeHost | encodeQueryComponent

definition alnum :: "char \<Rightarrow> bool" where
  "alnum c \<longleftrightarrow> is_lower_char c \<or> is_upper_char c \<or> is_digit c"

definition shouldEscape :: "char \<Rightarrow> encoding \<Rightarrow> bool" where
  "shouldEscape c mode =
     (if alnum c then False
      else if mode = encodeHost \<and> c \<in> set (''!$&()*+,;=:[]<>'' @ [CHR 0x27, CHR 0x22]) then False
      else if c \<in> set ''-_.~'' then False
      else if c \<in> set ''$&+,/:;=?@'' then
        (case mode of
           encodePath \<Rightarrow> c = CHR ''?''
         | encodeUserPassword \<Rightarrow> c \<in> set ''@/?:''
         | encodeQueryComponent \<Rightarrow> True
         | encodeHost \<Rightarrow> True)
      else True)"

definition upperhex :: "nat \<Rightarrow> char" where
  "upperhex n = (if n < 10 then digit n else char_of (55 + n))"

definition escape_char :: "encoding \<Rightarrow> char \<Rightarrow> string" where
  "escape_char mode c =
     (if shouldEscape c mode then
        if c = CHR '' '' \<and> mode = encodeQueryComponent then ''+''
        else [CHR ''%'', upperhex (ord_char c div 16), upperhex (ord_char c mod 16)]
      else [c])"

definition escape :: "encoding \<Rightarrow> string \<Rightarrow> string" where
  "escape mode s = concat (map (escape_char mode) s)"

definition unhex :: "char \<Rightarrow> nat option" where
  "unhex c =
     (if is_digit c then Some (ord_char c - 48)
      else if 97 \<le> ord_char c \<and> ord_char c \<le> 102 then Some (ord_char c - 87)
      else if 65 \<le> ord_char c \<and> ord_char c \<le> 70 then Some (ord_char c - 55)
      else None)"

text \<open>Reading, for all parts of a URL but the host.\<close>

fun unescape :: "encoding \<Rightarrow> string \<Rightarrow> string option" where
  "unescape mode [] = Some []"
| "unescape mode (c # s) =
     (if c = CHR ''%'' then
        (case s of
           a # b # s' \<Rightarrow> (case (unhex a, unhex b) of
             (Some x, Some y) \<Rightarrow> map_option (\<lambda>r. char_of (16 * x + y) # r) (unescape mode s')
           | _ \<Rightarrow> None)
         | _ \<Rightarrow> None)
      else map_option (\<lambda>r. (if c = CHR ''+'' \<and> mode = encodeQueryComponent then CHR '' '' else c) # r) (unescape mode s))"

section \<open>Connection strings\<close>

text \<open>\<^verbatim>\<open>URL.String\<close> for a URL with scheme, user, password, host, an absolute path and a query.\<close>

definition url_String :: "string \<Rightarrow> string \<Rightarrow> string \<Rightarrow> string \<Rightarrow> string \<Rightarrow> string \<Rightarrow> string" where
  "url_String scheme user password host path query =
     scheme @ ''://'' @ escape encodeUserPassword user @ '':'' @ escape encodeUserPassword password @ ''@'' @
     escape encodeHost host @ escape encodePath path @ (if query \<noteq> [] then ''?'' @ query else [])"

definition or_default :: "string \<Rightarrow> string \<Rightarrow> string" where
  "or_default d s = (if s = [] then d else s)"

record mysql_Config =
  my_User :: string
  my_Passwd :: string
  my_Net :: string
  my_Addr :: string
  my_DBName :: string
  my_ParseTime :: bool
  my_MultiStatements :: bool

definition buildDSN :: "(mysql_Config \<Rightarrow> string) \<Rightarrow> DBConfig \<Rightarrow> string + string \<times> string" where
  "buildDSN FormatDSN cfg =
     (if dbc_Driver cfg \<in> {''postgres'', []} then
        let port = or_default ''5432'' (dbc_Port cfg); sslmode = or_default ''disable'' (dbc_SSLMode cfg) in
        Inr (''postgres'', url_String ''postgres'' (dbc_User cfg) (dbc_Password cfg) (JoinHostPort (dbc_Host cfg) port)
          (''/'' @ dbc_Name cfg) (''sslmode='' @ escape encodeQueryComponent sslmode))
      else if dbc_Driver cfg = ''mysql'' then
        let port = or_default ''3306'' (dbc_Port cfg) in
        Inr (''mysql'', FormatDSN \<lparr>my_User = dbc_User cfg, my_Passwd = dbc_Password cfg, my_Net = ''tcp'',
          my_Addr = JoinHostPort (dbc_Host cfg) port, my_DBName = dbc_Name cfg, my_ParseTime = True, my_MultiStatements = True\<rparr>)
      else Inl (''unsupported DB driver '' @ dbc_Driver cfg @ '' (want postgres or mysql)''))"

datatype dialector = Mysql string | Postgres string

definition buildDialector :: "DBConfig \<Rightarrow> string + dialector" where
  "buildDialector cfg =
     (if dbc_Driver cfg \<notin> {''mysql'', ''postgres'', []} then Inl (''unsupported DB driver: '' @ dbc_Driver cfg)
      else if dbc_Host cfg = [] then Inl ''DB_HOST is required but not set''
      else if dbc_Name cfg = [] then Inl ''DB_NAME is required but not set''
      else if dbc_User cfg = [] then Inl ''DB_USER is required but not set''
      else if dbc_Driver cfg = ''mysql'' then
        let tls = (if dbc_SSLMode cfg = ''require'' then ''true'' else ''false''); port = or_default ''3306'' (dbc_Port cfg) in
        Inr (Mysql (dbc_User cfg @ '':'' @ dbc_Password cfg @ ''@tcp('' @ dbc_Host cfg @ '':'' @ port @ '')/'' @ dbc_Name cfg @
          ''?charset=utf8mb4&parseTime=True&loc=UTC&tls='' @ tls))
      else
        let sslMode = or_default ''disable'' (dbc_SSLMode cfg); port = or_default ''5432'' (dbc_Port cfg) in
        Inr (Postgres (''postgres://'' @ dbc_User cfg @ '':'' @ dbc_Password cfg @ ''@'' @ dbc_Host cfg @ '':'' @ port @ ''/'' @
          dbc_Name cfg @ ''?sslmode='' @ sslMode @ ''&TimeZone=UTC'')))"

section \<open>The pool\<close>

text \<open>\<^verbatim>\<open>sql.DB\<close>: 0 open connections means no limit, an idle count of 0 the default of 2 and a negative one no idle
  connections.\<close>

record pool =
  po_maxOpen :: int
  po_maxIdleCount :: int
  po_maxLifetime :: duration

definition new_pool :: pool where
  "new_pool = \<lparr>po_maxOpen = 0, po_maxIdleCount = 0, po_maxLifetime = 0\<rparr>"

definition maxIdleConns :: "pool \<Rightarrow> int" where
  "maxIdleConns p = (if po_maxIdleCount p = 0 then 2 else if po_maxIdleCount p < 0 then 0 else po_maxIdleCount p)"

definition SetMaxIdleConns :: "int \<Rightarrow> pool \<Rightarrow> pool" where
  "SetMaxIdleConns n p =
     (let q = p\<lparr>po_maxIdleCount := (if n > 0 then n else -1)\<rparr> in
      if po_maxOpen q > 0 \<and> maxIdleConns q > po_maxOpen q then q\<lparr>po_maxIdleCount := po_maxOpen q\<rparr> else q)"

definition SetMaxOpenConns :: "int \<Rightarrow> pool \<Rightarrow> pool" where
  "SetMaxOpenConns n p =
     (let q = p\<lparr>po_maxOpen := (if n < 0 then 0 else n)\<rparr> in
      if po_maxOpen q > 0 \<and> maxIdleConns q > po_maxOpen q then SetMaxIdleConns n q else q)"

definition SetConnMaxLifetime :: "duration \<Rightarrow> pool \<Rightarrow> pool" where
  "SetConnMaxLifetime d p = p\<lparr>po_maxLifetime := (if d < 0 then 0 else d)\<rparr>"

definition configurePool :: "pool \<Rightarrow> DBConfig \<Rightarrow> string option \<times> pool" where
  "configurePool p0 cfg =
     (let p1 = (if dbc_MaxOpenConns cfg > 0 then SetMaxOpenConns (dbc_MaxOpenConns cfg) p0 else p0);
          p2 = (if dbc_MaxIdleConns cfg > 0 then SetMaxIdleConns (dbc_MaxIdleConns cfg) p1 else p1) in
      if dbc_ConnMaxLife cfg \<noteq> [] then
        (case ParseDuration (dbc_ConnMaxLife cfg) of
           None \<Rightarrow> (Some (''invalid conn_max_life '' @ dbc_ConnMaxLife cfg), p2)
         | Some d \<Rightarrow> (None, SetConnMaxLifetime d p2))
      else (None, p2))"

text \<open>The database mapper: opening gives an error or a handle, whose pool may be missing.\<close>

record gorm_options =
  go_silent :: bool
  go_PrepareStmt :: bool
  go_SkipDefaultTransaction :: bool

record gorm_conn =
  gm_Open :: "dialector \<Rightarrow> gorm_options \<Rightarrow> string option"
  gm_DB :: "dialector \<Rightarrow> string + pool"

definition openWithDialector :: "gorm_conn \<Rightarrow> dialector \<Rightarrow> DBConfig \<Rightarrow> string + dialector \<times> pool" where
  "openWithDialector G d cfg =
     (case gm_Open G d \<lparr>go_silent = True, go_PrepareStmt = True, go_SkipDefaultTransaction = True\<rparr> of
        Some err \<Rightarrow> Inl (wrap ''opening db connection'' err)
      | None \<Rightarrow> (case gm_DB G d of
          Inl err \<Rightarrow> Inl (wrap ''getting underlying sql.DB'' err)
        | Inr p \<Rightarrow> (case configurePool p cfg of
            (Some err, p') \<Rightarrow> Inl err
          | (None, p') \<Rightarrow> Inr (d, p'))))"

definition db_NewConnection :: "gorm_conn \<Rightarrow> DBConfig \<Rightarrow> string + dialector \<times> pool" where
  "db_NewConnection G cfg = (case buildDialector cfg of
     Inl err \<Rightarrow> Inl err
   | Inr d \<Rightarrow> openWithDialector G d cfg)"

section \<open>Reading a connection string\<close>

text \<open>What \<^verbatim>\<open>url.Parse\<close>, which the PostgreSQL drivers use, reads from a URL with an authority: user, password, database name
  and the raw query. The fragment is cut off first, then the query; the authority ends at the first slash and its
  user information at the last at-sign.\<close>

definition cut_before :: "char \<Rightarrow> string \<Rightarrow> string" where
  "cut_before c s = takeWhile (\<lambda>x. x \<noteq> c) s"

definition after :: "char \<Rightarrow> string \<Rightarrow> string" where
  "after c s = drop 1 (dropWhile (\<lambda>x. x \<noteq> c) s)"

definition before_last :: "char \<Rightarrow> string \<Rightarrow> string" where
  "before_last c s = rev (after c (rev s))"

record credentials =
  cr_user :: string
  cr_password :: string
  cr_dbname :: string
  cr_query :: string

definition parse_dsn :: "string \<Rightarrow> credentials option" where
  "parse_dsn s =
     (let rest = cut_before (CHR ''#'') (TrimPrefix s ''postgres://'');
          hier = cut_before (CHR ''?'') rest;
          authority = cut_before (CHR ''/'') hier;
          userinfo = before_last (CHR ''@'') authority in
      if CHR ''@'' \<notin> set authority then None
      else case (unescape encodeUserPassword (cut_before (CHR '':'') userinfo), unescape encodeUserPassword (after (CHR '':'') userinfo),
                 unescape encodePath (after (CHR ''/'') hier)) of
        (Some u, Some p, Some d) \<Rightarrow> Some \<lparr>cr_user = u, cr_password = p, cr_dbname = d, cr_query = after (CHR ''?'') rest\<rparr>
      | _ \<Rightarrow> None)"

section \<open>Lemmas\<close>

lemma unhex_upperhex [simp]: "n < 16 \<Longrightarrow> unhex (upperhex n) = Some n"
  by (auto simp: unhex_def upperhex_def is_digit_def ord_char_def digit_def)

lemma hex_pair: "16 * (ord_char c div 16) + ord_char c mod 16 = ord_char c" and hex_less: "ord_char c div 16 < 16"
  using ord_char_less [of c] by presburger+

lemma char_of_ord [simp]: "char_of (ord_char c) = c"
  by (simp add: ord_char_def)

lemma unescape_escape_char:
  "unescape mode (escape_char mode c @ s) = map_option (\<lambda>r. c # r) (unescape mode s)" if "mode \<noteq> encodeHost"
proof -
  have "shouldEscape (CHR ''%'') mode" by (cases mode) (simp_all add: shouldEscape_def alnum_def is_lower_char_def
        is_upper_char_def is_digit_def ord_char_def)
  moreover have "mode = encodeQueryComponent \<Longrightarrow> shouldEscape (CHR ''+'') mode"
    by (simp add: shouldEscape_def alnum_def is_lower_char_def is_upper_char_def is_digit_def ord_char_def)
  ultimately show ?thesis by (auto simp: escape_char_def hex_less hex_pair)
qed

lemma unescape_escape: "mode \<noteq> encodeHost \<Longrightarrow> unescape mode (escape mode s) = Some s"
  by (induction s) (simp_all add: escape_def unescape_escape_char)

text \<open>What an escaped text is made of.\<close>

lemma upperhex_alnum: "n < 16 \<Longrightarrow> alnum (upperhex n)"
  by (auto simp: alnum_def upperhex_def is_digit_def is_upper_char_def ord_char_def digit_def)

lemma escape_chars:
  "x \<in> set (escape mode s) \<Longrightarrow> \<not> shouldEscape x mode \<or> x = CHR ''%'' \<or> x = CHR ''+''"
proof -
  assume "x \<in> set (escape mode s)"
  then obtain c where c: "x \<in> set (escape_char mode c)" by (auto simp: escape_def)
  have "alnum y \<Longrightarrow> \<not> shouldEscape y mode" for y by (simp add: shouldEscape_def)
  then show ?thesis using c upperhex_alnum hex_less by (auto simp: escape_char_def split: if_splits)
qed

lemma escape_id: "list_all (\<lambda>c. \<not> shouldEscape c mode) s \<Longrightarrow> escape mode s = s"
  by (induction s) (simp_all add: escape_def escape_char_def)

lemma escape_append [simp]: "escape mode (s @ t) = escape mode s @ escape mode t"
  by (simp add: escape_def)

lemma not_in_escape:
  assumes "shouldEscape x mode" "x \<noteq> CHR ''%''" "x \<noteq> CHR ''+''"
  shows "x \<notin> set (escape mode s)"
  using assms escape_chars by blast

lemmas char_tests = shouldEscape_def alnum_def is_lower_char_def is_upper_char_def is_digit_def ord_char_def

lemma escaped_user [simp]:
  "CHR ''@'' \<notin> set (escape encodeUserPassword s)" "CHR ''/'' \<notin> set (escape encodeUserPassword s)"
  "CHR '':'' \<notin> set (escape encodeUserPassword s)" "CHR ''?'' \<notin> set (escape encodeUserPassword s)"
  "CHR ''#'' \<notin> set (escape encodeUserPassword s)"
  by (rule not_in_escape; simp add: char_tests)+

lemma escaped_host [simp]:
  "CHR ''@'' \<notin> set (escape encodeHost s)" "CHR ''/'' \<notin> set (escape encodeHost s)"
  "CHR ''?'' \<notin> set (escape encodeHost s)" "CHR ''#'' \<notin> set (escape encodeHost s)"
  by (rule not_in_escape; simp add: char_tests)+

lemma escaped_path [simp]: "CHR ''?'' \<notin> set (escape encodePath s)" "CHR ''#'' \<notin> set (escape encodePath s)"
  by (rule not_in_escape; simp add: char_tests)+

lemma escaped_query [simp]: "CHR ''#'' \<notin> set (escape encodeQueryComponent s)"
  by (rule not_in_escape; simp add: char_tests)

lemma before_append [simp]: "c \<notin> set s \<Longrightarrow> cut_before c (s @ c # t) = s"
  by (induction s) (auto simp: cut_before_def)

lemma before_id: "c \<notin> set s \<Longrightarrow> cut_before c s = s"
  by (induction s) (auto simp: cut_before_def)

lemma before_skip: "c \<notin> set s \<Longrightarrow> cut_before c (s @ t) = s @ cut_before c t"
  by (induction s) (auto simp: cut_before_def)

lemma after_append [simp]: "c \<notin> set s \<Longrightarrow> after c (s @ c # t) = t"
  by (induction s) (auto simp: after_def)

lemma before_last_append [simp]: "c \<notin> set t \<Longrightarrow> before_last c (s @ c # t) = s"
  by (simp add: before_last_def)

text \<open>A URL written by \<open>url_String\<close> reads as what was put in, whatever the host is.\<close>

lemma parse_url_String:
  assumes "CHR ''#'' \<notin> set query" "query \<noteq> []"
  shows "parse_dsn (url_String ''postgres'' user password host (''/'' @ name) query) =
    Some \<lparr>cr_user = user, cr_password = password, cr_dbname = name, cr_query = query\<rparr>"
proof -
  let ?ui = "escape encodeUserPassword user @ '':'' @ escape encodeUserPassword password"
  let ?auth = "?ui @ ''@'' @ escape encodeHost host"
  let ?hier = "?auth @ ''/'' @ escape encodePath name"
  let ?rest = "?hier @ ''?'' @ query"
  have slash: "escape encodePath (CHR ''/'' # s) = CHR ''/'' # escape encodePath s" for s
    by (simp add: escape_def escape_char_def char_tests)
  have S: "url_String ''postgres'' user password host (''/'' @ name) query = ''postgres://'' @ ?rest"
    using assms(2) by (simp only: url_String_def escape_append slash if_True append.assoc append_Cons append_Nil simp_thms)
  have "TrimPrefix (''postgres://'' @ ?rest) ''postgres://'' = ?rest" by (rule TrimPrefix_append)
  moreover have "cut_before (CHR ''#'') ?rest = ?rest" using assms(1) by (intro before_id) simp
  moreover have "cut_before (CHR ''?'') ?rest = ?hier" using before_append [of "CHR ''?''" ?hier query] by simp
  moreover have "after (CHR ''?'') ?rest = query" using after_append [of "CHR ''?''" ?hier query] by simp
  moreover have "cut_before (CHR ''/'') ?hier = ?auth" using before_append [of "CHR ''/''" ?auth] by simp
  moreover have "after (CHR ''/'') ?hier = escape encodePath name" using after_append [of "CHR ''/''" ?auth] by simp
  moreover have "before_last (CHR ''@'') ?auth = ?ui" using before_last_append [of "CHR ''@''" "escape encodeHost host" ?ui] by simp
  moreover have "CHR ''@'' \<in> set ?auth" by simp
  ultimately show ?thesis unfolding S parse_dsn_def Let_def by (simp add: unescape_escape)
qed

lemma driver_cases:
  assumes "buildDSN F cfg = Inr (''postgres'', dsn)"
  shows "dbc_Driver cfg \<in> {''postgres'', []} \<and> dsn = url_String ''postgres'' (dbc_User cfg) (dbc_Password cfg)
    (JoinHostPort (dbc_Host cfg) (or_default ''5432'' (dbc_Port cfg))) (''/'' @ dbc_Name cfg)
    (''sslmode='' @ escape encodeQueryComponent (or_default ''disable'' (dbc_SSLMode cfg)))"
  using assms by (auto simp: buildDSN_def Let_def split: if_splits)

text \<open>The invariant of the pool that its setters keep.\<close>

definition pool_ok :: "pool \<Rightarrow> bool" where
  "pool_ok p \<longleftrightarrow> 0 \<le> po_maxOpen p \<and> 0 \<le> po_maxLifetime p \<and> (0 < po_maxOpen p \<longrightarrow> maxIdleConns p \<le> po_maxOpen p)"

lemma pool_setters:
  "pool_ok p \<Longrightarrow> pool_ok (SetMaxIdleConns n p)" "pool_ok p \<Longrightarrow> pool_ok (SetMaxOpenConns n p)"
  "pool_ok p \<Longrightarrow> pool_ok (SetConnMaxLifetime d p)" "pool_ok new_pool"
  by (auto simp: pool_ok_def SetMaxIdleConns_def SetMaxOpenConns_def SetConnMaxLifetime_def new_pool_def maxIdleConns_def Let_def)

lemma setters_keep:
  "po_maxOpen (SetMaxIdleConns n p) = po_maxOpen p" "po_maxOpen (SetConnMaxLifetime d p) = po_maxOpen p"
  "po_maxLifetime (SetConnMaxLifetime d p) = max 0 d" "0 < n \<Longrightarrow> po_maxOpen (SetMaxOpenConns n p) = n"
  "maxIdleConns (SetConnMaxLifetime d p) = maxIdleConns p"
  by (auto simp: SetMaxIdleConns_def SetMaxOpenConns_def SetConnMaxLifetime_def maxIdleConns_def Let_def max_def)

lemma configurePool_ok: "pool_ok p \<Longrightarrow> pool_ok (snd (configurePool p cfg))"
  by (auto simp: configurePool_def Let_def pool_setters split: option.split)

text \<open>A configured limit is the limit, and never fewer than the idle connections.\<close>

lemma NewConnection_pool:
  assumes "db_NewConnection G cfg = Inr (d, p)" and "\<And>d p. gm_DB G d = Inr p \<Longrightarrow> pool_ok p"
  shows "pool_ok p \<and> (0 < dbc_MaxOpenConns cfg \<longrightarrow> po_maxOpen p = dbc_MaxOpenConns cfg \<and> maxIdleConns p \<le> dbc_MaxOpenConns cfg) \<and>
    (dbc_ConnMaxLife cfg \<noteq> [] \<longrightarrow> (\<exists>t. ParseDuration (dbc_ConnMaxLife cfg) = Some t \<and> po_maxLifetime p = max 0 t))"
proof -
  obtain p0 where p0: "gm_DB G d = Inr p0" and C: "configurePool p0 cfg = (None, p)"
    using assms(1) by (auto simp: db_NewConnection_def openWithDialector_def split: sum.splits option.splits prod.splits)
  have "pool_ok p" using configurePool_ok [OF assms(2) [OF p0], of cfg] C by simp
  then show ?thesis using C
    by (auto simp: configurePool_def Let_def setters_keep pool_ok_def split: option.splits if_splits)
qed

text \<open>Where nothing needs escaping, the service and the migration command connect with the same string, up to the time zone.\<close>

definition plain_dsn :: "DBConfig \<Rightarrow> bool" where
  "plain_dsn cfg \<longleftrightarrow> list_all (\<lambda>c. alnum c \<or> c \<in> set ''-_.~'')
     (dbc_User cfg @ dbc_Password cfg @ dbc_Name cfg @ dbc_Host cfg @ dbc_Port cfg @ dbc_SSLMode cfg)"

lemma plain_chars: "alnum c \<or> c \<in> set ''-_.~'' \<Longrightarrow> \<not> shouldEscape c mode \<and> c \<noteq> CHR '':''"
  by (auto simp: char_tests)

lemma plain_escape: "list_all (\<lambda>c. alnum c \<or> c \<in> set ''-_.~'') s \<Longrightarrow> escape mode s = s \<and> CHR '':'' \<notin> set s"
  using plain_chars by (induction s) (auto simp: escape_def escape_char_def)

lemma service_dsns_agree:
  assumes "buildDialector cfg = Inr (Postgres dsn)" and "plain_dsn cfg"
  shows "\<exists>m. buildDSN F cfg = Inr (''postgres'', m) \<and> dsn = m @ ''&TimeZone=UTC''"
proof -
  have E: "escape mode s = s \<and> CHR '':'' \<notin> set s"
    if "s \<in> {dbc_User cfg, dbc_Password cfg, dbc_Name cfg, dbc_Host cfg, or_default ''5432'' (dbc_Port cfg),
      or_default ''disable'' (dbc_SSLMode cfg)}" for s mode
  proof (rule plain_escape)
    show "list_all (\<lambda>c. alnum c \<or> c \<in> set ''-_.~'') s"
      using that assms(2) by (auto simp: plain_dsn_def or_default_def char_tests)
  qed
  have P: "escape encodePath (CHR ''/'' # s) = CHR ''/'' # escape encodePath s"
    "escape encodeHost (CHR '':'' # s) = CHR '':'' # escape encodeHost s" for s
    by (simp_all add: escape_def escape_char_def char_tests)
  show ?thesis using assms(1) E
    by (auto simp: buildDialector_def buildDSN_def url_String_def JoinHostPort_def P Let_def split: if_splits)
qed

section \<open>Properties\<close>

text \<open>The connection string of the migration command reads back as the configured user, password, database name
  and TLS mode, whatever characters they hold and whatever the host is.\<close>

lemma migrate_dsn_roundtrip:
  assumes "buildDSN F cfg = Inr (''postgres'', dsn)"
  shows "\<exists>q. parse_dsn dsn = Some \<lparr>cr_user = dbc_User cfg, cr_password = dbc_Password cfg, cr_dbname = dbc_Name cfg,
      cr_query = ''sslmode='' @ q\<rparr> \<and>
    unescape encodeQueryComponent q = Some (or_default ''disable'' (dbc_SSLMode cfg))"
  using driver_cases [OF assms] by (auto simp: parse_url_String unescape_escape simp del: append.simps)

definition db_example :: "string \<Rightarrow> DBConfig" where
  "db_example password = (cfg_DB default_config)\<lparr>dbc_Driver := ''postgres'', dbc_Host := ''db'', dbc_Port := ''5432'', dbc_Name := ''shop'',
     dbc_User := ''app'', dbc_Password := password, dbc_SSLMode := ''require''\<rparr>"

text \<open>The service builds its connection string without escaping. When the password has a slash with no at-sign before
  it, the string the service connects with holds no credentials at all, while the migration command's string for
  the same configuration reads back as configured.\<close>

lemma service_dsn_breaks:
  assumes "buildDialector cfg = Inr (Postgres dsn)" and "dbc_Password cfg = a @ CHR ''/'' # b"
    and "set (dbc_User cfg @ a) \<inter> set ''@/?#'' = {}"
  shows "parse_dsn dsn = None \<and>
    (\<exists>m c. buildDSN F cfg = Inr (''postgres'', m) \<and> parse_dsn m = Some c \<and> cr_user c = dbc_User cfg \<and> cr_password c = dbc_Password cfg)"
proof
  have drv: "dbc_Driver cfg \<in> {''postgres'', []}" using assms(1) by (auto simp: buildDialector_def Let_def split: if_splits)
  obtain r where dsn: "dsn = ''postgres://'' @ (dbc_User cfg @ '':'' @ a) @ CHR ''/'' # r"
    using assms(1,2) by (auto simp: buildDialector_def Let_def split: if_splits)
  let ?ua = "dbc_User cfg @ '':'' @ a"
  have no: "CHR ''@'' \<notin> set ?ua" "CHR ''/'' \<notin> set ?ua" "CHR ''?'' \<notin> set ?ua" "CHR ''#'' \<notin> set ?ua" using assms(3) by auto
  have keep: "cut_before c (?ua @ CHR ''/'' # s) = ?ua @ cut_before c (CHR ''/'' # s)" if "c \<notin> set ?ua" for c s
    using that by (rule before_skip)
  have slash: "cut_before c (CHR ''/'' # s) = CHR ''/'' # cut_before c s" if "c \<noteq> CHR ''/''" for c s
    using that by (simp add: cut_before_def)
  have "TrimPrefix dsn ''postgres://'' = ?ua @ CHR ''/'' # r" unfolding dsn by (rule TrimPrefix_append)
  moreover have "cut_before (CHR ''/'') (?ua @ CHR ''/'' # s) = ?ua" for s using no by (intro before_append)
  ultimately show "parse_dsn dsn = None" using no
    unfolding parse_dsn_def Let_def by (simp add: keep slash del: append_assoc append.simps)
  obtain m where m: "buildDSN F cfg = Inr (''postgres'', m)" using drv by (auto simp: buildDSN_def Let_def)
  from driver_cases [OF m]
  show "\<exists>m c. buildDSN F cfg = Inr (''postgres'', m) \<and> parse_dsn m = Some c \<and> cr_user c = dbc_User cfg \<and> cr_password c = dbc_Password cfg"
    using m by (auto simp: parse_url_String unescape_escape simp del: append.simps)
qed

end
