(* ===== verification/Migrate.thy ===== *)
theory Migrate
  imports Database
begin

text \<open>
  The migration command: \<^verbatim>\<open>cmd/migrate/main.go\<close> (its connection string is in \<^verbatim>\<open>Database\<close>). The migration library is a record of
  its operations on a database; connecting is a record of the errors each step may give. \<open>migrator_ok\<close> states what the
  command relies on: a dirty database refuses every migration unchanged, and forcing a version makes it clean.
\<close>

section \<open>The migration library\<close>

definition ErrNoChange :: go_err where
  "ErrNoChange = Sentinel ''migrate.ErrNoChange''"

definition ErrNilVersion :: go_err where
  "ErrNilVersion = Sentinel ''migrate.ErrNilVersion''"

record 'm migrator =
  mg_Up :: "'m \<Rightarrow> go_err option \<times> 'm"
  mg_Steps :: "int \<Rightarrow> 'm \<Rightarrow> go_err option \<times> 'm"
  mg_Version :: "'m \<Rightarrow> go_err + int \<times> bool"
  mg_Force :: "int \<Rightarrow> 'm \<Rightarrow> go_err option \<times> 'm"

definition migrator_ok :: "'m migrator \<Rightarrow> bool" where
  "migrator_ok M \<longleftrightarrow>
     (\<forall>m v. mg_Version M m = Inr (v, True) \<longrightarrow>
        (\<exists>e. mg_Up M m = (Some e, m) \<and> \<not> Is e ErrNoChange) \<and>
        (\<forall>n. \<exists>e. mg_Steps M n m = (Some e, m) \<and> \<not> Is e ErrNoChange)) \<and>
     (\<forall>m m' v. mg_Force M v m = (None, m') \<longrightarrow> mg_Version M m' = Inr (v, False))"

section \<open>The actions\<close>

text \<open>An action gives its error, the lines it prints and the database it leaves.\<close>

type_synonym 'm action_result = "go_err option \<times> string list \<times> 'm"

definition report :: "string \<Rightarrow> go_err option \<times> 'm \<Rightarrow> 'm action_result" where
  "report action r = (case r of
     (None, m) \<Rightarrow> (None, [action @ '': done''], m)
   | (Some err, m) \<Rightarrow> if Is err ErrNoChange then (None, [action @ '': no change''], m) else (Some err, [], m))"

definition show_bool :: "bool \<Rightarrow> string" where
  "show_bool b = (if b then ''true'' else ''false'')"

definition exec :: "'m migrator \<Rightarrow> string \<Rightarrow> int \<Rightarrow> int \<Rightarrow> 'm \<Rightarrow> 'm action_result" where
  "exec M dir steps target m =
     (if dir = ''up'' then
        if steps > 0 then report ''up'' (mg_Steps M steps m) else report ''up'' (mg_Up M m)
      else if dir = ''down'' then
        let n = (if steps \<le> 0 then 1 else steps) in report ''down'' (mg_Steps M (- n) m)
      else if dir = ''version'' then
        (case mg_Version M m of
           Inl err \<Rightarrow> if Is err ErrNilVersion then (None, [''version: none''], m) else (Some err, [], m)
         | Inr (v, dirty) \<Rightarrow> (None, [''version: '' @ Itoa v @ '' (dirty='' @ show_bool dirty @ '')''], m))
      else if dir = ''force'' then
        if target < 0 then (Some (Opaque ''-version is required for -dir force''), [], m)
        else report ''force'' (mg_Force M target m)
      else (Some (Opaque (''unknown -dir '' @ dir @ '' (want up, down, version, force)'')), [], m))"

text \<open>The hint: an error that wraps the given one. (In its text the code puts the hint, given here, after the text of that error.)\<close>

definition dirty_hint :: "int \<Rightarrow> string" where
  "dirty_hint v = ''database is dirty at version '' @ Itoa v @
     '': repair the failed migration, then run: go run ./cmd/migrate -dir force -version '' @ Itoa v"

definition withDirtyHint :: "'m migrator \<Rightarrow> 'm \<Rightarrow> go_err \<Rightarrow> go_err" where
  "withDirtyHint M m err = (case mg_Version M m of
     Inr (v, True) \<Rightarrow> Wrap (dirty_hint v) err
   | _ \<Rightarrow> err)"

definition migrate_run :: "'m migrator \<Rightarrow> string \<Rightarrow> int \<Rightarrow> int \<Rightarrow> 'm \<Rightarrow> 'm action_result" where
  "migrate_run M dir steps target m = (case exec M dir steps target m of
     (Some err, out, m') \<Rightarrow> (Some (withDirtyHint M m' err), out, m')
   | r \<Rightarrow> r)"

section \<open>Connecting\<close>

record connect_env =
  ce_source :: "string option"
  ce_open :: "string \<Rightarrow> string \<Rightarrow> string option"
  ce_ping :: "string option"
  ce_postgres :: "string option"
  ce_mysql :: "string option"
  ce_migrator :: "string option"

datatype db_step = OpenDB string string | LimitOpen int | LimitIdle int | PingDB | CloseDB

definition newMigrator :: "connect_env \<Rightarrow> string \<Rightarrow> string \<Rightarrow> string option \<times> db_step list" where
  "newMigrator w driver dsn = (case ce_source w of
     Some err \<Rightarrow> (Some (wrap ''load embedded migrations'' err), [])
   | None \<Rightarrow> (case ce_open w driver dsn of
       Some err \<Rightarrow> (Some (wrap ''open database'' err), [])
     | None \<Rightarrow>
         let opened = [OpenDB driver dsn, LimitOpen 1, LimitIdle 1, PingDB];
             dm = (if driver = ''postgres'' then ce_postgres w else if driver = ''mysql'' then ce_mysql w
                   else Some (''unsupported driver '' @ driver)) in
         (case ce_ping w of
            Some err \<Rightarrow> (Some (wrap ''database unreachable'' err), opened @ [CloseDB])
          | None \<Rightarrow> (case dm of
              Some err \<Rightarrow> (Some (wrap ''init migrate driver'' err), opened @ [CloseDB])
            | None \<Rightarrow> (case ce_migrator w of
                Some err \<Rightarrow> (Some (wrap ''init migrator'' err), opened @ [CloseDB])
              | None \<Rightarrow> (None, opened))))))"

text \<open>\<^verbatim>\<open>main\<close>. A fatal error ends the process at once, without the deferred close.\<close>

datatype exit = ExitOk | ExitFatal string

definition migrate_main ::
  "viper \<Rightarrow> (mysql_Config \<Rightarrow> string) \<Rightarrow> connect_env \<Rightarrow> 'm migrator \<Rightarrow> string \<Rightarrow> int \<Rightarrow> int \<Rightarrow> 'm \<Rightarrow>
   exit \<times> db_step list \<times> string list \<times> 'm" where
  "migrate_main V F w M dir steps target m = (case Load V of
     Inl err \<Rightarrow> (ExitFatal ''failed to load config'', [], [], m)
   | Inr cfg \<Rightarrow> (case buildDSN F (cfg_DB cfg) of
       Inl err \<Rightarrow> (ExitFatal ''invalid database config'', [], [], m)
     | Inr (driver, dsn) \<Rightarrow> (case newMigrator w driver dsn of
         (Some err, tr) \<Rightarrow> (ExitFatal ''failed to initialise migrator'', tr, [], m)
       | (None, tr) \<Rightarrow> (case migrate_run M dir steps target m of
           (Some err, out, m') \<Rightarrow> (ExitFatal ''migration failed'', tr, out, m')
         | (None, out, m') \<Rightarrow> (ExitOk, tr @ [CloseDB], out, m')))))"

section \<open>Lemmas\<close>

text \<open>Without a number of steps, \<^verbatim>\<open>up\<close> applies everything and \<^verbatim>\<open>down\<close> reverts one migration; nothing to do is a success.\<close>

lemma run_default_steps:
  "steps \<le> 0 \<Longrightarrow> migrate_run M ''down'' steps target m = migrate_run M ''down'' 1 target m"
  "mg_Up M m = (Some ErrNoChange, m) \<Longrightarrow> steps \<le> 0 \<Longrightarrow> migrate_run M ''up'' steps target m = (None, [''up: no change''], m)"
  "mg_Up M m = (None, m') \<Longrightarrow> steps \<le> 0 \<Longrightarrow> migrate_run M ''up'' steps target m = (None, [''up: done''], m')"
  by (simp_all add: migrate_run_def exec_def report_def Let_def ErrNoChange_def)

text \<open>Only \<^verbatim>\<open>up\<close>, \<^verbatim>\<open>down\<close> and \<^verbatim>\<open>force\<close> with a version touch the database.\<close>

lemma run_readonly:
  "dir \<notin> {''up'', ''down'', ''force''} \<Longrightarrow> snd (snd (migrate_run M dir steps target m)) = m"
  "target < 0 \<Longrightarrow> snd (snd (migrate_run M ''force'' steps target m)) = m"
proof -
  have keep: "snd (snd (migrate_run M dir steps target m)) = snd (snd (exec M dir steps target m))" for dir
    unfolding migrate_run_def by (cases "exec M dir steps target m"; cases "fst (exec M dir steps target m)") simp_all
  show "snd (snd (migrate_run M dir steps target m)) = m" if "dir \<notin> {''up'', ''down'', ''force''}" for dir
  proof -
    have "dir \<noteq> ''up''" "dir \<noteq> ''down''" "dir \<noteq> ''force''" using that by simp_all
    then show ?thesis unfolding keep exec_def by (cases "mg_Version M m") (simp_all add: case_prod_beta)
  qed
  show "snd (snd (migrate_run M ''force'' steps target m)) = m" if "target < 0" using that unfolding keep by (simp add: exec_def)
qed

text \<open>A failed set-up leaves no open connection, and a connection that is handed out is still open.\<close>

lemma newMigrator_closes:
  assumes "newMigrator w driver dsn = (r, tr)"
  shows "(r = None \<longrightarrow> CloseDB \<notin> set tr \<and> OpenDB driver dsn \<in> set tr) \<and>
    (r \<noteq> None \<longrightarrow> tr = [] \<or> (last tr = CloseDB \<and> count_list tr CloseDB = 1))"
  using assms by (auto simp: newMigrator_def Let_def split: option.splits if_splits)

lemma dirty_run:
  assumes ok: "migrator_ok M" and v: "mg_Version M m = Inr (v, True)" and dir: "dir \<in> {''up'', ''down''}"
  shows "\<exists>e. migrate_run M dir steps target m = (Some (Wrap (dirty_hint v) e), [], m)"
proof -
  have R: "report a r = (Some e, [], m)" if "r = (Some e, m)" "\<not> Is e ErrNoChange" for a r e
    using that by (simp add: report_def)
  obtain e where "mg_Up M m = (Some e, m)" "\<not> Is e ErrNoChange" using ok v unfolding migrator_ok_def by blast
  note up = R [OF this]
  have "\<exists>e. mg_Steps M n m = (Some e, m) \<and> \<not> Is e ErrNoChange" for n using ok v unfolding migrator_ok_def by blast
  then have st: "\<exists>e. report a (mg_Steps M n m) = (Some e, [], m)" for a n using R by blast
  have "\<exists>e. exec M dir steps target m = (Some e, [], m)"
  proof (cases "dir = ''up''")
    case True
    then show ?thesis using up st [of "''up''" steps] by (simp add: exec_def)
  next
    case False
    then have "dir = ''down''" using dir by simp
    then show ?thesis using st by (simp add: exec_def Let_def)
  qed
  then show ?thesis using v by (auto simp: migrate_run_def withDirtyHint_def)
qed

lemma force_run:
  assumes "migrator_ok M" "0 \<le> v" "mg_Force M v m = (None, m')"
  shows "migrate_run M ''force'' steps v m = (None, [''force: done''], m') \<and> mg_Version M m' = Inr (v, False)"
  using assms unfolding migrator_ok_def by (simp add: migrate_run_def exec_def report_def)

section \<open>Properties\<close>

text \<open>C40. A half-applied migration blocks and is recoverable: while the database is dirty at a version, the command with
  \<^verbatim>\<open>up\<close> or \<^verbatim>\<open>down\<close>, started with any configuration and any number of steps, changes nothing, prints nothing and ends
  without success; its error names that version; and forcing the version the error names makes the database clean at it.\<close>

theorem migrate_recovers:
  assumes "migrator_ok M" and "mg_Version M m = Inr (v, True)" and "dir \<in> {''up'', ''down''}" and "0 \<le> v"
  shows "(\<exists>e. migrate_run M dir steps target m = (Some (Wrap (dirty_hint v) e), [], m)) \<and>
    (\<exists>why tr. migrate_main V F w M dir steps target m = (ExitFatal why, tr, [], m)) \<and>
    (mg_Force M v m = (None, m') \<longrightarrow>
       migrate_run M ''force'' steps v m = (None, [''force: done''], m') \<and> mg_Version M m' = Inr (v, False))"
proof -
  obtain e where e: "migrate_run M dir steps target m = (Some (Wrap (dirty_hint v) e), [], m)"
    using dirty_run [OF assms(1-3)] by blast
  have "\<exists>why tr. migrate_main V F w M dir steps target m = (ExitFatal why, tr, [], m)"
    by (auto simp: migrate_main_def e split: sum.split prod.split option.split)
  then show ?thesis using e force_run [OF assms(1,4)] by blast
qed

text \<open>A migrator over three migrations whose second one fails.\<close>

definition three_up :: "int \<Rightarrow> int \<times> bool \<Rightarrow> go_err option \<times> (int \<times> bool)" where
  "three_up n m = (case m of (v, dirty) \<Rightarrow>
     if dirty then (Some (Opaque ''Dirty database version''), m)
     else if n = 0 \<or> v + n < 0 \<or> 3 < v + n then (Some ErrNoChange, m)
     else if v < 2 \<and> 2 \<le> v + n then (Some (Opaque ''migration failed''), (2, True))
     else (None, (v + n, False)))"

definition three :: "(int \<times> bool) migrator" where
  "three = \<lparr>mg_Up = (\<lambda>m. three_up (3 - fst m) m), mg_Steps = three_up, mg_Version = Inr, mg_Force = (\<lambda>v m. (None, (v, False)))\<rparr>"

lemma three_ok: "migrator_ok three"
  by (simp add: migrator_ok_def three_def three_up_def ErrNoChange_def)

theorem migrate_recovers_witness:
  "migrate_run three ''up'' 0 (-1) (0, False) = (Some (Wrap (dirty_hint 2) (Opaque ''migration failed'')), [], (2, True)) \<and>
   (\<exists>e. migrate_run three ''up'' 0 (-1) (2, True) = (Some (Wrap (dirty_hint 2) e), [], (2, True))) \<and>
   migrate_run three ''force'' 0 2 (2, True) = (None, [''force: done''], (2, False)) \<and>
   migrate_run three ''up'' 0 (-1) (2, False) = (None, [''up: done''], (3, False))"
proof -
  have D: "mg_Version three (2, True) = Inr (2, True)" "mg_Force three 2 (2, True) = (None, (2, False))" by (simp_all add: three_def)
  have "migrate_run three ''up'' 0 (-1) (0, False) = (Some (Wrap (dirty_hint 2) (Opaque ''migration failed'')), [], (2, True))"
    "migrate_run three ''up'' 0 (-1) (2, False) = (None, [''up: done''], (3, False))"
    by (simp_all add: migrate_run_def exec_def report_def withDirtyHint_def three_def three_up_def ErrNoChange_def)
  with migrate_recovers [OF three_ok D(1), of "''up''" 0 "-1"] D(2) show ?thesis by simp
qed

end
