(* ===== verification/Firebase.thy ===== *)
theory Firebase
  imports Health Journal
begin

text \<open>
  Push notifications: \<^verbatim>\<open>pkg/notification/firebase/firebase.go\<close>. A client is a record of its credentials and its cached
  access token; a call takes the time and the answers of the two servers it may ask (the token server and
  the messaging server). Decoding the credentials, parsing and signing with the key are parameters. Tracing spans are
  left out.
\<close>

section \<open>Messages\<close>

record fcm_Message =
  fm_Token :: string
  fm_Topic :: string
  fm_Title :: string
  fm_Body :: string
  fm_Data :: "string gomap"
  fm_ImageURL :: string

datatype fcm_payload = PStr string | PObj "(string \<times> fcm_payload) list"

definition buildPayload :: "fcm_Message \<Rightarrow> fcm_payload" where
  "buildPayload msg =
     (let notif = [(''title'', PStr (fm_Title msg)), (''body'', PStr (fm_Body msg))] @
            (if fm_ImageURL msg \<noteq> [] then [(''image'', PStr (fm_ImageURL msg))] else []);
          fcmMsg = [(''notification'', PObj notif)] @
            (if fm_Token msg \<noteq> [] then [(''token'', PStr (fm_Token msg))]
             else if fm_Topic msg \<noteq> [] then [(''topic'', PStr (fm_Topic msg))] else []) @
            (if length (fm_Data msg) > 0 then [(''data'', PObj (map (\<lambda>(k, x). (k, PStr x)) (fm_Data msg)))] else []) in
      PObj [(''message'', PObj fcmMsg)])"

definition maskToken :: "string \<Rightarrow> string" where
  "maskToken t = (if length t \<le> 8 then ''***'' else take 4 t @ ''***'' @ drop (length t - 4) t)"

section \<open>Credentials\<close>

definition fcmScope :: string where
  "fcmScope = ''https://www.googleapis.com/auth/firebase.messaging''"

definition tokenURL :: string where
  "tokenURL = ''https://oauth2.googleapis.com/token''"

definition fcmEndpoint :: "string \<Rightarrow> string" where
  "fcmEndpoint project = ''https://fcm.googleapis.com/v1/projects/'' @ project @ ''/messages:send''"

record FCMClient =
  fc_sa :: serviceAccount
  fc_accessToken :: string
  fc_tokenExpiry :: time

definition NewFCMClient :: "(string \<Rightarrow> string + serviceAccount) \<Rightarrow> string \<Rightarrow> string + FCMClient" where
  "NewFCMClient decode credentialsJSON = (case decode credentialsJSON of
     Inl err \<Rightarrow> Inl (wrap ''firebase: parse credentials'' err)
   | Inr sa \<Rightarrow>
       if sa_ProjectID sa = [] \<or> sa_PrivateKey sa = [] \<or> sa_ClientEmail sa = []
       then Inl ''firebase: credentials missing project_id, private_key, or client_email''
       else Inr \<lparr>fc_sa = (if sa_TokenURI sa = [] then sa\<lparr>sa_TokenURI := tokenURL\<rparr> else sa), fc_accessToken = [], fc_tokenExpiry = 0\<rparr>)"

section \<open>Access tokens\<close>

datatype private_key = RSAKey string | OtherKey

text \<open>\<open>pem\<close> and \<open>pkcs8\<close> are the decoders of the standard library, \<open>sign\<close> the token library;
  \<open>newRequest\<close> is the error of building a request for a URL that does not parse.\<close>

record crypto_lib =
  cl_pem :: "string \<Rightarrow> string option"
  cl_pkcs8 :: "string \<Rightarrow> string + private_key"
  cl_sign :: "string \<Rightarrow> (string \<times> string) list \<Rightarrow> string + string"
  cl_newRequest :: "string \<Rightarrow> string option"

definition parseRSAPrivateKey :: "crypto_lib \<Rightarrow> string \<Rightarrow> string + string" where
  "parseRSAPrivateKey lib pemStr = (case cl_pem lib pemStr of
     None \<Rightarrow> Inl ''firebase: invalid PEM private key''
   | Some bytes \<Rightarrow> (case cl_pkcs8 lib bytes of
        Inl err \<Rightarrow> Inl (wrap ''firebase: parse private key'' err)
      | Inr OtherKey \<Rightarrow> Inl ''firebase: private key is not RSA''
      | Inr (RSAKey k) \<Rightarrow> Inr k))"

definition unix :: "time \<Rightarrow> int" where
  "unix t = t div second - 62135596800"

definition assertion_claims :: "serviceAccount \<Rightarrow> time \<Rightarrow> (string \<times> string) list" where
  "assertion_claims sa now =
     [(''iss'', sa_ClientEmail sa), (''sub'', sa_ClientEmail sa), (''scope'', fcmScope), (''aud'', sa_TokenURI sa),
      (''iat'', Itoa (unix now)), (''exp'', Itoa (unix (now + hour)))]"

text \<open>The answer of the token server to a signed assertion: an error of the transport, an error of decoding, or the
  token with its lifetime in seconds.\<close>

datatype token_answer = TransportErr string | DecodeErr string | TokenAnswer string int

definition fetchAccessToken ::
  "crypto_lib \<Rightarrow> FCMClient \<Rightarrow> time \<Rightarrow> (string \<Rightarrow> string \<Rightarrow> token_answer) \<Rightarrow> string + string \<times> time" where
  "fetchAccessToken lib c now server = (case parseRSAPrivateKey lib (sa_PrivateKey (fc_sa c)) of
     Inl err \<Rightarrow> Inl err
   | Inr pk \<Rightarrow> (case cl_sign lib pk (assertion_claims (fc_sa c) now) of
        Inl err \<Rightarrow> Inl (wrap ''firebase: sign jwt'' err)
      | Inr signed \<Rightarrow> (case cl_newRequest lib (sa_TokenURI (fc_sa c)) of
        Some err \<Rightarrow> Inl (wrap ''firebase: build token request'' err)
      | None \<Rightarrow> (case server (sa_TokenURI (fc_sa c)) signed of
           TransportErr err \<Rightarrow> Inl (wrap ''firebase: token request'' err)
         | DecodeErr err \<Rightarrow> Inl (wrap ''firebase: decode token response'' err)
         | TokenAnswer tok expiresIn \<Rightarrow>
             if tok = [] then Inl (''firebase: empty access token from '' @ sa_TokenURI (fc_sa c))
             else Inr (tok, now + int64 (int64 (expiresIn * second) - 30 * second))))))"

definition cachedAccessToken ::
  "crypto_lib \<Rightarrow> FCMClient \<Rightarrow> time \<Rightarrow> (string \<Rightarrow> string \<Rightarrow> token_answer) \<Rightarrow> (string + string) \<times> FCMClient" where
  "cachedAccessToken lib c now server =
     (if fc_accessToken c \<noteq> [] \<and> now < fc_tokenExpiry c then (Inr (fc_accessToken c), c)
      else case fetchAccessToken lib c now server of
        Inl err \<Rightarrow> (Inl err, c)
      | Inr (tok, expiry) \<Rightarrow> (Inr tok, c\<lparr>fc_accessToken := tok, fc_tokenExpiry := expiry\<rparr>))"

section \<open>Sending\<close>

record fcm_request =
  fr_URL :: string
  fr_Authorization :: string
  fr_Body :: fcm_payload

record fcm_log =
  fl_token :: string
  fl_topic :: string
  fl_title :: string
  fl_latency :: int
  fl_err :: "string option"

record fcm_result =
  fo_err :: "string option"
  fo_client :: FCMClient
  fo_request :: "fcm_request option"
  fo_journal :: "Journal option"
  fo_file :: "tp_line list"
  fo_log :: "fcm_log list"

text \<open>\<open>fcm\<close> is the messaging server: an error of the transport or a status. \<open>now\<close> is the time of the call, \<open>stop\<close>
  the time after the answer.\<close>

definition fcm_Send ::
  "crypto_lib \<Rightarrow> (string \<Rightarrow> string \<Rightarrow> token_answer) \<Rightarrow> (fcm_request \<Rightarrow> string + int) \<Rightarrow> time \<Rightarrow> time \<Rightarrow> Journal option \<Rightarrow> tp_line list \<Rightarrow>
   FCMClient \<Rightarrow> fcm_Message \<Rightarrow> fcm_result" where
  "fcm_Send lib server fcm now stop j file c msg = (case cachedAccessToken lib c now server of
     (Inl err, c1) \<Rightarrow>
       \<lparr>fo_err = Some (wrap ''firebase: get access token'' err), fo_client = c1, fo_request = None, fo_journal = j,
        fo_file = file, fo_log = []\<rparr>
   | (Inr tok, c1) \<Rightarrow>
       case cl_newRequest lib (fcmEndpoint (sa_ProjectID (fc_sa c))) of
         Some err \<Rightarrow> \<lparr>fo_err = Some (wrap ''firebase: build request'' err), fo_client = c1, fo_request = None, fo_journal = j,
           fo_file = file, fo_log = []\<rparr>
       | None \<Rightarrow>
       let endpoint = fcmEndpoint (sa_ProjectID (fc_sa c));
           req = \<lparr>fr_URL = endpoint, fr_Authorization = ''Bearer '' @ tok, fr_Body = buildPayload msg\<rparr>;
           latency = go_div (stop - now) 1000000;
           status = (case fcm req of Inl e \<Rightarrow> 0 | Inr s \<Rightarrow> s);
           errStr = (case fcm req of Inl e \<Rightarrow> e | Inr s \<Rightarrow> if s \<noteq> 200 then ''FCM HTTP '' @ Itoa s else []);
           err = (case fcm req of Inl e \<Rightarrow> Some e | Inr s \<Rightarrow> if s \<noteq> 200 then Some (wrap ''firebase'' errStr) else None);
           jf = AddThirdParty j file \<lparr>tp_Name = ''firebase-fcm'', tp_Method = ''POST'', tp_URL = endpoint, tp_Host = ''fcm.googleapis.com'',
             tp_Status = status, tp_LatencyMS = latency, tp_RequestBody = [], tp_ResponseBody = [], tp_Error = errStr, tp_StartedAt = now\<rparr> in
       \<lparr>fo_err = err, fo_client = c1, fo_request = Some req, fo_journal = fst jf, fo_file = snd jf,
        fo_log = [\<lparr>fl_token = maskToken (fm_Token msg), fl_topic = fm_Topic msg, fl_title = fm_Title msg, fl_latency = latency, fl_err = err\<rparr>]\<rparr>)"

section \<open>Histories of calls\<close>

record fcm_call =
  ca_now :: time
  ca_stop :: time
  ca_server :: "string \<Rightarrow> string \<Rightarrow> token_answer"
  ca_fcm :: "fcm_request \<Rightarrow> string + int"
  ca_msg :: fcm_Message

fun fcm_run :: "crypto_lib \<Rightarrow> FCMClient \<Rightarrow> fcm_call list \<Rightarrow> (fcm_call \<times> fcm_result) list" where
  "fcm_run lib c [] = []"
| "fcm_run lib c (x # xs) =
     (let r = fcm_Send lib (ca_server x) (ca_fcm x) (ca_now x) (ca_stop x) None [] c (ca_msg x) in
      (x, r) # fcm_run lib (fo_client r) xs)"

text \<open>\<open>y\<close> is a call in which the token server issued \<open>tok\<close> with the expiry the client notes.\<close>

definition issued :: "string \<Rightarrow> fcm_call \<Rightarrow> string \<Rightarrow> time \<Rightarrow> bool" where
  "issued uri y tok expiry \<longleftrightarrow> (\<exists>signed e. ca_server y uri signed = TokenAnswer tok e \<and>
     expiry = ca_now y + int64 (int64 (e * second) - 30 * second))"

section \<open>Lemmas\<close>

lemma fetch_ok:
  assumes "fetchAccessToken lib c (ca_now x) (ca_server x) = Inr (tok, expiry)"
  shows "issued (sa_TokenURI (fc_sa c)) x tok expiry \<and> tok \<noteq> []"
  using assms by (auto simp: fetchAccessToken_def issued_def split: sum.splits option.splits token_answer.splits if_splits)

lemma cached_cases:
  assumes "cachedAccessToken lib c now server = (r, c')"
  obtains tok where "r = Inr tok" "c' = c" "tok = fc_accessToken c" "tok \<noteq> []" "now < fc_tokenExpiry c"
  | tok expiry where "r = Inr tok" "fetchAccessToken lib c now server = Inr (tok, expiry)"
      "c' = c\<lparr>fc_accessToken := tok, fc_tokenExpiry := expiry\<rparr>"
  | err where "r = Inl err" "c' = c"
proof (cases "fc_accessToken c \<noteq> [] \<and> now < fc_tokenExpiry c")
  case True
  then have "r = Inr (fc_accessToken c)" "c' = c" using assms unfolding cachedAccessToken_def if_P [OF True] by auto
  with True show ?thesis by (intro that(1)) auto
next
  case False
  show ?thesis
  proof (cases "fetchAccessToken lib c now server")
    case (Inl err)
    then have "r = Inl err" "c' = c" using assms unfolding cachedAccessToken_def if_not_P [OF False] by auto
    then show ?thesis by (rule that(3))
  next
    case (Inr te)
    obtain tok expiry where "te = (tok, expiry)" using prod.exhaust by blast
    with Inr have "r = Inr tok" "fetchAccessToken lib c now server = Inr (tok, expiry)"
      "c' = c\<lparr>fc_accessToken := tok, fc_tokenExpiry := expiry\<rparr>"
      using assms unfolding cachedAccessToken_def if_not_P [OF False] by auto
    then show ?thesis by (rule that(2))
  qed
qed

lemma Send_request:
  "fo_client (fcm_Send lib server fcm now stop j file c msg) = snd (cachedAccessToken lib c now server)"
  "fo_request (fcm_Send lib server fcm now stop j file c msg) = Some q \<Longrightarrow>
     \<exists>tok. fst (cachedAccessToken lib c now server) = Inr tok \<and> fr_Authorization q = ''Bearer '' @ tok"
  by (auto simp: fcm_Send_def Let_def split: prod.splits sum.splits option.splits)

text \<open>The cached token was issued in an earlier call, with the noted expiry.\<close>

definition token_inv :: "string \<Rightarrow> fcm_call set \<Rightarrow> FCMClient \<Rightarrow> bool" where
  "token_inv uri Y c \<longleftrightarrow> sa_TokenURI (fc_sa c) = uri \<and>
     (fc_accessToken c = [] \<or> (\<exists>y \<in> Y. issued uri y (fc_accessToken c) (fc_tokenExpiry c)))"

lemma cached_inv:
  assumes "token_inv uri Y c" and "cachedAccessToken lib c (ca_now x) (ca_server x) = (r, c')"
  shows "token_inv uri (insert x Y) c' \<and>
    (\<forall>tok. r = Inr tok \<longrightarrow> (\<exists>y \<in> insert x Y. \<exists>expiry. issued uri y tok expiry \<and> (y = x \<or> ca_now x < expiry)))"
  using assms(2)
proof (cases rule: cached_cases)
  case (1 tok)
  then show ?thesis using assms(1) by (auto simp: token_inv_def)
next
  case (2 tok expiry)
  then show ?thesis using assms(1) fetch_ok by (fastforce simp: token_inv_def)
next
  case (3 err)
  then show ?thesis using assms(1) by (auto simp: token_inv_def)
qed

lemma run_tokens:
  assumes "token_inv uri Y c" and "(x, r) \<in> set (fcm_run lib c calls)" and "fo_request r = Some q"
  shows "\<exists>y \<in> Y \<union> set calls. \<exists>tok expiry. fr_Authorization q = ''Bearer '' @ tok \<and> issued uri y tok expiry \<and>
    (y = x \<or> ca_now x < expiry)"
  using assms
proof (induction calls arbitrary: c Y)
  case (Cons z calls)
  let ?r = "fcm_Send lib (ca_server z) (ca_fcm z) (ca_now z) (ca_stop z) None [] c (ca_msg z)"
  obtain tr c' where C: "cachedAccessToken lib c (ca_now z) (ca_server z) = (tr, c')" using prod.exhaust by blast
  note I = cached_inv [OF Cons.prems(1) C]
  have c': "fo_client ?r = c'" using C by (simp add: Send_request(1))
  consider "x = z" "r = ?r" | "(x, r) \<in> set (fcm_run lib c' calls)" using Cons.prems(2) c' by (auto simp: Let_def)
  then show ?case
  proof cases
    case 1
    then obtain tok where "tr = Inr tok" "fr_Authorization q = ''Bearer '' @ tok"
      using Send_request(2) [of lib "ca_server z"] Cons.prems(3) C by fastforce
    then show ?thesis using I 1 by fastforce
  next
    case 2
    then show ?thesis using Cons.IH [of "insert z Y" c'] I Cons.prems(3) by auto
  qed
qed simp

section \<open>Properties\<close>

text \<open>C39. In every history of a client, each push request carries an access token that the token server issued in this
  or an earlier call of the history; a token from an earlier call is used only before its lifetime less 30
  seconds has passed since that call.\<close>

theorem fcm_token_fresh:
  assumes "NewFCMClient decode credentials = Inr c" and "(x, r) \<in> set (fcm_run lib c calls)" and "fo_request r = Some q"
  shows "\<exists>y \<in> set calls. \<exists>tok signed e. fr_Authorization q = ''Bearer '' @ tok \<and>
    ca_server y (sa_TokenURI (fc_sa c)) signed = TokenAnswer tok e \<and>
    (y = x \<or> ca_now x < ca_now y + int64 (int64 (e * second) - 30 * second))"
proof -
  have "token_inv (sa_TokenURI (fc_sa c)) {} c" using assms(1)
    by (auto simp: NewFCMClient_def token_inv_def split: sum.splits if_splits)
  from run_tokens [OF this assms(2,3)] show ?thesis unfolding issued_def by auto
qed

definition demo_crypto :: crypto_lib where
  "demo_crypto = \<lparr>cl_pem = Some, cl_pkcs8 = (\<lambda>b. Inr (RSAKey b)), cl_sign = (\<lambda>k cs. Inr k), cl_newRequest = (\<lambda>u. None)\<rparr>"

definition demo_client :: FCMClient where
  "demo_client = \<lparr>fc_sa = \<lparr>sa_ProjectID = ''p'', sa_PrivateKey = ''k'', sa_ClientEmail = ''e'', sa_TokenURI = tokenURL\<rparr>,
     fc_accessToken = [], fc_tokenExpiry = 0\<rparr>"

definition demo_call :: "time \<Rightarrow> string \<Rightarrow> fcm_call" where
  "demo_call now tok = \<lparr>ca_now = now, ca_stop = now, ca_server = (\<lambda>uri s. TokenAnswer tok 3600), ca_fcm = (\<lambda>q. Inr 200),
     ca_msg = \<lparr>fm_Token = ''device'', fm_Topic = [], fm_Title = ''t'', fm_Body = ''b'', fm_Data = [], fm_ImageURL = []\<rparr>\<rparr>"

lemma demo_requests:
  "map (\<lambda>(x, r). map_option fr_Authorization (fo_request r))
     (fcm_run demo_crypto demo_client [demo_call second ''A'', demo_call (60 * second) ''B'', demo_call (3600 * second) ''C''])
   = [Some ''Bearer A'', Some ''Bearer A'', Some ''Bearer C'']"
  by (simp add: fcm_Send_def cachedAccessToken_def fetchAccessToken_def parseRSAPrivateKey_def demo_crypto_def demo_client_def
      demo_call_def Let_def)

lemma demo_client_new: "NewFCMClient (\<lambda>s. Inr ((fc_sa demo_client)\<lparr>sa_TokenURI := []\<rparr>)) [] = Inr demo_client"
  by (simp add: NewFCMClient_def demo_client_def)

theorem fcm_token_fresh_witness:
  "\<exists>y \<in> {demo_call second ''A'', demo_call (60 * second) ''B'', demo_call (3600 * second) ''C''}.
     \<exists>tok signed e. ca_server y tokenURL signed = TokenAnswer tok e"
proof -
  let ?calls = "[demo_call second ''A'', demo_call (60 * second) ''B'', demo_call (3600 * second) ''C'']"
  obtain x r rest where R: "fcm_run demo_crypto demo_client ?calls = (x, r) # rest" by (simp add: Let_def)
  then have "map_option fr_Authorization (fo_request r) = Some ''Bearer A''" using demo_requests by simp
  then obtain q where "fo_request r = Some q" by auto
  from fcm_token_fresh [OF demo_client_new _ this, of x demo_crypto ?calls] R show ?thesis by (auto simp: demo_client_def)
qed

end
