(* ===== verification/Ssrf_Guard.thy ===== *)
theory Ssrf_Guard
  imports Prelude
begin

text \<open>
  The server-side request forgery guard of \<^verbatim>\<open>pkg/httpclient\<close>: the host checks of \<^verbatim>\<open>middleware.go\<close> and the
  guarded dialler of \<^verbatim>\<open>ssrf_dial.go\<close>, with the parts of Go's \<^verbatim>\<open>net\<close> package they use (address parsing,
  address classes, networks).

  An address is its list of bytes, sixteen of them as \<^verbatim>\<open>net.ParseIP\<close> returns it (an IPv4 address in its
  mapped form) or four.
\<close>

section \<open>Addresses\<close>

type_synonym ip = "nat list"

definition hex_value :: "char \<Rightarrow> nat option" where
  "hex_value c =
     (let n = ord_char c in
      if 48 \<le> n \<and> n \<le> 57 then Some (n - 48)
      else if 97 \<le> n \<and> n \<le> 102 then Some (n - 87)
      else if 65 \<le> n \<and> n \<le> 70 then Some (n - 55) else None)"

definition is_hex :: "char \<Rightarrow> bool" where
  "is_hex c \<longleftrightarrow> hex_value c \<noteq> None"

definition hex_number :: "string \<Rightarrow> nat" where
  "hex_number s = fold (\<lambda>c n. n * 16 + the (hex_value c)) s 0"

definition parse_octet :: "string \<Rightarrow> nat option" where
  "parse_octet s =
     (if s = [] \<or> \<not> list_all is_digit s \<or> (length s > 1 \<and> hd s = CHR ''0'') \<or> dec_number s > 255 then None
      else Some (dec_number s))"

definition parseIPv4 :: "string \<Rightarrow> nat list option" where
  "parseIPv4 s = (case map parse_octet (Split s (CHR ''.'')) of
     [Some a, Some b, Some c, Some d] \<Rightarrow> Some [a, b, c, d]
   | _ \<Rightarrow> None)"

definition mapped :: "nat list \<Rightarrow> ip" where
  "mapped b4 = replicate 10 0 @ [255, 255] @ b4"

text \<open>The loop of Go's IPv6 parser: the bytes so far and the place of the double colon, if there was one.\<close>

fun parse6 :: "nat \<Rightarrow> string \<Rightarrow> nat list \<Rightarrow> nat option \<Rightarrow> (nat list \<times> nat option) option" where
  "parse6 0 s acc ell = (if s = [] then Some (acc, ell) else None)"
| "parse6 (Suc n) s acc ell =
     (let h = takeWhile is_hex s;
          rest = dropWhile is_hex s;
          acc' = acc @ [hex_number h div 256, hex_number h mod 256]
      in if h = [] \<or> length h > 4 then None
         else case rest of
           [] \<Rightarrow> Some (acc', ell)
         | c # s1 \<Rightarrow>
             if c = CHR ''.'' then
               if ell = None \<and> length acc \<noteq> 12 \<or> length acc > 12 then None
               else map_option (\<lambda>b. (acc @ b, ell)) (parseIPv4 s)
             else if c \<noteq> CHR '':'' then None
             else (case s1 of
                [] \<Rightarrow> None
              | d # s2 \<Rightarrow>
                  if d \<noteq> CHR '':'' then parse6 n s1 acc' ell
                  else if ell \<noteq> None then None
                  else if s2 = [] then Some (acc', Some (length acc'))
                  else parse6 n s2 acc' (Some (length acc'))))"

definition expand6 :: "nat list \<times> nat option \<Rightarrow> ip option" where
  "expand6 p = (case p of (acc, ell) \<Rightarrow>
     if length acc < 16
     then (case ell of None \<Rightarrow> None | Some e \<Rightarrow> Some (take e acc @ replicate (16 - length acc) 0 @ drop e acc))
     else (case ell of None \<Rightarrow> Some acc | Some _ \<Rightarrow> None))"

definition parseIPv6 :: "string \<Rightarrow> ip option" where
  "parseIPv6 s =
     (if HasPrefix s ''::'' then
        let r = drop 2 s in
        if r = [] then Some (replicate 16 0) else Option.bind (parse6 8 r [] (Some 0)) expand6
      else Option.bind (parse6 8 s [] None) expand6)"

text \<open>\<^verbatim>\<open>net.ParseIP\<close>: the first dot or colon decides; a zone is refused.\<close>

definition ParseIP :: "string \<Rightarrow> ip option" where
  "ParseIP s =
     (case dropWhile (\<lambda>c. c \<noteq> CHR ''.'' \<and> c \<noteq> CHR '':'' \<and> c \<noteq> CHR ''%'') s of
        [] \<Rightarrow> None
      | c # _ \<Rightarrow> if c = CHR ''.'' then map_option mapped (parseIPv4 s)
                 else if c = CHR '':'' then if CHR ''%'' \<in> set s then None else parseIPv6 s
                 else None)"

definition To4 :: "ip \<Rightarrow> nat list option" where
  "To4 a = (if length a = 4 then Some a
     else if length a = 16 \<and> take 12 a = replicate 10 0 @ [255, 255] then Some (drop 12 a) else None)"

definition norm_ip :: "ip \<Rightarrow> nat list" where
  "norm_ip a = (case To4 a of Some b \<Rightarrow> b | None \<Rightarrow> a)"

text \<open>The first \<open>n\<close> bits of two byte lists agree.\<close>

fun same_bits :: "nat \<Rightarrow> nat list \<Rightarrow> nat list \<Rightarrow> bool" where
  "same_bits n (x # xs) (y # ys) =
     (if n = 0 then True
      else if n \<ge> 8 then x = y \<and> same_bits (n - 8) xs ys
      else x div 2 ^ (8 - n) = y div 2 ^ (8 - n))"
| "same_bits n _ _ = True"

definition net_Contains :: "nat list \<times> nat \<Rightarrow> ip \<Rightarrow> bool" where
  "net_Contains r a = (length (norm_ip a) = length (fst r) \<and> same_bits (snd r) (fst r) (norm_ip a))"

definition privateRanges :: "(nat list \<times> nat) list" where
  "privateRanges =
     [([127, 0, 0, 0], 8), ([10, 0, 0, 0], 8), ([172, 16, 0, 0], 12), ([192, 168, 0, 0], 16),
      ([169, 254, 0, 0], 16), ([100, 64, 0, 0], 10),
      (replicate 15 0 @ [1], 128), (252 # replicate 15 0, 7), (254 # 128 # replicate 14 0, 10)]"

section \<open>Host checks\<close>

definition isInternalHost :: "string \<Rightarrow> bool" where
  "isInternalHost host =
     (if ToLower host \<in> {''localhost'', ''ip6-localhost'', ''ip6-loopback''} then True
      else case ParseIP host of None \<Rightarrow> False | Some a \<Rightarrow> list_ex (\<lambda>r. net_Contains r a) privateRanges)"

datatype ssrf_err =
    EmptyHost
  | InternalHost string
  | NotInAllowlist string
  | InvalidAddress string
  | ResolveError string string
  | NoAddresses string
  | ResolvesToInternal string ip
  | DialError string

text \<open>\<^verbatim>\<open>strings.EqualFold\<close> on ASCII.\<close>

definition EqualFold :: "string \<Rightarrow> string \<Rightarrow> bool" where
  "EqualFold s t \<longleftrightarrow> ToLower s = ToLower t"

definition validateHost :: "string \<Rightarrow> string list \<Rightarrow> bool \<Rightarrow> ssrf_err option" where
  "validateHost host allowedHosts allowPrivate =
     (if host = [] then Some EmptyHost
      else if \<not> allowPrivate \<and> isInternalHost host then Some (InternalHost host)
      else if allowedHosts = [] then None
      else if list_ex (EqualFold host) allowedHosts then None
      else Some (NotInAllowlist host))"

section \<open>The guarded dialler\<close>

definition IsLoopback :: "ip \<Rightarrow> bool" where
  "IsLoopback a = (case To4 a of Some b \<Rightarrow> b ! 0 = 127 | None \<Rightarrow> a = replicate 15 0 @ [1])"

definition IsPrivate :: "ip \<Rightarrow> bool" where
  "IsPrivate a = (case To4 a of
     Some b \<Rightarrow> b ! 0 = 10 \<or> (b ! 0 = 172 \<and> b ! 1 div 16 = 1) \<or> (b ! 0 = 192 \<and> b ! 1 = 168)
   | None \<Rightarrow> length a = 16 \<and> a ! 0 div 2 = 126)"

definition IsLinkLocalUnicast :: "ip \<Rightarrow> bool" where
  "IsLinkLocalUnicast a = (case To4 a of
     Some b \<Rightarrow> b ! 0 = 169 \<and> b ! 1 = 254
   | None \<Rightarrow> length a = 16 \<and> a ! 0 = 254 \<and> a ! 1 div 64 = 2)"

definition IsLinkLocalMulticast :: "ip \<Rightarrow> bool" where
  "IsLinkLocalMulticast a = (case To4 a of
     Some b \<Rightarrow> b ! 0 = 224 \<and> b ! 1 = 0 \<and> b ! 2 = 0
   | None \<Rightarrow> length a = 16 \<and> a ! 0 = 255 \<and> a ! 1 mod 16 = 2)"

definition IsUnspecified :: "ip \<Rightarrow> bool" where
  "IsUnspecified a \<longleftrightarrow> norm_ip a = [0, 0, 0, 0] \<or> a = replicate 16 0"

definition IsMulticast :: "ip \<Rightarrow> bool" where
  "IsMulticast a = (case To4 a of Some b \<Rightarrow> b ! 0 div 16 = 14 | None \<Rightarrow> length a = 16 \<and> a ! 0 = 255)"

text \<open>A nil address is the empty list.\<close>

definition isInternalIP :: "ip \<Rightarrow> bool" where
  "isInternalIP a =
     (if a = [] then True
      else if IsLoopback a \<or> IsPrivate a \<or> IsLinkLocalUnicast a \<or> IsLinkLocalMulticast a \<or> IsUnspecified a \<or> IsMulticast a
      then True
      else list_ex (\<lambda>r. net_Contains r a) privateRanges)"

text \<open>\<^verbatim>\<open>net.SplitHostPort\<close>: the host and the port, or nothing on its errors.\<close>

definition last_colon :: "string \<Rightarrow> nat option" where
  "last_colon s = (let r = takeWhile (\<lambda>c. c \<noteq> CHR '':'') (rev s)
                   in if length r = length s then None else Some (length s - length r - 1))"

definition SplitHostPort :: "string \<Rightarrow> (string \<times> string) option" where
  "SplitHostPort s = (case last_colon s of
     None \<Rightarrow> None
   | Some i \<Rightarrow>
       let port = drop (i + 1) s in
       if hd s = CHR ''['' then
         let e = length (takeWhile (\<lambda>c. c \<noteq> CHR '']'') s) in
         if e + 1 \<noteq> i then None
         else if CHR ''['' \<in> set (drop 1 s) \<or> CHR '']'' \<in> set (drop (e + 1) s) then None
         else Some (take (e - 1) (drop 1 s), port)
       else
         let host = take i s in
         if CHR '':'' \<in> set host \<or> CHR ''['' \<in> set s \<or> CHR '']'' \<in> set s then None
         else Some (host, port))"

text \<open>The loop that dials the validated addresses: the connection or the last error, and the addresses
  dialled.\<close>

fun dial_loop ::
  "('w \<Rightarrow> ip \<Rightarrow> string \<Rightarrow> (string + 'c) \<times> 'w) \<Rightarrow> 'w \<Rightarrow> ip list \<Rightarrow> string \<Rightarrow> string \<Rightarrow> (ssrf_err + 'c) \<times> ip list \<times> 'w" where
  "dial_loop dial w [] port lastErr = (Inl (DialError lastErr), [], w)"
| "dial_loop dial w (a # as) port lastErr = (case dial w a port of
     (Inr conn, w') \<Rightarrow> (Inr conn, [a], w')
   | (Inl dialErr, w') \<Rightarrow> (case dial_loop dial w' as port dialErr of (r, ds, w'') \<Rightarrow> (r, a # ds, w'')))"

definition guardedDialContext ::
  "('w \<Rightarrow> string \<Rightarrow> (string + ip list) \<times> 'w) \<Rightarrow> ('w \<Rightarrow> ip \<Rightarrow> string \<Rightarrow> (string + 'c) \<times> 'w) \<Rightarrow> bool \<Rightarrow> 'w \<Rightarrow> string
     \<Rightarrow> (ssrf_err + 'c) \<times> ip list \<times> 'w" where
  "guardedDialContext lookupIPAddr dial allowPrivate w addr = (case SplitHostPort addr of
     None \<Rightarrow> (Inl (InvalidAddress addr), [], w)
   | Some (host, port) \<Rightarrow> (case lookupIPAddr w host of
        (Inl err, w1) \<Rightarrow> (Inl (ResolveError host err), [], w1)
      | (Inr ips, w1) \<Rightarrow>
          if ips = [] then (Inl (NoAddresses host), [], w1)
          else (case (if allowPrivate then None else find isInternalIP ips) of
                  Some a \<Rightarrow> (Inl (ResolvesToInternal host a), [], w1)
                | None \<Rightarrow> dial_loop dial w1 ips port [])))"

section \<open>Lemmas\<close>

lemma dial_loop_prefix:
  "dial_loop dial w as port e = (r, ds, w') \<Longrightarrow> set ds \<subseteq> set as \<and> (as \<noteq> [] \<longrightarrow> ds \<noteq> [])"
proof (induction as arbitrary: w e r ds w')
  case (Cons a as)
  obtain q w1 where d: "dial w a port = (q, w1)" by fastforce
  show ?case
  proof (cases q)
    case (Inl x)
    obtain r2 ds2 w2 where l: "dial_loop dial w1 as port x = (r2, ds2, w2)" by (metis prod_cases3)
    then show ?thesis using Cons.prems d Inl Cons.IH [OF l] by auto
  qed (use Cons.prems d in auto)
qed simp

text \<open>The classification of an IPv4 address, whichever of its two forms it has.\<close>

lemma To4_mapped [simp]: "length b = 4 \<Longrightarrow> To4 (mapped b) = Some b"
  by (simp add: To4_def mapped_def)

lemma To4_short [simp]: "length b = 4 \<Longrightarrow> To4 b = Some b"
  by (simp add: To4_def)

definition v4_internal :: "nat \<Rightarrow> nat \<Rightarrow> nat \<Rightarrow> nat \<Rightarrow> bool" where
  "v4_internal a b c d \<longleftrightarrow>
     (let n = ((a * 256 + b) * 256 + c) * 256 + d in
      n = 0 \<or>
      10 * 2 ^ 24 \<le> n \<and> n < 11 * 2 ^ 24 \<or>
      100 * 2 ^ 24 + 64 * 2 ^ 16 \<le> n \<and> n < 100 * 2 ^ 24 + 128 * 2 ^ 16 \<or>
      127 * 2 ^ 24 \<le> n \<and> n < 128 * 2 ^ 24 \<or>
      169 * 2 ^ 24 + 254 * 2 ^ 16 \<le> n \<and> n < 169 * 2 ^ 24 + 255 * 2 ^ 16 \<or>
      172 * 2 ^ 24 + 16 * 2 ^ 16 \<le> n \<and> n < 172 * 2 ^ 24 + 32 * 2 ^ 16 \<or>
      192 * 2 ^ 24 + 168 * 2 ^ 16 \<le> n \<and> n < 192 * 2 ^ 24 + 169 * 2 ^ 16 \<or>
      224 * 2 ^ 24 \<le> n \<and> n < 240 * 2 ^ 24)"

definition v4_classes :: "nat \<Rightarrow> nat \<Rightarrow> nat \<Rightarrow> nat \<Rightarrow> bool" where
  "v4_classes a b c d \<longleftrightarrow> a = 0 \<and> b = 0 \<and> c = 0 \<and> d = 0 \<or> a = 10 \<or> a = 100 \<and> b div 64 = 1 \<or> a = 127 \<or>
     a = 169 \<and> b = 254 \<or> a = 172 \<and> b div 16 = 1 \<or> a = 192 \<and> b = 168 \<or> a div 16 = 14"

lemma private_v4:
  assumes n: "norm_ip x = [a, b, c, d]"
  shows "list_ex (\<lambda>r. net_Contains r x) privateRanges \<longleftrightarrow> a = 127 \<or> a = 10 \<or> a = 172 \<and> b div 16 = 1 \<or>
      a = 192 \<and> b = 168 \<or> a = 169 \<and> b = 254 \<or> a = 100 \<and> b div 64 = 1"
    by (simp add: privateRanges_def net_Contains_def n eq_commute [of 127 a] eq_commute [of 10 a] eq_commute [of 172 a]
        eq_commute [of 192 a] eq_commute [of 169 a] eq_commute [of 100 a] eq_commute [of 168 b] eq_commute [of 254 b]
        eq_commute [of "Suc 0" "b div 16"] eq_commute [of "Suc 0" "b div 64"])

lemma isInternalIP_v4:
  assumes "x = [a, b, c, d] \<or> x = mapped [a, b, c, d]"
  shows "isInternalIP x \<longleftrightarrow> v4_classes a b c d"
proof -
  have t: "To4 x = Some [a, b, c, d]" using assms by (elim disjE) simp_all
  have ne: "x \<noteq> []" using assms by (auto simp: mapped_def)
  have n: "norm_ip x = [a, b, c, d]" by (simp add: norm_ip_def t)
  have "To4 (replicate 16 0) = None" by code_simp
  then have u: "IsUnspecified x \<longleftrightarrow> a = 0 \<and> b = 0 \<and> c = 0 \<and> d = 0"
    using t by (auto simp: IsUnspecified_def n)
  note nets = private_v4 [OF n]
  have multicast: "a = 224 \<Longrightarrow> a div 16 = 14" by simp
  have if_or: "(if P then True else Q) \<longleftrightarrow> P \<or> Q" for P Q by simp
  have nth: "[a, b, c, d] ! 0 = a" "[a, b, c, d] ! 1 = b" "[a, b, c, d] ! 2 = c" by simp_all
  show ?thesis
    unfolding isInternalIP_def if_or nets u v4_classes_def IsLoopback_def IsPrivate_def IsLinkLocalUnicast_def
      IsLinkLocalMulticast_def IsMulticast_def t option.case nth
    by (rule iffI; elim disjE conjE) (simp_all add: ne multicast)
qed

text \<open>Comparing a number with a multiple of a power of two compares its leading part.\<close>

lemma lead_le: "(s :: nat) < M \<Longrightarrow> k * M \<le> q * M + s \<longleftrightarrow> k \<le> q"
proof
  assume "s < M" "k * M \<le> q * M + s"
  then have "k * M < (q + 1) * M" by (simp add: add_mult_distrib)
  then show "k \<le> q" by (simp only: mult_less_cancel2) simp
qed (meson le_add1 mult_le_mono1 order_trans)

lemma lead_less: "(s :: nat) < M \<Longrightarrow> q * M + s < k * M \<longleftrightarrow> q < k"
  using lead_le [of s M k q] by linarith

lemma lead_two:
  fixes b v :: nat
  assumes "b < 256" "v \<le> 256"
  shows "k * 256 + u \<le> a * 256 + b \<and> a * 256 + b < k * 256 + v \<longleftrightarrow> a = k \<and> u \<le> b \<and> b < v"
proof (cases "a = k")
  case False
  then consider "a + 1 \<le> k" | "k + 1 \<le> a" by linarith
  then show ?thesis using assms by cases auto
qed simp

lemma v4_classes_internal:
  assumes "a < 256" "b < 256" "c < 256" "d < 256"
  shows "v4_classes a b c d \<longleftrightarrow> v4_internal a b c d"
proof -
  let ?n = "((a * 256 + b) * 256 + c) * 256 + d"
  have n1: "?n = a * 2 ^ 24 + (b * 2 ^ 16 + c * 2 ^ 8 + d)" and n2: "?n = (a * 2 ^ 8 + b) * 2 ^ 16 + (c * 2 ^ 8 + d)"
    by simp_all
  have s1: "b * 2 ^ 16 + c * 2 ^ 8 + d < 2 ^ 24" and s2: "c * 2 ^ 8 + d < 2 ^ 16" using assms by simp_all
  note L1 = lead_le [OF s1, of _ a] lead_less [OF s1, of a]
  note L2 = lead_le [OF s2, of _ "a * 2 ^ 8 + b"] lead_less [OF s2, of "a * 2 ^ 8 + b"]
  have one: "k * 2 ^ 24 \<le> ?n \<and> ?n < m * 2 ^ 24 \<longleftrightarrow> k \<le> a \<and> a < m" for k m
    unfolding n1 L1 ..
  have two: "k * 2 ^ 24 + u * 2 ^ 16 \<le> ?n \<and> ?n < k * 2 ^ 24 + v * 2 ^ 16 \<longleftrightarrow> a = k \<and> u \<le> b \<and> b < v"
    if "v \<le> 256" for k u v
  proof -
    have e: "k * 2 ^ 24 + w * 2 ^ 16 = (k * 2 ^ 8 + w) * 2 ^ 16" for w :: nat by simp
    show ?thesis unfolding n2 e L2 using lead_two [OF assms(2) that] by simp
  qed
  have zero: "?n = 0 \<longleftrightarrow> a = 0 \<and> b = 0 \<and> c = 0 \<and> d = 0" by simp
  have t100: "100 * 2 ^ 24 + 64 * 2 ^ 16 \<le> ?n \<and> ?n < 100 * 2 ^ 24 + 128 * 2 ^ 16 \<longleftrightarrow> a = 100 \<and> 64 \<le> b \<and> b < 128"
    and t169: "169 * 2 ^ 24 + 254 * 2 ^ 16 \<le> ?n \<and> ?n < 169 * 2 ^ 24 + 255 * 2 ^ 16 \<longleftrightarrow> a = 169 \<and> 254 \<le> b \<and> b < 255"
    and t172: "172 * 2 ^ 24 + 16 * 2 ^ 16 \<le> ?n \<and> ?n < 172 * 2 ^ 24 + 32 * 2 ^ 16 \<longleftrightarrow> a = 172 \<and> 16 \<le> b \<and> b < 32"
    and t192: "192 * 2 ^ 24 + 168 * 2 ^ 16 \<le> ?n \<and> ?n < 192 * 2 ^ 24 + 169 * 2 ^ 16 \<longleftrightarrow> a = 192 \<and> 168 \<le> b \<and> b < 169"
    by (rule two, simp)+
  have ranges: "b div 16 = 1 \<longleftrightarrow> 16 \<le> b \<and> b < 32" "b div 64 = 1 \<longleftrightarrow> 64 \<le> b \<and> b < 128"
    "a div 16 = 14 \<longleftrightarrow> 224 \<le> a \<and> a < 240" "a = 10 \<longleftrightarrow> 10 \<le> a \<and> a < 11" "a = 127 \<longleftrightarrow> 127 \<le> a \<and> a < 128"
    "b = 168 \<longleftrightarrow> 168 \<le> b \<and> b < 169" "b = 254 \<longleftrightarrow> 254 \<le> b \<and> b < 255" by auto
  show ?thesis
    unfolding v4_classes_def v4_internal_def Let_def one [of 10 11] one [of 127 128] one [of 224 240] zero t100 t169 t172 t192
      ranges ..
qed

text \<open>Dotted notation: printing four bytes and parsing them gives the mapped address.\<close>

definition dotted :: "nat \<Rightarrow> nat \<Rightarrow> nat \<Rightarrow> nat \<Rightarrow> string" where
  "dotted a b c d = Join (map nat_str [a, b, c, d]) ''.''"

lemma octet:
  assumes "n < 256"
  shows "parse_octet (nat_str n) = Some n"
proof -
  have "\<not> (length (nat_str n) > 1 \<and> hd (nat_str n) = CHR ''0'')"
  proof (cases "n = 0")
    case False
    then show ?thesis using nat_str_hd [of n] by (auto simp: ord_char_def)
  qed (simp add: nat_str.simps)
  then show ?thesis using assms nat_str_digits [of _ n] by (simp add: parse_octet_def list_all_iff)
qed

lemma not_digit: "\<not> is_digit (CHR ''.'')" "\<not> is_digit (CHR '':'')" "\<not> is_digit (CHR ''%'')"
  by (simp_all add: is_digit_def ord_char_def)

lemma ParseIP_dotted:
  assumes "a < 256" "b < 256" "c < 256" "d < 256"
  shows "ParseIP (dotted a b c d) = Some (mapped [a, b, c, d])"
proof -
  have parts: "\<forall>x \<in> set (map nat_str [a, b, c, d]). CHR ''.'' \<notin> set x"
    using nat_str_digits not_digit by auto
  have split: "Split (dotted a b c d) (CHR ''.'') = map nat_str [a, b, c, d]"
    unfolding dotted_def by (rule Split_Join [OF parts]) simp
  have "dotted a b c d = nat_str a @ CHR ''.'' # Join (map nat_str [b, c, d]) ''.''" by (simp add: dotted_def)
  moreover have "\<forall>x \<in> set (nat_str a). x \<noteq> CHR ''.'' \<and> x \<noteq> CHR '':'' \<and> x \<noteq> CHR ''%''"
    using nat_str_digits not_digit by metis
  ultimately have "\<exists>r. dropWhile (\<lambda>c. c \<noteq> CHR ''.'' \<and> c \<noteq> CHR '':'' \<and> c \<noteq> CHR ''%'') (dotted a b c d) = CHR ''.'' # r"
    by (simp add: dropWhile_append)
  then show ?thesis
    using octet assms by (auto simp: ParseIP_def parseIPv4_def split)
qed

lemma dotted_not_name: "ToLower (dotted a b c d) \<notin> {''localhost'', ''ip6-localhost'', ''ip6-loopback''}"
proof
  assume "ToLower (dotted a b c d) \<in> {''localhost'', ''ip6-localhost'', ''ip6-loopback''}"
  moreover have "CHR ''.'' \<in> set (ToLower (dotted a b c d))"
    by (simp add: ToLower_def dotted_def to_lower_char_def is_upper_char_def ord_char_def image_iff)
  ultimately show False by auto
qed

section \<open>Properties\<close>

text \<open>C18. The dialler connects to public addresses only: unless private targets are allowed, every address it
  dials, whatever the resolver answers, is one of the answer to its only lookup, and an IPv4 address it
  dials lies in none of the internal ranges 0.0.0.0, 10/8, 100.64/10, 127/8, 169.254/16, 172.16/12,
  192.168/16 and 224/4, written as numbers, in the plain or in the IPv6-mapped form.\<close>

theorem ssrf_dial_only_public:
  assumes "guardedDialContext lookupIPAddr dial False w addr = (r, ds, w')" and "x \<in> set ds"
  shows "\<not> isInternalIP x \<and> (\<exists>host port ips. SplitHostPort addr = Some (host, port) \<and>
      fst (lookupIPAddr w host) = Inr ips \<and> x \<in> set ips) \<and>
    (\<forall>a b c d. a < 256 \<and> b < 256 \<and> c < 256 \<and> d < 256 \<and> (x = [a, b, c, d] \<or> x = mapped [a, b, c, d]) \<longrightarrow>
      \<not> v4_internal a b c d)"
proof -
  obtain host port ips w1 where s: "SplitHostPort addr = Some (host, port)" "lookupIPAddr w host = (Inr ips, w1)"
    and pub: "find isInternalIP ips = None" and l: "dial_loop dial w1 ips port [] = (r, ds, w')"
    using assms by (auto simp: guardedDialContext_def split: option.splits prod.splits sum.splits if_splits)
  have "x \<in> set ips" using dial_loop_prefix [OF l] assms(2) by auto
  then have "\<not> isInternalIP x" using pub by (simp add: find_None_iff)
  then show ?thesis using s \<open>x \<in> set ips\<close> isInternalIP_v4 v4_classes_internal by fastforce
qed

definition demo_lookup :: "nat \<Rightarrow> string \<Rightarrow> (string + ip list) \<times> nat" where
  "demo_lookup w host = (Inr [[93, 184, 216, 34]], w + 1)"

definition demo_dial :: "nat \<Rightarrow> ip \<Rightarrow> string \<Rightarrow> (string + ip) \<times> nat" where
  "demo_dial w a port = (Inr a, w)"

theorem ssrf_dial_only_public_witness:
  "[93, 184, 216, 34] \<in> set (fst (snd (guardedDialContext demo_lookup demo_dial False 0 ''example.com:443''))) \<and>
   \<not> isInternalIP [93, 184, 216, 34] \<and> \<not> v4_internal 93 184 216 34"
proof -
  have e: "guardedDialContext demo_lookup demo_dial False 0 ''example.com:443'' =
      (Inr [93, 184, 216, 34], [[93, 184, 216, 34]], 1)" by code_simp
  from ssrf_dial_only_public [OF this, of "[93, 184, 216, 34]"] show ?thesis unfolding e by auto
qed

text \<open>A URL that names an internal IPv4 address in digits is refused before anything is resolved: for
  every address in a private, loopback, link-local or shared range the check of the host fails, and it
  refuses no other dotted address unless there is an allowlist.\<close>

lemma ssrf_literal_hosts:
  assumes "a < 256" "b < 256" "c < 256" "d < 256"
  shows "validateHost (dotted a b c d) [] False \<noteq> None \<longleftrightarrow>
    a = 127 \<or> a = 10 \<or> a = 172 \<and> 16 \<le> b \<and> b < 32 \<or> a = 192 \<and> b = 168 \<or> a = 169 \<and> b = 254 \<or> a = 100 \<and> 64 \<le> b \<and> b < 128"
proof -
  have ne: "dotted a b c d \<noteq> []" using ParseIP_dotted [OF assms] by (auto simp: ParseIP_def)
  have n: "norm_ip (mapped [a, b, c, d]) = [a, b, c, d]" by (simp add: norm_ip_def)
  have ranges: "b div 16 = 1 \<longleftrightarrow> 16 \<le> b \<and> b < 32" "b div 64 = 1 \<longleftrightarrow> 64 \<le> b \<and> b < 128" by auto
  have "validateHost (dotted a b c d) [] False \<noteq> None \<longleftrightarrow> isInternalHost (dotted a b c d)"
    using ne by (simp add: validateHost_def)
  also have "\<dots> \<longleftrightarrow> list_ex (\<lambda>r. net_Contains r (mapped [a, b, c, d])) privateRanges"
    using dotted_not_name [of a b c d] unfolding isInternalHost_def ParseIP_dotted [OF assms] by (simp only: if_False option.case)
  finally show ?thesis unfolding private_v4 [OF n] ranges .
qed

end
