(* ===== verification/Http_Client.thy ===== *)
theory Http_Client
  imports Ssrf_Guard Journal
begin

text \<open>
  \<^verbatim>\<open>pkg/httpclient\<close>: the outbound HTTP client with its chain of transports, circuit breaker over retry over
  host guard over the network transport (\<^verbatim>\<open>base_client.go\<close>, \<^verbatim>\<open>middleware.go\<close>), and the client of the
  user service (\<^verbatim>\<open>user_client.go\<close>).

  A transport is a function on a world \<open>'w\<close>. The network transport, the circuit breaker
  (\<^verbatim>\<open>gobreaker\<close>), timers with the request's context, and what \<^verbatim>\<open>net/http\<close> makes of a redirect response
  are parameters. Header names are in the canonical form that \<^verbatim>\<open>http.Header\<close> stores. The delay of a
  retry is an unbounded product: Go computes it through a float, exactly for the few retries in use.
\<close>

section \<open>Requests, responses, errors\<close>

text \<open>\<open>q_GetBody\<close> is \<open>None\<close> for a nil \<^verbatim>\<open>GetBody\<close>, otherwise what calling it returns.\<close>

record hreq =
  q_Method :: string
  q_URL :: string
  q_Hostname :: string
  q_Header :: "string gomap"
  q_hasBody :: bool
  q_GetBody :: "(string + string) option"

text \<open>Of a body there are the bytes that can be read from it and the error that reading ends with, if it does not end with
  the end of the body.\<close>

record hresp =
  p_StatusCode :: int
  p_ContentType :: string
  p_Body :: string
  p_BodyErr :: "string option"

datatype http_err =
    NetTimeout string
  | Canceled
  | DeadlineExceeded
  | NetErr string
  | SsrfRefused ssrf_err
  | BreakerOpen
  | RetryResetBody string
  | AfterRetries int http_err
  | ServerReturned int int
  | StoppedRedirects
  | ReadBody hresp string

type_synonym 'w transport = "'w \<Rightarrow> hreq \<Rightarrow> (http_err + hresp) \<times> 'w"

fun isRetryableErr :: "http_err \<Rightarrow> bool" where
  "isRetryableErr (NetTimeout _) = True"
| "isRetryableErr (AfterRetries _ e) = isRetryableErr e"
| "isRetryableErr _ = False"

section \<open>Options\<close>

record Options =
  o_Timeout :: duration
  o_AllowedHosts :: "string list"
  o_AllowPrivate :: bool
  o_MaxResponseBytes :: int
  o_MaxRetries :: int
  o_CBConsecutiveFailures :: int
  o_CBTimeout :: duration
  o_LogBodyMaxBytes :: int

definition applyDefaults :: "Options \<Rightarrow> Options" where
  "applyDefaults opts = opts\<lparr>o_Timeout := (if o_Timeout opts = 0 then 5 * second else o_Timeout opts),
     o_MaxResponseBytes := (if o_MaxResponseBytes opts = 0 then 10 * 2 ^ 20 else o_MaxResponseBytes opts),
     o_MaxRetries := (if o_MaxRetries opts = 0 then 3 else o_MaxRetries opts),
     o_CBConsecutiveFailures := (if o_CBConsecutiveFailures opts = 0 then 5 else o_CBConsecutiveFailures opts),
     o_CBTimeout := (if o_CBTimeout opts = 0 then 30 * second else o_CBTimeout opts),
     o_LogBodyMaxBytes := (if o_LogBodyMaxBytes opts = 0 then 16384 else o_LogBodyMaxBytes opts)\<rparr>"

section \<open>The host guard\<close>

definition ssrfGuard_RoundTrip :: "'w transport \<Rightarrow> string list \<Rightarrow> bool \<Rightarrow> 'w transport" where
  "ssrfGuard_RoundTrip inner allowedHosts allowPrivate w req =
     (case validateHost (q_Hostname req) allowedHosts allowPrivate of
        Some err \<Rightarrow> (Inl (SsrfRefused err), w)
      | None \<Rightarrow> inner w req)"

definition ssrfCheckRedirect :: "string list \<Rightarrow> bool \<Rightarrow> hreq \<Rightarrow> hreq list \<Rightarrow> http_err option" where
  "ssrfCheckRedirect allowedHosts allowPrivate req via =
     (if length via \<ge> 10 then Some StoppedRedirects
      else map_option SsrfRefused (validateHost (q_Hostname req) allowedHosts allowPrivate))"

section \<open>Retries\<close>

record retryTransport =
  rt_maxRetries :: int
  rt_baseDelay :: duration

text \<open>The history of a call: attempts with their outcomes, and pauses. \<open>pause\<close> is the \<^verbatim>\<open>select\<close> between the
  request's context and the timer: the context's error if it ended first.\<close>

datatype retry_event = Tried "http_err + hresp" | Paused duration

definition retry_delay :: "retryTransport \<Rightarrow> nat \<Rightarrow> duration" where
  "retry_delay t attempt = rt_baseDelay t * 2 ^ (attempt - 1)"

text \<open>What happens before attempt number \<open>attempt\<close>: nothing before the first one; later, the loop may be
  left (the body cannot be replayed), the call may fail, or it goes on after a pause.\<close>

datatype before = BGo "retry_event list" | BBreak | BFail http_err "retry_event list"

definition before_attempt ::
  "('w \<Rightarrow> duration \<Rightarrow> http_err option \<times> 'w) \<Rightarrow> retryTransport \<Rightarrow> nat \<Rightarrow> hreq \<Rightarrow> 'w \<Rightarrow> before \<times> 'w" where
  "before_attempt pause t attempt req w =
     (if attempt = 0 then (BGo [], w)
      else if q_hasBody req \<and> q_GetBody req = None then (BBreak, w)
      else case q_GetBody req of
        Some (Inl err) \<Rightarrow> (BFail (RetryResetBody err) [], w)
      | _ \<Rightarrow> (case pause w (retry_delay t attempt) of
           (Some ctxErr, w') \<Rightarrow> (BFail ctxErr [Paused (retry_delay t attempt)], w')
         | (None, w') \<Rightarrow> (BGo [Paused (retry_delay t attempt)], w')))"

definition give_up :: "retryTransport \<Rightarrow> http_err option \<Rightarrow> int \<Rightarrow> http_err" where
  "give_up t lastErr lastStatus = (case lastErr of
     Some e \<Rightarrow> AfterRetries (rt_maxRetries t) e
   | None \<Rightarrow> ServerReturned lastStatus (rt_maxRetries t))"

text \<open>The loop with \<open>n\<close> attempts left.\<close>

fun retry_loop ::
  "'w transport \<Rightarrow> ('w \<Rightarrow> duration \<Rightarrow> http_err option \<times> 'w) \<Rightarrow> retryTransport \<Rightarrow> hreq \<Rightarrow> nat \<Rightarrow> nat
     \<Rightarrow> http_err option \<Rightarrow> int \<Rightarrow> 'w \<Rightarrow> (http_err + hresp) \<times> retry_event list \<times> 'w" where
  "retry_loop inner pause t req 0 attempt lastErr lastStatus w = (Inl (give_up t lastErr lastStatus), [], w)"
| "retry_loop inner pause t req (Suc n) attempt lastErr lastStatus w =
     (case before_attempt pause t attempt req w of
        (BBreak, w1) \<Rightarrow> (Inl (give_up t lastErr lastStatus), [], w1)
      | (BFail err es, w1) \<Rightarrow> (Inl err, es, w1)
      | (BGo es, w1) \<Rightarrow>
          (case inner w1 req of
             (Inl err, w2) \<Rightarrow>
               if isRetryableErr err
               then (case retry_loop inner pause t req n (Suc attempt) (Some err) lastStatus w2 of
                       (r, es', w3) \<Rightarrow> (r, es @ Tried (Inl err) # es', w3))
               else (Inl err, es @ [Tried (Inl err)], w2)
           | (Inr resp, w2) \<Rightarrow>
               if p_StatusCode resp < 500 then (Inr resp, es @ [Tried (Inr resp)], w2)
               else (case retry_loop inner pause t req n (Suc attempt) lastErr (p_StatusCode resp) w2 of
                       (r, es', w3) \<Rightarrow> (r, es @ Tried (Inr resp) # es', w3))))"

definition retry_RoundTrip where
  "retry_RoundTrip inner pause t w req = retry_loop inner pause t req (nat (rt_maxRetries t + 1)) 0 None 0 w"

section \<open>The circuit breaker\<close>

text \<open>\<open>cb_Execute\<close> runs the call or refuses it; \<open>cb_State\<close> is the name of its state.\<close>

record 'w breaker =
  cb_Execute :: "'w \<Rightarrow> ('w \<Rightarrow> (http_err + hresp) \<times> 'w) \<Rightarrow> (http_err + hresp) \<times> 'w"
  cb_State :: "'w \<Rightarrow> string"

definition cb_RoundTrip :: "'w breaker \<Rightarrow> 'w transport \<Rightarrow> 'w transport" where
  "cb_RoundTrip B inner w req = (case cb_Execute B w (\<lambda>w. inner w req) of
     (Inl err, w') \<Rightarrow> (Inl err, w')
   | (Inr result, w') \<Rightarrow> (Inr result, w'))"

definition ReadyToTrip :: "Options \<Rightarrow> int \<Rightarrow> bool" where
  "ReadyToTrip opts consecutiveFailures \<longleftrightarrow> consecutiveFailures \<ge> o_CBConsecutiveFailures opts"

section \<open>The client\<close>

text \<open>The parameters of a client: the network transport (already behind the guarded dialler), the breaker,
  the timer, the clock, the request that \<^verbatim>\<open>net/http\<close> derives from a redirect response, and an optional
  wrapper around the chain.\<close>

record 'w client_env =
  ce_base :: "'w transport"
  ce_breaker :: "'w breaker"
  ce_pause :: "'w \<Rightarrow> duration \<Rightarrow> http_err option \<times> 'w"
  ce_now :: "'w \<Rightarrow> time"
  ce_redirect :: "hreq \<Rightarrow> hresp \<Rightarrow> hreq option"
  ce_wrapper :: "('w transport \<Rightarrow> 'w transport) option"

definition New_transport :: "'w client_env \<Rightarrow> Options \<Rightarrow> 'w transport" where
  "New_transport E opts =
     (let ssrf = ssrfGuard_RoundTrip (ce_base E) (o_AllowedHosts opts) (o_AllowPrivate opts);
          retry = (\<lambda>w req. case retry_RoundTrip ssrf (ce_pause E)
                     \<lparr>rt_maxRetries = o_MaxRetries opts, rt_baseDelay = 500 * millisecond\<rparr> w req of (r, es, w') \<Rightarrow> (r, w'));
          cb = cb_RoundTrip (ce_breaker E) retry
      in case ce_wrapper E of None \<Rightarrow> cb | Some wr \<Rightarrow> wr cb)"

text \<open>\<^verbatim>\<open>http.Client.Do\<close>: send, and follow a redirect that the client's policy accepts.\<close>

function follow ::
  "'w transport \<Rightarrow> (hreq \<Rightarrow> hresp \<Rightarrow> hreq option) \<Rightarrow> string list \<Rightarrow> bool \<Rightarrow> hreq list \<Rightarrow> 'w \<Rightarrow> hreq \<Rightarrow> (http_err + hresp) \<times> 'w" where
  "follow send redirect hosts priv via w req = (case send w req of
     (Inl err, w1) \<Rightarrow> (Inl err, w1)
   | (Inr resp, w1) \<Rightarrow> (case redirect req resp of
        None \<Rightarrow> (Inr resp, w1)
      | Some req' \<Rightarrow> (case ssrfCheckRedirect hosts priv req' (via @ [req]) of
           Some err \<Rightarrow> (Inl err, w1)
         | None \<Rightarrow> follow send redirect hosts priv (via @ [req]) w1 req')))"
  by pat_completeness auto

termination
  by (relation "measure (\<lambda>(send, redirect, hosts, priv, via, w, req). 10 - length via)")
    (auto simp: ssrfCheckRedirect_def split: if_splits)

declare follow.simps [simp del]

definition set_if :: "string \<Rightarrow> string \<Rightarrow> string gomap \<Rightarrow> string gomap" where
  "set_if k v h = (if v = [] then h else AList.update k v h)"

text \<open>What the context of a call holds, with the headers the trace propagator adds.\<close>

record call_ctx =
  cx_requestID :: string
  cx_authorization :: string
  cx_inject :: "(string \<times> string) list"

definition outgoing :: "call_ctx \<Rightarrow> hreq \<Rightarrow> hreq" where
  "outgoing cx req = req\<lparr>q_Header := fold (\<lambda>(k, v) h. AList.update k v h) (cx_inject cx)
     (set_if ''Authorization'' (cx_authorization cx) (set_if ''X-Request-Id'' (cx_requestID cx) (q_Header req)))\<rparr>"

definition capturedRequestBody :: "Options \<Rightarrow> hreq \<Rightarrow> string" where
  "capturedRequestBody opts req = (case q_GetBody req of
     None \<Rightarrow> []
   | Some (Inl err) \<Rightarrow> []
   | Some (Inr b) \<Rightarrow> CapBody (take (nat (o_MaxResponseBytes opts)) b)
        (case map_of (q_Header req) ''Content-Type'' of Some ct \<Rightarrow> ct | None \<Rightarrow> []) (o_LogBodyMaxBytes opts))"

definition third_party ::
  "Options \<Rightarrow> hreq \<Rightarrow> time \<Rightarrow> time \<Rightarrow> (string \<Rightarrow> string) \<Rightarrow> (http_err \<Rightarrow> string) \<Rightarrow> http_err + hresp \<Rightarrow> ThirdParty" where
  "third_party opts req start now hostOf errText r = (case r of
     Inl err \<Rightarrow> \<lparr>tp_Name = [], tp_Method = q_Method req, tp_URL = q_URL req, tp_Host = hostOf (q_URL req), tp_Status = 0,
        tp_LatencyMS = go_div (now - start) millisecond, tp_RequestBody = capturedRequestBody opts req,
        tp_ResponseBody = [], tp_Error = errText err, tp_StartedAt = start\<rparr>
   | Inr resp \<Rightarrow> \<lparr>tp_Name = [], tp_Method = q_Method req, tp_URL = q_URL req, tp_Host = hostOf (q_URL req),
        tp_Status = p_StatusCode resp, tp_LatencyMS = go_div (now - start) millisecond,
        tp_RequestBody = capturedRequestBody opts req,
        tp_ResponseBody = CapBody (p_Body resp) (p_ContentType resp) (o_LogBodyMaxBytes opts),
        tp_Error = [], tp_StartedAt = start\<rparr>)"

text \<open>\<^verbatim>\<open>Client.Do\<close>: the result, the journal with its log file, and the world. The body of a returned response
  is what can be read from it: at most \<^verbatim>\<open>MaxResponseBytes\<close>, and an error only when it comes before that many bytes. With
  a journal the body is read here, its error is dropped and the caller gets the bytes that were read.\<close>

definition limit_body :: "Options \<Rightarrow> hresp \<Rightarrow> hresp" where
  "limit_body opts resp = resp\<lparr>p_Body := take (nat (o_MaxResponseBytes opts)) (p_Body resp),
     p_BodyErr := (if int (length (p_Body resp)) < o_MaxResponseBytes opts then p_BodyErr resp else None)\<rparr>"

definition buffered_body :: "Options \<Rightarrow> hresp \<Rightarrow> hresp" where
  "buffered_body opts resp = (limit_body opts resp)\<lparr>p_BodyErr := None\<rparr>"

definition Do where
  "Do E opts hostOf errText cx j file w req0 =
     (let req = outgoing cx req0;
          start = ce_now E w
      in case follow (New_transport E opts) (ce_redirect E) (o_AllowedHosts opts) (o_AllowPrivate opts) [] w req of
           (Inl err, w1) \<Rightarrow>
             (case AddThirdParty j file (third_party opts req start (ce_now E w1) hostOf errText (Inl err)) of
                (j', file') \<Rightarrow> (Inl err, j', file', w1))
         | (Inr resp, w1) \<Rightarrow>
             let resp' = (if j = None then limit_body opts resp else buffered_body opts resp) in
             (case AddThirdParty j file (third_party opts req start (ce_now E w1) hostOf errText (Inr resp')) of
                (j', file') \<Rightarrow> (Inr resp', j', file', w1)))"

text \<open>\<^verbatim>\<open>Client.Get\<close>; the error of reading the body comes with the response.\<close>

definition Get where
  "Get E opts hostOf errText cx j file w newRequest url = (case newRequest url of
     Inl err \<Rightarrow> (Inl (NetErr (wrap ''httpclient: build request'' err)), j, file, w)
   | Inr req \<Rightarrow> (case Do E opts hostOf errText cx j file w req of
       (Inl err, rest) \<Rightarrow> (Inl err, rest)
     | (Inr resp, rest) \<Rightarrow> (case p_BodyErr resp of
         Some err \<Rightarrow> (Inl (ReadBody resp (wrap ''httpclient: read body'' err)), rest)
       | None \<Rightarrow> (Inr resp, rest))))"

section \<open>The user service client\<close>

datatype 'u user_client_result =
    GotUser 'u
  | ErrUserNotFound
  | GetUserFailed string http_err
  | UnexpectedStatus int string
  | DecodeFailed string

definition client_GetUser where
  "client_GetUser E opts hostOf errText cx j file w newRequest unmarshal baseURL i =
     (let url = baseURL @ ''/users/'' @ i in
      case Get E opts hostOf errText cx j file w newRequest url of
        (Inl err, j', file', w') \<Rightarrow> (GetUserFailed i err, j', file', w')
      | (Inr resp, j', file', w') \<Rightarrow>
          (if p_StatusCode resp = 200
           then (case unmarshal (p_Body resp) of Inl e \<Rightarrow> DecodeFailed e | Inr u \<Rightarrow> GotUser u)
           else if p_StatusCode resp = 404 then ErrUserNotFound
           else UnexpectedStatus (p_StatusCode resp) i, j', file', w'))"

section \<open>Lemmas\<close>

lemma applyDefaults_set:
  "o_Timeout (applyDefaults a) \<noteq> 0" "o_MaxResponseBytes (applyDefaults a) \<noteq> 0" "o_MaxRetries (applyDefaults a) \<noteq> 0"
  "o_CBConsecutiveFailures (applyDefaults a) \<noteq> 0" "o_CBTimeout (applyDefaults a) \<noteq> 0" "o_LogBodyMaxBytes (applyDefaults a) \<noteq> 0"
  "o_AllowedHosts (applyDefaults a) = o_AllowedHosts a" "o_AllowPrivate (applyDefaults a) = o_AllowPrivate a"
  by (simp_all add: applyDefaults_def)

lemma applyDefaults_idem: "applyDefaults (applyDefaults a) = applyDefaults a"
  by (simp add: applyDefaults_def)

subsection \<open>Invariants of the world along the chain\<close>

text \<open>A transport keeps \<open>I\<close> on the requests that satisfy \<open>Q\<close>.\<close>

definition keeps :: "('w \<Rightarrow> bool) \<Rightarrow> (hreq \<Rightarrow> bool) \<Rightarrow> 'w transport \<Rightarrow> bool" where
  "keeps I Q tr \<longleftrightarrow> (\<forall>w req. I w \<longrightarrow> Q req \<longrightarrow> I (snd (tr w req)))"

definition pause_keeps :: "('w \<Rightarrow> bool) \<Rightarrow> ('w \<Rightarrow> duration \<Rightarrow> http_err option \<times> 'w) \<Rightarrow> bool" where
  "pause_keeps I pause \<longleftrightarrow> (\<forall>w d. I w \<longrightarrow> I (snd (pause w d)))"

text \<open>A circuit breaker does nothing to the world beyond its own state but run the call.\<close>

definition breaker_keeps :: "('w \<Rightarrow> bool) \<Rightarrow> 'w breaker \<Rightarrow> bool" where
  "breaker_keeps I B \<longleftrightarrow> (\<forall>w f. I w \<longrightarrow> (\<forall>w. I w \<longrightarrow> I (snd (f w))) \<longrightarrow> I (snd (cb_Execute B w f)))"

lemma ssrf_keeps:
  "keeps I (\<lambda>req. validateHost (q_Hostname req) hosts priv = None) base \<Longrightarrow>
     keeps I (\<lambda>_. True) (ssrfGuard_RoundTrip base hosts priv)"
  by (auto simp: keeps_def ssrfGuard_RoundTrip_def split: option.splits)

lemma before_attempt_keeps:
  "pause_keeps I pause \<Longrightarrow> I w \<Longrightarrow> I (snd (before_attempt pause t attempt req w))"
  by (auto simp: before_attempt_def pause_keeps_def split: option.splits sum.splits prod.splits) (metis snd_conv)+

lemma retry_loop_keeps:
  assumes "keeps I (\<lambda>_. True) inner" and "pause_keeps I pause"
  shows "I w \<Longrightarrow> I (snd (snd (retry_loop inner pause t req n attempt lastErr lastStatus w)))"
proof (induction n arbitrary: attempt lastErr lastStatus w)
  case (Suc n)
  obtain b w1 where b: "before_attempt pause t attempt req w = (b, w1)" by fastforce
  have 1: "I w1" using before_attempt_keeps [OF assms(2) Suc.prems, of t attempt req] b by simp
  obtain o' w2 where o: "inner w1 req = (o', w2)" by fastforce
  have 2: "I w2" using assms(1) 1 o unfolding keeps_def by (metis snd_conv)
  show ?case
    using b 1 2 o Suc.IH [OF 2] by (auto split: before.splits sum.splits prod.splits) (metis snd_conv)+
qed simp

lemma cb_keeps: "breaker_keeps I B \<Longrightarrow> keeps I (\<lambda>_. True) inner \<Longrightarrow> keeps I (\<lambda>_. True) (cb_RoundTrip B inner)"
  unfolding keeps_def breaker_keeps_def cb_RoundTrip_def
  by (auto split: prod.splits sum.splits) (metis snd_conv)+

lemma follow_keeps:
  shows "keeps I (\<lambda>_. True) send \<Longrightarrow> I w \<Longrightarrow> I (snd (follow send redirect hosts priv via w req))"
proof (induction send redirect hosts priv via w req rule: follow.induct)
  case (1 send redirect hosts priv via w req)
  obtain r w1 where s: "send w req = (r, w1)" by fastforce
  have I1: "I w1" using 1(2,3) s unfolding keeps_def by (metis snd_conv)
  show ?case
    by (subst follow.simps) (use s I1 1 in \<open>auto split: sum.splits option.splits\<close>)
qed

subsection \<open>The retry loop\<close>

definition conclusive :: "http_err + hresp \<Rightarrow> bool" where
  "conclusive r = (case r of Inl err \<Rightarrow> \<not> isRetryableErr err | Inr resp \<Rightarrow> p_StatusCode resp < 500)"

fun outcomes :: "retry_event list \<Rightarrow> (http_err + hresp) list" where
  "outcomes [] = []"
| "outcomes (Tried r # es) = r # outcomes es"
| "outcomes (Paused d # es) = outcomes es"

fun pauses :: "retry_event list \<Rightarrow> duration list" where
  "pauses [] = []"
| "pauses (Tried r # es) = pauses es"
| "pauses (Paused d # es) = d # pauses es"

lemma outcomes_append [simp]: "outcomes (xs @ ys) = outcomes xs @ outcomes ys"
  by (induction xs rule: outcomes.induct) auto

lemma pauses_append [simp]: "pauses (xs @ ys) = pauses xs @ pauses ys"
  by (induction xs rule: pauses.induct) auto

text \<open>The last timeout and the last status among a list of outcomes.\<close>

fun last_err :: "http_err option \<Rightarrow> (http_err + hresp) list \<Rightarrow> http_err option" where
  "last_err e [] = e"
| "last_err e (Inl err # rs) = last_err (Some err) rs"
| "last_err e (Inr resp # rs) = last_err e rs"

fun last_status :: "int \<Rightarrow> (http_err + hresp) list \<Rightarrow> int" where
  "last_status s [] = s"
| "last_status s (Inl err # rs) = last_status s rs"
| "last_status s (Inr resp # rs) = last_status (p_StatusCode resp) rs"

definition replayable :: "hreq \<Rightarrow> bool" where
  "replayable req \<longleftrightarrow> (case q_GetBody req of None \<Rightarrow> \<not> q_hasBody req | Some r \<Rightarrow> \<not> isl r)"

definition never_cancelled :: "('w \<Rightarrow> duration \<Rightarrow> http_err option \<times> 'w) \<Rightarrow> bool" where
  "never_cancelled pause \<longleftrightarrow> (\<forall>w d. fst (pause w d) = None)"

definition retry_outcome where
  "retry_outcome t lastErr lastStatus outs =
     (if outs \<noteq> [] \<and> conclusive (last outs) then last outs
      else Inl (give_up t (last_err lastErr outs) (last_status lastStatus outs)))"

lemma before_attempt_go:
  assumes "replayable req" and "never_cancelled pause"
  shows "\<exists>w'. before_attempt pause t attempt req w = (BGo (if attempt = 0 then [] else [Paused (retry_delay t attempt)]), w')"
proof (cases "pause w (retry_delay t attempt)")
  case (Pair e w')
  moreover have "e = None" using assms(2) Pair unfolding never_cancelled_def by (metis fst_conv)
  ultimately show ?thesis using assms(1)
    by (auto simp: before_attempt_def replayable_def split: option.splits sum.splits)
qed

definition loop_spec where
  "loop_spec t n attempt lastErr lastStatus r es \<longleftrightarrow>
     r = retry_outcome t lastErr lastStatus (outcomes es) \<and>
     (\<forall>x \<in> set (butlast (outcomes es)). \<not> conclusive x) \<and>
     (outcomes es \<noteq> [] \<and> conclusive (last (outcomes es)) \<and> length (outcomes es) \<le> n \<or> length (outcomes es) = n) \<and>
     pauses es = map (retry_delay t) [max attempt 1..<attempt + length (outcomes es)]"

lemma loop_spec_last:
  assumes "conclusive x" and "outcomes es = []" and "pauses es = (if attempt = 0 then [] else [retry_delay t attempt])"
  shows "loop_spec t (Suc n) attempt e s x (es @ [Tried x])"
  using assms by (auto simp: loop_spec_def retry_outcome_def upt_rec)

lemma loop_spec_step:
  assumes "\<not> conclusive x" and "outcomes es = []" and "pauses es = (if attempt = 0 then [] else [retry_delay t attempt])"
    and "loop_spec t n (Suc attempt) (last_err e [x]) (last_status s [x]) r es'"
  shows "loop_spec t (Suc n) attempt e s r (es @ Tried x # es')"
proof -
  have outs: "outcomes (es @ Tried x # es') = x # outcomes es'" using assms(2) by simp
  have upd: "last_err e (x # ys) = last_err (last_err e [x]) ys" "last_status s (x # ys) = last_status (last_status s [x]) ys" for ys
    by (cases x; simp)+
  have upto: "[max attempt 1..<attempt + Suc k] = (if attempt = 0 then [] else [attempt]) @ [Suc attempt..<Suc attempt + k]" for k
    by (cases attempt) (simp_all add: upt_conv_Cons del: upt_Suc)
  note A = assms(4) [unfolded loop_spec_def]
  have "r = retry_outcome t e s (x # outcomes es')"
    using A assms(1) by (cases "outcomes es'") (simp_all add: retry_outcome_def upd [of "_ # _"])
  moreover have "\<forall>y \<in> set (butlast (x # outcomes es')). \<not> conclusive y"
    using A assms(1) by (cases "outcomes es'") simp_all
  moreover have "conclusive (last (x # outcomes es')) \<and> length (x # outcomes es') \<le> Suc n \<or> length (x # outcomes es') = Suc n"
    using A by (cases "outcomes es'") simp_all
  moreover have "pauses (es @ Tried x # es') = map (retry_delay t) [max attempt 1..<attempt + length (x # outcomes es')]"
    using A assms(3) unfolding length_Cons upto by simp
  ultimately show ?thesis unfolding loop_spec_def outs by blast
qed

lemma retry_loop_spec:
  assumes "replayable req" and "never_cancelled pause"
  shows "retry_loop inner pause t req n attempt lastErr lastStatus w = (r, es, w') \<Longrightarrow>
    loop_spec t n attempt lastErr lastStatus r es"
proof (induction n arbitrary: attempt lastErr lastStatus w r es w')
  case 0
  then show ?case by (auto simp: loop_spec_def retry_outcome_def)
next
  case (Suc n)
  let ?es = "if attempt = 0 then [] else [Paused (retry_delay t attempt)]"
  obtain w1 where b: "before_attempt pause t attempt req w = (BGo ?es, w1)"
    using before_attempt_go [OF assms] by blast
  obtain x w2 where i: "inner w1 req = (x, w2)" by fastforce
  have e: "outcomes ?es = []" "pauses ?es = (if attempt = 0 then [] else [retry_delay t attempt])" by simp_all
  show ?case
  proof (cases "conclusive x")
    case True
    then have "r = x" "es = ?es @ [Tried x]"
      using Suc.prems b i by (auto simp: conclusive_def split: sum.splits if_splits)
    then show ?thesis using loop_spec_last [OF True e] by simp
  next
    case False
    obtain r' es' w3 where l: "retry_loop inner pause t req n (Suc attempt) (last_err lastErr [x]) (last_status lastStatus [x]) w2 = (r', es', w3)"
      by (metis prod_cases3)
    then have "r = r'" "es = ?es @ Tried x # es'"
      using Suc.prems b i False by (auto simp: conclusive_def split: sum.splits if_splits)
    then show ?thesis using loop_spec_step [OF False e Suc.IH [OF l]] by simp
  qed
qed

text \<open>A request whose body cannot be replayed is sent once.\<close>

lemma retry_once:
  assumes "q_hasBody req" and "q_GetBody req = None"
  shows "length (outcomes (fst (snd (retry_loop inner pause t req n attempt e s w)))) \<le> (if attempt = 0 then 1 else 0)"
proof (cases n)
  case (Suc m)
  obtain x w2 where "inner w req = (x, w2)" by fastforce
  then show ?thesis using Suc assms by (cases m) (auto simp: before_attempt_def split: sum.splits prod.splits)
qed simp

subsection \<open>The client\<close>

lemma Do_bounds:
  assumes "Do E opts hostOf errText cx j file w req = (r, j', file', w')"
  shows "(case r of Inr resp \<Rightarrow> int (length (p_Body resp)) \<le> max (o_MaxResponseBytes opts) 0 | Inl _ \<Rightarrow> True) \<and>
    length (ThirdParties j') = length (ThirdParties j) + (if j = None then 0 else 1) \<and>
    length file' = length file + (if j = None then 0 else 1)"
  using assms by (auto simp: Do_def Let_def AddThirdParty_def ThirdParties_def limit_body_def buffered_body_def
      split: prod.splits sum.splits option.splits)

lemma Get_reads:
  assumes "newRequest url = Inr req" and "Do E opts hostOf errText cx j file w req = (Inr resp, rest)"
  shows "Get E opts hostOf errText cx j file w newRequest url =
    (if j = None \<and> p_BodyErr resp \<noteq> None then (Inl (ReadBody resp (wrap ''httpclient: read body'' (the (p_BodyErr resp)))), rest)
     else (Inr resp, rest))"
proof (cases j)
  case (Some a)
  then have "p_BodyErr resp = None" using assms(2)
    by (auto simp: Do_def Let_def buffered_body_def split: prod.splits sum.splits)
  then show ?thesis using assms Some by (simp add: Get_def)
qed (use assms in \<open>auto simp: Get_def split: option.splits\<close>)

section \<open>Properties\<close>

text \<open>C19. Only validated hosts are ever contacted: whatever the responses, redirects, retries and the circuit
  breaker do, the network transport is called only for requests whose host passes the guard. Stated for
  every invariant of the world that those calls keep: the whole call of the client keeps it.\<close>

theorem http_only_validated_hosts:
  assumes "keeps I (\<lambda>req. validateHost (q_Hostname req) (o_AllowedHosts opts) (o_AllowPrivate opts) = None) (ce_base E)"
    and "pause_keeps I (ce_pause E)" and "breaker_keeps I (ce_breaker E)" and "ce_wrapper E = None" and "I w"
  shows "I (snd (snd (snd (Do E opts hostOf errText cx j file w req))))"
proof -
  let ?ssrf = "ssrfGuard_RoundTrip (ce_base E) (o_AllowedHosts opts) (o_AllowPrivate opts)"
  let ?t = "\<lparr>rt_maxRetries = o_MaxRetries opts, rt_baseDelay = 500 * millisecond\<rparr>"
  let ?retry = "\<lambda>w req. case retry_RoundTrip ?ssrf (ce_pause E) ?t w req of (r, es, w') \<Rightarrow> (r, w')"
  have "keeps I (\<lambda>_. True) ?retry"
    unfolding keeps_def retry_RoundTrip_def
    using retry_loop_keeps [OF ssrf_keeps [OF assms(1)] assms(2)] by (simp add: case_prod_unfold)
  moreover have "New_transport E opts = cb_RoundTrip (ce_breaker E) ?retry"
    by (simp add: New_transport_def assms(4))
  ultimately have "keeps I (\<lambda>_. True) (New_transport E opts)"
    using cb_keeps [OF assms(3)] by simp
  then have "I (snd (follow (New_transport E opts) (ce_redirect E) (o_AllowedHosts opts) (o_AllowPrivate opts) [] w
      (outgoing cx req)))"
    by (rule follow_keeps [where I = I, OF _ assms(5)])
  then show ?thesis by (auto simp: Do_def Let_def split: prod.splits sum.splits)
qed

text \<open>A network that logs the hosts it is asked for and redirects once to the metadata address.\<close>

definition demo_net :: "string list client_env" where
  "demo_net =
     \<lparr>ce_base = (\<lambda>w req. (Inr \<lparr>p_StatusCode = 302, p_ContentType = [], p_Body = [], p_BodyErr = None\<rparr>, q_Hostname req # w)),
      ce_breaker = \<lparr>cb_Execute = (\<lambda>w f. f w), cb_State = (\<lambda>w. ''closed'')\<rparr>,
      ce_pause = (\<lambda>w d. (None, w)), ce_now = (\<lambda>w. 0),
      ce_redirect = (\<lambda>req resp. Some (req\<lparr>q_Hostname := ''169.254.169.254''\<rparr>)), ce_wrapper = None\<rparr>"

definition demo_opts :: Options where
  "demo_opts = applyDefaults \<lparr>o_Timeout = 0, o_AllowedHosts = [], o_AllowPrivate = False, o_MaxResponseBytes = 0,
     o_MaxRetries = 0, o_CBConsecutiveFailures = 0, o_CBTimeout = 0, o_LogBodyMaxBytes = 0\<rparr>"

definition demo_req :: hreq where
  "demo_req = \<lparr>q_Method = ''GET'', q_URL = ''http://example.com/'', q_Hostname = ''example.com'', q_Header = [],
     q_hasBody = False, q_GetBody = None\<rparr>"

theorem http_only_validated_hosts_witness:
  "list_all (\<lambda>h. validateHost h [] False = None) (snd (snd (snd (Do demo_net demo_opts (\<lambda>u. u) (\<lambda>e. [])
      \<lparr>cx_requestID = ''r'', cx_authorization = [], cx_inject = []\<rparr> None [] [] demo_req))))"
  by (rule http_only_validated_hosts [where I = "list_all (\<lambda>h. validateHost h [] False = None)"])
    (simp_all add: keeps_def pause_keeps_def breaker_keeps_def demo_net_def demo_opts_def applyDefaults_def)

text \<open>C30. What a call with retries does, for a request that can be replayed and is not cancelled: it tries at
  most one time more than the configured number of retries, stops at the first conclusive outcome (a
  status below 500 or an error that is no timeout) and returns it, otherwise gives up after all
  attempts; before attempt \<open>k + 1\<close> it pauses for the base delay times \<open>2 ^ (k - 1)\<close>.\<close>

theorem retry_spec:
  assumes "replayable req" and "never_cancelled pause" and "0 \<le> rt_maxRetries t"
    and "retry_RoundTrip inner pause t w req = (r, es, w')"
  shows "let outs = outcomes es in outs \<noteq> [] \<and> int (length outs) \<le> rt_maxRetries t + 1 \<and>
    (\<forall>x \<in> set (butlast outs). \<not> conclusive x) \<and>
    (if conclusive (last outs) then r = last outs
     else int (length outs) = rt_maxRetries t + 1 \<and> r = Inl (give_up t (last_err None outs) (last_status 0 outs))) \<and>
    pauses es = map (\<lambda>k. rt_baseDelay t * 2 ^ (k - 1)) [1..<length outs]"
proof -
  have s: "loop_spec t (nat (rt_maxRetries t + 1)) 0 None 0 r es"
    using retry_loop_spec [OF assms(1,2)] assms(4) by (simp add: retry_RoundTrip_def)
  moreover have "outcomes es \<noteq> []" using s assms(3) by (auto simp: loop_spec_def)
  ultimately show ?thesis using assms(3)
    by (auto simp: loop_spec_def retry_outcome_def retry_delay_def Let_def fun_eq_iff)
qed

theorem retry_spec_witness:
  "outcomes (fst (snd (retry_RoundTrip (\<lambda>w req. (Inr \<lparr>p_StatusCode = 503, p_ContentType = [], p_Body = [], p_BodyErr = None\<rparr>, w))
      (\<lambda>w d. (None, w)) \<lparr>rt_maxRetries = 2, rt_baseDelay = 10\<rparr> () demo_req))) \<noteq> [] \<and>
   int (length (outcomes (fst (snd (retry_RoundTrip (\<lambda>w req. (Inr \<lparr>p_StatusCode = 503, p_ContentType = [], p_Body = [], p_BodyErr = None\<rparr>, w))
      (\<lambda>w d. (None, w)) \<lparr>rt_maxRetries = 2, rt_baseDelay = 10\<rparr> () demo_req))))) \<le> 3"
proof -
  let ?c = "retry_RoundTrip (\<lambda>w req. (Inr \<lparr>p_StatusCode = 503, p_ContentType = [], p_Body = [], p_BodyErr = None\<rparr>, w))
      (\<lambda>w d. (None, w)) \<lparr>rt_maxRetries = 2, rt_baseDelay = 10\<rparr> () demo_req"
  obtain r es w' where c: "?c = (r, es, w')" by (metis prod_cases3)
  have "replayable demo_req" "never_cancelled (\<lambda>w d. (None, w))"
    by (simp_all add: replayable_def never_cancelled_def demo_req_def)
  from retry_spec [OF this _ c] show ?thesis unfolding c by (simp add: Let_def)
qed

text \<open>The number of redirects that are followed is bounded, and a redirect to an internal host ends the call.\<close>

lemma redirect_refused:
  assumes "send w req = (Inr resp, w1)" and "redirect req resp = Some req'"
    and "validateHost (q_Hostname req') hosts priv = Some err" and "length via < 9"
  shows "follow send redirect hosts priv via w req = (Inl (SsrfRefused err), w1)"
  using assms by (simp add: follow.simps ssrfCheckRedirect_def)

end
