(* ===== verification/Naming.thy ===== *)
theory Naming
  imports Prelude
begin

text \<open>
  The names and the migration columns the code generator derives: \<^verbatim>\<open>cli/generator/names.go\<close> and
  \<^verbatim>\<open>cli/generator/entity_parser.go\<close>.

  Identifiers are ASCII. The syntax tree of a Go file, which \<^verbatim>\<open>go/parser\<close> builds, is a datatype with the
  node kinds the code distinguishes.
\<close>

section \<open>Names\<close>

definition kebab_char :: "char \<Rightarrow> char" where
  "kebab_char c = (if c = CHR ''-'' then CHR ''_'' else c)"

text \<open>The loop of \<^verbatim>\<open>toSnake\<close>: \<open>prev\<close> is the character before, if there is one.\<close>

fun snake_loop :: "char option \<Rightarrow> string \<Rightarrow> string" where
  "snake_loop prev [] = []"
| "snake_loop prev (r # s) =
     (if is_upper_char r
      then (case prev of Some p \<Rightarrow> if \<not> is_upper_char p then ''_'' else [] | None \<Rightarrow> []) @ [to_lower_char r]
      else [r]) @ snake_loop (Some r) s"

definition toSnake :: "string \<Rightarrow> string" where
  "toSnake s = ToLower (snake_loop None (map kebab_char (TrimSpace s)))"

definition pascal_part :: "string \<Rightarrow> string" where
  "pascal_part p = (case p of [] \<Rightarrow> [] | c # cs \<Rightarrow> to_upper_char c # cs)"

definition toPascal :: "string \<Rightarrow> string" where
  "toPascal snake = concat (map pascal_part (Split snake (CHR ''_'')))"

definition toCamel :: "string \<Rightarrow> string" where
  "toCamel pascal = (case pascal of [] \<Rightarrow> [] | c # cs \<Rightarrow> to_lower_char c # cs)"

definition toTable :: "string \<Rightarrow> string" where
  "toTable snake =
     (if HasSuffix snake ''y'' \<and> length snake > 1 \<and> snake ! (length snake - 2) \<notin> set ''aeiou''
      then take (length snake - 1) snake @ ''ies''
      else if HasSuffix snake ''s'' \<or> HasSuffix snake ''x'' \<or> HasSuffix snake ''z'' \<or> HasSuffix snake ''sh'' \<or>
        HasSuffix snake ''ch'' then snake @ ''es''
      else snake @ ''s'')"

record Names =
  n_Original :: string
  n_Snake :: string
  n_Pascal :: string
  n_Camel :: string
  n_Table :: string
  n_Module :: string
  n_AppName :: string
  n_DB :: string

definition NewNames :: "string \<Rightarrow> Names" where
  "NewNames input =
     (let snake = toSnake input; pascal = toPascal snake in
      \<lparr>n_Original = input, n_Snake = snake, n_Pascal = pascal, n_Camel = toCamel pascal, n_Table = toTable snake,
       n_Module = [], n_AppName = [], n_DB = []\<rparr>)"

section \<open>Entities\<close>

text \<open>Type expressions, as far as \<^verbatim>\<open>goTypeToSQL\<close> distinguishes them.\<close>

datatype expr =
    Ident string
  | SelectorExpr expr string
  | StarExpr expr
  | ArrayType expr
  | OtherExpr

text \<open>A field declares one type for a list of names; an embedded field has none.\<close>

record ast_field =
  af_Names :: "string list"
  af_Type :: expr

datatype type_expr = StructType "ast_field list" | NotStruct

record type_spec =
  ts_Name :: string
  ts_Type :: type_expr

datatype decl = TypeDecl "type_spec list" | OtherDecl

record EntityField =
  ef_Name :: string
  ef_SQLName :: string
  ef_SQLType :: string

definition IsExported :: "string \<Rightarrow> bool" where
  "IsExported name = (case name of [] \<Rightarrow> False | c # _ \<Rightarrow> is_upper_char c)"

definition identToSQL :: "string \<Rightarrow> string" where
  "identToSQL name =
     (if name = ''string'' then ''VARCHAR(255) NOT NULL''
      else if name = ''int'' \<or> name = ''int32'' then ''INT NOT NULL DEFAULT 0''
      else if name = ''int64'' then ''BIGINT NOT NULL DEFAULT 0''
      else if name = ''uint'' \<or> name = ''uint32'' then ''INT UNSIGNED NOT NULL DEFAULT 0''
      else if name = ''uint64'' then ''BIGINT UNSIGNED NOT NULL DEFAULT 0''
      else if name = ''float32'' \<or> name = ''float64'' then ''DECIMAL(18,4) NOT NULL DEFAULT 0''
      else if name = ''bool'' then ''TINYINT(1) NOT NULL DEFAULT 0''
      else ''TEXT'')"

definition selectorToSQL :: "string \<Rightarrow> string \<Rightarrow> string" where
  "selectorToSQL pkg typ =
     (let n = pkg @ ''.'' @ typ in
      if n = ''uuid.UUID'' then ''VARCHAR(36) NOT NULL''
      else if n = ''time.Time'' then ''TIMESTAMP(3) NOT NULL''
      else if n = ''decimal.Decimal'' \<or> n = ''decimal.NullDecimal'' then ''DECIMAL(18,4) NOT NULL DEFAULT 0''
      else if n = ''null.String'' \<or> n = ''sql.NullString'' then ''VARCHAR(255) NULL''
      else if n = ''null.Time'' \<or> n = ''sql.NullTime'' then ''TIMESTAMP(3) NULL''
      else if n = ''null.Int64'' \<or> n = ''sql.NullInt64'' then ''BIGINT NULL''
      else if n = ''null.Bool'' \<or> n = ''sql.NullBool'' then ''TINYINT(1) NULL''
      else if n = ''gorm.DeletedAt'' then []
      else ''TEXT'')"

fun goTypeToSQL :: "expr \<Rightarrow> string" where
  "goTypeToSQL (Ident name) = identToSQL name"
| "goTypeToSQL (SelectorExpr x sel) = (case x of Ident pkg \<Rightarrow> selectorToSQL pkg sel | _ \<Rightarrow> ''TEXT'')"
| "goTypeToSQL (StarExpr x) = goTypeToSQL x"
| "goTypeToSQL (ArrayType x) = ''JSON''"
| "goTypeToSQL OtherExpr = ''TEXT''"

definition skipFields :: "string list" where
  "skipFields = [''ID'', ''CreatedAt'', ''UpdatedAt'', ''DeletedAt'']"

fun extractFields :: "ast_field list \<Rightarrow> EntityField list" where
  "extractFields [] = []"
| "extractFields (f # fs) = (case af_Names f of
     [] \<Rightarrow> extractFields fs
   | name # _ \<Rightarrow>
       if \<not> IsExported name \<or> name \<in> set skipFields then extractFields fs
       else \<lparr>ef_Name = name, ef_SQLName = toSnake name, ef_SQLType = goTypeToSQL (af_Type f)\<rparr> # extractFields fs)"

fun first_struct :: "type_spec list \<Rightarrow> ast_field list option" where
  "first_struct [] = None"
| "first_struct (ts # rest) = (case ts_Type ts of
     StructType fs \<Rightarrow> if IsExported (ts_Name ts) then Some fs else first_struct rest
   | NotStruct \<Rightarrow> first_struct rest)"

text \<open>\<^verbatim>\<open>ParseEntityFields\<close> on the parsed file, \<open>None\<close> if there is none; a nil slice is the empty list.\<close>

fun decl_fields :: "decl list \<Rightarrow> EntityField list" where
  "decl_fields [] = []"
| "decl_fields (OtherDecl # ds) = decl_fields ds"
| "decl_fields (TypeDecl specs # ds) = (case first_struct specs of
     Some fs \<Rightarrow> extractFields fs
   | None \<Rightarrow> decl_fields ds)"

definition ParseEntityFields :: "(string \<Rightarrow> decl list option) \<Rightarrow> string \<Rightarrow> EntityField list" where
  "ParseEntityFields parseFile snake =
     (case parseFile (''internal/domain/entity/'' @ snake @ ''.go'') of
        None \<Rightarrow> []
      | Some decls \<Rightarrow> decl_fields decls)"

definition column_line :: "EntityField \<Rightarrow> string" where
  "column_line f = ''    '' @ ef_SQLName f @
     (if length (ef_SQLName f) < 12 then replicate (12 - length (ef_SQLName f)) (CHR '' '') else '' '') @ ef_SQLType f @ '','' @ [CHR 0x0A]"

definition TrimRight_newline :: "string \<Rightarrow> string" where
  "TrimRight_newline s = rev (dropWhile (\<lambda>c. c = CHR 0x0A) (rev s))"

definition RenderMigrationColumns :: "EntityField list \<Rightarrow> string" where
  "RenderMigrationColumns fs =
     (if length fs = 0 then ''    -- TODO: add domain columns here''
      else TrimRight_newline (concat (map column_line (filter (\<lambda>f. ef_SQLType f \<noteq> []) fs))))"

section \<open>Lemmas\<close>

lemma lower_facts [simp]:
  "is_upper_char c \<Longrightarrow> \<not> is_upper_char (to_lower_char c)" "\<not> is_upper_char c \<Longrightarrow> to_lower_char c = c"
  "is_lower_char c \<Longrightarrow> is_upper_char (to_upper_char c)" "is_lower_char c \<Longrightarrow> to_lower_char (to_upper_char c) = c"
  by (auto simp: to_lower_char_def to_upper_char_def is_upper_char_def is_lower_char_def ord_char_def)

lemma not_upper_lower [simp]: "\<not> is_upper_char (to_lower_char c)"
  by (cases "is_upper_char c") simp_all

lemma special_chars [simp]: "\<not> is_upper_char (CHR ''_'')" "\<not> is_upper_char (CHR ''-'')" "\<not> is_space (CHR ''_'')"
  by (simp_all add: is_upper_char_def is_space_def ord_char_def)

lemma ToLower_id: "\<forall>c \<in> set s. \<not> is_upper_char c \<Longrightarrow> ToLower s = s"
  by (induction s) (auto simp: ToLower_def)

lemma snake_loop_id: "\<forall>c \<in> set s. \<not> is_upper_char c \<Longrightarrow> snake_loop prev s = s"
  by (induction s arbitrary: prev) auto

lemma snake_loop_lower: "c \<in> set (snake_loop prev s) \<Longrightarrow> \<not> is_upper_char c"
  by (induction prev s rule: snake_loop.induct) (auto split: if_splits option.splits)

lemma snake_loop_eq_Nil [simp]: "snake_loop prev s = [] \<longleftrightarrow> s = []"
  by (cases s) auto

lemma last_snake_loop: "s \<noteq> [] \<Longrightarrow> last (snake_loop prev s) = to_lower_char (last s)"
  by (induction prev s rule: snake_loop.induct) auto

lemma hd_snake_loop: "s \<noteq> [] \<Longrightarrow> hd (snake_loop None s) = to_lower_char (hd s)"
  by (cases s) auto

lemma ord_to_lower: "ord_char (to_lower_char c) = (if is_upper_char c then ord_char c + 32 else ord_char c)"
  by (auto simp: to_lower_char_def is_upper_char_def ord_char_def)

lemma lower_dash: "to_lower_char c = CHR ''-'' \<Longrightarrow> c = CHR ''-''"
proof -
  assume e: "to_lower_char c = CHR ''-''"
  then have "\<not> is_upper_char c" using ord_to_lower [of c] by (auto simp: is_upper_char_def ord_char_def)
  then show ?thesis using e by simp
qed

lemma lower_keeps [simp]:
  "is_space (to_lower_char c) = is_space c" "to_lower_char c = CHR ''-'' \<longleftrightarrow> c = CHR ''-''"
  "CHR ''-'' = to_lower_char c \<longleftrightarrow> CHR ''-'' = c"
proof -
  show "is_space (to_lower_char c) = is_space c"
    using ord_to_lower [of c] by (auto simp: is_space_def is_upper_char_def)
qed (metis lower_dash lower_facts(2) special_chars(2))+

lemma kebab_keeps [simp]: "is_space (kebab_char c) = is_space c" "kebab_char c \<noteq> CHR ''-''" "CHR ''-'' \<notin> kebab_char ` A"
  by (auto simp: kebab_char_def is_space_def ord_char_def)

lemma snake_loop_no_dash: "CHR ''-'' \<notin> set s \<Longrightarrow> CHR ''-'' \<notin> set (snake_loop prev s)"
  by (induction prev s rule: snake_loop.induct) (auto split: if_splits option.splits)

lemma trim_by_ends: "trim_by P s \<noteq> [] \<Longrightarrow> \<not> P (hd (trim_by P s)) \<and> \<not> P (last (trim_by P s))"
proof -
  let ?u = "dropWhile P s"
  assume ne: "trim_by P s \<noteq> []"
  then have ne_u: "?u \<noteq> []" by (auto simp: trim_by_def simp del: dropWhile_eq_Nil_conv)
  have last: "\<not> P (last (trim_by P s))"
    using ne hd_dropWhile [of P "rev ?u"] by (simp add: trim_by_def last_rev)
  have "?u = trim_by P s @ rev (takeWhile P (rev ?u))"
    by (metis rev_append rev_rev_ident takeWhile_dropWhile_id trim_by_def)
  then have "hd ?u = hd (trim_by P s)" using ne by (metis hd_append2)
  then show ?thesis using hd_dropWhile [OF ne_u] last by simp
qed

lemma trim_by_id: "s = [] \<or> \<not> P (hd s) \<and> \<not> P (last s) \<Longrightarrow> trim_by P s = s"
proof (cases "s = []")
  case False
  assume "s = [] \<or> \<not> P (hd s) \<and> \<not> P (last s)"
  then have e: "\<not> P (hd s)" "\<not> P (last s)" using False by auto
  have "dropWhile P s = s" using False e(1) by (cases s) auto
  moreover have "dropWhile P (rev s) = rev s" using False e(2) by (cases "rev s") (auto simp: last_rev)
  ultimately show ?thesis by (simp add: trim_by_def)
qed (simp add: trim_by_def)

lemma toSnake_loop: "toSnake s = snake_loop None (map kebab_char (TrimSpace s))"
  unfolding toSnake_def by (rule ToLower_id) (blast dest: snake_loop_lower)

lemma kebab_id: "\<forall>c \<in> set s. c \<noteq> CHR ''-'' \<Longrightarrow> map kebab_char s = s"
  by (rule map_idI) (simp add: kebab_char_def)

lemma toSnake_clean:
  assumes "\<forall>c \<in> set s. \<not> is_upper_char c \<and> c \<noteq> CHR ''-''" and "TrimSpace s = s"
  shows "toSnake s = s"
proof -
  have "map kebab_char s = s" using assms(1) by (simp add: kebab_id)
  then show ?thesis using assms by (simp add: toSnake_loop snake_loop_id)
qed

subsection \<open>From snake case to Pascal case and back\<close>

definition word :: "string \<Rightarrow> bool" where
  "word w \<longleftrightarrow> w \<noteq> [] \<and> is_lower_char (hd w) \<and> (\<forall>c \<in> set w. is_lower_char c \<or> is_digit c)"

lemma word_chars:
  "is_lower_char c \<or> is_digit c \<Longrightarrow> \<not> is_upper_char c \<and> c \<noteq> CHR ''-'' \<and> c \<noteq> CHR ''_'' \<and> \<not> is_space c"
  by (auto simp: is_lower_char_def is_digit_def is_upper_char_def is_space_def ord_char_def)

lemma snake_loop_word:
  assumes "word w"
  shows "snake_loop prev (pascal_part w @ rest) =
    (case prev of Some p \<Rightarrow> if is_upper_char p then [] else ''_'' | None \<Rightarrow> []) @ w @
    snake_loop (Some (last (pascal_part w))) rest"
proof -
  obtain c cs where w: "w = c # cs" "is_lower_char c" "\<forall>x \<in> set cs. \<not> is_upper_char x"
    using assms word_chars unfolding word_def by (cases w) auto
  have tail: "snake_loop (Some p) (cs @ rest) = cs @ snake_loop (Some (last (p # cs))) rest" for p
    using w(3) by (induction cs arbitrary: p) auto
  show ?thesis using w(1,2) tail by (auto simp: pascal_part_def split: option.splits)
qed

lemma last_pascal: "word w \<Longrightarrow> 2 \<le> length w \<Longrightarrow> \<not> is_upper_char (last (pascal_part w))"
proof -
  assume w: "word w" "2 \<le> length w"
  then obtain c cs where e: "w = c # cs" "cs \<noteq> []" by (cases w; cases "tl w") auto
  then have "last cs \<in> set w" by simp
  then show ?thesis using w(1) word_chars e unfolding word_def pascal_part_def by auto
qed

fun long_words :: "string list \<Rightarrow> bool" where
  "long_words [] = True"
| "long_words [w] = word w"
| "long_words (w # v # ws) = (word w \<and> 2 \<le> length w \<and> long_words (v # ws))"

lemma long_words_all: "long_words ws \<Longrightarrow> w \<in> set ws \<Longrightarrow> word w"
  by (induction ws rule: long_words.induct) auto

lemma pascal_chars: "word w \<Longrightarrow> c \<in> set (pascal_part w) \<Longrightarrow> c \<noteq> CHR ''-'' \<and> \<not> is_space c"
proof -
  assume w: "word w" "c \<in> set (pascal_part w)"
  then obtain d ds where e: "w = d # ds" by (cases w) (auto simp: word_def)
  have "is_upper_char (to_upper_char d)" using w(1) e by (simp add: word_def)
  then have "to_upper_char d \<noteq> CHR ''-''" "\<not> is_space (to_upper_char d)"
    by (auto simp: is_upper_char_def is_space_def ord_char_def)
  then show ?thesis using w e word_chars by (auto simp: pascal_part_def word_def)
qed

lemma snake_loop_words:
  "long_words (w # ws) \<Longrightarrow> snake_loop prev (concat (map pascal_part (w # ws))) =
     (case prev of Some p \<Rightarrow> if is_upper_char p then [] else ''_'' | None \<Rightarrow> []) @ Join (w # ws) ''_''"
proof (induction ws arbitrary: w prev)
  case Nil
  then show ?case using snake_loop_word [of w prev "[]"] by simp
next
  case (Cons v ws)
  have w: "word w" "2 \<le> length w" "long_words (v # ws)" using Cons.prems by simp_all
  show ?case
    using snake_loop_word [OF w(1), of prev "concat (map pascal_part (v # ws))"] last_pascal [OF w(1,2)]
      Cons.IH [OF w(3), of "Some (last (pascal_part w))"] by simp
qed

subsection \<open>Columns\<close>

lemma column_line_end: "\<exists>p. column_line f = p @ '','' @ [CHR 0x0A]"
  by (simp add: column_line_def)

lemma TrimRight_line: "TrimRight_newline (p @ '','' @ [CHR 0x0A]) = p @ '',''"
  by (simp add: TrimRight_newline_def)

text \<open>One line per column, in the order of the fields; only the last line break is cut.\<close>

lemma render_lines:
  assumes "filter (\<lambda>f. ef_SQLType f \<noteq> []) fs \<noteq> []"
  shows "RenderMigrationColumns fs @ [CHR 0x0A] = concat (map column_line (filter (\<lambda>f. ef_SQLType f \<noteq> []) fs))"
proof -
  obtain gs g where g: "filter (\<lambda>f. ef_SQLType f \<noteq> []) fs = gs @ [g]" using assms by (metis rev_exhaust)
  obtain p where p: "column_line g = p @ '','' @ [CHR 0x0A]" using column_line_end by blast
  have "fs \<noteq> []" using assms by auto
  then show ?thesis
    using TrimRight_line [of "concat (map column_line gs) @ p"] by (simp add: RenderMigrationColumns_def g p)
qed

text \<open>Every extracted field is exported, is no base column and is named after the first name of its
  declaration; the other names of a declaration get no column.\<close>

lemma extractFields_sound:
  "e \<in> set (extractFields fs) \<Longrightarrow> IsExported (ef_Name e) \<and> ef_Name e \<notin> set skipFields \<and>
     ef_SQLName e = toSnake (ef_Name e) \<and> (\<exists>f \<in> set fs. af_Names f \<noteq> [] \<and> ef_Name e = hd (af_Names f) \<and>
     ef_SQLType e = goTypeToSQL (af_Type f))"
  by (induction fs rule: extractFields.induct) (auto split: list.splits if_splits)

lemma extractFields_complete:
  assumes "f \<in> set fs" and "af_Names f \<noteq> []" and "IsExported (hd (af_Names f))" and "hd (af_Names f) \<notin> set skipFields"
  shows "\<exists>e \<in> set (extractFields fs). ef_Name e = hd (af_Names f) \<and> ef_SQLType e = goTypeToSQL (af_Type f)"
  using assms by (induction fs rule: extractFields.induct) (auto split: list.splits if_splits)

lemma pointer_column: "goTypeToSQL (StarExpr (Ident ''string'')) = ''VARCHAR(255) NOT NULL''"
  by (simp add: identToSQL_def)

lemma second_name_dropped:
  "map ef_Name (extractFields [\<lparr>af_Names = [''First'', ''Last''], af_Type = Ident ''string''\<rparr>]) = [''First'']"
  by (simp add: IsExported_def skipFields_def is_upper_char_def ord_char_def)

section \<open>Properties\<close>

text \<open>The generator's names fit together: deriving the snake-case name twice changes nothing, and from a
  snake-case name whose words start with a letter, all but the last with at least two characters, the
  Pascal-case name leads back to it, so a generated type and its table and file names determine each
  other.\<close>

lemma names_roundtrip:
  "toSnake (toSnake input) = toSnake input \<and>
   (ws \<noteq> [] \<and> long_words ws \<longrightarrow> toSnake (toPascal (Join ws ''_'')) = Join ws ''_'' \<and> toSnake (Join ws ''_'') = Join ws ''_'')"
proof
  let ?u = "map kebab_char (TrimSpace input)"
  have ends: "?u \<noteq> [] \<Longrightarrow> \<not> is_space (hd ?u) \<and> \<not> is_space (last ?u)"
    using trim_by_ends [of is_space input] by (simp add: TrimSpace_def hd_map last_map)
  have "TrimSpace (toSnake input) = toSnake input"
    unfolding TrimSpace_def toSnake_loop
    by (rule trim_by_id) (use ends in \<open>auto simp: hd_snake_loop last_snake_loop TrimSpace_def\<close>)
  then show "toSnake (toSnake input) = toSnake input"
    using snake_loop_no_dash [of ?u None] kebab_keeps(2) by (intro toSnake_clean) (auto simp: toSnake_loop dest: snake_loop_lower)
next
  show "ws \<noteq> [] \<and> long_words ws \<longrightarrow> toSnake (toPascal (Join ws ''_'')) = Join ws ''_'' \<and> toSnake (Join ws ''_'') = Join ws ''_''"
  proof
    assume ws: "ws \<noteq> [] \<and> long_words ws"
    have chars: "\<forall>c \<in> set (Join ws ''_''). \<not> is_upper_char c \<and> c \<noteq> CHR ''-'' \<and> \<not> is_space c"
      using Join_chars [of _ ws "''_''"] long_words_all ws word_chars unfolding word_def by fastforce
    have trim: "TrimSpace s = s" if "\<forall>c \<in> set s. \<not> is_space c" for s
      unfolding TrimSpace_def by (rule trim_by_id) (use that in auto)
    have clean: "toSnake (Join ws ''_'') = Join ws ''_''" by (rule toSnake_clean) (use chars trim in auto)
    have "Split (Join ws ''_'') (CHR ''_'') = ws"
      by (rule Split_Join) (use ws long_words_all word_chars in \<open>fastforce simp: word_def\<close>)+
    then have pas: "toPascal (Join ws ''_'') = concat (map pascal_part ws)" by (simp add: toPascal_def)
    have "\<forall>c \<in> set (concat (map pascal_part ws)). c \<noteq> CHR ''-'' \<and> \<not> is_space c"
      using long_words_all ws by (auto dest!: pascal_chars)
    then have "toSnake (concat (map pascal_part ws)) = snake_loop None (concat (map pascal_part ws))"
      by (simp add: toSnake_loop trim kebab_id)
    then show "toSnake (toPascal (Join ws ''_'')) = Join ws ''_'' \<and> toSnake (Join ws ''_'') = Join ws ''_''"
      using clean pas ws by (cases ws) (simp_all add: snake_loop_words del: concat.simps list.map)
  qed
qed

end
