(* ===== verification/Scaffold.thy ===== *)
theory Scaffold
  imports Naming
begin

text \<open>
  Writing generated projects: \<^verbatim>\<open>cli/generator/generator.go\<close>, \<^verbatim>\<open>cli/generator/scaffold.go\<close> and the command
  \<^verbatim>\<open>cli/commands/add.go\<close>.

  The file system is a record of the working directory, the directories and the files, by their absolute
  paths; besides the errors it gives by itself, operations on a path fail as the function \<open>fails\<close> says,
  before they change anything. Paths are slash-separated and clean, so \<^verbatim>\<open>filepath.Join\<close> is concatenation and
  \<^verbatim>\<open>filepath.ToSlash\<close> and \<^verbatim>\<open>FromSlash\<close> are the identity. The embedded template tree is the list of its
  entries in the order in which \<^verbatim>\<open>fs.WalkDir\<close> visits them, relative to the skeleton's root. The template
  engine is a parameter.
\<close>

section \<open>Files\<close>

record vfs =
  vfs_cwd :: string
  vfs_dirs :: "string list"
  vfs_files :: "string gomap"

type_synonym failures = "string \<Rightarrow> string option"

definition path_dir :: "string \<Rightarrow> string" where
  "path_dir path =
     (if CHR ''/'' \<notin> set path then ''.''
      else let d = rev (drop 1 (dropWhile (\<lambda>c. c \<noteq> CHR ''/'') (rev path))) in if d = [] then ''/'' else d)"

definition path_join :: "string \<Rightarrow> string \<Rightarrow> string" where
  "path_join d rel = (if rel = ''.'' then d else if d = ''.'' then rel else if d = ''/'' then ''/'' @ rel else d @ ''/'' @ rel)"

text \<open>The absolute path an operation works on.\<close>

definition resolve :: "vfs \<Rightarrow> string \<Rightarrow> string" where
  "resolve v path = (if HasPrefix path ''/'' then path else path_join (vfs_cwd v) path)"

definition vfs_exists :: "vfs \<Rightarrow> string \<Rightarrow> bool" where
  "vfs_exists v path \<longleftrightarrow> resolve v path \<in> set (vfs_dirs v) \<or> map_of (vfs_files v) (resolve v path) \<noteq> None"

text \<open>A path with the directories above it.\<close>

definition with_parents :: "string \<Rightarrow> string list" where
  "with_parents path = map (\<lambda>i. take i path) (filter (\<lambda>i. path ! i = CHR ''/'') [1..<length path]) @ [path]"

definition MkdirGenerated :: "failures \<Rightarrow> vfs \<Rightarrow> string \<Rightarrow> string option \<times> vfs" where
  "MkdirGenerated fails v path =
     (if list_ex (\<lambda>d. map_of (vfs_files v) d \<noteq> None) (with_parents (resolve v path))
      then (Some (''mkdir '' @ path @ '': not a directory''), v)
      else case fails path of
        Some err \<Rightarrow> (Some err, v)
      | None \<Rightarrow> (None, v\<lparr>vfs_dirs := fold List.insert (with_parents (resolve v path)) (vfs_dirs v)\<rparr>))"

text \<open>Creating or overwriting a file.\<close>

definition write_file :: "failures \<Rightarrow> vfs \<Rightarrow> string \<Rightarrow> string \<Rightarrow> string option \<times> vfs" where
  "write_file fails v path content =
     (if resolve v path \<in> set (vfs_dirs v) then (Some (''open '' @ path @ '': is a directory''), v)
      else case fails path of
        Some err \<Rightarrow> (Some err, v)
      | None \<Rightarrow> (None, v\<lparr>vfs_files := AList.update (resolve v path) content (vfs_files v)\<rparr>))"

definition WriteGeneratedFile :: "failures \<Rightarrow> vfs \<Rightarrow> string \<Rightarrow> string \<Rightarrow> string option \<times> vfs" where
  "WriteGeneratedFile fails v path content = (case MkdirGenerated fails v (path_dir path) of
     (Some err, v1) \<Rightarrow> (Some err, v1)
   | (None, v1) \<Rightarrow> write_file fails v1 path content)"

text \<open>\<^verbatim>\<open>text/template\<close> with the delimiters of the generator. A template that fails while it executes gives the
  error and the part of the output that its buffer has passed on.\<close>

record ('t, 'd) engine =
  t_Parse :: "string \<Rightarrow> string + 't"
  t_Execute :: "'t \<Rightarrow> 'd \<Rightarrow> (string \<times> string) + string"

definition Render :: "failures \<Rightarrow> ('t, 'd) engine \<Rightarrow> vfs \<Rightarrow> string \<Rightarrow> string \<Rightarrow> 'd \<Rightarrow> string option \<times> vfs" where
  "Render fails eng v tmplContent outPath dat = (case MkdirGenerated fails v (path_dir outPath) of
     (Some err, v1) \<Rightarrow> (Some (wrap (''mkdir '' @ path_dir outPath) err), v1)
   | (None, v1) \<Rightarrow>
       if vfs_exists v1 outPath then (Some (wrap ''file already exists'' outPath), v1)
       else (case t_Parse eng tmplContent of
          Inl err \<Rightarrow> (Some (wrap ''parse template'' err), v1)
        | Inr tmpl \<Rightarrow> (case t_Execute eng tmpl dat of
             Inl (err, part) \<Rightarrow> (case write_file fails v1 outPath part of
                (Some e, v2) \<Rightarrow> (Some (wrap (''create file '' @ outPath) e), v2)
              | (None, v2) \<Rightarrow> (Some (wrap ''execute template'' err), v2))
           | Inr out \<Rightarrow> (case write_file fails v1 outPath out of
                (Some e, v2) \<Rightarrow> (Some (wrap (''create file '' @ outPath) e), v2)
              | (None, v2) \<Rightarrow> (None, v2)))))"

section \<open>The module path\<close>

fun splitLines :: "string \<Rightarrow> string list" where
  "splitLines [] = []"
| "splitLines (c # s) =
     (if c = CHR 0x0A then [] # splitLines s
      else (case splitLines s of
              [] \<Rightarrow> [[c]]
            | l # ls \<Rightarrow> if s \<noteq> [] \<and> hd s = CHR 0x0A then [c] # ls else (c # l) # ls))"

definition trimSpace :: "string \<Rightarrow> string" where
  "trimSpace s = trim_by (\<lambda>c. c = CHR '' '' \<or> c = CHR 0x09 \<or> c = CHR 0x0D) s"

fun module_line :: "string list \<Rightarrow> string option" where
  "module_line [] = None"
| "module_line (l # ls) =
     (let line = trimSpace l in
      if length line > 7 \<and> take 7 line = ''module '' then Some (trimSpace (drop 7 line)) else module_line ls)"

definition parseModuleLine :: "string \<Rightarrow> string + string" where
  "parseModuleLine content = (case module_line (splitLines content) of
     Some m \<Rightarrow> Inr m
   | None \<Rightarrow> Inl ''module declaration not found in go.mod'')"

text \<open>The search for \<^verbatim>\<open>go.mod\<close>: at most \<open>n\<close> directories upwards.\<close>

fun find_go_mod :: "nat \<Rightarrow> vfs \<Rightarrow> string \<Rightarrow> string + string" where
  "find_go_mod 0 v dir = Inl ''go.mod not found (run wapgo make:* from inside a wapgo project)''"
| "find_go_mod (Suc n) v dir = (case map_of (vfs_files v) (path_join dir ''go.mod'') of
     Some c \<Rightarrow> parseModuleLine c
   | None \<Rightarrow>
       if path_dir dir = dir then Inl ''go.mod not found (run wapgo make:* from inside a wapgo project)''
       else find_go_mod n v (path_dir dir))"

definition ReadModulePath :: "vfs \<Rightarrow> string + string" where
  "ReadModulePath v = find_go_mod 5 v (vfs_cwd v)"

section \<open>Substitutions\<close>

text \<open>\<^verbatim>\<open>strings.ReplaceAll\<close> with a pattern that is not empty.\<close>

function ReplaceAll :: "string \<Rightarrow> string \<Rightarrow> string \<Rightarrow> string" where
  "ReplaceAll s old new =
     (case s of [] \<Rightarrow> []
      | c # s' \<Rightarrow> if old \<noteq> [] \<and> HasPrefix s old then new @ ReplaceAll (drop (length old) s) old new
                  else c # ReplaceAll s' old new)"
  by pat_completeness auto

termination
  by (relation "measure (\<lambda>(s, old, new). length s)") auto

declare ReplaceAll.simps [simp del]

definition skeletonModule :: string where
  "skeletonModule = ''github.com/abdullahPrasetio/wapgo''"

definition moduleSentinel :: string where
  "moduleSentinel = CHR 0x00 # ''skeleton-module'' @ [CHR 0x00]"

definition expandModule :: "string \<Rightarrow> string \<Rightarrow> string" where
  "expandModule content module = ReplaceAll content moduleSentinel module"

definition stripBuildIgnore :: "string \<Rightarrow> string" where
  "stripBuildIgnore content =
     (let guard = ''//go:build ignore'' @ [CHR 0x0A] in
      if HasPrefix content guard then TrimPrefix (drop (length guard) content) [CHR 0x0A] else content)"

section \<open>Scaffolding\<close>

record ScaffoldOptions =
  so_ProjectName :: string
  so_Module :: string
  so_DB :: string
  so_APM :: string
  so_Redis :: bool
  so_Kafka :: bool
  so_RabbitMQ :: bool
  so_Email :: bool
  so_Firebase :: bool
  so_GoogleAuth :: bool

definition in_tree :: "string \<Rightarrow> string \<Rightarrow> bool" where
  "in_tree rel d \<longleftrightarrow> rel = d \<or> HasPrefix rel (d @ ''/'')"

definition skipPath :: "ScaffoldOptions \<Rightarrow> string \<Rightarrow> bool" where
  "skipPath opts rel =
     (if \<not> so_Redis opts \<and> in_tree rel ''internal/repository/redis'' then True
      else if \<not> so_Kafka opts \<and> in_tree rel ''pkg/messaging/kafka'' then True
      else if \<not> so_RabbitMQ opts \<and> in_tree rel ''pkg/messaging/rabbitmq'' then True
      else if \<not> so_Email opts \<and> in_tree rel ''pkg/notification/email'' then True
      else if \<not> so_Firebase opts \<and> in_tree rel ''pkg/notification/firebase'' then True
      else if \<not> so_GoogleAuth opts \<and> in_tree rel ''pkg/auth/google'' then True
      else if \<not> so_GoogleAuth opts \<and> rel = ''internal/delivery/http/handler/google_auth_handler.go.tmpl'' then True
      else if \<not> so_GoogleAuth opts \<and> rel = ''internal/delivery/http/route/google_auth_route.go.tmpl'' then True
      else if \<not> so_Redis opts \<and> rel = ''pkg/ratelimit/redis.go.tmpl'' then True
      else so_DB opts \<noteq> ''postgres'' \<and> (in_tree rel ''cmd/worker'' \<or> in_tree rel ''internal/queue'' \<or>
        rel = ''migrations/000002_jobs.up.sql'' \<or> rel = ''migrations/000002_jobs.down.sql''))"

text \<open>An entry of the template tree: a directory, or a file with its content (or the error of reading it).\<close>

record tree_entry =
  te_rel :: string
  te_isDir :: bool
  te_content :: "string + string"

record templateData =
  td_AppName :: string
  td_opts :: ScaffoldOptions

definition scaffold_defaults :: "ScaffoldOptions \<Rightarrow> ScaffoldOptions" where
  "scaffold_defaults opts = opts\<lparr>so_DB := (if so_DB opts = [] then ''postgres'' else so_DB opts),
     so_APM := (if so_APM opts = [] then ''none'' else so_APM opts)\<rparr>"

definition scaffold_data :: "ScaffoldOptions \<Rightarrow> templateData" where
  "scaffold_data opts = \<lparr>td_AppName = ReplaceAll (so_ProjectName opts) ''_'' ''-'', td_opts = opts\<rparr>"

definition skeletonDir :: string where
  "skeletonDir = ''templates/skeleton''"

text \<open>The content of a generated file.\<close>

definition file_content :: "('t, templateData) engine \<Rightarrow> ScaffoldOptions \<Rightarrow> string \<Rightarrow> string \<Rightarrow> string + string" where
  "file_content eng opts path raw =
     (if HasSuffix path ''.tmpl'' then
        (case t_Parse eng (ReplaceAll raw skeletonModule moduleSentinel) of
           Inl err \<Rightarrow> Inl (wrap (''parse skeleton template '' @ path) err)
         | Inr tmpl \<Rightarrow> (case t_Execute eng tmpl (scaffold_data opts) of
              Inl (err, part) \<Rightarrow> Inl (wrap (''execute skeleton template '' @ path) err)
            | Inr out \<Rightarrow> Inr (expandModule out (so_Module opts))))
      else Inr (stripBuildIgnore (expandModule (ReplaceAll raw skeletonModule moduleSentinel) (so_Module opts))))"

definition scaffold_entry ::
  "failures \<Rightarrow> ('t, templateData) engine \<Rightarrow> ScaffoldOptions \<Rightarrow> string \<Rightarrow> vfs \<Rightarrow> tree_entry \<Rightarrow> string option \<times> vfs" where
  "scaffold_entry fails eng opts targetDir v e =
     (let outPath = path_join targetDir (te_rel e) in
      if te_isDir e then MkdirGenerated fails v outPath
      else case te_content e of
        Inl err \<Rightarrow> (Some (wrap (''read skeleton file '' @ path_join skeletonDir (te_rel e)) err), v)
      | Inr raw \<Rightarrow> (case file_content eng opts (path_join skeletonDir (te_rel e)) raw of
           Inl err \<Rightarrow> (Some err, v)
         | Inr content \<Rightarrow> WriteGeneratedFile fails v (TrimSuffix outPath ''.tmpl'') content))"

text \<open>The walk: a skipped directory is left out with everything below it.\<close>

function scaffold_walk ::
  "failures \<Rightarrow> ('t, templateData) engine \<Rightarrow> ScaffoldOptions \<Rightarrow> string \<Rightarrow> vfs \<Rightarrow> tree_entry list \<Rightarrow> string option \<times> vfs" where
  "scaffold_walk fails eng opts targetDir v [] = (None, v)"
| "scaffold_walk fails eng opts targetDir v (e # es) =
     (if te_rel e \<noteq> ''.'' \<and> skipPath opts (te_rel e)
      then scaffold_walk fails eng opts targetDir v
             (if te_isDir e then dropWhile (\<lambda>x. HasPrefix (te_rel x) (te_rel e @ ''/'')) es else es)
      else (case scaffold_entry fails eng opts targetDir v e of
              (Some err, v1) \<Rightarrow> (Some err, v1)
            | (None, v1) \<Rightarrow> scaffold_walk fails eng opts targetDir v1 es))"
  by pat_completeness auto

termination
  by (relation "measure (\<lambda>(fails, eng, opts, targetDir, v, es). length es)")
    (auto simp: less_Suc_eq_le length_dropWhile_le)

definition Scaffold where
  "Scaffold fails eng tree opts0 targetDir v =
     (if vfs_exists v targetDir then (Some (wrap ''directory already exists'' targetDir), v)
      else scaffold_walk fails eng (scaffold_defaults opts0) targetDir v tree)"

section \<open>Adding a feature\<close>

text \<open>The walk of \<^verbatim>\<open>AddFeatureFiles\<close>: the paths created, the error if there was one, and the files.\<close>

fun add_walk ::
  "failures \<Rightarrow> string \<Rightarrow> string \<Rightarrow> vfs \<Rightarrow> tree_entry list \<Rightarrow> string list \<times> string option \<times> vfs" where
  "add_walk fails module destRoot v [] = ([], None, v)"
| "add_walk fails module destRoot v (e # es) =
     (let outPath = path_join destRoot (te_rel e) in
      if te_isDir e then (case MkdirGenerated fails v outPath of
         (Some err, v1) \<Rightarrow> ([], Some err, v1)
       | (None, v1) \<Rightarrow> add_walk fails module destRoot v1 es)
      else
        let outPath' = TrimSuffix outPath ''.tmpl'' in
        if vfs_exists v outPath' then add_walk fails module destRoot v es
        else (case te_content e of
           Inl err \<Rightarrow> ([], Some (wrap (''read skeleton file '' @ path_join skeletonDir (te_rel e)) err), v)
         | Inr raw \<Rightarrow>
             (case WriteGeneratedFile fails v outPath' (stripBuildIgnore (ReplaceAll raw skeletonModule module)) of
                (Some err, v1) \<Rightarrow> ([], Some err, v1)
              | (None, v1) \<Rightarrow> (case add_walk fails module destRoot v1 es of
                   (created, r, v2) \<Rightarrow> (TrimSuffix (te_rel e) ''.tmpl'' # created, r, v2)))))"

definition AddFeatureFiles where
  "AddFeatureFiles fails tree subdir module destRoot v =
     (if list_ex (\<lambda>e. te_rel e = subdir) tree
      then add_walk fails module destRoot v (filter (\<lambda>e. in_tree (te_rel e) subdir) tree)
      else ([], Some (''open '' @ path_join skeletonDir subdir @ '': file does not exist''), v))"

record feature =
  f_name :: string
  f_subdirs :: "string list"
  f_summary :: string
  f_steps :: "string list"

definition features :: "feature gomap" where
  "features =
     [(''redis'', \<lparr>f_name = ''redis'',
        f_subdirs = [''internal/repository/redis'', ''pkg/ratelimit''],
        f_summary = ''Redis cache layer (RedisCacher + shared rate limiter)'',
        f_steps =
         [''Set REDIS_URL in .env (empty keeps the in-process cache fallback)'',
          ''Wire the shared cache in cmd/api/main.go:'',
          ''    redisClient := newRedisClient(&cfg.Redis)'',
          ''    cacher = redisrepo.New(redisClient, '' @ [CHR 0x22] @ ''app'' @ [CHR 0x22] @ '')'',
          ''Optional shared rate limiting: RATE_LIMIT_BACKEND=redis'',
          ''Add a redis service to docker-compose.yml (see the wapgo docs)'',
          ''Shared token revocation (auth.RedisBlacklist) ships with projects generated using --redis'']\<rparr>),
      (''kafka'', \<lparr>f_name = ''kafka'',
        f_subdirs = [''pkg/messaging/kafka''],
        f_summary = ''Kafka producer/consumer with health check'',
        f_steps =
         [''Publish: producer := kafka.NewProducer(cfg.Kafka.Brokers, topic)'',
          ''Consume: kafka.NewConsumer(...).Start(ctx, handler)'',
          ''Add KAFKA_BROKERS / KAFKA_GROUP_ID to your .env'',
          ''Add kafka + zookeeper services to docker-compose.yml'']\<rparr>),
      (''rabbitmq'', \<lparr>f_name = ''rabbitmq'',
        f_subdirs = [''pkg/messaging/rabbitmq''],
        f_summary = ''RabbitMQ publisher/consumer with health check'',
        f_steps =
         [''Publish: pub := rabbitmq.NewPublisher(cfg.RabbitMQ.DSN, exchange)'',
          ''Subscribe: rabbitmq.NewConsumer(...).Subscribe(ctx, handler)'',
          ''Add RABBITMQ_DSN / RABBITMQ_EXCHANGE to your .env'',
          ''Add a rabbitmq service to docker-compose.yml'']\<rparr>),
      (''email'', \<lparr>f_name = ''email'',
        f_subdirs = [''pkg/notification/email''],
        f_summary = ''SMTP mailer dengan OTel tracing dan journal integration'',
        f_steps =
         [''Wire di cmd/api/main.go:'',
          ''    mailer := email.NewSMTPMailer(email.Config{Host: cfg.SMTP.Host, ...}, logger)'',
          ''Inject mailer ke usecase/handler yang butuh kirim email'',
          ''Tambah ke .env: SMTP_HOST, SMTP_PORT, SMTP_USERNAME, SMTP_PASSWORD, SMTP_FROM'']\<rparr>),
      (''firebase'', \<lparr>f_name = ''firebase'',
        f_subdirs = [''pkg/notification/firebase''],
        f_summary = ''Firebase Cloud Messaging (FCM) push notification via FCM v1 HTTP API'',
        f_steps =
         [''Wire di cmd/api/main.go:'',
          ''    pusher, err := firebase.NewFCMClient(os.Getenv('' @ [CHR 0x22] @ ''FIREBASE_CREDENTIALS_JSON'' @ [CHR 0x22] @ ''), logger)'',
          ''Inject pusher ke usecase/handler yang butuh kirim push notification'',
          ''Tambah ke .env: FIREBASE_CREDENTIALS_JSON (isi JSON service account, lihat .env.example)'']\<rparr>),
      (''google-auth'', \<lparr>f_name = ''google-auth'',
        f_subdirs = [''pkg/auth/google'', ''internal/delivery/http/handler'', ''internal/delivery/http/route''],
        f_summary = ''Google OAuth2 login/register '' @ [CHR 0xE2, CHR 0x80, CHR 0x94] @ '' redirects to Google, exchanges code, upserts user, issues JWT'',
        f_steps =
         [''1. go get golang.org/x/oauth2'',
          ''2. Tambah ke .env:'',
          ''       GOOGLE_CLIENT_ID=<from Google Console>'',
          ''       GOOGLE_CLIENT_SECRET=<from Google Console>'',
          ''       GOOGLE_REDIRECT_URL=http://localhost:8080/auth/google/callback'',
          ''3. Wire di cmd/api/main.go:'',
          ''       googleProvider := google.New(google.Config{'',
          ''           ClientID:     os.Getenv('' @ [CHR 0x22] @ ''GOOGLE_CLIENT_ID'' @ [CHR 0x22] @ ''),'',
          ''           ClientSecret: os.Getenv('' @ [CHR 0x22] @ ''GOOGLE_CLIENT_SECRET'' @ [CHR 0x22] @ ''),'',
          ''           RedirectURL:  os.Getenv('' @ [CHR 0x22] @ ''GOOGLE_REDIRECT_URL'' @ [CHR 0x22] @ ''),'',
          ''       })'',
          ''       googleHandler := handler.NewGoogleAuthHandler(googleProvider, userRepo, &jwtCfg, redisClient)'',
          ''4. Daftarkan route di router.go:'',
          ''       route.RegisterGoogleAuthRoutes(api, googleHandler)'',
          ''5. Jika project sudah ada, tambah FindByEmail ke UserRepository interface + db implementation.'',
          ''   (project baru dari wapgo new sudah include otomatis)'']\<rparr>)]"

text \<open>The names in the order of \<^verbatim>\<open>sort.Strings\<close>.\<close>

definition featureNames :: "string list" where
  "featureNames = [''email'', ''firebase'', ''google-auth'', ''kafka'', ''rabbitmq'', ''redis'']"

fun add_subdirs ::
  "failures \<Rightarrow> tree_entry list \<Rightarrow> string \<Rightarrow> string \<Rightarrow> vfs \<Rightarrow> string list \<Rightarrow> string list \<Rightarrow> (string + string list) \<times> vfs" where
  "add_subdirs fails tree name module v created [] = (Inr created, v)"
| "add_subdirs fails tree name module v created (d # ds) = (case AddFeatureFiles fails tree d module ''.'' v of
     (c, Some err, v1) \<Rightarrow> (Inl (wrap (''add '' @ name @ '' ('' @ d @ '')'') err), v1)
   | (c, None, v1) \<Rightarrow> add_subdirs fails tree name module v1 (created @ c) ds)"

definition runAdd :: "failures \<Rightarrow> tree_entry list \<Rightarrow> vfs \<Rightarrow> string \<Rightarrow> (string + string list) \<times> vfs" where
  "runAdd fails tree v name0 =
     (let name = ToLower (TrimSpace name0) in
      case map_of features name of
        None \<Rightarrow> (Inl (''unknown feature '' @ [CHR 0x22] @ name @ [CHR 0x22] @ '' (available: '' @ Join featureNames '', '' @ '')''), v)
      | Some f \<Rightarrow> (case ReadModulePath v of
           Inl err \<Rightarrow> (Inl err, v)
         | Inr module \<Rightarrow> add_subdirs fails tree name module v [] (f_subdirs f)))"

text \<open>What the command prints when it succeeds, without the styles.\<close>

definition add_report :: "string \<Rightarrow> string list \<Rightarrow> string list" where
  "add_report name created =
     [[], ''  '' @ [CHR 0xE2, CHR 0x9C, CHR 0xA6] @ '' wapgo add '' @ name, []] @
     (if length created = 0 then [''  Nothing to do '' @ [CHR 0xE2, CHR 0x80, CHR 0x94] @ '' all files already exist.'', []]
      else map (\<lambda>c. ''    created '' @ c) created @ [[], ''  Next steps''] @
        (case map_of features name of Some f \<Rightarrow> map (\<lambda>s. ''    '' @ s) (f_steps f) | None \<Rightarrow> []) @ [[]])"

section \<open>Lemmas\<close>

lemma featureNames_sorted: "set featureNames = fst ` set features"
  by (auto simp: featureNames_def features_def)

lemma ReplaceAll_Nil [simp]: "ReplaceAll [] old new = []"
  by (simp add: ReplaceAll.simps)

lemma ReplaceAll_prefix: "old \<noteq> [] \<Longrightarrow> ReplaceAll (old @ s) old new = new @ ReplaceAll s old new"
  using HasPrefix_append [of old s] by (cases old) (simp_all add: ReplaceAll.simps [of "_ # _"])

lemma ReplaceAll_skip: "\<not> HasPrefix (c # s) old \<Longrightarrow> ReplaceAll (c # s) old new = c # ReplaceAll s old new"
  by (subst ReplaceAll.simps) simp

text \<open>Replacing through a marker whose first character does not occur in the text is replacing directly.\<close>

lemma ReplaceAll_via:
  assumes "old \<noteq> []" and "marker = z # zs"
  shows "z \<notin> set s \<Longrightarrow> ReplaceAll (ReplaceAll s old marker) marker new = ReplaceAll s old new"
proof (induction s rule: length_induct)
  case (1 s)
  show ?case
  proof (cases s)
    case (Cons c s')
    show ?thesis
    proof (cases "HasPrefix s old")
      case True
      then obtain r where r: "s = old @ r" by (auto simp: HasPrefix_iff)
      then have "ReplaceAll (ReplaceAll r old marker) marker new = ReplaceAll r old new"
        using 1 assms(1) by auto
      moreover have "marker \<noteq> []" using assms(2) by simp
      ultimately show ?thesis using assms(1) by (simp add: r ReplaceAll_prefix)
    next
      case False
      have "\<not> HasPrefix (c # ReplaceAll s' old marker) marker"
        using 1(2) Cons assms(2) by (auto simp: HasPrefix_def)
      then show ?thesis using False 1 Cons by (simp add: ReplaceAll_skip)
    qed
  qed simp
qed

subsection \<open>Files that exist are kept\<close>

definition keeps_files :: "vfs \<Rightarrow> vfs \<Rightarrow> bool" where
  "keeps_files v v' \<longleftrightarrow> (\<forall>p c. map_of (vfs_files v) p = Some c \<longrightarrow> map_of (vfs_files v') p = Some c)"

lemma keeps_files_refl [simp]: "keeps_files v v"
  by (simp add: keeps_files_def)

lemma keeps_files_trans: "keeps_files u v \<Longrightarrow> keeps_files v w \<Longrightarrow> keeps_files u w"
  by (simp add: keeps_files_def)

lemma Mkdir_files: "MkdirGenerated fails v path = (r, v') \<Longrightarrow> vfs_files v' = vfs_files v \<and> vfs_cwd v' = vfs_cwd v"
  by (auto simp: MkdirGenerated_def split: option.splits if_splits)

lemma Mkdir_keeps: "MkdirGenerated fails v path = (r, v') \<Longrightarrow> keeps_files v v'"
  by (simp add: keeps_files_def Mkdir_files)

lemma resolve_cong: "vfs_cwd v' = vfs_cwd v \<Longrightarrow> resolve v' path = resolve v path"
  by (simp add: resolve_def)

lemma write_file_cases:
  assumes "write_file fails v path content = (r, v')"
  obtains "r \<noteq> None" "v' = v"
  | "r = None" "vfs_files v' = AList.update (resolve v path) content (vfs_files v)" "vfs_cwd v' = vfs_cwd v"
proof (cases "resolve v path \<in> set (vfs_dirs v) \<or> fails path \<noteq> None")
  case True
  then have "r \<noteq> None \<and> v' = v" using assms
    by (cases "fails path"; cases "resolve v path \<in> set (vfs_dirs v)") (auto simp: write_file_def)
  then show ?thesis using that(1) by blast
next
  case False
  then show ?thesis using assms that(2) by (auto simp: write_file_def)
qed

lemma Write_files:
  assumes "WriteGeneratedFile fails v path content = (r, v')"
  shows "vfs_files v' = (if r = None then AList.update (resolve v path) content (vfs_files v) else vfs_files v) \<and>
    vfs_cwd v' = vfs_cwd v"
proof -
  obtain r1 v1 where M: "MkdirGenerated fails v (path_dir path) = (r1, v1)" using prod.exhaust by blast
  note F = Mkdir_files [OF M]
  show ?thesis
  proof (cases r1)
    case None
    then have "write_file fails v1 path content = (r, v')" using assms M by (simp add: WriteGeneratedFile_def)
    then show ?thesis using F resolve_cong [of v1 v path] by (cases rule: write_file_cases) auto
  next
    case (Some err)
    then have "r = Some err" "v' = v1" using assms M by (simp_all add: WriteGeneratedFile_def)
    then show ?thesis using F by simp
  qed
qed

lemma update_keeps:
  assumes "map_of (vfs_files v) q = None" and "vfs_files v' = AList.update q c (vfs_files v)"
  shows "keeps_files v v'"
  using assms by (auto simp: keeps_files_def update_conv')

lemma Write_keeps:
  assumes "WriteGeneratedFile fails v path content = (r, v')" and "\<not> vfs_exists v path"
  shows "keeps_files v v'"
  using update_keeps [of v "resolve v path" v'] assms(2) Write_files [OF assms(1)]
  by (cases r) (auto simp: vfs_exists_def keeps_files_def)

lemma add_walk_keeps: "add_walk fails module destRoot v es = (cs, r, v') \<Longrightarrow> keeps_files v v'"
proof (induction fails module destRoot v es arbitrary: cs r v' rule: add_walk.induct)
  case (2 fails module destRoot v e es)
  show ?case using 2
    by (auto simp: Let_def split: if_splits prod.splits option.splits sum.splits
        dest: Mkdir_keeps Write_keeps intro: keeps_files_trans)
qed simp

lemma AddFeatureFiles_keeps: "AddFeatureFiles fails tree d module destRoot v = (cs, r, v') \<Longrightarrow> keeps_files v v'"
  by (auto simp: AddFeatureFiles_def split: if_splits dest: add_walk_keeps)

lemma add_subdirs_keeps: "add_subdirs fails tree name module v created ds = (r, v') \<Longrightarrow> keeps_files v v'"
  by (induction fails tree name module v created ds arbitrary: r v' rule: add_subdirs.induct)
    (auto split: prod.splits option.splits dest!: AddFeatureFiles_keeps intro: keeps_files_trans)

lemma fold_insert_mono: "x \<in> set ds \<Longrightarrow> x \<in> set (fold List.insert ps ds)"
  by (induction ps arbitrary: ds) auto

lemma Mkdir_dirs: "MkdirGenerated fails v d = (r, v') \<Longrightarrow> set (vfs_dirs v) \<subseteq> set (vfs_dirs v')"
  by (auto simp: MkdirGenerated_def fold_insert_mono split: if_splits option.splits)

lemma Mkdir_exists:
  assumes "MkdirGenerated fails v d = (r, v')" and "vfs_exists v path"
  shows "vfs_exists v' path"
  using assms(2) Mkdir_files [OF assms(1)] Mkdir_dirs [OF assms(1)] by (auto simp: vfs_exists_def resolve_def)

text \<open>What \<^verbatim>\<open>Render\<close> leaves behind: either the files are untouched and there is an error, or the path was free
  and holds what the template wrote.\<close>

lemma Render_cases:
  assumes "Render fails eng v tmpl outPath dat = (r, v')"
  shows "vfs_cwd v' = vfs_cwd v \<and> (vfs_files v' = vfs_files v \<and> r \<noteq> None \<or>
    \<not> vfs_exists v outPath \<and> (\<exists>out. vfs_files v' = AList.update (resolve v outPath) out (vfs_files v) \<and>
      (r = None \<longrightarrow> (\<exists>t. t_Parse eng tmpl = Inr t \<and> t_Execute eng t dat = Inr out))))"
proof -
  obtain r1 v1 where M: "MkdirGenerated fails v (path_dir outPath) = (r1, v1)" using prod.exhaust by blast
  note F = Mkdir_files [OF M]
  have R: "resolve v1 outPath = resolve v outPath" using F by (simp add: resolve_def)
  show ?thesis
  proof (cases "r1 \<noteq> None \<or> vfs_exists v1 outPath \<or> (\<exists>err. t_Parse eng tmpl = Inl err)")
    case True
    then have "r \<noteq> None \<and> v' = v1" using assms M
      by (cases r1; cases "vfs_exists v1 outPath"; cases "t_Parse eng tmpl") (auto simp: Render_def)
    then show ?thesis using F by blast
  next
    case False
    then obtain tm where P: "r1 = None" "\<not> vfs_exists v1 outPath" "t_Parse eng tmpl = Inr tm"
      by (cases "t_Parse eng tmpl") auto
    let ?out = "case t_Execute eng tm dat of Inl (err, part) \<Rightarrow> part | Inr out \<Rightarrow> out"
    obtain r2 v2 where W: "write_file fails v1 outPath ?out = (r2, v2)" using prod.exhaust by blast
    have "v' = v2 \<and> (r2 \<noteq> None \<longrightarrow> r \<noteq> None) \<and> (r = None \<longrightarrow> t_Execute eng tm dat = Inr ?out)"
    proof (cases "t_Execute eng tm dat")
      case (Inl ep)
      obtain err part where "ep = (err, part)" using prod.exhaust by blast
      then show ?thesis using assms M P W Inl by (cases r2) (auto simp: Render_def)
    next
      case (Inr out)
      then show ?thesis using assms M P W by (cases r2) (auto simp: Render_def)
    qed
    moreover have "\<not> vfs_exists v outPath" using False Mkdir_exists [OF M] by blast
    moreover from W have "r2 \<noteq> None \<and> v2 = v1 \<or>
        vfs_files v2 = AList.update (resolve v outPath) ?out (vfs_files v) \<and> vfs_cwd v2 = vfs_cwd v"
      by (cases rule: write_file_cases) (simp_all add: F R)
    ultimately show ?thesis using F P(3) by metis
  qed
qed

lemma Render_keeps: "Render fails eng v tmpl outPath dat = (r, v') \<Longrightarrow> keeps_files v v'"
  using Render_cases [of fails eng v tmpl outPath dat r v'] update_keeps [of v "resolve v outPath" v']
  by (auto simp: keeps_files_def vfs_exists_def)

subsection \<open>The walk and its filter\<close>

text \<open>The names of single files in \<open>skipPath\<close>.\<close>

definition skip_files :: "string list" where
  "skip_files = [''internal/delivery/http/handler/google_auth_handler.go.tmpl'',
     ''internal/delivery/http/route/google_auth_route.go.tmpl'', ''pkg/ratelimit/redis.go.tmpl'',
     ''migrations/000002_jobs.up.sql'', ''migrations/000002_jobs.down.sql'']"

lemma in_tree_below: "in_tree d t \<Longrightarrow> HasPrefix x (d @ ''/'') \<Longrightarrow> in_tree x t"
  by (auto simp: in_tree_def HasPrefix_iff)

text \<open>\<open>skipPath\<close> as trees and single files, each with the option that leaves it out.\<close>

definition skip_trees :: "ScaffoldOptions \<Rightarrow> (bool \<times> string) list" where
  "skip_trees opts = [(\<not> so_Redis opts, ''internal/repository/redis''), (\<not> so_Kafka opts, ''pkg/messaging/kafka''),
     (\<not> so_RabbitMQ opts, ''pkg/messaging/rabbitmq''), (\<not> so_Email opts, ''pkg/notification/email''),
     (\<not> so_Firebase opts, ''pkg/notification/firebase''), (\<not> so_GoogleAuth opts, ''pkg/auth/google''),
     (so_DB opts \<noteq> ''postgres'', ''cmd/worker''), (so_DB opts \<noteq> ''postgres'', ''internal/queue'')]"

definition skip_singles :: "ScaffoldOptions \<Rightarrow> (bool \<times> string) list" where
  "skip_singles opts = zip [\<not> so_GoogleAuth opts, \<not> so_GoogleAuth opts, \<not> so_Redis opts, so_DB opts \<noteq> ''postgres'',
     so_DB opts \<noteq> ''postgres''] skip_files"

lemma skipPath_iff:
  "skipPath opts rel \<longleftrightarrow> (\<exists>(b, d) \<in> set (skip_trees opts). b \<and> in_tree rel d) \<or> (\<exists>(b, f) \<in> set (skip_singles opts). b \<and> rel = f)"
proof -
  have if_or: "(if P then True else Q) \<longleftrightarrow> P \<or> Q" for P Q by simp
  show ?thesis
    unfolding skipPath_def if_or skip_trees_def skip_singles_def skip_files_def zip_Cons_Cons zip_Nil list.set bex_simps
      prod.case
    by (rule iffI; elim disjE conjE) (simp_all only: simp_thms)
qed

lemma skipPath_below:
  assumes "skipPath opts d" and "d \<notin> set skip_files" and "HasPrefix x (d @ ''/'')"
  shows "skipPath opts x"
proof -
  have "(\<exists>(b, f) \<in> set (skip_singles opts). b \<and> d = f) \<Longrightarrow> False"
    using assms(2) by (auto simp: skip_singles_def dest: set_zip_rightD)
  then show ?thesis using assms(1) in_tree_below [OF _ assms(3)] unfolding skipPath_iff by blast
qed

text \<open>Writing out a list of entries, with nothing left out.\<close>

fun write_all ::
  "failures \<Rightarrow> ('t, templateData) engine \<Rightarrow> ScaffoldOptions \<Rightarrow> string \<Rightarrow> vfs \<Rightarrow> tree_entry list \<Rightarrow> string option \<times> vfs" where
  "write_all fails eng opts targetDir v [] = (None, v)"
| "write_all fails eng opts targetDir v (e # es) = (case scaffold_entry fails eng opts targetDir v e of
     (Some err, v1) \<Rightarrow> (Some err, v1)
   | (None, v1) \<Rightarrow> write_all fails eng opts targetDir v1 es)"

definition wanted :: "ScaffoldOptions \<Rightarrow> tree_entry \<Rightarrow> bool" where
  "wanted opts e \<longleftrightarrow> te_rel e = ''.'' \<or> \<not> skipPath opts (te_rel e)"

lemma filter_dropWhile: "(\<And>x. P x \<Longrightarrow> \<not> Q x) \<Longrightarrow> filter Q (dropWhile P xs) = filter Q xs"
  by (induction xs) auto

lemma below_not_wanted:
  assumes "skipPath opts d" and "d \<notin> set skip_files" and "HasPrefix (te_rel x) (d @ ''/'')"
  shows "\<not> wanted opts x"
proof -
  have "te_rel x \<noteq> ''.''" using assms(3) by (cases d) (auto simp: HasPrefix_iff)
  then show ?thesis using skipPath_below [OF assms] by (simp add: wanted_def)
qed

lemma scaffold_walk_filter:
  assumes "list_all (\<lambda>e. te_isDir e \<longrightarrow> te_rel e \<notin> set skip_files) es"
  shows "scaffold_walk fails eng opts targetDir v es = write_all fails eng opts targetDir v (filter (wanted opts) es)"
  using assms
proof (induction fails eng opts targetDir v es rule: scaffold_walk.induct)
  case (2 fails eng opts targetDir v e es)
  show ?case
  proof (cases "te_rel e \<noteq> ''.'' \<and> skipPath opts (te_rel e)")
    case True
    let ?rest = "if te_isDir e then dropWhile (\<lambda>x. HasPrefix (te_rel x) (te_rel e @ ''/'')) es else es"
    have "list_all (\<lambda>e. te_isDir e \<longrightarrow> te_rel e \<notin> set skip_files) ?rest"
      using 2(3) by (auto simp: list_all_iff dest: set_dropWhileD)
    moreover have "filter (wanted opts) ?rest = filter (wanted opts) es"
      using True 2(3) below_not_wanted by (auto intro!: filter_dropWhile)
    moreover have "\<not> wanted opts e" using True by (simp add: wanted_def)
    ultimately show ?thesis using 2(1) [OF True] True by (simp del: if_split)
  next
    case False
    then show ?thesis using 2(2,3) by (auto simp: wanted_def split: prod.split option.split)
  qed
qed simp

section \<open>Properties\<close>

text \<open>\<^verbatim>\<open>Scaffold\<close> replaces the skeleton's module path in two steps, through a marker, so that the
  template engine may run in between. For text without NUL characters the two steps together are the
  direct replacement by the new module path, also when that path contains the skeleton's own.\<close>

lemma module_substitution:
  assumes "CHR 0x00 \<notin> set content"
  shows "expandModule (ReplaceAll content skeletonModule moduleSentinel) m = ReplaceAll content skeletonModule m"
  using ReplaceAll_via [of skeletonModule moduleSentinel "CHR 0x00"] assms
  by (simp add: expandModule_def skeletonModule_def moduleSentinel_def)

text \<open>\<^verbatim>\<open>wapgo add\<close> never overwrites: whatever the feature, the template tree and the errors of the
  file system, and whether the command succeeds or fails half-way, every file that was there keeps its
  content.\<close>

lemma add_never_overwrites:
  assumes "runAdd fails tree v name = (r, v')" and "map_of (vfs_files v) p = Some c"
  shows "map_of (vfs_files v') p = Some c"
proof -
  have "keeps_files v v'" using assms(1) add_subdirs_keeps
    by (auto simp: runAdd_def Let_def split: option.splits sum.splits)
  then show ?thesis using assms(2) by (simp add: keeps_files_def)
qed

definition sample_tree :: "tree_entry list" where
  "sample_tree = [\<lparr>te_rel = ''.'', te_isDir = True, te_content = Inr []\<rparr>,
     \<lparr>te_rel = ''pkg/messaging/kafka'', te_isDir = True, te_content = Inr []\<rparr>,
     \<lparr>te_rel = ''pkg/messaging/kafka/a.go.tmpl'', te_isDir = False, te_content = Inr ''package kafka''\<rparr>,
     \<lparr>te_rel = ''pkg/messaging/kafka/b.go'', te_isDir = False, te_content = Inr ''package kafka''\<rparr>,
     \<lparr>te_rel = ''pkg/z.go'', te_isDir = False, te_content = Inr ''package pkg''\<rparr>]"

definition sample_vfs :: vfs where
  "sample_vfs = \<lparr>vfs_cwd = ''/w'', vfs_dirs = [''/w''], vfs_files = [(''/w/go.mod'', ''module acme/shop''), (''/w/pkg/messaging/kafka/a.go'', ''mine'')]\<rparr>"

lemma sample_add:
  "fst (runAdd (\<lambda>_. None) sample_tree sample_vfs ''Kafka'') = Inr [''pkg/messaging/kafka/b.go'']"
  by code_simp

text \<open>C32. \<^verbatim>\<open>Scaffold\<close> prunes a directory by \<^verbatim>\<open>fs.SkipDir\<close>, without looking below it. That is the same, file by
  file and error by error, as writing exactly the entries of the tree that the options do not leave out,
  provided no directory has the name of one of the single files that \<open>skipPath\<close> lists.\<close>

theorem scaffold_equals_filter:
  assumes "\<not> vfs_exists v targetDir" and "list_all (\<lambda>e. te_isDir e \<longrightarrow> te_rel e \<notin> set skip_files) tree"
  shows "Scaffold fails eng tree opts targetDir v
    = write_all fails eng (scaffold_defaults opts) targetDir v (filter (wanted (scaffold_defaults opts)) tree)"
  using assms by (simp add: Scaffold_def scaffold_walk_filter)

definition sample_opts :: ScaffoldOptions where
  "sample_opts = \<lparr>so_ProjectName = ''my_shop'', so_Module = ''acme/shop'', so_DB = [], so_APM = [], so_Redis = False,
     so_Kafka = False, so_RabbitMQ = False, so_Email = False, so_Firebase = False, so_GoogleAuth = False\<rparr>"

definition sample_engine :: "(string, templateData) engine" where
  "sample_engine = \<lparr>t_Parse = Inr, t_Execute = (\<lambda>t d. Inr t)\<rparr>"

lemma sample_wanted: "map te_rel (filter (wanted (scaffold_defaults sample_opts)) sample_tree) = [''.'', ''pkg/z.go'']"
  by code_simp

theorem scaffold_equals_filter_witness:
  "map te_rel (filter (wanted (scaffold_defaults sample_opts)) sample_tree) = [''.'', ''pkg/z.go''] \<and>
   Scaffold (\<lambda>_. None) sample_engine sample_tree sample_opts ''shop'' sample_vfs
     = write_all (\<lambda>_. None) sample_engine (scaffold_defaults sample_opts) ''shop'' sample_vfs
         (filter (wanted (scaffold_defaults sample_opts)) sample_tree)"
proof (rule conjI [OF sample_wanted], rule scaffold_equals_filter)
  show "\<not> vfs_exists sample_vfs ''shop''" by (simp add: vfs_exists_def sample_vfs_def resolve_def path_join_def HasPrefix_def)
  show "list_all (\<lambda>e. te_isDir e \<longrightarrow> te_rel e \<notin> set skip_files) sample_tree"
    by (simp add: sample_tree_def skip_files_def)
qed

end
