(* ===== verification/Cli_Commands.thy ===== *)
theory Cli_Commands
  imports Scaffold "HOL-Library.List_Lexorder" "HOL-Library.Char_ord"
begin

text \<open>
  The commands of the generator: \<^verbatim>\<open>cli/commands/make_*.go\<close>, \<^verbatim>\<open>list.go\<close> and \<^verbatim>\<open>new.go\<close>.

  The files embedded under \<^verbatim>\<open>templates/domain\<close> are a function \<open>rd\<close> from paths to contents; the form of the
  wizard, the terminal and \<^verbatim>\<open>go mod tidy\<close> are parameters. Styles are left out of the text that is
  printed.
\<close>

section \<open>Rendering domain templates\<close>

definition domainDir :: string where
  "domainDir = ''templates/domain''"

definition DomainTemplateContent :: "(string \<Rightarrow> string + string) \<Rightarrow> string \<Rightarrow> string + string" where
  "DomainTemplateContent rd name = (case rd (domainDir @ ''/'' @ name) of
     Inl err \<Rightarrow> Inl (wrap (''read domain template '' @ name) err)
   | Inr raw \<Rightarrow> Inr raw)"

text \<open>The loop over the files of a command: a template's name and the path it is rendered to.\<close>

fun render_files ::
  "failures \<Rightarrow> ('t, Names) engine \<Rightarrow> (string \<Rightarrow> string + string) \<Rightarrow> Names \<Rightarrow> vfs \<Rightarrow> (string \<times> string) list \<Rightarrow> string option \<times> vfs" where
  "render_files fails eng rd n v [] = (None, v)"
| "render_files fails eng rd n v ((tmpl, out) # files) = (case DomainTemplateContent rd tmpl of
     Inl err \<Rightarrow> (Some err, v)
   | Inr content \<Rightarrow> (case Render fails eng v content out n of
        (Some err, v1) \<Rightarrow> (Some (wrap (''generate '' @ out) err), v1)
      | (None, v1) \<Rightarrow> render_files fails eng rd n v1 files))"

definition run_make ::
  "(Names \<Rightarrow> (string \<times> string) list) \<Rightarrow> failures \<Rightarrow> ('t, Names) engine \<Rightarrow> (string \<Rightarrow> string + string) \<Rightarrow> vfs \<Rightarrow> string \<Rightarrow> string option \<times> vfs" where
  "run_make files fails eng rd v name = (case ReadModulePath v of
     Inl err \<Rightarrow> (Some err, v)
   | Inr module \<Rightarrow> let n = (NewNames name)\<lparr>n_Module := module\<rparr> in render_files fails eng rd n v (files n))"

definition model_files :: "Names \<Rightarrow> (string \<times> string) list" where
  "model_files n = [(''entity.go.tmpl'', ''internal/domain/entity/'' @ n_Snake n @ ''.go''),
     (''repository_interface.go.tmpl'', ''internal/domain/repository/'' @ n_Snake n @ ''_repository.go'')]"

definition repo_files :: "Names \<Rightarrow> (string \<times> string) list" where
  "repo_files n = [(''repository.go.tmpl'', ''internal/repository/db/'' @ n_Snake n @ ''_repository.go'')]"

definition usecase_files :: "Names \<Rightarrow> (string \<times> string) list" where
  "usecase_files n = [(''usecase.go.tmpl'', ''internal/usecase/'' @ n_Snake n @ ''_usecase.go'')]"

definition controller_files :: "Names \<Rightarrow> (string \<times> string) list" where
  "controller_files n = [(''handler.go.tmpl'', ''internal/delivery/http/handler/'' @ n_Snake n @ ''_handler.go''),
     (''external_service.go.tmpl'', ''internal/domain/service/external_'' @ n_Snake n @ ''.go'')]"

definition route_files :: "Names \<Rightarrow> (string \<times> string) list" where
  "route_files n = [(''route.go.tmpl'', ''internal/delivery/http/route/'' @ n_Snake n @ ''_route.go'')]"

definition client_files :: "Names \<Rightarrow> (string \<times> string) list" where
  "client_files n = [(''http_client.go.tmpl'', ''pkg/httpclient/'' @ n_Snake n @ ''_client.go'')]"

definition test_files :: "Names \<Rightarrow> (string \<times> string) list" where
  "test_files n = [(''usecase_test.go.tmpl'', ''internal/usecase/'' @ n_Snake n @ ''_usecase_test.go'')]"

definition handler_test_files :: "Names \<Rightarrow> (string \<times> string) list" where
  "handler_test_files n =
     [(''handler_test.go.tmpl'', ''internal/delivery/http/handler/'' @ n_Snake n @ ''_handler_test.go'')]"

definition event_files :: "Names \<Rightarrow> (string \<times> string) list" where
  "event_files n = [(''event_producer.go.tmpl'', ''internal/event/'' @ n_Snake n @ ''_producer.go''),
     (''event_consumer.go.tmpl'', ''internal/event/'' @ n_Snake n @ ''_consumer.go'')]"

type_synonym 't make_cmd =
  "failures \<Rightarrow> ('t, Names) engine \<Rightarrow> (string \<Rightarrow> string + string) \<Rightarrow> vfs \<Rightarrow> string \<Rightarrow> string option \<times> vfs"

definition runMakeModel :: "'t make_cmd" where
  "runMakeModel = run_make model_files"

definition runMakeRepo :: "'t make_cmd" where
  "runMakeRepo = run_make repo_files"

definition runMakeUsecase :: "'t make_cmd" where
  "runMakeUsecase = run_make usecase_files"

definition runMakeController :: "'t make_cmd" where
  "runMakeController = run_make controller_files"

definition runMakeRoute :: "'t make_cmd" where
  "runMakeRoute = run_make route_files"

definition runMakeClient :: "'t make_cmd" where
  "runMakeClient = run_make client_files"

definition runMakeTest :: "'t make_cmd" where
  "runMakeTest = run_make test_files"

definition runMakeHandlerTest :: "'t make_cmd" where
  "runMakeHandlerTest = run_make handler_test_files"

definition runMakeEvent :: "'t make_cmd" where
  "runMakeEvent = run_make event_files"

definition make_all_steps :: "(string \<times> 't make_cmd) list" where
  "make_all_steps =
     [(''model      (entity + repo interface)'', runMakeModel), (''repo       (gorm impl)'', runMakeRepo),
      (''usecase    (interface + impl)'', runMakeUsecase), (''controller (handler + ext service)'', runMakeController),
      (''route      (route registration)'', runMakeRoute), (''client     (http client)'', runMakeClient),
      (''test:usecase (usecase test boilerplate)'', runMakeTest),
      (''test:handler (handler test boilerplate)'', runMakeHandlerTest)]"

fun run_steps ::
  "(string \<times> 't make_cmd) list \<Rightarrow> 't make_cmd" where
  "run_steps [] fails eng rd v name = (None, v)"
| "run_steps ((label, fn) # steps) fails eng rd v name = (case fn fails eng rd v name of
     (Some err, v1) \<Rightarrow> (Some (wrap (''make:'' @ label @ '' failed'') err), v1)
   | (None, v1) \<Rightarrow> run_steps steps fails eng rd v1 name)"

definition make_all :: "'t make_cmd" where
  "make_all = run_steps make_all_steps"

definition make_test :: "string \<Rightarrow> 't make_cmd" where
  "make_test layer fails eng rd v name =
     (if layer = ''usecase'' \<or> layer = [] then runMakeTest fails eng rd v name
      else if layer = ''handler'' then runMakeHandlerTest fails eng rd v name
      else (Some (''unknown layer '' @ [CHR 0x22] @ layer @ [CHR 0x22] @ '' '' @ [CHR 0xE2, CHR 0x80, CHR 0x94] @
        '' valid: usecase, handler''), v))"

section \<open>Migrations\<close>

text \<open>\<^verbatim>\<open>strings.NewReplacer\<close>: at each position the first pattern that matches is replaced.\<close>

fun replace_at :: "(string \<times> string) list \<Rightarrow> string \<Rightarrow> (string \<times> string) option" where
  "replace_at [] s = None"
| "replace_at ((old, new) # ps) s = (if old \<noteq> [] \<and> HasPrefix s old then Some (new, drop (length old) s) else replace_at ps s)"

lemma replace_at_shorter: "replace_at ps s = Some (new, rest) \<Longrightarrow> length rest < length s"
proof (induction ps s rule: replace_at.induct)
  case (2 old new' ps s)
  then show ?case by (cases "old \<noteq> [] \<and> HasPrefix s old") (auto simp: HasPrefix_iff)
qed simp

function Replace :: "(string \<times> string) list \<Rightarrow> string \<Rightarrow> string" where
  "Replace ps [] = []"
| "Replace ps (c # s) = (case replace_at ps (c # s) of
     Some (new, rest) \<Rightarrow> new @ Replace ps rest
   | None \<Rightarrow> c # Replace ps s)"
  by pat_completeness auto

termination
  by (relation "measure (\<lambda>(ps, s). length s)") (auto dest: replace_at_shorter)

definition migrationUpSQL :: string where
  "migrationUpSQL = Join
     [''-- Migration up: {{table}}'',
      ''-- Compatible with MySQL 8+ and PostgreSQL 14+.'',
      ''-- Postgres: replace VARCHAR(36) '' @ [CHR 0xE2, CHR 0x86, CHR 0x92] @ '' UUID, TIMESTAMP(3) '' @
        [CHR 0xE2, CHR 0x86, CHR 0x92] @ '' TIMESTAMPTZ.'',
      [],
      ''CREATE TABLE IF NOT EXISTS {{table}} ('',
      ''    id         VARCHAR(36)  NOT NULL,'',
      ''    created_at TIMESTAMP(3) NOT NULL DEFAULT CURRENT_TIMESTAMP(3),'',
      ''    updated_at TIMESTAMP(3) NOT NULL DEFAULT CURRENT_TIMESTAMP(3),'',
      ''    deleted_at TIMESTAMP(3) NULL,'',
      ''{{columns}}'',
      ''    PRIMARY KEY (id),'',
      ''    INDEX idx_{{table}}_deleted_at (deleted_at)'',
      '');'', []] [CHR 0x0A]"

definition migrationDownSQL :: string where
  "migrationDownSQL = Join [''-- Migration down: {{table}}'', [], ''DROP TABLE IF EXISTS {{table}};'', []] [CHR 0x0A]"

definition writeMigrationFile :: "failures \<Rightarrow> vfs \<Rightarrow> string \<Rightarrow> string \<Rightarrow> string option \<times> vfs" where
  "writeMigrationFile fails v path content = (case MkdirGenerated fails v (path_dir path) of
     (Some err, v1) \<Rightarrow> (Some (wrap (''mkdir '' @ path_dir path) err), v1)
   | (None, v1) \<Rightarrow>
       if vfs_exists v1 path then (Some (wrap ''file already exists'' path), v1)
       else WriteGeneratedFile fails v1 path content)"

text \<open>\<open>ts\<close> is the formatted time.\<close>

definition runMakeMigration ::
  "failures \<Rightarrow> (string \<Rightarrow> decl list option) \<Rightarrow> string \<Rightarrow> vfs \<Rightarrow> string \<Rightarrow> string option \<times> vfs" where
  "runMakeMigration fails parseFile ts v name =
     (let n = NewNames name;
          prefix = ts @ ''_'' @ n_Snake n;
          columns = RenderMigrationColumns (ParseEntityFields parseFile (n_Snake n));
          r = Replace [(''{{table}}'', n_Table n), (''{{columns}}'', columns)];
          upPath = ''migrations/'' @ prefix @ ''.up.sql'';
          downPath = ''migrations/'' @ prefix @ ''.down.sql'' in
      case writeMigrationFile fails v upPath (r migrationUpSQL) of
        (Some err, v1) \<Rightarrow> (Some err, v1)
      | (None, v1) \<Rightarrow> writeMigrationFile fails v1 downPath (r migrationDownSQL))"

section \<open>Workers\<close>

record workerData =
  wk_Module :: string
  wk_Suffix :: string
  wk_Kafka :: bool
  wk_RabbitMQ :: bool

definition detectWorkerBroker :: "vfs \<Rightarrow> string" where
  "detectWorkerBroker v = (case map_of (vfs_files v) (resolve v ''go.mod'') of
     None \<Rightarrow> []
   | Some content \<Rightarrow>
       let hasKafka = Contains content ''segmentio/kafka-go'';
           hasRabbitMQ = Contains content ''rabbitmq/amqp091-go'' in
       if hasKafka \<and> hasRabbitMQ then ''both'' else if hasKafka then ''kafka'' else if hasRabbitMQ then ''rabbitmq'' else [])"

definition worker_targets :: "string \<Rightarrow> string \<Rightarrow> string" where
  "worker_targets suffix outDir =
     (let runTarget = ''run-'' @ suffix; buildTarget = ''build-'' @ suffix; binary = ''bin/'' @ suffix in
      Join [[], ''.PHONY: '' @ runTarget @ '' '' @ buildTarget, [], runTarget @ '':'',
        CHR 0x09 # ''go run '' @ outDir @ ''/main.go'', [], buildTarget @ '':'',
        CHR 0x09 # ''CGO_ENABLED=0 go build -ldflags='' @ [CHR 0x22] @ ''-s -w'' @ [CHR 0x22] @ '' -o '' @ binary @ '' ./'' @ outDir,
        []] [CHR 0x0A])"

definition appendWorkerMakeTargets :: "failures \<Rightarrow> vfs \<Rightarrow> string \<Rightarrow> string \<Rightarrow> vfs" where
  "appendWorkerMakeTargets fails v suffix outDir = (case map_of (vfs_files v) (resolve v ''Makefile'') of
     None \<Rightarrow> v
   | Some content \<Rightarrow>
       if Contains content (''run-'' @ suffix) then v
       else (case fails ''Makefile'' of
          Some err \<Rightarrow> v
        | None \<Rightarrow> v\<lparr>vfs_files := AList.update (resolve v ''Makefile'') (content @ worker_targets suffix outDir) (vfs_files v)\<rparr>))"

definition runMakeWorker ::
  "failures \<Rightarrow> ('t, workerData) engine \<Rightarrow> (string \<Rightarrow> string + string) \<Rightarrow> vfs \<Rightarrow> string \<Rightarrow> string \<Rightarrow> string option \<times> vfs" where
  "runMakeWorker fails eng rd v name broker0 = (case ReadModulePath v of
     Inl err \<Rightarrow> (Some err, v)
   | Inr module \<Rightarrow>
       let broker = (if broker0 = [] then (if detectWorkerBroker v = [] then ''kafka'' else detectWorkerBroker v) else broker0);
           kafka = (broker = ''kafka'' \<or> broker = ''both'');
           rabbit = (broker = ''rabbitmq'' \<or> broker = ''both'') in
       if \<not> kafka \<and> \<not> rabbit
       then (Some (''unknown broker '' @ [CHR 0x22] @ broker @ [CHR 0x22] @ '' '' @ [CHR 0xE2, CHR 0x80, CHR 0x94] @
              '' choose kafka, rabbitmq, or both''), v)
       else
         let slug = n_Snake (NewNames name);
             suffix = (if name \<noteq> [] then ''worker-'' @ slug else ''worker'');
             outDir = (if name \<noteq> [] then ''cmd/worker-'' @ slug else ''cmd/worker'');
             dat = \<lparr>wk_Module = module, wk_Suffix = suffix, wk_Kafka = kafka, wk_RabbitMQ = rabbit\<rparr>;
             out = outDir @ ''/main.go'' in
         case DomainTemplateContent rd ''worker_main.go.tmpl'' of
           Inl err \<Rightarrow> (Some err, v)
         | Inr content \<Rightarrow> (case Render fails eng v content out dat of
              (Some err, v1) \<Rightarrow> (Some (wrap (''generate '' @ out) err), v1)
            | (None, v1) \<Rightarrow> (None, appendWorkerMakeTargets fails v1 suffix outDir)))"

section \<open>Listing\<close>

text \<open>\<^verbatim>\<open>filepath.Glob\<close> of \<^verbatim>\<open>internal/usecase/*_usecase.go\<close>: the names of the directory's entries that match.\<close>

definition glob_usecases :: "vfs \<Rightarrow> string list" where
  "glob_usecases v =
     (let d = resolve v ''internal/usecase'' @ ''/'' in
      filter (\<lambda>b. CHR ''/'' \<notin> set b \<and> HasSuffix b ''_usecase.go'')
        (map (drop (length d)) (filter (\<lambda>p. HasPrefix p d) (remdups (map fst (vfs_files v) @ vfs_dirs v)))))"

definition runList :: "vfs \<Rightarrow> string list" where
  "runList v = sort (map (\<lambda>b. TrimSuffix b ''_usecase.go'') (glob_usecases v))"

section \<open>New projects\<close>

text \<open>The values \<^verbatim>\<open>wapgo new\<close> works with: the name and the options, \<open>so_ProjectName\<close> among them. The form is a
  parameter: from the project name, the module path, the database, the APM provider and the selected
  features it starts with, it gives an error or the ones the user leaves it with.\<close>

type_synonym form_values = "string \<times> string \<times> string \<times> string \<times> string list"

fun contains :: "string list \<Rightarrow> string \<Rightarrow> bool" where
  "contains [] x = False"
| "contains (y # ys) x = (if y = x then True else contains ys x)"

definition project_name_error :: "string \<Rightarrow> string option" where
  "project_name_error s =
     (if TrimSpace s = [] then Some ''project name cannot be empty''
      else if list_ex (\<lambda>c. c \<in> set [CHR ''/'', CHR 0x5C, CHR '' '']) s then Some ''no slashes or spaces allowed''
      else None)"

definition seed_features :: "ScaffoldOptions \<Rightarrow> string list" where
  "seed_features opts =
     (if so_Redis opts then [''redis''] else []) @ (if so_Kafka opts then [''kafka''] else []) @
     (if so_RabbitMQ opts then [''rabbitmq''] else []) @ (if so_Email opts then [''email''] else []) @
     (if so_Firebase opts then [''firebase''] else []) @ (if so_GoogleAuth opts then [''google-auth''] else [])"

definition runWizard :: "(form_values \<Rightarrow> string + form_values) \<Rightarrow> ScaffoldOptions \<Rightarrow> string + ScaffoldOptions" where
  "runWizard form o0 =
     (let o1 = scaffold_defaults o0 in
      case form (so_ProjectName o1, so_Module o1, so_DB o1, so_APM o1, seed_features o1) of
        Inl err \<Rightarrow> Inl err
      | Inr (projectName, module, db, apm, fs) \<Rightarrow>
          Inr \<lparr>so_ProjectName = projectName, so_Module = module, so_DB = db, so_APM = apm,
               so_Redis = contains fs ''redis'', so_Kafka = contains fs ''kafka'', so_RabbitMQ = contains fs ''rabbitmq'',
               so_Email = contains fs ''email'', so_Firebase = contains fs ''firebase'',
               so_GoogleAuth = contains fs ''google-auth''\<rparr>)"

definition new_options :: "bool \<Rightarrow> (form_values \<Rightarrow> string + form_values) \<Rightarrow> ScaffoldOptions \<Rightarrow> string + ScaffoldOptions" where
  "new_options interactive form o0 =
     (if interactive then runWizard form o0
      else if so_ProjectName o0 = []
      then Inl ''project name is required in non-interactive mode (pass it as the first argument)''
      else Inr (scaffold_defaults o0))"

definition default_module :: "ScaffoldOptions \<Rightarrow> ScaffoldOptions" where
  "default_module opts =
     (if so_Module opts = []
      then opts\<lparr>so_Module := ''github.com/example/'' @ ReplaceAll (so_ProjectName opts) ''_'' ''-''\<rparr> else opts)"

text \<open>\<open>tidy\<close> is the effect of \<^verbatim>\<open>go mod tidy\<close> in the new directory, whose failure is only reported.\<close>

definition create_project ::
  "failures \<Rightarrow> ('t, templateData) engine \<Rightarrow> tree_entry list \<Rightarrow> (vfs \<Rightarrow> string \<Rightarrow> vfs) \<Rightarrow> vfs \<Rightarrow> ScaffoldOptions \<Rightarrow>
   (string + ScaffoldOptions) \<times> vfs" where
  "create_project fails eng tree tidy v opts =
     (let targetDir = (if so_ProjectName opts = [] then ''.'' else so_ProjectName opts) in
      if vfs_exists v targetDir
      then (Inl (''directory '' @ [CHR 0x27] @ so_ProjectName opts @ [CHR 0x27] @ '' already exists''), v)
      else (case Scaffold fails eng tree opts targetDir v of
         (Some err, v1) \<Rightarrow> (Inl (wrap ''scaffold failed'' err), v1)
       | (None, v1) \<Rightarrow> (Inr opts, tidy v1 targetDir)))"

text \<open>\<open>o0\<close> holds the argument and the flags of the command; \<open>interactive\<close> is \<open>\<not> yes\<close> on a terminal.\<close>

definition runNew ::
  "failures \<Rightarrow> ('t, templateData) engine \<Rightarrow> tree_entry list \<Rightarrow> (vfs \<Rightarrow> string \<Rightarrow> vfs) \<Rightarrow> bool \<Rightarrow>
   (form_values \<Rightarrow> string + form_values) \<Rightarrow> vfs \<Rightarrow> ScaffoldOptions \<Rightarrow> (string + ScaffoldOptions) \<times> vfs" where
  "runNew fails eng tree tidy interactive form v o0 = (case new_options interactive form o0 of
     Inl err \<Rightarrow> (Inl err, v)
   | Inr opts \<Rightarrow> create_project fails eng tree tidy v (default_module opts))"

text \<open>The summary: its rows, and the padding of their labels.\<close>

function pad :: "string \<Rightarrow> nat \<Rightarrow> string" where
  "pad s n = (if length s < n then pad (s @ '' '') n else s)"
  by pat_completeness auto

termination
  by (relation "measure (\<lambda>(s, n). n - length s)") auto

declare pad.simps [simp del]

definition summary_rows :: "ScaffoldOptions \<Rightarrow> (string \<times> string) list" where
  "summary_rows opts =
     (let feat = (\<lambda>b. if b then ''enabled'' else [CHR 0xE2, CHR 0x80, CHR 0x94]) in
      [(''module'', so_Module opts), (''database'', so_DB opts), (''observability'', so_APM opts),
       (''redis'', feat (so_Redis opts)), (''kafka'', feat (so_Kafka opts)), (''rabbitmq'', feat (so_RabbitMQ opts)),
       (''email'', feat (so_Email opts)), (''firebase'', feat (so_Firebase opts)), (''google-auth'', feat (so_GoogleAuth opts))])"

definition printSummary :: "ScaffoldOptions \<Rightarrow> string list" where
  "printSummary opts =
     [[], ''  '' @ [CHR 0xE2, CHR 0x9C, CHR 0xA6] @ '' wapgo '' @ [CHR 0xE2, CHR 0x80, CHR 0x94] @ '' project created  '' @
        [CHR 0xE2, CHR 0x9C, CHR 0x93], []] @
     map (\<lambda>(k, x). ''    '' @ pad k 14 @ ''  '' @ x) (summary_rows opts) @
     [[], ''  Next steps'', ''    cd '' @ so_ProjectName opts, ''    cp .env.example .env'', ''    make docker-up'', ''    make run'', [],
      ''  Add a domain:   wapgo make:all product'',
      ''  Add a feature:  wapgo add redis | kafka | rabbitmq | email | firebase | google-auth'', []]"

section \<open>Lemmas\<close>

lemma DomainTemplateContent_ok [simp]: "DomainTemplateContent rd name = Inr c \<longleftrightarrow> rd (domainDir @ ''/'' @ name) = Inr c"
  by (simp add: DomainTemplateContent_def split: sum.splits)

text \<open>A file whose path does not end in \<^verbatim>\<open>o\<close> is not touched by the commands that write Go files; in particular
  no \<^verbatim>\<open>go.mod\<close>.\<close>

definition same_but :: "(string \<Rightarrow> bool) \<Rightarrow> vfs \<Rightarrow> vfs \<Rightarrow> bool" where
  "same_but P v v' \<longleftrightarrow> vfs_cwd v' = vfs_cwd v \<and> (\<forall>p. \<not> P p \<longrightarrow> map_of (vfs_files v') p = map_of (vfs_files v) p)"

lemma same_but_refl [simp]: "same_but P v v"
  by (simp add: same_but_def)

lemma same_but_trans: "same_but P u v \<Longrightarrow> same_but P v w \<Longrightarrow> same_but P u w"
  by (simp add: same_but_def)

lemma same_but_mono: "same_but P v v' \<Longrightarrow> (\<And>p. P p \<Longrightarrow> Q p) \<Longrightarrow> same_but Q v v'"
  unfolding same_but_def by blast

lemma Render_same_but: "Render fails eng v tmpl out dat = (r, v') \<Longrightarrow> same_but (\<lambda>p. p = resolve v out) v v'"
  using Render_cases [of fails eng v tmpl out dat r v'] by (auto simp: same_but_def update_conv')

lemma find_go_mod_cong:
  assumes "\<And>d. map_of (vfs_files v') (path_join d ''go.mod'') = map_of (vfs_files v) (path_join d ''go.mod'')"
  shows "find_go_mod k v' d = find_go_mod k v d"
  by (induction k arbitrary: d) (simp_all add: assms split: option.split)

lemma last_go_mod: "last (path_join d ''go.mod'') = CHR ''d''"
  by (simp add: path_join_def)

definition go_path :: "string \<Rightarrow> bool" where
  "go_path p \<longleftrightarrow> HasSuffix p ''.go''"

lemma ReadModulePath_cong:
  assumes "same_but go_path v v'"
  shows "ReadModulePath v' = ReadModulePath v"
proof -
  have "\<not> go_path (path_join d ''go.mod'')" for d
    by (auto simp: go_path_def HasSuffix_def HasPrefix_def path_join_def)
  then show ?thesis using assms find_go_mod_cong [of v' v] by (simp add: ReadModulePath_def same_but_def)
qed

lemma HasSuffix_append: "HasSuffix s p \<Longrightarrow> HasSuffix (q @ s) p"
  by (auto simp: HasSuffix_def HasPrefix_iff)

lemma go_path_resolve:
  assumes "go_path out"
  shows "go_path (resolve v out)"
proof -
  have "out \<noteq> ''.''" using assms by (auto simp: go_path_def HasSuffix_def HasPrefix_def)
  then have "\<exists>q. resolve v out = q @ out" by (auto simp: resolve_def path_join_def)
  then show ?thesis using assms HasSuffix_append by (auto simp: go_path_def)
qed

text \<open>What a successful run over a list of files has done.\<close>

definition rendered ::
  "('t, Names) engine \<Rightarrow> (string \<Rightarrow> string + string) \<Rightarrow> Names \<Rightarrow> vfs \<Rightarrow> vfs \<Rightarrow> string \<times> string \<Rightarrow> bool" where
  "rendered eng rd n v v' f \<longleftrightarrow> map_of (vfs_files v) (resolve v (snd f)) = None \<and>
     (\<exists>content t text. rd (domainDir @ ''/'' @ fst f) = Inr content \<and> t_Parse eng content = Inr t \<and>
        t_Execute eng t n = Inr text \<and> map_of (vfs_files v') (resolve v (snd f)) = Some text)"

lemma Render_rendered:
  assumes "Render fails eng v content out n = (None, v')" and "rd (domainDir @ ''/'' @ tmpl) = Inr content"
  shows "rendered eng rd n v v' (tmpl, out)"
  using Render_cases [OF assms(1)] assms(2) by (auto simp: rendered_def vfs_exists_def update_conv')

lemma rendered_widen:
  assumes "rendered eng rd n v1 v2 f" and "keeps_files u v1" "vfs_cwd v1 = vfs_cwd u" and "keeps_files v2 w"
  shows "rendered eng rd n u w f"
proof -
  have "resolve u (snd f) = resolve v1 (snd f)" using assms(3) by (simp add: resolve_def)
  moreover have "map_of (vfs_files u) p = None" if "map_of (vfs_files v1) p = None" for p
    using that assms(2) unfolding keeps_files_def by (cases "map_of (vfs_files u) p") auto
  ultimately show ?thesis using assms(1,4) unfolding rendered_def keeps_files_def by metis
qed

lemma render_files_spec:
  assumes "render_files fails eng rd n v fs = (r, v')"
  shows "keeps_files v v' \<and> same_but (\<lambda>p. p \<in> resolve v ` snd ` set fs) v v' \<and>
    (r = None \<longrightarrow> (\<forall>f \<in> set fs. rendered eng rd n v v' f))"
  using assms
proof (induction fails eng rd n v fs arbitrary: r v' rule: render_files.induct)
  case (2 fails eng rd n v tmpl out files)
  show ?case
  proof (cases "rd (domainDir @ ''/'' @ tmpl)")
    case (Inl err)
    then show ?thesis using 2(2) by (auto simp: DomainTemplateContent_def)
  next
    case (Inr content)
    obtain r1 v1 where R: "Render fails eng v content out n = (r1, v1)" using prod.exhaust by blast
    note K = Render_keeps [OF R] and S = Render_same_but [OF R]
    then have C: "vfs_cwd v1 = vfs_cwd v" by (simp add: same_but_def)
    show ?thesis
    proof (cases r1)
      case (Some err)
      then show ?thesis using 2(2) Inr R K same_but_mono [OF S] by (auto simp: DomainTemplateContent_def)
    next
      case None
      then have F: "render_files fails eng rd n v1 files = (r, v')" using 2(2) Inr R by (simp add: DomainTemplateContent_def)
      have "DomainTemplateContent rd tmpl = Inr content" using Inr by simp
      note I = 2(1) [OF this R [symmetric] None F]
      have res: "resolve v1 p = resolve v p" for p using C by (simp add: resolve_def)
      have "keeps_files v v'" using K I keeps_files_trans by blast
      moreover have "same_but (\<lambda>p. p \<in> resolve v ` snd ` set ((tmpl, out) # files)) v v'"
        using same_but_trans [OF same_but_mono [OF S] same_but_mono [of _ v1 v']] I by (auto simp: res)
      moreover have "rendered eng rd n v v' (tmpl, out)"
        using rendered_widen [OF Render_rendered [where rd = rd and tmpl = tmpl, OF R [unfolded None] Inr] keeps_files_refl refl] I
        by blast
      moreover have "r = None \<longrightarrow> (\<forall>f \<in> set files. rendered eng rd n v v' f)"
        using I rendered_widen [OF _ K C keeps_files_refl] by blast
      ultimately show ?thesis by simp
    qed
  qed
qed simp

lemma snake_go_paths:
  assumes "f \<in> set (model_files n @ repo_files n @ usecase_files n @ controller_files n @ route_files n @ client_files n @
    test_files n @ handler_test_files n @ event_files n)"
  shows "go_path (snd f)"
  using assms HasSuffix_append by (auto simp: go_path_def HasSuffix_def HasPrefix_def model_files_def repo_files_def
      usecase_files_def controller_files_def route_files_def client_files_def test_files_def handler_test_files_def event_files_def)

definition names_for :: "vfs \<Rightarrow> string \<Rightarrow> Names \<Rightarrow> bool" where
  "names_for v name n \<longleftrightarrow> (\<exists>module. ReadModulePath v = Inr module \<and> n = (NewNames name)\<lparr>n_Module := module\<rparr>)"

text \<open>What one command, or a sequence of them, has done to the files: it keeps those that were there, writes
  nothing but Go files, and when it succeeds has rendered exactly its templates.\<close>

definition made ::
  "('t, Names) engine \<Rightarrow> (string \<Rightarrow> string + string) \<Rightarrow> string \<Rightarrow> (Names \<Rightarrow> (string \<times> string) list) \<Rightarrow> vfs \<Rightarrow> string option \<Rightarrow> vfs \<Rightarrow> bool" where
  "made eng rd name files v r v' \<longleftrightarrow> keeps_files v v' \<and> same_but go_path v v' \<and>
     (\<forall>n. r = None \<longrightarrow> names_for v name n \<longrightarrow> (\<forall>f \<in> set (files n). rendered eng rd n v v' f) \<and>
        same_but (\<lambda>p. p \<in> resolve v ` snd ` set (files n)) v v')"

lemma made_refl: "made eng rd name (\<lambda>n. []) v r v"
  by (simp add: made_def)

lemma made_error: "made eng rd name files v (Some err) v' \<Longrightarrow> made eng rd name files' v (Some err') v'"
  by (simp add: made_def)

lemma names_for_cong: "same_but go_path v v' \<Longrightarrow> names_for v' name n = names_for v name n"
  by (simp add: names_for_def ReadModulePath_cong)

lemma made_trans:
  assumes "made eng rd name fs v None v1" and "made eng rd name gs v1 r v'"
  shows "made eng rd name (\<lambda>n. fs n @ gs n) v r v'"
proof -
  have K: "keeps_files v v1" "keeps_files v1 v'" and G: "same_but go_path v v1" "same_but go_path v1 v'"
    using assms by (simp_all add: made_def)
  have C: "vfs_cwd v1 = vfs_cwd v" using G by (simp add: same_but_def)
  then have res: "resolve v1 = resolve v" by (auto simp: resolve_def)
  have "(\<forall>f \<in> set (fs n @ gs n). rendered eng rd n v v' f) \<and> same_but (\<lambda>p. p \<in> resolve v ` snd ` set (fs n @ gs n)) v v'"
    if n: "r = None" "names_for v name n" for n
  proof -
    have f: "\<forall>f \<in> set (fs n). rendered eng rd n v v1 f" "same_but (\<lambda>p. p \<in> resolve v ` snd ` set (fs n)) v v1"
      using assms(1) n by (simp_all add: made_def)
    have g: "\<forall>f \<in> set (gs n). rendered eng rd n v1 v' f" "same_but (\<lambda>p. p \<in> resolve v ` snd ` set (gs n)) v1 v'"
      using assms(2) n names_for_cong [OF G(1)] by (simp_all add: made_def res)
    have "same_but (\<lambda>p. p \<in> resolve v ` snd ` set (fs n @ gs n)) v v'"
      by (rule same_but_trans [OF same_but_mono [OF f(2)] same_but_mono [OF g(2)]]) auto
    then show ?thesis
      using f(1) g(1) rendered_widen [OF _ keeps_files_refl refl K(2)] rendered_widen [OF _ K(1) C keeps_files_refl]
      unfolding set_append ball_Un by blast
  qed
  then show ?thesis using keeps_files_trans [OF K] same_but_trans [OF G] by (simp add: made_def)
qed

lemma run_make_made:
  assumes "run_make files fails eng rd v name = (r, v')" and "\<And>n f. f \<in> set (files n) \<Longrightarrow> go_path (snd f)"
  shows "made eng rd name files v r v'"
proof (cases "ReadModulePath v")
  case (Inl err)
  then show ?thesis using assms(1) by (auto simp: run_make_def made_def names_for_def)
next
  case (Inr module)
  let ?n = "(NewNames name)\<lparr>n_Module := module\<rparr>"
  have "render_files fails eng rd ?n v (files ?n) = (r, v')" using assms(1) Inr by (simp add: run_make_def Let_def)
  note S = render_files_spec [OF this]
  have "p \<in> resolve v ` snd ` set (files ?n) \<Longrightarrow> go_path p" for p using assms(2) go_path_resolve by auto
  then have "same_but go_path v v'" using S same_but_mono by blast
  then show ?thesis using S Inr unfolding made_def names_for_def by auto
qed

lemma run_steps_made:
  assumes "run_steps (map (\<lambda>(label, files). (label, run_make files)) steps) fails eng rd v name = (r, v')"
    and "\<forall>(label, files) \<in> set steps. \<forall>n. \<forall>f \<in> set (files n). go_path (snd f)"
  shows "made eng rd name (\<lambda>n. concat (map (\<lambda>(label, files). files n) steps)) v r v'"
  using assms
proof (induction steps arbitrary: v)
  case Nil
  then show ?case by (simp add: made_refl)
next
  case (Cons s steps)
  obtain label files where s: "s = (label, files)" using prod.exhaust by blast
  obtain r1 v1 where R: "run_make files fails eng rd v name = (r1, v1)" using prod.exhaust by blast
  have M: "made eng rd name files v r1 v1" using run_make_made [OF R] Cons.prems(2) s by auto
  show ?case
  proof (cases r1)
    case None
    then have "run_steps (map (\<lambda>(label, files). (label, run_make files)) steps) fails eng rd v1 name = (r, v')"
      using Cons.prems(1) R s by simp
    then show ?thesis using made_trans [OF M [unfolded None] Cons.IH] Cons.prems(2) s by simp
  next
    case (Some err)
    then show ?thesis using Cons.prems(1) R s M made_error by auto
  qed
qed

text \<open>The files of \<^verbatim>\<open>make:all\<close>.\<close>

definition all_files :: "Names \<Rightarrow> (string \<times> string) list" where
  "all_files n = model_files n @ repo_files n @ usecase_files n @ controller_files n @ route_files n @ client_files n @
     test_files n @ handler_test_files n"

lemma make_all_made:
  assumes "make_all fails eng rd v name = (r, v')"
  shows "made eng rd name all_files v r v'"
proof -
  let ?steps = "zip (map fst (make_all_steps :: (string \<times> 'a make_cmd) list)) [model_files, repo_files, usecase_files, controller_files, route_files,
    client_files, test_files, handler_test_files]"
  have "run_steps (map (\<lambda>(label, files). (label, run_make files)) ?steps) fails eng rd v name = (r, v')"
    using assms by (simp add: make_all_def make_all_steps_def runMakeModel_def runMakeRepo_def runMakeUsecase_def
        runMakeController_def runMakeRoute_def runMakeClient_def runMakeTest_def runMakeHandlerTest_def)
  from run_steps_made [OF this] show ?thesis using snake_go_paths
    by (simp add: make_all_steps_def all_files_def [abs_def]; blast)
qed

lemma run_make_module: "run_make files fails eng rd v name = (None, v') \<Longrightarrow> \<exists>module. ReadModulePath v = Inr module"
  by (cases "ReadModulePath v") (simp_all add: run_make_def)

lemma make_all_module: "make_all fails eng rd v name = (None, v') \<Longrightarrow> \<exists>module. ReadModulePath v = Inr module"
  using run_make_module [of model_files fails eng rd v name]
  by (auto simp: make_all_def make_all_steps_def runMakeModel_def split: prod.splits option.splits)

subsection \<open>The Makefile\<close>

lemma Contains_mid: "Contains (a @ p @ b) p"
  by (induction a) (auto simp: HasPrefix_def Contains.simps [of "_ # _"] Contains.simps [of "p @ b" p])

lemma targets_mention: "\<exists>a b. worker_targets suffix d = a @ (''run-'' @ suffix) @ b"
  unfolding worker_targets_def Let_def Join.simps by (rule exI [of _ "[CHR 0x0A] @ ''.PHONY: ''"]) simp

lemma append_skips:
  assumes "map_of (vfs_files v) (resolve v ''Makefile'') = Some mk" and "Contains mk (''run-'' @ suffix)"
  shows "appendWorkerMakeTargets fails v suffix d = v"
  unfolding appendWorkerMakeTargets_def assms(1) option.case if_P [OF assms(2)] by (rule refl)

subsection \<open>Listing\<close>

lemma glob_usecases_file:
  assumes "map_of (vfs_files v) (resolve v (''internal/usecase/'' @ b)) = Some c" and "CHR ''/'' \<notin> set b"
    and "HasSuffix b ''_usecase.go''"
  shows "b \<in> set (glob_usecases v)"
proof -
  let ?d = "resolve v ''internal/usecase'' @ ''/''"
  have "resolve v (''internal/usecase/'' @ b) = ?d @ b" by (simp add: resolve_def HasPrefix_def path_join_def)
  then have "?d @ b \<in> fst ` set (vfs_files v)" using assms(1) by (metis domI dom_map_of_conv_image_fst)
  then show ?thesis using assms(2,3) by (force simp: glob_usecases_def Let_def HasPrefix_def)
qed

subsection \<open>New projects\<close>

definition below :: "string \<Rightarrow> string \<Rightarrow> bool" where
  "below d p \<longleftrightarrow> HasPrefix p (d @ ''/'')"

text \<open>A file system in which the working directory, the root and the directories above each file exist.\<close>

definition vfs_wf :: "vfs \<Rightarrow> bool" where
  "vfs_wf v \<longleftrightarrow> vfs_cwd v \<in> set (vfs_dirs v) \<and> ''/'' \<in> set (vfs_dirs v) \<and>
     list_all (\<lambda>(p, c). \<forall>d \<in> set (butlast (with_parents p)). d \<in> set (vfs_dirs v)) (vfs_files v)"

lemma below_with_parents: "below d p \<Longrightarrow> d \<noteq> [] \<Longrightarrow> d \<in> set (butlast (with_parents p))"
proof -
  assume "below d p" "d \<noteq> []"
  then obtain x where p: "p = d @ ''/'' @ x" by (auto simp: below_def HasPrefix_iff)
  then have "length d \<in> set (filter (\<lambda>i. p ! i = CHR ''/'') [1..<length p])" using \<open>d \<noteq> []\<close> by (simp add: nth_append Suc_le_eq)
  then show ?thesis unfolding with_parents_def butlast_snoc set_map by (rule rev_image_eqI) (simp add: p)
qed

lemma wf_below:
  assumes "vfs_wf v" and "map_of (vfs_files v) p = Some c" and "below (resolve v d) p" and "resolve v d \<noteq> []"
  shows "vfs_exists v d"
  using below_with_parents [OF assms(3,4)] assms(1) map_of_SomeD [OF assms(2)]
  by (auto simp: vfs_wf_def list_all_iff vfs_exists_def)

lemma tmpl_within:
  assumes "HasSuffix (d @ ''/'' @ x) ''.tmpl''"
  shows "HasSuffix x ''.tmpl''"
proof -
  obtain r where r: "(d @ ''/'') @ x = r @ ''.tmpl''" using assms by (auto simp: HasSuffix_iff)
  show ?thesis
  proof (cases "\<exists>us. x = us @ ''.tmpl''")
    case False
    then obtain us where us: "d @ ''/'' = r @ us" "us @ x = ''.tmpl''" 
      using append_eq_append_conv2 [of "d @ ''/''" x r "''.tmpl''"] r by metis
    have "us \<noteq> []" using us False by auto
    then have "last us = CHR ''/''" using us(1) by (metis last_appendR last_snoc)
    then have "CHR ''/'' \<in> set (us @ x)" using \<open>us \<noteq> []\<close> last_in_set by fastforce
    then show ?thesis using us(2) by simp
  qed (simp add: HasSuffix_iff)
qed

lemma join_resolve:
  assumes "rel \<noteq> ''.''" and "d \<noteq> ''.''" "d \<noteq> ''/''" "d \<noteq> []"
  shows "resolve v (path_join d rel) = resolve v d @ ''/'' @ rel"
proof -
  have P: "path_join d rel = d @ ''/'' @ rel" using assms by (simp add: path_join_def)
  have "HasPrefix (d @ ''/'' @ rel) ''/'' = HasPrefix d ''/''" using assms(4) by (cases d) (auto simp: HasPrefix_def)
  moreover have "d @ ''/'' @ rel \<noteq> ''.''" using assms(4) by (cases d) auto
  ultimately show ?thesis using assms(2) unfolding P resolve_def by (auto simp: path_join_def)
qed

lemma out_below:
  assumes "rel \<noteq> ''.''" and "d \<noteq> ''.''" "d \<noteq> ''/''" "d \<noteq> []"
  shows "below (resolve v d) (resolve v (TrimSuffix (path_join d rel) ''.tmpl''))"
proof (cases "HasSuffix (path_join d rel) ''.tmpl''")
  case False
  then show ?thesis using join_resolve [OF assms] by (simp add: TrimSuffix_def below_def HasPrefix_iff)
next
  case True
  have P: "path_join d rel = d @ ''/'' @ rel" using assms by (simp add: path_join_def)
  then have "HasSuffix rel ''.tmpl''" using tmpl_within True by simp
  then obtain x where x: "rel = x @ ''.tmpl''" by (auto simp: HasSuffix_iff)
  have "TrimSuffix (path_join d rel) ''.tmpl'' = d @ ''/'' @ x" 
    using True P unfolding x by (simp add: TrimSuffix_def)
  moreover have "resolve v (d @ ''/'' @ x) = resolve v d @ ''/'' @ x"
    using assms(2,4) by (cases d) (auto simp: resolve_def HasPrefix_def path_join_def)
  ultimately show ?thesis by (simp add: below_def HasPrefix_iff)
qed

lemma scaffold_entry_below:
  assumes "scaffold_entry fails eng opts d v e = (r, v')" and "te_isDir e \<or> te_rel e \<noteq> ''.''"
    and "d \<noteq> ''.''" "d \<noteq> ''/''" "d \<noteq> []"
  shows "same_but (below (resolve v d)) v v'"
proof (cases "te_isDir e")
  case True
  then show ?thesis using assms(1) Mkdir_files by (auto simp: scaffold_entry_def same_but_def)
next
  case False
  let ?out = "TrimSuffix (path_join d (te_rel e)) ''.tmpl''"
  have B: "below (resolve v d) (resolve v ?out)" using out_below assms False by blast
  have "same_but (below (resolve v d)) v v'" if "WriteGeneratedFile fails v ?out c = (r, v')" for c
    using Write_files [OF that] B by (auto simp: same_but_def update_conv' split: if_splits)
  then show ?thesis using assms(1) False by (auto simp: scaffold_entry_def split: sum.splits)
qed

lemma scaffold_walk_below:
  assumes "scaffold_walk fails eng opts d v es = (r, v')" and "list_all (\<lambda>e. te_isDir e \<or> te_rel e \<noteq> ''.'') es"
    and "d \<noteq> ''.''" "d \<noteq> ''/''" "d \<noteq> []"
  shows "same_but (below (resolve v d)) v v'"
  using assms
proof (induction fails eng opts d v es arbitrary: r v' rule: scaffold_walk.induct)
  case (2 fails eng opts d v e es)
  show ?case
  proof (cases "te_rel e \<noteq> ''.'' \<and> skipPath opts (te_rel e)")
    case True
    then show ?thesis using 2 by (auto simp: list_all_iff dest: set_dropWhileD split: if_splits)
  next
    case False
    obtain r1 v1 where E: "scaffold_entry fails eng opts d v e = (r1, v1)" using prod.exhaust by blast
    have S: "same_but (below (resolve v d)) v v1" using scaffold_entry_below [OF E] 2(4-) by simp
    then have "resolve v1 d = resolve v d" by (simp add: same_but_def resolve_def)
    then show ?thesis using 2(2) [OF False E [symmetric]] 2(3-) False E S
      by (cases r1) (auto intro: same_but_trans)
  qed
qed simp

lemma Scaffold_below:
  assumes "Scaffold fails eng tree opts d v = (r, v')" and "list_all (\<lambda>e. te_isDir e \<or> te_rel e \<noteq> ''.'') tree"
    and "d \<noteq> ''.''" "d \<noteq> ''/''" "d \<noteq> []"
  shows "same_but (below (resolve v d)) v v'"
  using assms(1) scaffold_walk_below [OF _ assms(2-)] by (auto simp: Scaffold_def split: if_splits)

lemma wf_dirs_exist: "vfs_wf v \<Longrightarrow> vfs_exists v ''.'' \<and> vfs_exists v ''/''"
  by (simp add: vfs_wf_def vfs_exists_def resolve_def path_join_def HasPrefix_def)

lemma create_project_cases:
  assumes "create_project fails eng tree tidy v opts = (r, v')" and "v' \<noteq> v"
  obtains d r1 v1 where "Scaffold fails eng tree opts d v = (r1, v1)" "d \<noteq> []" "\<not> vfs_exists v d"
    "v' = v1 \<or> v' = tidy v1 d"
proof -
  define d where "d = (if so_ProjectName opts = [] then ''.'' else so_ProjectName opts)"
  obtain r1 v1 where S: "Scaffold fails eng tree opts d v = (r1, v1)" using prod.exhaust by blast
  have E: "\<not> vfs_exists v d" using assms by (auto simp: create_project_def d_def Let_def split: if_splits)
  have "v' = v1 \<or> v' = tidy v1 d"
    using assms(1) E S unfolding create_project_def d_def [symmetric] Let_def by (cases r1) simp_all
  moreover have "d \<noteq> []" by (simp add: d_def)
  ultimately show ?thesis using that S E by blast
qed

lemma runNew_cases:
  assumes "runNew fails eng tree tidy interactive form v o0 = (r, v')" and "v' \<noteq> v"
  obtains opts d r1 v1 where "Scaffold fails eng tree opts d v = (r1, v1)" "d \<noteq> []" "\<not> vfs_exists v d"
    "v' = v1 \<or> v' = tidy v1 d"
proof (cases "new_options interactive form o0")
  case (Inr opts)
  then have "create_project fails eng tree tidy v (default_module opts) = (r, v')" using assms(1) by (simp add: runNew_def)
  from this assms(2) obtain d r1 v1 where "Scaffold fails eng tree (default_module opts) d v = (r1, v1)" "d \<noteq> []"
    "\<not> vfs_exists v d" "v' = v1 \<or> v' = tidy v1 d" by (rule create_project_cases)
  then show ?thesis by (rule that)
next
  case (Inl err)
  then have "v' = v" using assms(1) by (simp add: runNew_def)
  then show ?thesis using assms(2) by contradiction
qed

section \<open>Properties\<close>

text \<open>\<^verbatim>\<open>make:all\<close> keeps every existing file, whether it succeeds or not; when it succeeds, each of its ten
  files was free before and holds its template executed with the names of the domain, and no other file
  has changed.\<close>

lemma make_all_spec:
  assumes "make_all fails eng rd v name = (r, v')"
  shows "(map_of (vfs_files v) p = Some c \<longrightarrow> map_of (vfs_files v') p = Some c) \<and>
    (r = None \<longrightarrow> (\<exists>module n. ReadModulePath v = Inr module \<and> n = (NewNames name)\<lparr>n_Module := module\<rparr> \<and>
       list_all (rendered eng rd n v v') (all_files n) \<and>
       (p \<notin> resolve v ` snd ` set (all_files n) \<longrightarrow> map_of (vfs_files v') p = map_of (vfs_files v) p)))"
  using make_all_made [OF assms] make_all_module [of fails eng rd v name v'] assms
  by (auto simp: made_def names_for_def list_all_iff keeps_files_def same_but_def)

definition demo_engine :: "(string, Names) engine" where
  "demo_engine = \<lparr>t_Parse = Inr, t_Execute = (\<lambda>t n. Inr (n_Pascal n @ '' in '' @ n_Module n))\<rparr>"

definition demo_rd :: "string \<Rightarrow> string + string" where
  "demo_rd p = Inr p"

lemma demo_make_all:
  "fst (make_all (\<lambda>_. None) demo_engine demo_rd sample_vfs ''productLine'') = None"
  "map_of (vfs_files (snd (make_all (\<lambda>_. None) demo_engine demo_rd sample_vfs ''productLine'')))
     ''/w/internal/usecase/product_line_usecase.go'' = Some ''ProductLine in acme/shop''"
  by code_simp+

text \<open>\<^verbatim>\<open>make:worker\<close> looks for its target by the text \<^verbatim>\<open>run-worker\<close> anywhere in the Makefile. Once the
  targets of a named worker are there, the plain worker's targets are never added.\<close>

lemma worker_target_shadowed:
  assumes "map_of (vfs_files v) (resolve v ''Makefile'') = Some mk" and "fails ''Makefile'' = None"
  shows "let v1 = appendWorkerMakeTargets fails v (''worker-'' @ slug) d1 in
    (\<exists>mk1. map_of (vfs_files v1) (resolve v1 ''Makefile'') = Some mk1 \<and> Contains mk1 (''run-worker-'' @ slug)) \<and>
    appendWorkerMakeTargets fails v1 ''worker'' d2 = v1"
proof -
  let ?v1 = "appendWorkerMakeTargets fails v (''worker-'' @ slug) d1"
  have "\<exists>mk1. map_of (vfs_files ?v1) (resolve ?v1 ''Makefile'') = Some mk1 \<and> Contains mk1 (''run-worker-'' @ slug)"
  proof (cases "Contains mk (''run-'' @ ''worker-'' @ slug)")
    case True
    then show ?thesis using assms by (simp add: appendWorkerMakeTargets_def)
  next
    case False
    obtain a b where "worker_targets (''worker-'' @ slug) d1 = a @ (''run-'' @ ''worker-'' @ slug) @ b"
      using targets_mention by blast
    then have "mk @ worker_targets (''worker-'' @ slug) d1 = (mk @ a) @ (''run-worker-'' @ slug) @ b" by simp
    then have "Contains (mk @ worker_targets (''worker-'' @ slug) d1) (''run-worker-'' @ slug)"
      unfolding Contains_iff by blast
    then show ?thesis using assms False by (simp add: appendWorkerMakeTargets_def resolve_def update_conv')
  qed
  moreover have "Contains mk1 ''run-worker''" if mk1: "Contains mk1 (''run-worker-'' @ slug)" for mk1
  proof -
    obtain a b where "mk1 = a @ (''run-worker-'' @ slug) @ b" using mk1 unfolding Contains_iff by blast
    then have "mk1 = a @ ''run-worker'' @ (''-'' @ slug @ b)" by simp
    then show ?thesis unfolding Contains_iff by blast
  qed
  ultimately show ?thesis unfolding Let_def using append_skips [of ?v1 _ "''worker''" fails d2] by auto
qed

definition make_vfs :: vfs where
  "make_vfs = \<lparr>vfs_cwd = ''/w'', vfs_dirs = [''/'', ''/w''], vfs_files = [(''/w/go.mod'', ''module acme/shop''), (''/w/Makefile'', ''all:'')]\<rparr>"

text \<open>A domain that \<^verbatim>\<open>make:usecase\<close> has generated is in the output of \<^verbatim>\<open>wapgo list\<close>, under its snake-case
  name.\<close>

lemma make_then_list:
  assumes "runMakeUsecase fails eng rd v name = (None, v')" and "CHR ''/'' \<notin> set (toSnake name)"
  shows "toSnake name \<in> set (runList v')"
proof -
  let ?b = "toSnake name @ ''_usecase.go''"
  have run: "run_make usecase_files fails eng rd v name = (None, v')" using assms(1) by (simp add: runMakeUsecase_def)
  obtain module where n: "names_for v name ((NewNames name)\<lparr>n_Module := module\<rparr>)"
    using run_make_module [OF run] by (auto simp: names_for_def)
  have M: "made eng rd name usecase_files v None v'" using run_make_made [OF run] snake_go_paths by auto
  then have "vfs_cwd v' = vfs_cwd v" by (simp add: made_def same_but_def)
  then have "resolve v' (''internal/usecase/'' @ ?b) = resolve v (''internal/usecase/'' @ ?b)" by (simp add: resolve_def)
  moreover have "(''usecase.go.tmpl'', ''internal/usecase/'' @ ?b) \<in> set (usecase_files ((NewNames name)\<lparr>n_Module := module\<rparr>))"
    by (simp add: usecase_files_def NewNames_def Let_def)
  then have "rendered eng rd ((NewNames name)\<lparr>n_Module := module\<rparr>) v v' (''usecase.go.tmpl'', ''internal/usecase/'' @ ?b)"
    using M n unfolding made_def by blast
  ultimately have "?b \<in> set (glob_usecases v')"
    using glob_usecases_file [of v' ?b] assms(2) by (auto simp: rendered_def HasSuffix_iff)
  then show ?thesis unfolding runList_def set_sort set_map
    by (rule rev_image_eqI) (simp add: TrimSuffix_def HasSuffix_iff)
qed

text \<open>\<^verbatim>\<open>wapgo new\<close> touches nothing outside the directory it creates: in a well-formed file system, and with a
  \<^verbatim>\<open>go mod tidy\<close> that changes files below its directory and files of the \<^verbatim>\<open>go\<close> tool only (its module cache), every other file
  that was there before keeps its content, also when the command fails half-way.\<close>

lemma new_keeps_files:
  assumes "runNew fails eng tree tidy interactive form v o0 = (r, v')"
    and "vfs_wf v"
    and "list_all (\<lambda>e. te_isDir e \<or> te_rel e \<noteq> ''.'') tree"
    and "\<And>u d. same_but (\<lambda>p. below (resolve u d) p \<or> G p) u (tidy u d)"
    and "map_of (vfs_files v) p = Some c" and "\<not> G p"
  shows "map_of (vfs_files v') p = Some c"
proof (cases "v' = v")
  case False
  from runNew_cases [OF assms(1) this] obtain opts d r1 v1 where S: "Scaffold fails eng tree opts d v = (r1, v1)"
    and d: "d \<noteq> []" "\<not> vfs_exists v d" and v': "v' = v1 \<or> v' = tidy v1 d" by blast
  have "d \<noteq> ''.''" "d \<noteq> ''/''" using d(2) wf_dirs_exist [OF assms(2)] by auto
  note B = Scaffold_below [OF S assms(3) this d(1)]
  then have "resolve v1 d = resolve v d" by (simp add: same_but_def resolve_def)
  then have T: "same_but (\<lambda>p. below (resolve v d) p \<or> G p) v1 (tidy v1 d)" using assms(4) [of v1 d] by simp
  have V: "same_but (\<lambda>p. below (resolve v d) p \<or> G p) v v1" by (rule same_but_mono [OF B]) simp
  from v' have "same_but (\<lambda>p. below (resolve v d) p \<or> G p) v v'"
  proof
    assume "v' = v1"
    then show ?thesis using V by simp
  next
    assume "v' = tidy v1 d"
    then show ?thesis using same_but_trans [OF V T] by simp
  qed
  moreover have "\<not> below (resolve v d) p"
    using wf_below [OF assms(2,5)] d \<open>d \<noteq> ''.''\<close> by (auto simp: resolve_def path_join_def)
  ultimately show ?thesis using assms(5,6) by (simp add: same_but_def)
qed (use assms in simp)

lemma demo_new:
  "fst (runNew (\<lambda>_. None) sample_engine sample_tree (\<lambda>v d. v) False Inr make_vfs sample_opts)
     = Inr (sample_opts\<lparr>so_DB := ''postgres'', so_APM := ''none''\<rparr>)"
  by code_simp

end
