(* ===== verification/Upgrade.thy ===== *)
theory Upgrade
  imports Prelude
begin

text \<open>
  The command \<^verbatim>\<open>wapgo upgrade\<close>: \<^verbatim>\<open>cli/commands/upgrade.go\<close>. The answer of the release server, the path of the
  \<^verbatim>\<open>go\<close> binary and the outcome of running it are parameters; the text printed is not part of the result.
\<close>

section \<open>Versions\<close>

text \<open>\<^verbatim>\<open>strconv.Atoi\<close>, with the value it returns beside an error: 0 for a syntax error, the nearest
  representable number when the value is out of range. Digits are read from the left, so a range error is
  found before a later character that is not a digit.\<close>

datatype uint_parse = UOk int | USyntax | URange

fun parse_uint :: "int \<Rightarrow> string \<Rightarrow> uint_parse" where
  "parse_uint n [] = UOk n"
| "parse_uint n (c # s) =
     (if \<not> is_digit c then USyntax
      else let m = n * 10 + int (ord_char c - 48) in if 2 ^ 64 \<le> m then URange else parse_uint m s)"

definition Atoi :: "string \<Rightarrow> int" where
  "Atoi s =
     (let neg = HasPrefix s ''-''; ds = (if neg \<or> HasPrefix s ''+'' then drop 1 s else s) in
      if ds = [] then 0
      else case parse_uint 0 ds of
        USyntax \<Rightarrow> 0
      | URange \<Rightarrow> if neg then - (2 ^ 63) else 2 ^ 63 - 1
      | UOk n \<Rightarrow> if neg then (if 2 ^ 63 < n then - (2 ^ 63) else - n)
                 else if 2 ^ 63 \<le> n then 2 ^ 63 - 1 else n)"

text \<open>\<^verbatim>\<open>strings.SplitN\<close> with a one-byte separator and at least one part.\<close>

fun SplitN :: "string \<Rightarrow> char \<Rightarrow> nat \<Rightarrow> string list" where
  "SplitN s sep 0 = []"
| "SplitN s sep (Suc 0) = [s]"
| "SplitN s sep (Suc (Suc n)) =
     (if sep \<in> set s
      then takeWhile (\<lambda>c. c \<noteq> sep) s # SplitN (drop 1 (dropWhile (\<lambda>c. c \<noteq> sep) s)) sep (Suc n)
      else [s])"

definition semverParts :: "string \<Rightarrow> int list" where
  "semverParts v =
     (let core = takeWhile (\<lambda>c. c \<noteq> CHR ''-'' \<and> c \<noteq> CHR ''+'') v;
          parts = SplitN core (CHR ''.'') 3 in
      take 3 (map Atoi parts @ replicate 3 0))"

fun greater_parts :: "int list \<Rightarrow> int list \<Rightarrow> bool" where
  "greater_parts (a # as) (b # bs) = (if a \<noteq> b then a > b else greater_parts as bs)"
| "greater_parts _ _ = False"

definition semverGreater :: "string \<Rightarrow> string \<Rightarrow> bool" where
  "semverGreater a b = greater_parts (semverParts a) (semverParts b)"

section \<open>Release tags\<close>

definition is_alnum :: "char \<Rightarrow> bool" where
  "is_alnum c \<longleftrightarrow> is_digit c \<or> is_upper_char c \<or> is_lower_char c"

definition numeric :: "string \<Rightarrow> bool" where
  "numeric s \<longleftrightarrow> s = ''0'' \<or> s \<noteq> [] \<and> hd s \<noteq> CHR ''0'' \<and> list_all is_digit s"

definition identifiers :: "string \<Rightarrow> bool" where
  "identifiers s \<longleftrightarrow> list_all (\<lambda>p. p \<noteq> [] \<and> list_all is_alnum p) (Split s (CHR ''.''))"

text \<open>The regular expression \<^verbatim>\<open>releaseTagRe\<close>: three numbers without leading zeros, then an optional
  pre-release and an optional build. No class of the expression has \<^verbatim>\<open>-\<close> or \<^verbatim>\<open>+\<close>, so the first of
  these characters is where a part ends.\<close>

definition releaseTagRe :: "string \<Rightarrow> bool" where
  "releaseTagRe tag \<longleftrightarrow>
     HasPrefix tag ''v'' \<and>
     (let body = drop 1 tag;
          core = takeWhile (\<lambda>c. c \<noteq> CHR ''-'' \<and> c \<noteq> CHR ''+'') body;
          rest = dropWhile (\<lambda>c. c \<noteq> CHR ''-'' \<and> c \<noteq> CHR ''+'') body;
          pre = takeWhile (\<lambda>c. c \<noteq> CHR ''+'') rest;
          build = dropWhile (\<lambda>c. c \<noteq> CHR ''+'') rest in
      length (Split core (CHR ''.'')) = 3 \<and> list_all numeric (Split core (CHR ''.'')) \<and>
      (pre = [] \<or> identifiers (drop 1 pre)) \<and> (build = [] \<or> identifiers (drop 1 build)))"

definition validateReleaseTag :: "string \<Rightarrow> string option" where
  "validateReleaseTag tag =
     (if \<not> releaseTagRe tag then Some (''unexpected release tag '' @ [CHR 0x22] @ tag @ [CHR 0x22]) else None)"

section \<open>The command\<close>

record githubRelease =
  TagName :: string
  HTMLURL :: string

text \<open>The answer to the request: a transport error, or a status with the decoded body.\<close>

type_synonym answer = "string + nat \<times> (string + githubRelease)"

definition fetchLatestRelease :: "answer \<Rightarrow> string + githubRelease" where
  "fetchLatestRelease net = (case net of
     Inl err \<Rightarrow> Inl err
   | Inr (status, decoded) \<Rightarrow> if status \<noteq> 200 then Inl (''GitHub API status '' @ nat_str status) else decoded)"

definition upgradeInstallPkg :: string where
  "upgradeInstallPkg = ''github.com/abdullahPrasetio/wapgo/cli/wapgo''"

text \<open>The error and the command line that was executed, if one was. \<open>run\<close> says whether it succeeds.\<close>

definition runUpgrade ::
  "string \<Rightarrow> answer \<Rightarrow> string option \<Rightarrow> (string list \<Rightarrow> bool) \<Rightarrow> bool \<Rightarrow> string option \<times> string list option" where
  "runUpgrade Version net lookPath run checkOnly = (case fetchLatestRelease net of
     Inl err \<Rightarrow> (None, None)
   | Inr rel \<Rightarrow>
       let latestTag = TagName rel;
           current = TrimPrefix Version ''v'';
           latest = TrimPrefix latestTag ''v'' in
       if Version = ''dev'' then (None, None)
       else if \<not> semverGreater latest current then (None, None)
       else if checkOnly then (None, None)
       else
         let goExe = (case lookPath of Some p \<Rightarrow> p | None \<Rightarrow> ''go'') in
         case validateReleaseTag latestTag of
           Some err \<Rightarrow> (Some err, None)
         | None \<Rightarrow>
             let argv = [goExe, ''install'', upgradeInstallPkg @ ''@'' @ latestTag] in
             if run argv then (None, Some argv) else (Some ''go install failed'', Some argv))"

section \<open>Lemmas\<close>

definition digits_from :: "nat \<Rightarrow> string \<Rightarrow> nat" where
  "digits_from n s = fold (\<lambda>c n. n * 10 + (ord_char c - 48)) s n"

lemma digits_from_ge: "n \<le> digits_from n s"
proof (induction s arbitrary: n)
  case (Cons c s)
  have "digits_from n (c # s) = digits_from (n * 10 + (ord_char c - 48)) s" by (simp add: digits_from_def)
  then show ?case using Cons [of "n * 10 + (ord_char c - 48)"] by simp
qed (simp add: digits_from_def)

lemma parse_uint_digits:
  assumes "\<forall>c \<in> set s. is_digit c" and "digits_from n s < 2 ^ 64"
  shows "parse_uint (int n) s = UOk (int (digits_from n s))"
  using assms
proof (induction s arbitrary: n)
  case (Cons c s)
  let ?m = "n * 10 + (ord_char c - 48)"
  have step: "digits_from n (c # s) = digits_from ?m s" by (simp add: digits_from_def)
  have "?m < 2 ^ 64" using digits_from_ge [of ?m s] Cons.prems(2) unfolding step by linarith
  then have "int ?m < 2 ^ 64" using of_nat_less_iff [of ?m "2 ^ 64"] by simp
  then show ?case using Cons.IH [of ?m] Cons.prems unfolding step by (simp add: not_le)
qed (simp add: digits_from_def)

lemma digit_not_sign: "is_digit c \<Longrightarrow> c \<noteq> CHR ''-'' \<and> c \<noteq> CHR ''+'' \<and> c \<noteq> CHR ''.''"
  by (auto simp: is_digit_def ord_char_def)

lemma Atoi_nat_str:
  assumes "n < 2 ^ 63"
  shows "Atoi (nat_str n) = int n"
proof -
  have D: "\<forall>c \<in> set (nat_str n). is_digit c" using nat_str_digits by blast
  have "digits_from 0 (nat_str n) = n" using dec_number_nat_str [of n] by (simp add: digits_from_def dec_number_def)
  then have P: "parse_uint 0 (nat_str n) = UOk (int n)" using parse_uint_digits [OF D, of 0] assms by simp
  obtain c s where C: "nat_str n = c # s" by (cases "nat_str n") simp_all
  then have "c \<noteq> CHR ''-''" "c \<noteq> CHR ''+''" using digit_not_sign D by auto
  then have "\<not> HasPrefix (nat_str n) ''-''" "\<not> HasPrefix (nat_str n) ''+''" by (simp_all add: C HasPrefix_def)
  moreover have "int n < 2 ^ 63" using assms of_nat_less_iff [of n "2 ^ 63"] by simp
  ultimately show ?thesis using P by (simp add: Atoi_def not_le)
qed

text \<open>The text of a version: three numbers and a suffix.\<close>

definition version_text :: "nat \<Rightarrow> nat \<Rightarrow> nat \<Rightarrow> string \<Rightarrow> string" where
  "version_text a b c suffix = nat_str a @ ''.'' @ nat_str b @ ''.'' @ nat_str c @ suffix"

definition suffix_ok :: "string \<Rightarrow> bool" where
  "suffix_ok s \<longleftrightarrow> s = [] \<or> hd s = CHR ''-'' \<or> hd s = CHR ''+''"

lemma takeWhile_all_append: "(\<And>x. x \<in> set xs \<Longrightarrow> P x) \<Longrightarrow> ys = [] \<or> \<not> P (hd ys) \<Longrightarrow> takeWhile P (xs @ ys) = xs"
  by (cases ys) (auto simp: takeWhile_append2)

lemma nat_str_chars: "c \<in> set (nat_str n) \<Longrightarrow> c \<noteq> CHR ''-'' \<and> c \<noteq> CHR ''+'' \<and> c \<noteq> CHR ''.''"
  using nat_str_digits digit_not_sign by blast

lemma version_core:
  assumes "suffix_ok suffix"
  shows "takeWhile (\<lambda>c. c \<noteq> CHR ''-'' \<and> c \<noteq> CHR ''+'') (version_text a b c suffix) = version_text a b c []"
proof -
  have "version_text a b c suffix = version_text a b c [] @ suffix" by (simp add: version_text_def)
  moreover have "takeWhile (\<lambda>c. c \<noteq> CHR ''-'' \<and> c \<noteq> CHR ''+'') (version_text a b c [] @ suffix) = version_text a b c []"
    by (rule takeWhile_all_append) (use nat_str_chars assms in \<open>auto simp: version_text_def suffix_ok_def\<close>)
  ultimately show ?thesis by simp
qed

lemma SplitN_sep:
  assumes "sep \<notin> set x"
  shows "SplitN (x @ sep # s) sep (Suc (Suc n)) = x # SplitN s sep (Suc n)"
proof -
  have "takeWhile (\<lambda>c. c \<noteq> sep) (x @ sep # s) = x" by (rule takeWhile_all_append) (use assms in auto)
  moreover have "dropWhile (\<lambda>c. c \<noteq> sep) (x @ sep # s) = sep # s" using assms by (subst dropWhile_append2) auto
  ultimately show ?thesis by simp
qed

lemma version_split: "SplitN (version_text a b c []) (CHR ''.'') 3 = [nat_str a, nat_str b, nat_str c]"
proof -
  have "CHR ''.'' \<notin> set (nat_str n)" for n using nat_str_chars by blast
  then show ?thesis by (simp add: version_text_def numeral_3_eq_3 SplitN_sep del: SplitN.simps(3))
qed

lemma semverParts_version:
  assumes "suffix_ok suffix" and "a < 2 ^ 63" "b < 2 ^ 63" "c < 2 ^ 63"
  shows "semverParts (version_text a b c suffix) = [int a, int b, int c]"
  unfolding semverParts_def Let_def version_core [OF assms(1)] version_split list.map Atoi_nat_str [OF assms(2)]
    Atoi_nat_str [OF assms(3)] Atoi_nat_str [OF assms(4)]
  by (simp add: numeral_3_eq_3)

lemma Split_chars: "c \<in> set s \<Longrightarrow> c = sep \<or> (\<exists>p \<in> set (Split s sep). c \<in> set p)"
  using Join_chars [of c "Split s sep" "[sep]"] by (simp add: Join_Split)

definition tag_char :: "char \<Rightarrow> bool" where
  "tag_char c \<longleftrightarrow> is_alnum c \<or> c \<in> {CHR ''.'', CHR ''-'', CHR ''+''}"

lemma numeric_chars: "numeric p \<Longrightarrow> c \<in> set p \<Longrightarrow> is_alnum c"
  by (auto simp: numeric_def list_all_iff is_alnum_def is_digit_def ord_char_def)

lemma identifiers_chars: "identifiers s \<Longrightarrow> c \<in> set s \<Longrightarrow> tag_char c"
  using Split_chars [of c s "CHR ''.''"] by (auto simp: identifiers_def list_all_iff tag_char_def)

lemma optional_chars: "p = [] \<or> identifiers (drop 1 p) \<Longrightarrow> p = [] \<or> tag_char (hd p) \<Longrightarrow> c \<in> set p \<Longrightarrow> tag_char c"
  using identifiers_chars by (cases p) auto

lemma dropWhile_hd: "dropWhile P xs = [] \<or> \<not> P (hd (dropWhile P xs))"
  using hd_dropWhile by blast

lemma while_parts: "c \<in> set xs \<Longrightarrow> c \<in> set (takeWhile P xs) \<or> c \<in> set (dropWhile P xs)"
  by (metis Un_iff set_append takeWhile_dropWhile_id)

lemma takeWhile_hd: "takeWhile P xs = [] \<or> hd (takeWhile P xs) = hd xs"
  by (cases xs) auto

lemma releaseTag_chars:
  assumes "releaseTagRe tag" and "c \<in> set tag"
  shows "tag_char c"
proof -
  let ?P = "\<lambda>c. c \<noteq> CHR ''-'' \<and> c \<noteq> CHR ''+''" and ?Q = "\<lambda>c. c \<noteq> CHR ''+''"
  obtain body where tag: "tag = CHR ''v'' # body"
    using assms(1) [unfolded releaseTagRe_def, THEN conjunct1] by (auto simp: HasPrefix_iff)
  have body: "drop 1 (CHR ''v'' # body) = body" by simp
  let ?rest = "dropWhile ?P body"
  have R: "list_all numeric (Split (takeWhile ?P body) (CHR ''.''))"
    "takeWhile ?Q ?rest = [] \<or> identifiers (drop 1 (takeWhile ?Q ?rest))"
    "dropWhile ?Q ?rest = [] \<or> identifiers (drop 1 (dropWhile ?Q ?rest))"
    using assms(1) [unfolded releaseTagRe_def Let_def tag body] by blast+
  consider "c = CHR ''v''" | "c \<in> set (takeWhile ?P body)" | "c \<in> set (takeWhile ?Q ?rest)" | "c \<in> set (dropWhile ?Q ?rest)"
    using assms(2) [unfolded tag] while_parts [of c body ?P] while_parts [of c ?rest ?Q] by (metis set_ConsD)
  then show ?thesis
  proof cases
    case 1
    then show ?thesis by (simp add: tag_char_def is_alnum_def is_lower_char_def ord_char_def)
  next
    case 2
    then show ?thesis using Split_chars [OF 2, of "CHR ''.''"] R(1) numeric_chars by (auto simp: tag_char_def list_all_iff)
  next
    case 3
    have "takeWhile ?Q ?rest = [] \<or> tag_char (hd (takeWhile ?Q ?rest))"
      using dropWhile_hd [of ?P body] takeWhile_hd [of ?Q ?rest] by (metis (no_types, lifting) insertCI tag_char_def takeWhile.simps(1))
    then show ?thesis using optional_chars [OF R(2) _ 3] by blast
  next
    case 4
    have "dropWhile ?Q ?rest = [] \<or> tag_char (hd (dropWhile ?Q ?rest))"
      using dropWhile_hd [of ?Q ?rest] by (metis (no_types, lifting) insertCI tag_char_def)
    then show ?thesis using optional_chars [OF R(3) _ 4] by blast
  qed
qed

section \<open>The order of versions\<close>

text \<open>The order of versions as a linear order on a type of its own, and the comparison of the code as that order.\<close>

datatype semver = Semver int int int

instantiation semver :: linorder
begin

fun less_eq_semver :: "semver \<Rightarrow> semver \<Rightarrow> bool" where
  "less_eq_semver (Semver a b c) (Semver x y z) \<longleftrightarrow> a < x \<or> a = x \<and> (b < y \<or> b = y \<and> c \<le> z)"

fun less_semver :: "semver \<Rightarrow> semver \<Rightarrow> bool" where
  "less_semver (Semver a b c) (Semver x y z) \<longleftrightarrow> a < x \<or> a = x \<and> (b < y \<or> b = y \<and> c < z)"

instance
proof
  fix u v w :: semver
  show "u < v \<longleftrightarrow> u \<le> v \<and> \<not> v \<le> u" by (cases u; cases v) auto
  show "u \<le> u" by (cases u) simp
  show "u \<le> v \<Longrightarrow> v \<le> w \<Longrightarrow> u \<le> w" by (cases u; cases v; cases w) auto
  show "u \<le> v \<Longrightarrow> v \<le> u \<Longrightarrow> u = v" by (cases u; cases v) auto
  show "u \<le> v \<or> v \<le> u" by (cases u; cases v) auto
qed

end

definition parsed_version :: "string \<Rightarrow> semver" where
  "parsed_version v = (case semverParts v of [a, b, c] \<Rightarrow> Semver a b c | _ \<Rightarrow> Semver 0 0 0)"

lemma semverParts_three: "\<exists>a b c. semverParts v = [a, b, c]"
proof -
  have "length (semverParts v) = 3" by (simp add: semverParts_def Let_def)
  then show ?thesis by (auto simp: numeral_3_eq_3 length_Suc_conv)
qed

lemma semverGreater_less: "semverGreater a b \<longleftrightarrow> parsed_version b < parsed_version a"
  using semverParts_three [of a] semverParts_three [of b] by (auto simp: semverGreater_def parsed_version_def split: if_splits)

text \<open>The version comparison is the lexicographic order on the three numbers, whatever pre-release or
  build suffixes the two versions carry, for all numbers that fit in 64 bits.\<close>

lemma semver_order:
  assumes "suffix_ok s" "suffix_ok t" and "a < 2 ^ 63" "b < 2 ^ 63" "c < 2 ^ 63" "x < 2 ^ 63" "y < 2 ^ 63" "z < 2 ^ 63"
  shows "semverGreater (version_text a b c s) (version_text x y z t) \<longleftrightarrow> x < a \<or> x = a \<and> (y < b \<or> y = b \<and> z < c)"
  using assms by (auto simp: semverGreater_def semverParts_version)

section \<open>Properties\<close>

text \<open>C33. Whatever the release server answers, the only command \<^verbatim>\<open>wapgo upgrade\<close> executes is \<^verbatim>\<open>go install\<close> of its
  own package at a release tag that is newer than the installed version in the order of versions, starts with \<^verbatim>\<open>v\<close> and consists of
  letters, digits, dots, dashes and plus signs; with \<^verbatim>\<open>--check\<close> it executes nothing.\<close>

theorem upgrade_runs_only:
  assumes "runUpgrade Version net lookPath run checkOnly = (err, Some argv)"
  shows "\<not> checkOnly \<and> (\<exists>goExe tag. argv = [goExe, ''install'', upgradeInstallPkg @ ''@v'' @ tag] \<and>
    (\<forall>c \<in> set tag. tag_char c) \<and> parsed_version (TrimPrefix Version ''v'') < parsed_version tag)"
proof -
  obtain rel where F: "fetchLatestRelease net = Inr rel"
    using assms by (cases "fetchLatestRelease net") (auto simp: runUpgrade_def)
  let ?tag = "TagName rel"
  have V: "releaseTagRe ?tag" and A: "argv = [case lookPath of Some p \<Rightarrow> p | None \<Rightarrow> ''go'', ''install'', upgradeInstallPkg @ ''@'' @ ?tag]"
    and N: "\<not> checkOnly" "semverGreater (TrimPrefix ?tag ''v'') (TrimPrefix Version ''v'')"
    using assms F by (auto simp: runUpgrade_def Let_def validateReleaseTag_def split: if_splits)
  obtain body where tag: "?tag = CHR ''v'' # body" using V by (auto simp: releaseTagRe_def HasPrefix_iff)
  then have "TrimPrefix ?tag ''v'' = body" by (simp add: TrimPrefix_def HasPrefix_def)
  moreover have "\<forall>c \<in> set body. tag_char c" using releaseTag_chars [OF V] tag by simp
  ultimately show ?thesis using N A tag unfolding semverGreater_less by auto
qed

definition sample_release :: answer where
  "sample_release = Inr (200, Inr \<lparr>TagName = ''v1.10.0'', HTMLURL = []\<rparr>)"

lemma sample_upgrade:
  "runUpgrade ''v1.9.2'' sample_release None (\<lambda>_. True) False
    = (None, Some [''go'', ''install'', ''github.com/abdullahPrasetio/wapgo/cli/wapgo@v1.10.0''])"
  by code_simp

theorem upgrade_runs_only_witness:
  "runUpgrade ''v1.9.2'' sample_release None (\<lambda>_. True) False
    = (None, Some [''go'', ''install'', ''github.com/abdullahPrasetio/wapgo/cli/wapgo@v1.10.0'']) \<and> \<not> False"
  using upgrade_runs_only [OF sample_upgrade] sample_upgrade by blast

end
