(* ===== verification/Cli_Root.thy ===== *)
theory Cli_Root
  imports Cli_Commands Upgrade
begin

text \<open>
  The entry point of the generator: \<^verbatim>\<open>cli/commands/root.go\<close>, \<^verbatim>\<open>cli/commands/version.go\<close> and \<^verbatim>\<open>cli/wapgo/main.go\<close>, with the constructors
  of all subcommands: their names, arguments, flags and the function each runs. The command-line library, which finds the command of
  an argument list, reads its flags and checks the number of its arguments, is a parameter, and so are the files of the \<^verbatim>\<open>go\<close> tool, which \<^verbatim>\<open>new\<close> and \<^verbatim>\<open>upgrade\<close> run. What the commands print is left out here.
\<close>

text \<open>The version: set at build time, or taken from the build information.\<close>

definition init_Version :: "string \<Rightarrow> string option \<Rightarrow> string" where
  "init_Version version buildInfo =
     (if version = ''dev'' then
        (case buildInfo of
           Some v \<Rightarrow> if v \<noteq> [] \<and> v \<noteq> ''(devel)'' then v else version
         | None \<Rightarrow> version)
      else version)"

definition version_output :: "string \<Rightarrow> string" where
  "version_output version = ''wapgo version '' @ version"

section \<open>Commands\<close>

datatype args_rule = AnyArgs | NoArgs | ExactArgs nat | MaximumNArgs nat

datatype flag_val = FString string | FBool bool

text \<open>What the commands find when they run: the outcome of writes, the template engines and embedded files, the parser of Go files, the
  formatted time, the terminal and its form, the effects of \<^verbatim>\<open>go mod tidy\<close> and \<^verbatim>\<open>go install\<close>, and the release server.\<close>

record ('n, 'w, 'd) cli_env =
  ce_fails :: failures
  ce_domain :: "('n, Names) engine"
  ce_worker :: "('w, workerData) engine"
  ce_project :: "('d, templateData) engine"
  ce_rd :: "string \<Rightarrow> string + string"
  ce_tree :: "tree_entry list"
  ce_parseFile :: "string \<Rightarrow> decl list option"
  ce_ts :: string
  ce_tty :: bool
  ce_form :: "form_values \<Rightarrow> string + form_values"
  ce_tidy :: "vfs \<Rightarrow> string \<Rightarrow> vfs"
  ce_Version :: string
  ce_net :: answer
  ce_lookPath :: "string option"
  ce_exec :: "string list \<Rightarrow> bool"
  ce_install :: "vfs \<Rightarrow> string list \<Rightarrow> vfs"

text \<open>A flag has a name, a shorthand and a default. The values of the flags are a map.\<close>

type_synonym flag_vals = "flag_val gomap"

record ('n, 'w, 'd) command =
  c_Use :: string
  c_Short :: string
  c_Long :: string
  c_Args :: args_rule
  c_Flags :: "(string \<times> string \<times> flag_val) list"
  c_RunE :: "('n, 'w, 'd) cli_env \<Rightarrow> flag_vals \<Rightarrow> string list \<Rightarrow> vfs \<Rightarrow> string option \<times> vfs"

definition string_flag :: "flag_vals \<Rightarrow> string \<Rightarrow> string" where
  "string_flag fl name = (case map_of fl name of Some (FString s) \<Rightarrow> s | _ \<Rightarrow> [])"

definition bool_flag :: "flag_vals \<Rightarrow> string \<Rightarrow> bool" where
  "bool_flag fl name = (case map_of fl name of Some (FBool b) \<Rightarrow> b | _ \<Rightarrow> False)"

text \<open>The argument \<^verbatim>\<open>args[0]\<close>; without one the program panics.\<close>

definition index_panic :: string where
  "index_panic = ''runtime error: index out of range [0] with length 0''"

definition with_name :: "(string \<Rightarrow> string option \<times> vfs) \<Rightarrow> string list \<Rightarrow> vfs \<Rightarrow> string option \<times> vfs" where
  "with_name f args v = (case args of [] \<Rightarrow> (Some index_panic, v) | name # _ \<Rightarrow> f name)"

definition run_new :: "('n, 'w, 'd) cli_env \<Rightarrow> flag_vals \<Rightarrow> string list \<Rightarrow> vfs \<Rightarrow> string option \<times> vfs" where
  "run_new env fl args v =
     (let projectName = (case args of [name] \<Rightarrow> name | _ \<Rightarrow> []);
          o0 = \<lparr>so_ProjectName = projectName, so_Module = string_flag fl ''module'', so_DB = string_flag fl ''db'',
                so_APM = string_flag fl ''apm'', so_Redis = bool_flag fl ''redis'', so_Kafka = bool_flag fl ''kafka'',
                so_RabbitMQ = bool_flag fl ''rabbitmq'', so_Email = bool_flag fl ''email'', so_Firebase = bool_flag fl ''firebase'',
                so_GoogleAuth = bool_flag fl ''google-auth''\<rparr>;
          interactive = (\<not> bool_flag fl ''yes'' \<and> ce_tty env) in
      case runNew (ce_fails env) (ce_project env) (ce_tree env) (ce_tidy env) interactive (ce_form env) v o0 of
        (Inl err, v1) \<Rightarrow> (Some err, v1)
      | (Inr opts, v1) \<Rightarrow> (None, v1))"

definition run_upgrade :: "('n, 'w, 'd) cli_env \<Rightarrow> flag_vals \<Rightarrow> string list \<Rightarrow> vfs \<Rightarrow> string option \<times> vfs" where
  "run_upgrade env fl args v =
     (case runUpgrade (ce_Version env) (ce_net env) (ce_lookPath env) (ce_exec env) (bool_flag fl ''check'') of
        (err, None) \<Rightarrow> (err, v)
      | (err, Some argv) \<Rightarrow> (err, ce_install env v argv))"

section \<open>The subcommands\<close>

definition newVersionCmd :: "('n, 'w, 'd) command" where
  "newVersionCmd = \<lparr>c_Use = ''version'', c_Short = ''Print the wapgo CLI version'',
     c_Long = [],
     c_Args = AnyArgs, c_Flags = [],
     c_RunE = (\<lambda>env fl args v. (None, v))\<rparr>"

definition newNewCmd :: "('n, 'w, 'd) command" where
  "newNewCmd = \<lparr>c_Use = ''new [project-name]'', c_Short = ''Scaffold a new wapgo project (interactive)'',
     c_Long = Join
      [''Create a new wapgo project.'',
       [],
       ''Run without flags for an interactive wizard:'',
       ''  wapgo new'',
       [],
       ''Or pass everything up-front for non-interactive / CI use:'',
       ''  wapgo new shop --module github.com/me/shop --db mysql --redis --apm otel --yes''] [CHR 0x0A],
     c_Args = MaximumNArgs 1, c_Flags = [(''module'', [], FString []),
       (''db'', [], FString []),
       (''apm'', [], FString []),
       (''redis'', [], FBool False),
       (''kafka'', [], FBool False),
       (''rabbitmq'', [], FBool False),
       (''email'', [], FBool False),
       (''firebase'', [], FBool False),
       (''google-auth'', [], FBool False),
       (''yes'', ''y'', FBool False)],
     c_RunE = run_new\<rparr>"

definition newAddCmd :: "('n, 'w, 'd) command" where
  "newAddCmd = \<lparr>c_Use = ''add <feature>'', c_Short = ''Add an optional feature to an existing wapgo project'',
     c_Long = Join
      [''Add an optional feature to the project in the current directory.'',
       [],
       ''Available features:'',
       ''  redis        Redis cache layer'',
       ''  kafka        Kafka producer/consumer'',
       ''  rabbitmq     RabbitMQ publisher/consumer'',
       ''  email        SMTP mailer'',
       ''  firebase     Firebase FCM push notification'',
       ''  google-auth  Google OAuth2 login/register'',
       [],
       ''Example:'',
       ''  wapgo add google-auth''] [CHR 0x0A],
     c_Args = ExactArgs 1, c_Flags = [],
     c_RunE = (\<lambda>env fl args v. with_name (\<lambda>name. case runAdd (ce_fails env) (ce_tree env) v name of
       (Inl err, v1) \<Rightarrow> (Some err, v1) | (Inr created, v1) \<Rightarrow> (None, v1)) args v)\<rparr>"

definition newMakeModelCmd :: "('n, 'w, 'd) command" where
  "newMakeModelCmd = \<lparr>c_Use = ''make:model <name>'', c_Short = ''Generate entity + domain repository interface'',
     c_Long = Join
      [''Generate the entity struct and domain repository interface for a new domain.'',
       [],
       ''Example:'',
       ''  wapgo make:model product''] [CHR 0x0A],
     c_Args = ExactArgs 1, c_Flags = [],
     c_RunE = (\<lambda>env fl args v. with_name (runMakeModel (ce_fails env) (ce_domain env) (ce_rd env) v) args v)\<rparr>"

definition newMakeRepoCmd :: "('n, 'w, 'd) command" where
  "newMakeRepoCmd = \<lparr>c_Use = ''make:repo <name>'', c_Short = ''Generate GORM repository implementation'',
     c_Long = Join
      [''Generate the GORM repository implementation for a domain.'',
       ''Driver dipilih via DB_DRIVER env var (mysql / postgres) '' @ [CHR 0xE2, CHR 0x80, CHR 0x94] @ '' kode repository sama untuk keduanya.'',
       [],
       ''Example:'',
       ''  wapgo make:repo product''] [CHR 0x0A],
     c_Args = ExactArgs 1, c_Flags = [],
     c_RunE = (\<lambda>env fl args v. with_name (runMakeRepo (ce_fails env) (ce_domain env) (ce_rd env) v) args v)\<rparr>"

definition newMakeUsecaseCmd :: "('n, 'w, 'd) command" where
  "newMakeUsecaseCmd = \<lparr>c_Use = ''make:usecase <name>'', c_Short = ''Generate usecase interface and implementation'',
     c_Long = [],
     c_Args = ExactArgs 1, c_Flags = [],
     c_RunE = (\<lambda>env fl args v. with_name (runMakeUsecase (ce_fails env) (ce_domain env) (ce_rd env) v) args v)\<rparr>"

definition newMakeControllerCmd :: "('n, 'w, 'd) command" where
  "newMakeControllerCmd = \<lparr>c_Use = ''make:controller <name>'', c_Short = ''Generate HTTP handler (controller) and external service interface'',
     c_Long = [],
     c_Args = ExactArgs 1, c_Flags = [],
     c_RunE = (\<lambda>env fl args v. with_name (runMakeController (ce_fails env) (ce_domain env) (ce_rd env) v) args v)\<rparr>"

definition newMakeRouteCmd :: "('n, 'w, 'd) command" where
  "newMakeRouteCmd = \<lparr>c_Use = ''make:route <name>'', c_Short = ''Generate route registration for a domain'',
     c_Long = [],
     c_Args = ExactArgs 1, c_Flags = [],
     c_RunE = (\<lambda>env fl args v. with_name (runMakeRoute (ce_fails env) (ce_domain env) (ce_rd env) v) args v)\<rparr>"

definition newMakeClientCmd :: "('n, 'w, 'd) command" where
  "newMakeClientCmd = \<lparr>c_Use = ''make:client <name>'', c_Short = ''Generate inter-service HTTP client for a domain'',
     c_Long = [],
     c_Args = ExactArgs 1, c_Flags = [],
     c_RunE = (\<lambda>env fl args v. with_name (runMakeClient (ce_fails env) (ce_domain env) (ce_rd env) v) args v)\<rparr>"

definition newMakeAllCmd :: "('n, 'w, 'd) command" where
  "newMakeAllCmd = \<lparr>c_Use = ''make:all <name>'', c_Short = ''Generate all layers for a new domain at once'',
     c_Long = Join
      [''Generate every layer for a new domain in one command:'',
       [],
       ''  make:model      '' @ [CHR 0xE2, CHR 0x86, CHR 0x92] @ '' entity + domain repository interface'',
       ''  make:repo       '' @ [CHR 0xE2, CHR 0x86, CHR 0x92] @ '' GORM repository implementation (driver-agnostic)'',
       ''  make:usecase    '' @ [CHR 0xE2, CHR 0x86, CHR 0x92] @ '' usecase interface + implementation'',
       ''  make:controller '' @ [CHR 0xE2, CHR 0x86, CHR 0x92] @ '' HTTP handler + external service interface'',
       ''  make:route      '' @ [CHR 0xE2, CHR 0x86, CHR 0x92] @ '' route registration'',
       ''  make:client     '' @ [CHR 0xE2, CHR 0x86, CHR 0x92] @ '' inter-service HTTP client'',
       ''  make:test       '' @ [CHR 0xE2, CHR 0x86, CHR 0x92] @ '' usecase + handler test boilerplate'',
       [],
       ''Example:'',
       ''  wapgo make:all product''] [CHR 0x0A],
     c_Args = ExactArgs 1, c_Flags = [],
     c_RunE = (\<lambda>env fl args v. with_name (make_all (ce_fails env) (ce_domain env) (ce_rd env) v) args v)\<rparr>"

definition newMakeMigrationCmd :: "('n, 'w, 'd) command" where
  "newMakeMigrationCmd = \<lparr>c_Use = ''make:migration <name>'', c_Short = ''Generate a timestamped SQL migration file pair (up + down)'',
     c_Long = Join
      [''Generate a timestamped up/down SQL migration pair in migrations/.'',
       [],
       ''The file names follow the golang-migrate convention:'',
       ''  {timestamp}_{name}.up.sql'',
       ''  {timestamp}_{name}.down.sql'',
       [],
       ''Example:'',
       ''  wapgo make:migration create_orders''] [CHR 0x0A],
     c_Args = ExactArgs 1, c_Flags = [],
     c_RunE = (\<lambda>env fl args v. with_name (runMakeMigration (ce_fails env) (ce_parseFile env) (ce_ts env) v) args v)\<rparr>"

definition newMakeTestCmd :: "('n, 'w, 'd) command" where
  "newMakeTestCmd = \<lparr>c_Use = ''make:test <name>'', c_Short = ''Generate test boilerplate for a domain layer'',
     c_Long = Join
      [''Generate test boilerplate for a domain layer.'',
       [],
       ''Layers:'',
       ''  usecase  (default) '' @ [CHR 0xE2, CHR 0x80, CHR 0x94] @ '' usecase unit tests with mock repository'',
       ''  handler             '' @ [CHR 0xE2, CHR 0x80, CHR 0x94] @ '' HTTP handler tests with mock usecase + httptest'',
       [],
       ''Examples:'',
       ''  wapgo make:test product'',
       ''  wapgo make:test product --layer handler''] [CHR 0x0A],
     c_Args = ExactArgs 1, c_Flags = [(''layer'', ''l'', FString ''usecase'')],
     c_RunE = (\<lambda>env fl args v. with_name (make_test (string_flag fl ''layer'') (ce_fails env) (ce_domain env) (ce_rd env) v) args v)\<rparr>"

definition newMakeEventCmd :: "('n, 'w, 'd) command" where
  "newMakeEventCmd = \<lparr>c_Use = ''make:event <name>'', c_Short = ''Generate Kafka event producer + consumer boilerplate for a domain'',
     c_Long = Join
      [''Generate a producer and consumer pair for Kafka domain events.'',
       [],
       ''Files created:'',
       ''  internal/event/{name}_producer.go  '' @ [CHR 0xE2, CHR 0x80, CHR 0x94] @ '' typed event publisher'',
       ''  internal/event/{name}_consumer.go  '' @ [CHR 0xE2, CHR 0x80, CHR 0x94] @ '' typed event subscriber'',
       [],
       ''Example:'',
       ''  wapgo make:event order''] [CHR 0x0A],
     c_Args = ExactArgs 1, c_Flags = [],
     c_RunE = (\<lambda>env fl args v. with_name (runMakeEvent (ce_fails env) (ce_domain env) (ce_rd env) v) args v)\<rparr>"

definition newMakeWorkerCmd :: "('n, 'w, 'd) command" where
  "newMakeWorkerCmd = \<lparr>c_Use = ''make:worker [name]'', c_Short = ''Generate a standalone background consumer entrypoint'',
     c_Long = Join
      [''Generate a worker binary that runs Kafka/RabbitMQ consumers as a process'',
       ''separate from the API server. An optional name scopes the worker to a domain.'',
       [],
       ''Output paths:'',
       ''  (no name)          '' @ [CHR 0xE2, CHR 0x86, CHR 0x92] @ '' cmd/worker/main.go          bin/worker'',
       ''  make:worker order  '' @ [CHR 0xE2, CHR 0x86, CHR 0x92] @ '' cmd/worker-order/main.go    bin/worker-order'',
       ''  make:worker pay    '' @ [CHR 0xE2, CHR 0x86, CHR 0x92] @ '' cmd/worker-pay/main.go      bin/worker-pay'',
       [],
       ''Flags:'',
       ''  --broker kafka      (default, or auto-detected from go.mod)'',
       ''  --broker rabbitmq'',
       ''  --broker both       (Kafka + RabbitMQ in one process)'',
       [],
       ''Examples:'',
       ''  wapgo make:worker'',
       ''  wapgo make:worker order'',
       ''  wapgo make:worker order --broker kafka'',
       ''  wapgo make:worker notif --broker rabbitmq'',
       ''  wapgo make:worker hub   --broker both''] [CHR 0x0A],
     c_Args = MaximumNArgs 1, c_Flags = [(''broker'', [], FString [])],
     c_RunE = (\<lambda>env fl args v. runMakeWorker (ce_fails env) (ce_worker env) (ce_rd env) v
       (case args of [] \<Rightarrow> [] | name # _ \<Rightarrow> name) (string_flag fl ''broker''))\<rparr>"

definition newListCmd :: "('n, 'w, 'd) command" where
  "newListCmd = \<lparr>c_Use = ''list'', c_Short = ''List all domains generated in the current project'',
     c_Long = Join
      [''Scan internal/usecase/ for generated domain usecase files and print them.'',
       [],
       ''Example:'',
       ''  wapgo list''] [CHR 0x0A],
     c_Args = NoArgs, c_Flags = [],
     c_RunE = (\<lambda>env fl args v. (None, v))\<rparr>"

definition newUpgradeCmd :: "('n, 'w, 'd) command" where
  "newUpgradeCmd = \<lparr>c_Use = ''upgrade'', c_Short = ''Check for a newer wapgo release and upgrade via go install'',
     c_Long = Join
      [''Fetch the latest release tag from GitHub and compare with the installed version.'',
       ''If a newer version is available, run go install to upgrade.'',
       [],
       ''Examples:'',
       ''  wapgo upgrade           # check and upgrade if needed'',
       ''  wapgo upgrade --check   # check only, do not install''] [CHR 0x0A],
     c_Args = NoArgs, c_Flags = [(''check'', [], FBool False)],
     c_RunE = run_upgrade\<rparr>"


section \<open>The root command\<close>

definition root_commands :: "('n, 'w, 'd) command list" where
  "root_commands =
     [newVersionCmd, newNewCmd, newAddCmd, newMakeModelCmd, newMakeRepoCmd, newMakeUsecaseCmd, newMakeControllerCmd, newMakeRouteCmd,
      newMakeClientCmd, newMakeAllCmd, newMakeMigrationCmd, newMakeTestCmd, newMakeEventCmd, newMakeWorkerCmd, newListCmd, newUpgradeCmd]"

text \<open>The library: from the usage, the rule for the arguments and the flags of each command, and the command line, it finds the index of
  a command with its arguments and flag values, or an error, or nothing to run (it has printed a help text).\<close>

type_synonym cobra_lib = "(string \<times> args_rule \<times> (string \<times> string \<times> flag_val) list) list \<Rightarrow> string list \<Rightarrow>
  string + (nat \<times> string list \<times> flag_vals) option"

text \<open>\<^verbatim>\<open>Execute\<close>: the error of a command goes to the standard error and ends the process with 1.\<close>

definition Execute ::
  "cobra_lib \<Rightarrow> ('n, 'w, 'd) cli_env \<Rightarrow> vfs \<Rightarrow> string list \<Rightarrow> (string list \<times> int) \<times> vfs" where
  "Execute L env v argv =
     (case L (map (\<lambda>c. (c_Use c, c_Args c, c_Flags c)) (root_commands :: ('n, 'w, 'd) command list)) argv of
        Inl err \<Rightarrow> (([err], 1), v)
      | Inr None \<Rightarrow> (([], 0), v)
      | Inr (Some (i, args, fl)) \<Rightarrow>
          (case c_RunE (root_commands ! i) env fl args v of
             (Some err, v1) \<Rightarrow> (([err], 1), v1)
           | (None, v1) \<Rightarrow> (([], 0), v1)))"

section \<open>Lemmas\<close>

lemmas command_defs = newVersionCmd_def newNewCmd_def newAddCmd_def newMakeModelCmd_def newMakeRepoCmd_def newMakeUsecaseCmd_def
  newMakeControllerCmd_def newMakeRouteCmd_def newMakeClientCmd_def newMakeAllCmd_def newMakeMigrationCmd_def newMakeTestCmd_def
  newMakeEventCmd_def newMakeWorkerCmd_def newListCmd_def newUpgradeCmd_def

lemma root_commands_distinct: "distinct (map c_Use (root_commands :: ('n, 'w, 'd) command list))"
  unfolding root_commands_def command_defs list.map command.select_convs by simp

text \<open>Documented behaviour of the library: the command found is one of those added, and the number of arguments satisfies its rule.\<close>

fun args_ok :: "args_rule \<Rightarrow> nat \<Rightarrow> bool" where
  "args_ok AnyArgs n = True"
| "args_ok NoArgs n = (n = 0)"
| "args_ok (ExactArgs k) n = (n = k)"
| "args_ok (MaximumNArgs k) n = (n \<le> k)"

definition cobra_ok :: "cobra_lib \<Rightarrow> bool" where
  "cobra_ok L \<longleftrightarrow> (\<forall>cs argv i args fl. L cs argv = Inr (Some (i, args, fl)) \<longrightarrow>
     i < length cs \<and> args_ok (fst (snd (cs ! i))) (length args))"

text \<open>What the command with the usage \<open>use\<close> may do to the files that were there: \<^verbatim>\<open>make:worker\<close> may append text to the \<^verbatim>\<open>Makefile\<close> of
  the working directory, and \<^verbatim>\<open>new\<close> and \<^verbatim>\<open>upgrade\<close>, which run the \<^verbatim>\<open>go\<close> tool, may change the files \<open>G\<close> that belong to it.\<close>

definition extends_files :: "(string \<Rightarrow> bool) \<Rightarrow> string \<Rightarrow> vfs \<Rightarrow> vfs \<Rightarrow> bool" where
  "extends_files G use v v' \<longleftrightarrow> (\<forall>p c. map_of (vfs_files v) p = Some c \<longrightarrow>
     map_of (vfs_files v') p = Some c \<or>
     use = ''make:worker [name]'' \<and> p = resolve v ''Makefile'' \<and> (\<exists>more. map_of (vfs_files v') p = Some (c @ more)) \<or>
     use \<in> {''new [project-name]'', ''upgrade''} \<and> G p)"

lemma keeps_extends: "keeps_files v v' \<Longrightarrow> extends_files G use v v'"
  by (simp add: keeps_files_def extends_files_def)

lemma extends_refl [simp]: "extends_files G use v v"
  by (simp add: keeps_extends)

lemma run_make_extends: "extends_files G use v (snd (run_make files fails eng rd v name))"
proof -
  obtain r v' where R: "run_make files fails eng rd v name = (r, v')" by fastforce
  then have "keeps_files v v'"
    by (cases "ReadModulePath v") (auto simp: run_make_def Let_def dest: render_files_spec)
  then show ?thesis using R keeps_extends by simp
qed

lemma make_all_extends: "extends_files G use v (snd (make_all fails eng rd v name))"
proof -
  obtain r v' where "make_all fails eng rd v name = (r, v')" by fastforce
  moreover from make_all_made [OF this] have "keeps_files v v'" by (simp add: made_def)
  ultimately show ?thesis using keeps_extends by simp
qed

lemma migration_file_keeps:
  assumes "writeMigrationFile fails v path content = (r, v')"
  shows "keeps_files v v'"
proof -
  obtain r1 v1 where M: "MkdirGenerated fails v (path_dir path) = (r1, v1)" by fastforce
  show ?thesis
  proof (cases "r1 = None \<and> \<not> vfs_exists v1 path")
    case True
    then have "WriteGeneratedFile fails v1 path content = (r, v')" using assms M by (simp add: writeMigrationFile_def)
    then show ?thesis using Write_keeps True Mkdir_keeps [OF M] keeps_files_trans by blast
  next
    case False
    then have "v' = v1" using assms M by (cases r1) (auto simp: writeMigrationFile_def)
    then show ?thesis using Mkdir_keeps [OF M] by simp
  qed
qed

lemma migration_extends: "extends_files G use v (snd (runMakeMigration fails parseFile ts v name))"
proof -
  obtain r v' where R: "runMakeMigration fails parseFile ts v name = (r, v')" by fastforce
  then have "keeps_files v v'"
    by (auto simp: runMakeMigration_def Let_def split: prod.splits option.splits dest!: migration_file_keeps intro: keeps_files_trans)
  then show ?thesis using R keeps_extends by simp
qed

lemma append_extends: "extends_files G ''make:worker [name]'' v (appendWorkerMakeTargets fails v suffix d)"
  by (auto simp: extends_files_def appendWorkerMakeTargets_def update_conv' split: option.splits)

lemma extends_after:
  assumes "keeps_files u v" and "vfs_cwd v = vfs_cwd u" and "extends_files G use v w"
  shows "extends_files G use u w"
  unfolding extends_files_def
proof (intro allI impI)
  fix p c assume "map_of (vfs_files u) p = Some c"
  then have "map_of (vfs_files v) p = Some c" using assms(1) by (simp add: keeps_files_def)
  from assms(3) [unfolded extends_files_def resolve_cong [OF assms(2)], rule_format, OF this]
  show "map_of (vfs_files w) p = Some c \<or>
     use = ''make:worker [name]'' \<and> p = resolve u ''Makefile'' \<and> (\<exists>more. map_of (vfs_files w) p = Some (c @ more)) \<or>
     use \<in> {''new [project-name]'', ''upgrade''} \<and> G p" .
qed

lemma worker_extends_gen:
  assumes A: "\<And>v suffix d. extends_files G use v (appendWorkerMakeTargets fails v suffix d)"
  shows "extends_files G use v (snd (runMakeWorker fails eng rd v name broker))"
proof -
  have step: "extends_files G use v (snd (case Render fails eng v content out dat of (Some err, v1) \<Rightarrow> (Some (wrap (''generate '' @ out) err), v1)
      | (None, v1) \<Rightarrow> (None, appendWorkerMakeTargets fails v1 suffix d)))" for content out dat suffix d
  proof -
    obtain r1 v1 where R: "Render fails eng v content out dat = (r1, v1)" by fastforce
    have C: "vfs_cwd v1 = vfs_cwd v" using Render_same_but [OF R] by (simp add: same_but_def)
    show ?thesis
    proof (cases r1)
      case None
      then show ?thesis using R extends_after [OF Render_keeps [OF R] C A] by simp
    next
      case (Some err)
      then show ?thesis using R keeps_extends [OF Render_keeps [OF R]] by simp
    qed
  qed
  have s: "snd (if b then (e, v) else p) = (if b then v else snd p)" for b and e :: "string option" and p by simp
  have i: "extends_files G use v (if b then v else w)" if "extends_files G use v w" for b w using that by simp
  show ?thesis unfolding runMakeWorker_def Let_def
    by (cases "ReadModulePath v"; cases "DomainTemplateContent rd ''worker_main.go.tmpl''")
      (simp_all only: sum.case s snd_conv extends_refl i step if_cancel)
qed

lemmas worker_extends = worker_extends_gen [OF append_extends]

text \<open>The world around the commands: \<open>G\<close> are the files that the \<^verbatim>\<open>go\<close> tool keeps for itself (its module cache and the installed
  binaries, this program's own among them). \<^verbatim>\<open>go mod tidy\<close> changes only these and files below the directory it runs in, \<^verbatim>\<open>go install\<close> of a
  package at a version only these. The root of the embedded skeleton is a directory.\<close>

definition cli_env_ok :: "(string \<Rightarrow> bool) \<Rightarrow> ('n, 'w, 'd) cli_env \<Rightarrow> bool" where
  "cli_env_ok G env \<longleftrightarrow> (\<forall>u d. same_but (\<lambda>p. below (resolve u d) p \<or> G p) u (ce_tidy env u d)) \<and>
     (\<forall>u argv. same_but G u (ce_install env u argv)) \<and> list_all (\<lambda>e. te_isDir e \<or> te_rel e \<noteq> ''.'') (ce_tree env)"

lemma new_extends:
  assumes "cli_env_ok G env" "vfs_wf v"
  shows "extends_files G ''new [project-name]'' v (snd (run_new env fl args v))"
proof -
  have tree: "list_all (\<lambda>e. te_isDir e \<or> te_rel e \<noteq> ''.'') (ce_tree env)"
    and tidy: "\<And>u d. same_but (\<lambda>p. below (resolve u d) p \<or> G p) u (ce_tidy env u d)" using assms(1) by (simp_all add: cli_env_ok_def)
  have "extends_files G ''new [project-name]'' v v'"
    if "runNew (ce_fails env) (ce_project env) (ce_tree env) (ce_tidy env) i (ce_form env) v o0 = (r, v')" for i o0 r v'
    using new_keeps_files [OF that assms(2) tree tidy] by (auto simp: extends_files_def)
  then show ?thesis by (auto simp: run_new_def Let_def split: prod.splits sum.splits)
qed

lemma add_extends: "extends_files G use v (snd (case runAdd fails tree v name of (Inl err, v1) \<Rightarrow> (Some err, v1) | (Inr created, v1) \<Rightarrow> (None, v1)))"
proof -
  obtain r v' where R: "runAdd fails tree v name = (r, v')" by fastforce
  have "keeps_files v v'" using add_never_overwrites [OF R] by (simp add: keeps_files_def)
  then show ?thesis using R keeps_extends by (cases r) auto
qed

lemma with_name_extends: "(\<And>name. extends_files G use v (snd (f name))) \<Longrightarrow> extends_files G use v (snd (with_name f args v))"
  by (cases args) (simp_all add: with_name_def)

lemma upgrade_extends: "cli_env_ok G env \<Longrightarrow> extends_files G ''upgrade'' v (snd (run_upgrade env fl args v))"
  by (auto simp: run_upgrade_def cli_env_ok_def extends_files_def same_but_def split: prod.split option.split)

lemma test_extends: "extends_files G use v (snd (make_test layer fails eng rd v name))"
  by (simp add: make_test_def runMakeTest_def runMakeHandlerTest_def run_make_extends)

lemma make_extends:
  "extends_files G use v (snd (runMakeModel fails eng rd v name))" "extends_files G use v (snd (runMakeRepo fails eng rd v name))"
  "extends_files G use v (snd (runMakeUsecase fails eng rd v name))" "extends_files G use v (snd (runMakeController fails eng rd v name))"
  "extends_files G use v (snd (runMakeRoute fails eng rd v name))" "extends_files G use v (snd (runMakeClient fails eng rd v name))"
  "extends_files G use v (snd (runMakeEvent fails eng rd v name))"
  unfolding runMakeModel_def runMakeRepo_def runMakeUsecase_def runMakeController_def runMakeRoute_def runMakeClient_def runMakeEvent_def
  by (rule run_make_extends)+

lemma command_extends:
  assumes "cli_env_ok G env" "vfs_wf v" "c \<in> set root_commands"
  shows "extends_files G (c_Use c) v (snd (c_RunE c env fl args v))"
proof -
  have "list_all (\<lambda>c. extends_files G (c_Use c) v (snd (c_RunE c env fl args v))) root_commands"
    unfolding root_commands_def command_defs list.pred_inject(2) command.select_convs snd_conv
    by (intro conjI list.pred_inject(1) with_name_extends make_extends make_all_extends migration_extends test_extends worker_extends add_extends
        new_extends [OF assms(1,2)] upgrade_extends [OF assms(1)] extends_refl)
  then show ?thesis using assms(3) by (simp add: list_all_iff)
qed

lemma cobra_index: "cobra_ok L \<Longrightarrow> L cs argv = Inr (Some (i, args, fl)) \<Longrightarrow> i < length cs"
  unfolding cobra_ok_def by blast

text \<open>The command that a command line names, by its usage.\<close>

definition command_called :: "('n, 'w, 'd) cli_env \<Rightarrow> cobra_lib \<Rightarrow> string list \<Rightarrow> string option" where
  "command_called env L argv =
     (case L (map (\<lambda>c. (c_Use c, c_Args c, c_Flags c)) (root_commands :: ('n, 'w, 'd) command list)) argv of
        Inr (Some (i, args, fl)) \<Rightarrow> Some (c_Use (root_commands ! i :: ('n, 'w, 'd) command))
      | _ \<Rightarrow> None)"

lemma execute_extends:
  assumes "cobra_ok L" "cli_env_ok G env" "vfs_wf v" "Execute L env v argv = ((err, code), v')"
  shows "(command_called env L argv = None \<and> v' = v \<or> (\<exists>use. command_called env L argv = Some use \<and> extends_files G use v v')) \<and> code \<in> {0, 1}"
proof -
  define cs where "cs = map (\<lambda>c. (c_Use c, c_Args c, c_Flags c)) (root_commands :: ('a, 'b, 'c) command list)"
  note E = assms(4) [unfolded Execute_def, folded cs_def] and N = command_called_def [of env L argv, folded cs_def]
  show ?thesis
  proof (cases "L cs argv")
    case (Inr r)
    show ?thesis
    proof (cases r)
      case (Some x)
      obtain i args fl where x: "x = (i, args, fl)" by (cases x)
      have "i < length cs" using cobra_index [OF assms(1)] Inr Some x by blast
      then have "root_commands ! i \<in> set (root_commands :: ('a, 'b, 'c) command list)" unfolding cs_def by simp
      note X = command_extends [OF assms(2,3) this, of fl args]
      obtain e v1 where "c_RunE (root_commands ! i) env fl args v = (e, v1)" by fastforce
      then show ?thesis using E N X Inr Some x by (cases e) simp_all
    qed (use E N Inr in simp)
  qed (use E N in simp)
qed

section \<open>Properties\<close>

text \<open>C21. Whatever command line the generator is called with, and whether it succeeds or fails half-way, every file that was there
  keeps its content, with two exceptions: \<^verbatim>\<open>make:worker\<close>, and no other command, may append targets to the \<^verbatim>\<open>Makefile\<close>, and \<^verbatim>\<open>new\<close> and
  \<^verbatim>\<open>upgrade\<close>, which run the \<^verbatim>\<open>go\<close> tool, may change the tool's own files, such as the installed program. The exit status is 0 or 1.\<close>

theorem cli_never_overwrites:
  assumes "cobra_ok L" and "cli_env_ok G env" and "vfs_wf v"
    and "Execute L env v argv = ((err, code), v')" and "map_of (vfs_files v) p = Some c"
  shows "(map_of (vfs_files v') p = Some c \<or>
      command_called env L argv = Some ''make:worker [name]'' \<and> p = resolve v ''Makefile'' \<and> (\<exists>more. map_of (vfs_files v') p = Some (c @ more)) \<or>
      command_called env L argv \<in> {Some ''new [project-name]'', Some ''upgrade''} \<and> G p) \<and> code \<in> {0, 1}"
  using execute_extends [OF assms(1-4)] assms(5) unfolding extends_files_def by auto

text \<open>A library that knows the commands by the first word of their usage and no flags.\<close>

definition plain_cobra :: cobra_lib where
  "plain_cobra cs argv = (case argv of [] \<Rightarrow> Inr None
     | name # args \<Rightarrow> (case find (\<lambda>i. takeWhile (\<lambda>c. c \<noteq> CHR '' '') (fst (cs ! i)) = name) [0..<length cs] of
          None \<Rightarrow> Inl (''unknown command'' @ name)
        | Some i \<Rightarrow> if args_ok (fst (snd (cs ! i))) (length args)
            then Inr (Some (i, args, map (\<lambda>(n, s, d). (n, d)) (snd (snd (cs ! i))))) else Inl ''wrong number of arguments''))"

lemma plain_cobra_ok: "cobra_ok plain_cobra"
  by (auto simp: cobra_ok_def plain_cobra_def find_Some_iff split: list.splits option.splits if_splits)

definition sample_env :: "(string, string, string) cli_env" where
  "sample_env = \<lparr>ce_fails = (\<lambda>_. None), ce_domain = \<lparr>t_Parse = Inr, t_Execute = (\<lambda>t d. Inr t)\<rparr>,
     ce_worker = \<lparr>t_Parse = Inr, t_Execute = (\<lambda>t d. Inr t)\<rparr>, ce_project = sample_engine, ce_rd = (\<lambda>p. Inr ''package main''),
     ce_tree = sample_tree, ce_parseFile = (\<lambda>_. None), ce_ts = ''20240101000000'', ce_tty = False, ce_form = Inr,
     ce_tidy = (\<lambda>v d. v), ce_Version = ''v1.0.0'', ce_net = Inl ''offline'', ce_lookPath = None, ce_exec = (\<lambda>_. True),
     ce_install = (\<lambda>v argv. v\<lparr>vfs_files := AList.update ''/go/bin/wapgo'' ''new'' (vfs_files v)\<rparr>)\<rparr>"

definition go_files :: "string \<Rightarrow> bool" where
  "go_files p \<longleftrightarrow> HasPrefix p ''/go/''"

lemma sample_worker:
  "fst (Execute plain_cobra sample_env make_vfs [''make:worker'', ''order'']) = ([], 0)"
  by code_simp

theorem cli_never_overwrites_witness:
  "map_of (vfs_files (snd (Execute plain_cobra sample_env make_vfs [''make:worker'', ''order'']))) ''/w/Makefile'' \<noteq> None"
proof -
  have "Execute plain_cobra sample_env make_vfs [''make:worker'', ''order''] =
      (([], 0), snd (Execute plain_cobra sample_env make_vfs [''make:worker'', ''order'']))"
    using sample_worker by (metis prod.collapse)
  moreover have "cli_env_ok go_files sample_env"
    by (simp add: cli_env_ok_def sample_env_def sample_tree_def same_but_def go_files_def update_conv' HasPrefix_def)
  moreover have "vfs_wf make_vfs" by code_simp
  moreover have "map_of (vfs_files make_vfs) ''/w/Makefile'' = Some ''all:''" by (simp add: make_vfs_def)
  ultimately show ?thesis using cli_never_overwrites [OF plain_cobra_ok] by (fastforce simp: go_files_def HasPrefix_def)
qed

end
