(* ===== verification/Crypto.thy ===== *)
theory Crypto
  imports Prelude
begin

text \<open>
  Field encryption: \<^verbatim>\<open>pkg/crypto/crypto.go\<close>. Bytes are characters. The AES-GCM construction is a parameter: the
  size of its nonces and its two operations. \<^verbatim>\<open>base64.URLEncoding\<close> is modelled: the encoding with padding and
  the decoder, which skips line ends and does not look at unused trailing bits.
\<close>

section \<open>Base64\<close>

definition alphabet :: string where
  "alphabet = ''ABCDEFGHIJKLMNOPQRSTUVWXYZabcdefghijklmnopqrstuvwxyz0123456789-_''"

definition sextet_char :: "nat \<Rightarrow> char" where
  "sextet_char i = alphabet ! i"

definition char_sextet :: "char \<Rightarrow> nat option" where
  "char_sextet c = map_of (zip alphabet [0..<64]) c"

definition byte :: "nat \<Rightarrow> char" where
  "byte n = char_of (n mod 256)"

fun EncodeToString :: "string \<Rightarrow> string" where
  "EncodeToString [] = []"
| "EncodeToString [a] =
     (let n = ord_char a * 16 in [sextet_char (n div 64), sextet_char (n mod 64)] @ ''=='')"
| "EncodeToString [a, b] =
     (let n = (ord_char a * 256 + ord_char b) * 4 in
      [sextet_char (n div 4096), sextet_char (n div 64 mod 64), sextet_char (n mod 64)] @ ''='')"
| "EncodeToString (a # b # c # s) =
     (let n = (ord_char a * 256 + ord_char b) * 256 + ord_char c in
      [sextet_char (n div 262144), sextet_char (n div 4096 mod 64), sextet_char (n div 64 mod 64), sextet_char (n mod 64)]
      @ EncodeToString s)"

fun decode_groups :: "string \<Rightarrow> string option" where
  "decode_groups [] = Some []"
| "decode_groups (a # b # c # d # s) =
     (case (char_sextet a, char_sextet b) of
        (Some x, Some y) \<Rightarrow>
          if d = CHR ''='' then
            if s \<noteq> [] then None
            else if c = CHR ''='' then Some [byte ((x * 64 + y) div 16)]
            else (case char_sextet c of
               Some z \<Rightarrow> let n = ((x * 64 + y) * 64 + z) div 4 in Some [byte (n div 256), byte n]
             | None \<Rightarrow> None)
          else (case (char_sextet c, char_sextet d, decode_groups s) of
             (Some z, Some w, Some rest) \<Rightarrow>
               let n = ((x * 64 + y) * 64 + z) * 64 + w in Some ([byte (n div 65536), byte (n div 256), byte n] @ rest)
           | _ \<Rightarrow> None)
      | _ \<Rightarrow> None)"
| "decode_groups _ = None"

definition DecodeString :: "string \<Rightarrow> string option" where
  "DecodeString s = decode_groups (filter (\<lambda>c. c \<noteq> CHR 0x0D \<and> c \<noteq> CHR 0x0A) s)"

section \<open>Encryption\<close>

record AEAD =
  NonceSize :: nat
  Seal :: "string \<Rightarrow> string \<Rightarrow> string"
  Open :: "string \<Rightarrow> string \<Rightarrow> string option"

datatype crypto_err = ErrKeySize | ErrInvalidCiphertext | CryptoErr string

record Encryptor =
  gcm :: AEAD

definition NewEncryptor :: "(string \<Rightarrow> string + AEAD) \<Rightarrow> string \<Rightarrow> crypto_err + Encryptor" where
  "NewEncryptor newGCM key =
     (if length key \<noteq> 32 then Inl ErrKeySize
      else case newGCM key of Inl err \<Rightarrow> Inl (CryptoErr err) | Inr g \<Rightarrow> Inr \<lparr>gcm = g\<rparr>)"

text \<open>\<open>rnd\<close> is the random source: from a length, an error or that many bytes.\<close>

definition Encrypt :: "Encryptor \<Rightarrow> (nat \<Rightarrow> string + string) \<Rightarrow> string \<Rightarrow> crypto_err + string" where
  "Encrypt e rnd plaintext = (case rnd (NonceSize (gcm e)) of
     Inl err \<Rightarrow> Inl (CryptoErr (wrap ''generate nonce'' err))
   | Inr nonce \<Rightarrow> Inr (EncodeToString (nonce @ Seal (gcm e) nonce plaintext)))"

definition Decrypt :: "Encryptor \<Rightarrow> string \<Rightarrow> crypto_err + string" where
  "Decrypt e encoded = (case DecodeString encoded of
     None \<Rightarrow> Inl ErrInvalidCiphertext
   | Some dat \<Rightarrow>
       let ns = NonceSize (gcm e) in
       if length dat < ns then Inl ErrInvalidCiphertext
       else (case Open (gcm e) (take ns dat) (drop ns dat) of
          None \<Rightarrow> Inl ErrInvalidCiphertext
        | Some plaintext \<Rightarrow> Inr plaintext))"

section \<open>Lemmas\<close>

lemma length_alphabet: "length alphabet = 64"
  by (simp add: alphabet_def)

lemma distinct_alphabet: "distinct alphabet"
  by code_simp

lemma char_sextet_char [simp]:
  assumes "i < 64"
  shows "char_sextet (sextet_char i) = Some i"
  using map_of_zip_nth [of alphabet "[0..<64]" i] assms distinct_alphabet
  by (simp add: char_sextet_def sextet_char_def length_alphabet)

lemma sextet_char_in: "i < 64 \<Longrightarrow> sextet_char i \<in> set alphabet"
  by (simp add: sextet_char_def length_alphabet)

lemma sextet_char_plain [simp]:
  assumes "i < 64"
  shows "sextet_char i \<noteq> CHR ''=''" "sextet_char i \<noteq> CHR 0x0D" "sextet_char i \<noteq> CHR 0x0A"
proof -
  have "CHR ''='' \<notin> set alphabet" "CHR 0x0D \<notin> set alphabet" "CHR 0x0A \<notin> set alphabet" by code_simp+
  then show "sextet_char i \<noteq> CHR ''=''" "sextet_char i \<noteq> CHR 0x0D" "sextet_char i \<noteq> CHR 0x0A"
    using sextet_char_in [OF assms] by auto
qed

lemma byte_ord: "byte (256 * k + ord_char c) = c"
  by (simp add: byte_def ord_char_def)

lemma recompose: "(m :: nat) div k * k + m mod k = m"
  by simp

lemma recompose3: "((n :: nat) div 4096 * 64 + n div 64 mod 64) * 64 + n mod 64 = n"
proof -
  have "n div 4096 = n div 64 div 64" by (simp add: div_mult2_eq [symmetric])
  then show ?thesis using recompose [of "n div 64" 64] recompose [of n 64] by simp
qed

lemma recompose4: "(((n :: nat) div 262144 * 64 + n div 4096 mod 64) * 64 + n div 64 mod 64) * 64 + n mod 64 = n"
proof -
  have "n div 262144 = n div 64 div 4096" "n div 4096 = n div 64 div 64" by (simp_all add: div_mult2_eq [symmetric])
  then show ?thesis using recompose3 [of "n div 64"] recompose [of n 64] by simp
qed

lemma pack1: "(a :: nat) < 256 \<Longrightarrow> a * 16 div 64 < 64"
  by (simp add: div_less_iff_less_mult)

lemma pack2:
  assumes "(a :: nat) < 256" "b < 256"
  shows "(a * 256 + b) * 4 div 4096 < 64" "(a * 256 + b) * 4 div 4 div 256 = a" "(a * 256 + b) div 256 = a"
  using assms by (simp_all add: div_less_iff_less_mult)

lemma pack3:
  assumes "(a :: nat) < 256" "b < 256" "c < 256"
  shows "((a * 256 + b) * 256 + c) div 262144 < 64" "((a * 256 + b) * 256 + c) div 65536 = a"
    "((a * 256 + b) * 256 + c) div 256 = a * 256 + b"
proof -
  show D: "((a * 256 + b) * 256 + c) div 256 = a * 256 + b" using assms by simp
  have "((a * 256 + b) * 256 + c) div 65536 = ((a * 256 + b) * 256 + c) div 256 div 256" by (simp add: div_mult2_eq [symmetric])
  then show "((a * 256 + b) * 256 + c) div 65536 = a" unfolding D using assms by simp
  show "((a * 256 + b) * 256 + c) div 262144 < 64" using assms by (simp add: div_less_iff_less_mult)
qed

lemmas pack_ord = pack1 [OF ord_char_less] pack2 [OF ord_char_less ord_char_less] pack3 [OF ord_char_less ord_char_less ord_char_less]

lemma byte_ord': "byte (ord_char c) = c" "byte (k * 256 + ord_char c) = c"
  using byte_ord [of 0 c] byte_ord [of k c] by (simp_all add: mult.commute)

lemma decode_encode: "decode_groups (EncodeToString s) = Some s"
proof (induction s rule: EncodeToString.induct)
  case (2 a)
  let ?n = "ord_char a * 16"
  have "?n div 64 * 64 + ?n mod 64 = ?n" by (rule recompose)
  then have "(?n div 64 * 64 + ?n mod 64) div 16 = ord_char a" by simp
  moreover have "?n div 64 < 64" "?n mod 64 < 64" by (rule pack_ord, simp)
  ultimately show ?case unfolding EncodeToString.simps Let_def append.simps decode_groups.simps
    by (simp only: char_sextet_char option.case prod.case simp_thms if_True if_False byte_ord')
next
  case (3 a b)
  let ?n = "(ord_char a * 256 + ord_char b) * 4"
  have "?n div 4 = ord_char a * 256 + ord_char b" by simp
  moreover have "?n div 4096 < 64" "?n div 64 mod 64 < 64" "?n mod 64 < 64" by (rule pack_ord, simp_all)
  ultimately show ?case unfolding EncodeToString.simps Let_def append.simps decode_groups.simps
    by (simp only: char_sextet_char option.case prod.case simp_thms if_True if_False byte_ord' recompose3 sextet_char_plain pack_ord)
next
  case (4 a b c s)
  let ?n = "(ord_char a * 256 + ord_char b) * 256 + ord_char c"
  have "?n div 262144 < 64" "?n div 4096 mod 64 < 64" "?n div 64 mod 64 < 64" "?n mod 64 < 64" by (rule pack_ord, simp_all)
  then show ?case unfolding EncodeToString.simps Let_def append.simps decode_groups.simps 4 [OF refl]
    by (simp only: char_sextet_char option.case prod.case simp_thms if_False byte_ord' recompose4 sextet_char_plain pack_ord)
qed simp

lemma Encode_plain: "c \<in> set (EncodeToString s) \<Longrightarrow> c \<noteq> CHR 0x0D \<and> c \<noteq> CHR 0x0A"
proof (induction s rule: EncodeToString.induct)
  case (2 a)
  then show ?case using pack_ord(1) [of a] by (auto simp: Let_def)
next
  case (3 a b)
  then show ?case using pack_ord(2) [of a b] by (auto simp: Let_def)
next
  case (4 a b c' s)
  then show ?case using pack_ord(5) [of a b c'] by (auto simp: Let_def)
qed simp

lemma Decode_Encode: "DecodeString (EncodeToString s) = Some s"
proof -
  have "filter (\<lambda>c. c \<noteq> CHR 0x0D \<and> c \<noteq> CHR 0x0A) (EncodeToString s) = EncodeToString s"
    using Encode_plain by (auto intro!: filter_True)
  then show ?thesis by (simp add: DecodeString_def decode_encode)
qed

text \<open>What the package relies on: opening what was sealed under the same nonce gives the plaintext back, and
  opening anything else that was not sealed under this key fails.\<close>

definition aead_ok :: "AEAD \<Rightarrow> bool" where
  "aead_ok g \<longleftrightarrow> (\<forall>n p. Open g n (Seal g n p) = Some p) \<and> (\<forall>n c p. Open g n c = Some p \<longrightarrow> c = Seal g n p)"

definition rnd_ok :: "(nat \<Rightarrow> string + string) \<Rightarrow> bool" where
  "rnd_ok rnd \<longleftrightarrow> (\<forall>k n. rnd k = Inr n \<longrightarrow> length n = k)"

section \<open>Properties\<close>

text \<open>C35. A field that was encrypted decrypts to its plaintext, and decryption accepts nothing else: whatever text
  decrypts is, up to line ends and unused bits of the encoding, a nonce followed by the sealed plaintext;
  every other text gives \<^verbatim>\<open>ErrInvalidCiphertext\<close>.\<close>

theorem crypto_roundtrip:
  assumes "aead_ok (gcm e)" and "rnd_ok rnd"
  shows "(Encrypt e rnd p = Inr enc \<longrightarrow> Decrypt e enc = Inr p) \<and>
    (Decrypt e s = Inr p \<longleftrightarrow> (\<exists>nonce. length nonce = NonceSize (gcm e) \<and> DecodeString s = Some (nonce @ Seal (gcm e) nonce p))) \<and>
    (Decrypt e s = Inl err \<longrightarrow> err = ErrInvalidCiphertext)"
proof -
  have D: "Decrypt e s = Inr p \<longleftrightarrow> (\<exists>nonce. length nonce = NonceSize (gcm e) \<and> DecodeString s = Some (nonce @ Seal (gcm e) nonce p))" for s
  proof
    assume "Decrypt e s = Inr p"
    then obtain dat where d: "DecodeString s = Some dat" "\<not> length dat < NonceSize (gcm e)"
      "Open (gcm e) (take (NonceSize (gcm e)) dat) (drop (NonceSize (gcm e)) dat) = Some p"
      by (auto simp: Decrypt_def Let_def split: option.splits if_splits)
    then have "drop (NonceSize (gcm e)) dat = Seal (gcm e) (take (NonceSize (gcm e)) dat) p"
      using assms(1) by (simp add: aead_ok_def)
    then have "dat = take (NonceSize (gcm e)) dat @ Seal (gcm e) (take (NonceSize (gcm e)) dat) p" by (metis append_take_drop_id)
    then show "\<exists>nonce. length nonce = NonceSize (gcm e) \<and> DecodeString s = Some (nonce @ Seal (gcm e) nonce p)"
      using d by (intro exI [of _ "take (NonceSize (gcm e)) dat"]) simp
  qed (use assms(1) in \<open>auto simp: Decrypt_def Let_def aead_ok_def\<close>)
  have "Decrypt e enc = Inr p" if E: "Encrypt e rnd p = Inr enc"
  proof -
    obtain nonce where "rnd (NonceSize (gcm e)) = Inr nonce" "enc = EncodeToString (nonce @ Seal (gcm e) nonce p)"
      using E by (auto simp: Encrypt_def split: sum.splits)
    moreover have "length nonce = NonceSize (gcm e)" using calculation(1) assms(2) by (simp add: rnd_ok_def)
    ultimately show ?thesis using D Decode_Encode by blast
  qed
  then show ?thesis using D by (auto simp: Decrypt_def Let_def split: option.splits if_splits)
qed

text \<open>A toy construction that satisfies the law: the nonce is repeated as a tag.\<close>

definition tag_gcm :: AEAD where
  "tag_gcm = \<lparr>NonceSize = 2, Seal = (\<lambda>n p. n @ p), Open = (\<lambda>n c. if HasPrefix c n then Some (drop (length n) c) else None)\<rparr>"

lemma tag_gcm_ok: "aead_ok tag_gcm"
  by (auto simp: aead_ok_def tag_gcm_def HasPrefix_iff)

lemma sample_encrypt:
  "Encrypt \<lparr>gcm = tag_gcm\<rparr> (\<lambda>k. Inr (replicate k (CHR ''n''))) ''secret'' = Inr ''bm5ubnNlY3JldA==''"
proof -
  have "replicate 2 (CHR ''n'') = ''nn''" by (simp add: numeral_2_eq_2)
  then show ?thesis by (simp add: Encrypt_def tag_gcm_def sextet_char_def alphabet_def ord_char_def)
qed

theorem crypto_roundtrip_witness:
  "Encrypt \<lparr>gcm = tag_gcm\<rparr> (\<lambda>k. Inr (replicate k (CHR ''n''))) ''secret'' = Inr ''bm5ubnNlY3JldA=='' \<and>
   Decrypt \<lparr>gcm = tag_gcm\<rparr> ''bm5ubnNlY3JldA=='' = Inr ''secret''"
proof (rule conjI [OF sample_encrypt], rule crypto_roundtrip [THEN conjunct1, THEN mp, OF _ _ sample_encrypt])
  show "aead_ok (gcm \<lparr>gcm = tag_gcm\<rparr>)" using tag_gcm_ok by simp
  show "rnd_ok (\<lambda>k. Inr (replicate k (CHR ''n'')))" by (simp add: rnd_ok_def)
qed

end
