(* ===== verification/Email.thy ===== *)
theory Email
  imports Journal
begin

text \<open>
  The SMTP mailer: \<^verbatim>\<open>pkg/notification/email/email.go\<close>. The server is a record of its answers, one for each step
  of the dialogue; what the mailer does is the list of its steps, in order, each STARTTLS with its result. The message text is taken
  through the writer of \<^verbatim>\<open>net/textproto\<close> that the SMTP client uses (it turns line feeds into line ends, doubles leading dots and adds
  the final dot) and read back as a receiver does. Tracing spans are left out.
\<close>

section \<open>Messages\<close>

record Message =
  msg_To :: "string list"
  msg_CC :: "string list"
  msg_Subject :: string
  msg_Body :: string
  msg_IsHTML :: bool

record smtp_Config =
  smtp_Host :: string
  smtp_Port :: int
  smtp_Username :: string
  smtp_Password :: string
  smtp_From :: string
  smtp_Timeout :: int

definition NewSMTPMailer :: "smtp_Config \<Rightarrow> smtp_Config" where
  "NewSMTPMailer cfg = (if smtp_Timeout cfg = 0 then cfg\<lparr>smtp_Timeout := 10 * second\<rparr> else cfg)"

definition CRLF :: string where
  "CRLF = [CHR 0x0D, CHR 0x0A]"

definition sanitizeHeader :: "string \<Rightarrow> string" where
  "sanitizeHeader s = filter (\<lambda>c. c \<noteq> CHR 0x0D \<and> c \<noteq> CHR 0x0A) s"

definition buildRaw :: "smtp_Config \<Rightarrow> Message \<Rightarrow> string" where
  "buildRaw cfg msg =
     (let ct = (if msg_IsHTML msg then ''text/html'' else ''text/plain'') in
      ''From: '' @ sanitizeHeader (smtp_From cfg) @ CRLF @
      ''To: '' @ sanitizeHeader (Join (msg_To msg) '', '') @ CRLF @
      ''Cc: '' @ sanitizeHeader (Join (msg_CC msg) '', '') @ CRLF @
      ''Subject: '' @ sanitizeHeader (msg_Subject msg) @ CRLF @
      ''MIME-Version: 1.0'' @ CRLF @
      ''Content-Type: '' @ ct @ ''; charset='' @ [CHR 0x22] @ ''utf-8'' @ [CHR 0x22] @ CRLF @ CRLF @
      msg_Body msg)"

section \<open>The dialogue\<close>

text \<open>The answers of the server: an error or success for each command; \<open>sv_accept\<close> is its answer to the end of
  the data, which \<^verbatim>\<open>wc.Close\<close> returns. The step \<open>StartTLS e\<close> is the command with its handshake, which failed if \<open>e\<close>
  is an error; \<open>ImplicitTLS\<close> wraps the connection, whose first use is the greeting.\<close>

record smtp_server =
  sv_dial :: "string option"
  sv_greet :: "string option"
  sv_offers_tls :: bool
  sv_starttls :: "string option"
  sv_auth :: "string option"
  sv_mail :: "string option"
  sv_rcpt :: "string \<Rightarrow> string option"
  sv_data :: "string option"
  sv_write :: "string option"
  sv_accept :: "string option"

datatype smtp_step =
    Dial string
  | ImplicitTLS
  | Greet
  | StartTLS "string option"
  | Auth string string
  | MailFrom string
  | Rcpt string
  | DataCmd
  | Write string
  | EndData
  | CloseConn

fun rcpt_loop :: "smtp_server \<Rightarrow> string list \<Rightarrow> string option \<times> smtp_step list" where
  "rcpt_loop sv [] = (None, [])"
| "rcpt_loop sv (r # rs) = (case sv_rcpt sv r of
     Some err \<Rightarrow> (Some (wrap (''smtp RCPT '' @ r) err), [Rcpt r])
   | None \<Rightarrow> (case rcpt_loop sv rs of (res, steps) \<Rightarrow> (res, Rcpt r # steps)))"

text \<open>The data: the text is written, and the deferred \<^verbatim>\<open>wc.Close\<close> ends it. Its result is dropped.\<close>

definition send_data :: "smtp_Config \<Rightarrow> smtp_server \<Rightarrow> Message \<Rightarrow> string option \<times> smtp_step list" where
  "send_data cfg sv msg = (case sv_data sv of
     Some err \<Rightarrow> (Some (wrap ''smtp DATA'' err), [DataCmd])
   | None \<Rightarrow> (sv_write sv, [DataCmd, Write (buildRaw cfg msg), EndData]))"

definition send_mail :: "smtp_Config \<Rightarrow> smtp_server \<Rightarrow> Message \<Rightarrow> string option \<times> smtp_step list" where
  "send_mail cfg sv msg = (case sv_mail sv of
     Some err \<Rightarrow> (Some (wrap ''smtp MAIL FROM'' err), [MailFrom (smtp_From cfg)])
   | None \<Rightarrow> (case rcpt_loop sv (msg_To msg @ msg_CC msg) of
        (Some err, steps) \<Rightarrow> (Some err, MailFrom (smtp_From cfg) # steps)
      | (None, steps) \<Rightarrow> (case send_data cfg sv msg of
           (r, steps') \<Rightarrow> (r, MailFrom (smtp_From cfg) # steps @ steps'))))"

definition authenticate :: "smtp_Config \<Rightarrow> smtp_server \<Rightarrow> Message \<Rightarrow> string option \<times> smtp_step list" where
  "authenticate cfg sv msg =
     (if smtp_Username cfg = [] then send_mail cfg sv msg
      else case sv_auth sv of
        Some err \<Rightarrow> (Some (wrap ''smtp auth'' err), [Auth (smtp_Username cfg) (smtp_Password cfg)])
      | None \<Rightarrow> (case send_mail cfg sv msg of
           (r, steps) \<Rightarrow> (r, Auth (smtp_Username cfg) (smtp_Password cfg) # steps)))"

definition secure :: "smtp_Config \<Rightarrow> smtp_server \<Rightarrow> Message \<Rightarrow> string option \<times> smtp_step list" where
  "secure cfg sv msg =
     (if smtp_Port cfg = 465 then authenticate cfg sv msg
      else if \<not> sv_offers_tls sv \<and> smtp_Port cfg = 587
      then (Some ''smtp: server at port 587 did not advertise STARTTLS'', [])
      else if sv_offers_tls sv then (case sv_starttls sv of
         Some err \<Rightarrow> (Some (wrap ''smtp starttls'' err), [StartTLS (sv_starttls sv)])
       | None \<Rightarrow> (case authenticate cfg sv msg of (r, steps) \<Rightarrow> (r, StartTLS (sv_starttls sv) # steps)))
      else authenticate cfg sv msg)"

text \<open>\<^verbatim>\<open>smtpMailer.dial\<close>.\<close>

definition smtp_dial :: "smtp_Config \<Rightarrow> smtp_server \<Rightarrow> string \<Rightarrow> Message \<Rightarrow> string option \<times> smtp_step list" where
  "smtp_dial cfg sv addr msg = (case sv_dial sv of
     Some err \<Rightarrow> (Some (wrap (''smtp dial '' @ addr) err), [Dial addr])
   | None \<Rightarrow>
       let tls = (if smtp_Port cfg = 465 then [ImplicitTLS] else []) in
       case sv_greet sv of
         Some err \<Rightarrow> (Some (wrap ''smtp client'' err), [Dial addr] @ tls @ [Greet, CloseConn])
       | None \<Rightarrow> (case secure cfg sv msg of
            (r, steps) \<Rightarrow> (r, [Dial addr] @ tls @ [Greet] @ steps @ [CloseConn])))"

record email_log =
  el_to :: string
  el_subject :: string
  el_latency :: int
  el_err :: "string option"

text \<open>\<^verbatim>\<open>Send\<close>: \<open>start\<close> and \<open>stop\<close> are the clock before and after the dialogue. The result has the error, the
  steps, the journal with its file, and the line of the debug log.\<close>

definition Send ::
  "smtp_Config \<Rightarrow> smtp_server \<Rightarrow> time \<Rightarrow> time \<Rightarrow> Journal option \<Rightarrow> tp_line list \<Rightarrow> Message \<Rightarrow>
   string option \<times> smtp_step list \<times> (Journal option \<times> tp_line list) \<times> email_log list" where
  "Send cfg sv start stop j file msg =
     (if length (msg_To msg) = 0 then (Some ''email: at least one recipient required'', [], (j, file), [])
      else
        let addr = smtp_Host cfg @ '':'' @ Itoa (smtp_Port cfg);
            r = smtp_dial cfg sv addr msg;
            latency = go_div (stop - start) 1000000;
            status = (if fst r \<noteq> None then 0 else 250);
            errStr = (case fst r of Some e \<Rightarrow> e | None \<Rightarrow> []) in
        (fst r, snd r,
         AddThirdParty j file \<lparr>tp_Name = ''smtp'', tp_Method = ''SEND'', tp_URL = addr, tp_Host = smtp_Host cfg,
           tp_Status = status, tp_LatencyMS = latency, tp_RequestBody = [], tp_ResponseBody = [], tp_Error = errStr,
           tp_StartedAt = start\<rparr>,
         [\<lparr>el_to = Join (msg_To msg) '','', el_subject = msg_Subject msg, el_latency = latency, el_err = fst r\<rparr>]))"

section \<open>The text on the wire\<close>

text \<open>What the writer of \<^verbatim>\<open>smtp.Client.Data\<close> sends for a text (the dot writer of \<^verbatim>\<open>net/textproto\<close>): a line end without
  a carriage return gets one, a dot at the start of a line is doubled, and closing the writer ends the last line and sends
  the line with the single dot.\<close>

abbreviation CR :: char where "CR \<equiv> CHR 0x0D"
abbreviation LF :: char where "LF \<equiv> CHR 0x0A"

datatype dw_state = DwBegin | DwBeginLine | DwCR | DwData

fun dot_write :: "dw_state \<Rightarrow> string \<Rightarrow> string" where
  "dot_write DwBeginLine [] = ''.'' @ CRLF"
| "dot_write DwCR [] = LF # ''.'' @ CRLF"
| "dot_write _ [] = CRLF @ ''.'' @ CRLF"
| "dot_write DwCR (c # s) = c # dot_write (if c = LF then DwBeginLine else DwData) s"
| "dot_write st (c # s) =
     (if c = CHR ''.'' \<and> st \<noteq> DwData then ''.'' else []) @
     (if c = CR then CR # dot_write DwCR s
      else if c = LF then CRLF @ dot_write DwBeginLine s
      else c # dot_write DwData s)"

text \<open>The receiver: lines end with CRLF, the line with a single dot ends the text, and a leading dot is dropped. The
  result is the lines and what is left of the input, or \<open>None\<close> if the text does not end.\<close>

fun read_line :: "string \<Rightarrow> (string \<times> string) option" where
  "read_line [] = None"
| "read_line (c # s) =
     (if c = CR \<and> HasPrefix s [LF] then Some ([], drop 1 s)
      else (case read_line s of None \<Rightarrow> None | Some (l, r) \<Rightarrow> Some (c # l, r)))"

lemma read_line_shorter: "read_line s = Some (l, r) \<Longrightarrow> length r < length s"
  by (induction s arbitrary: l r) (auto split: if_splits option.splits simp: less_Suc_eq)

function receive :: "string \<Rightarrow> (string list \<times> string) option" where
  "receive s = (case read_line s of
     None \<Rightarrow> None
   | Some (l, r) \<Rightarrow>
       if l = ''.'' then Some ([], r)
       else (case receive r of
          None \<Rightarrow> None
        | Some (ls, rest) \<Rightarrow> Some ((if HasPrefix l ''.'' then drop 1 l else l) # ls, rest)))"
  by pat_completeness auto

termination
  by (relation "measure length") (auto dest: read_line_shorter)

declare receive.simps [simp del]

text \<open>The header of a message ends at the first empty line.\<close>

definition header_lines :: "string list \<Rightarrow> string list" where
  "header_lines ls = takeWhile (\<lambda>l. l \<noteq> []) ls"

definition body_lines :: "string list \<Rightarrow> string list" where
  "body_lines ls = drop 1 (dropWhile (\<lambda>l. l \<noteq> []) ls)"

text \<open>The lines of a text that ends its lines with LF or CRLF; \<open>no_lone_CR\<close> excludes other carriage returns.\<close>

fun text_lines :: "string \<Rightarrow> string list" where
  "text_lines [] = []"
| "text_lines (c # s) =
     (if c = LF then [] # text_lines s
      else if c = CR \<and> HasPrefix s [LF] then text_lines s
      else (case text_lines s of [] \<Rightarrow> [[c]] | l # ls \<Rightarrow> (c # l) # ls))"

fun no_lone_CR :: "string \<Rightarrow> bool" where
  "no_lone_CR [] = True"
| "no_lone_CR (c # s) = ((c = CR \<longrightarrow> HasPrefix s [LF]) \<and> no_lone_CR s)"

section \<open>Lemmas on the wire\<close>

definition stuffed :: "string \<Rightarrow> string" where
  "stuffed l = (if HasPrefix l ''.'' then CHR ''.'' # l else l)"

definition wire_lines :: "string list \<Rightarrow> string" where
  "wire_lines ls = concat (map (\<lambda>l. stuffed l @ CRLF) ls) @ ''.'' @ CRLF"

lemma wire_lines_simps [simp]:
  "wire_lines [] = ''.'' @ CRLF" "wire_lines (l # ls) = stuffed l @ CRLF @ wire_lines ls"
  by (simp_all add: wire_lines_def)

lemma read_line_CRLF: "LF \<notin> set l \<Longrightarrow> read_line (l @ CRLF @ r) = Some (l, r)"
proof (induction l)
  case (Cons c l)
  have "\<not> HasPrefix (l @ CRLF @ r) [LF]" using Cons.prems by (cases l) (auto simp: CRLF_def HasPrefix_def)
  then show ?case using Cons by simp
qed (simp add: CRLF_def HasPrefix_def)

lemma receive_lines: "list_all (\<lambda>l. LF \<notin> set l) ls \<Longrightarrow> receive (wire_lines ls) = Some (ls, [])"
proof (induction ls)
  case Nil
  show ?case using read_line_CRLF [of "''.''" "[]"] by (subst receive.simps) (simp add: CRLF_def)
next
  case (Cons l ls)
  have "LF \<notin> set (stuffed l)" using Cons.prems by (simp add: stuffed_def)
  then have "read_line (stuffed l @ CRLF @ wire_lines ls) = Some (stuffed l, wire_lines ls)" by (rule read_line_CRLF)
  moreover have "stuffed l \<noteq> ''.''" "(if HasPrefix (stuffed l) ''.'' then drop 1 (stuffed l) else stuffed l) = l"
    by (auto simp: stuffed_def HasPrefix_def)
  ultimately show ?case using Cons by (subst receive.simps) simp
qed

text \<open>Whatever the text, what is sent are lines without LF and the end.\<close>

lemma dot_write_lines:
  "(\<exists>ls. list_all (\<lambda>l. LF \<notin> set l) ls \<and> dot_write DwBeginLine s = wire_lines ls) \<and>
   (\<exists>l ls. list_all (\<lambda>l. LF \<notin> set l) (l # ls) \<and> dot_write DwData s = l @ CRLF @ wire_lines ls \<and>
     (HasPrefix l ''.'' \<longleftrightarrow> HasPrefix s ''.'')) \<and>
   (\<exists>l ls. list_all (\<lambda>l. LF \<notin> set l) (l # ls) \<and> (dot_write DwCR s = LF # wire_lines ls \<or> dot_write DwCR s = l @ CRLF @ wire_lines ls))"
  (is "?B s \<and> ?D s \<and> ?C s")
proof (induction s)
  case Nil
  have "?B []" by (rule exI [of _ "[]"]) simp
  moreover have "?D []" by (rule exI [of _ "[]"], rule exI [of _ "[]"]) (simp add: HasPrefix_def)
  moreover have "?C []" by (rule exI [of _ "[]"], rule exI [of _ "[]"]) simp
  ultimately show ?case by blast
next
  case (Cons c s)
  obtain ls where B: "list_all (\<lambda>l. LF \<notin> set l) ls" "dot_write DwBeginLine s = wire_lines ls" using Cons by blast
  obtain l ls' where D: "list_all (\<lambda>l. LF \<notin> set l) (l # ls')" "dot_write DwData s = l @ CRLF @ wire_lines ls'" using Cons by blast
  obtain m ms where C: "list_all (\<lambda>l. LF \<notin> set l) (m # ms)"
    "dot_write DwCR s = LF # wire_lines ms \<or> dot_write DwCR s = m @ CRLF @ wire_lines ms" using Cons by blast
  have Dc: "?D (c # s)"
  proof (cases "c = CR \<or> c = LF")
    case True
    then consider "c = LF" | "c = CR" "dot_write DwCR s = LF # wire_lines ms" | "c = CR" "dot_write DwCR s = m @ CRLF @ wire_lines ms"
      using C(2) by blast
    then show ?thesis
    proof cases
      case 1
      then show ?thesis using B by (intro exI [of _ "[]"] exI [of _ ls]) (simp add: HasPrefix_def)
    next
      case 2
      then show ?thesis using C(1) by (intro exI [of _ "[]"] exI [of _ ms]) (simp add: HasPrefix_def CRLF_def)
    next
      case 3
      then show ?thesis using C(1) by (intro exI [of _ "CR # m"] exI [of _ ms]) (simp add: HasPrefix_def)
    qed
  next
    case False
    then show ?thesis using D by (intro exI [of _ "c # l"] exI [of _ ls']) (auto simp: HasPrefix_def)
  qed
  then obtain k ks where K: "list_all (\<lambda>l. LF \<notin> set l) (k # ks)" "dot_write DwData (c # s) = k @ CRLF @ wire_lines ks"
    "HasPrefix k ''.'' \<longleftrightarrow> HasPrefix (c # s) ''.''" by blast
  have "dot_write DwBeginLine (c # s) = (if c = CHR ''.'' then ''.'' else []) @ dot_write DwData (c # s)" by simp
  then have "dot_write DwBeginLine (c # s) = wire_lines (k # ks)" using K(2,3) by (simp add: stuffed_def HasPrefix_def)
  then have "?B (c # s)" using K(1) by blast
  moreover have "?C (c # s)"
  proof (cases "c = LF")
    case True
    then show ?thesis using B by (intro exI [of _ "[]"] exI [of _ ls]) simp
  next
    case False
    then show ?thesis using D by (intro exI [of _ "c # l"] exI [of _ ls']) simp
  qed
  ultimately show ?case using Dc by blast
qed

text \<open>A text without lone carriage returns arrives line by line.\<close>

lemma dot_write_text:
  "no_lone_CR s \<Longrightarrow> dot_write DwBeginLine s = wire_lines (text_lines s) \<and>
     dot_write DwData s = (case text_lines s of [] \<Rightarrow> CRLF @ wire_lines [] | l # ls \<Rightarrow> l @ CRLF @ wire_lines ls)"
proof (induction s)
  case (Cons c s)
  note IH = Cons.IH [OF conjunct2 [OF Cons.prems [unfolded no_lone_CR.simps]]]
  show ?case
  proof (cases "c = CR")
    case True
    then obtain s' where s: "s = LF # s'" using Cons.prems by (auto simp: HasPrefix_iff)
    then have "dot_write DwBeginLine s' = wire_lines (text_lines s')" using IH by (simp add: stuffed_def HasPrefix_def)
    then show ?thesis using True s by (simp add: stuffed_def HasPrefix_def CRLF_def)
  next
    case False
    then show ?thesis using IH by (auto simp: stuffed_def HasPrefix_def split: list.splits)
  qed
qed simp

text \<open>A line that is written at the start of a line.\<close>

lemma dot_write_data: "CR \<notin> set l \<Longrightarrow> LF \<notin> set l \<Longrightarrow> dot_write DwData (l @ CRLF @ s) = l @ CRLF @ dot_write DwBeginLine s"
  by (induction l) (auto simp: CRLF_def)

lemma dot_write_line:
  assumes "CR \<notin> set l" "LF \<notin> set l" "st = DwBeginLine \<or> st = DwBegin"
  shows "dot_write st (l @ CRLF @ s) = stuffed l @ CRLF @ dot_write DwBeginLine s"
proof (cases l)
  case Nil
  then show ?thesis using assms(3) by (auto simp: CRLF_def stuffed_def HasPrefix_def)
next
  case (Cons c l')
  then show ?thesis using assms dot_write_data [of l' s] by (auto simp: stuffed_def HasPrefix_def)
qed

lemma dot_write_header:
  assumes "list_all (\<lambda>l. CR \<notin> set l \<and> LF \<notin> set l) ls" "st = DwBeginLine \<or> st = DwBegin"
  shows "dot_write st (concat (map (\<lambda>l. l @ CRLF) ls) @ CRLF @ s) =
    concat (map (\<lambda>l. stuffed l @ CRLF) ls) @ CRLF @ dot_write DwBeginLine s"
  using assms
proof (induction ls arbitrary: st)
  case Nil
  then show ?case using dot_write_line [of "[]" st s] by (simp add: stuffed_def HasPrefix_def)
next
  case (Cons l ls)
  then show ?case using dot_write_line [of l st] by simp
qed

lemma receive_message:
  assumes "list_all (\<lambda>l. l \<noteq> [] \<and> CR \<notin> set l \<and> LF \<notin> set l) hs" and "raw = concat (map (\<lambda>l. l @ CRLF) hs) @ CRLF @ body"
  shows "\<exists>ls. receive (dot_write DwBegin raw) = Some (hs @ [] # ls, []) \<and> (no_lone_CR body \<longrightarrow> ls = text_lines body)"
proof -
  obtain ls where ls: "list_all (\<lambda>l. LF \<notin> set l) ls" "dot_write DwBeginLine body = wire_lines ls" using dot_write_lines by blast
  have hs: "list_all (\<lambda>l. CR \<notin> set l \<and> LF \<notin> set l) hs" "list_all (\<lambda>l. LF \<notin> set l) (hs @ [] # ls)"
    using assms(1) ls(1) by (auto simp: list_all_iff)
  have "dot_write DwBegin raw = wire_lines (hs @ [] # ls)"
    using dot_write_header [OF hs(1), of DwBegin body] ls(2) assms(2) by (simp add: wire_lines_def stuffed_def HasPrefix_def)
  then have "receive (dot_write DwBegin raw) = Some (hs @ [] # ls, [])" using receive_lines [OF hs(2)] by simp
  moreover have "ls = text_lines body" if "no_lone_CR body"
  proof -
    have "wire_lines ls = wire_lines (text_lines body)" using dot_write_text [OF that] ls(2) by simp
    moreover have "list_all (\<lambda>l. LF \<notin> set l) (text_lines body)"
      by (induction body) (auto split: list.splits)
    ultimately show ?thesis using receive_lines ls(1) by (metis Pair_inject option.inject)
  qed
  ultimately show ?thesis by blast
qed

lemma sanitize_clean [simp]: "CR \<notin> set (sanitizeHeader s)" "LF \<notin> set (sanitizeHeader s)"
  by (simp_all add: sanitizeHeader_def)

section \<open>Lemmas on the dialogue\<close>

lemma rcpt_loop_ok: "list_all (\<lambda>r. sv_rcpt sv r = None) rs \<Longrightarrow> rcpt_loop sv rs = (None, map Rcpt rs)"
  by (induction rs) auto

lemma rcpt_loop_err: "\<not> list_all (\<lambda>r. sv_rcpt sv r = None) rs \<Longrightarrow> \<exists>err steps. rcpt_loop sv rs = (Some err, steps)"
proof (induction rs)
  case (Cons r rs)
  then show ?case by (cases "sv_rcpt sv r") auto
qed simp

text \<open>When each part of the dialogue succeeds, and what it has sent then.\<close>

definition mail_ok :: "smtp_server \<Rightarrow> Message \<Rightarrow> bool" where
  "mail_ok sv msg \<longleftrightarrow> sv_mail sv = None \<and> list_all (\<lambda>a. sv_rcpt sv a = None) (msg_To msg @ msg_CC msg) \<and>
     sv_data sv = None \<and> sv_write sv = None"

definition mail_steps :: "smtp_Config \<Rightarrow> Message \<Rightarrow> smtp_step list" where
  "mail_steps cfg msg = [MailFrom (smtp_From cfg)] @ map Rcpt (msg_To msg @ msg_CC msg) @ [DataCmd, Write (buildRaw cfg msg), EndData]"

definition tls_ok :: "smtp_Config \<Rightarrow> smtp_server \<Rightarrow> bool" where
  "tls_ok cfg sv \<longleftrightarrow> smtp_Port cfg = 465 \<or> (if sv_offers_tls sv then sv_starttls sv = None else smtp_Port cfg \<noteq> 587)"

lemma send_mail_outcome:
  "(fst (send_mail cfg sv msg) = None \<longleftrightarrow> mail_ok sv msg) \<and> (mail_ok sv msg \<longrightarrow> snd (send_mail cfg sv msg) = mail_steps cfg msg)"
proof (cases "list_all (\<lambda>a. sv_rcpt sv a = None) (msg_To msg @ msg_CC msg)")
  case True
  then show ?thesis using rcpt_loop_ok [OF True]
    by (cases "sv_mail sv"; cases "sv_data sv") (auto simp: send_mail_def send_data_def mail_ok_def mail_steps_def)
next
  case False
  then show ?thesis using rcpt_loop_err [OF False] by (cases "sv_mail sv") (auto simp: send_mail_def mail_ok_def)
qed

lemma authenticate_outcome:
  "(fst (authenticate cfg sv msg) = None \<longleftrightarrow> (smtp_Username cfg = [] \<or> sv_auth sv = None) \<and> mail_ok sv msg) \<and>
   (fst (authenticate cfg sv msg) = None \<longrightarrow> (\<exists>pre. snd (authenticate cfg sv msg) = pre @ mail_steps cfg msg))"
proof -
  obtain r st where S: "send_mail cfg sv msg = (r, st)" using prod.exhaust by blast
  then show ?thesis using send_mail_outcome [of cfg sv msg]
    by (cases "sv_auth sv"; cases "smtp_Username cfg = []") (auto simp: authenticate_def)
qed

lemma secure_outcome:
  "(fst (secure cfg sv msg) = None \<longleftrightarrow> tls_ok cfg sv \<and> (smtp_Username cfg = [] \<or> sv_auth sv = None) \<and> mail_ok sv msg) \<and>
   (fst (secure cfg sv msg) = None \<longrightarrow> (\<exists>pre. snd (secure cfg sv msg) = pre @ mail_steps cfg msg))"
proof -
  obtain r st where S: "authenticate cfg sv msg = (r, st)" using prod.exhaust by blast
  then show ?thesis using authenticate_outcome [of cfg sv msg]
    by (cases "sv_starttls sv"; cases "sv_offers_tls sv") (auto simp: secure_def tls_ok_def)
qed

lemma dial_outcome:
  "(fst (smtp_dial cfg sv addr msg) = None \<longleftrightarrow> sv_dial sv = None \<and> sv_greet sv = None \<and> tls_ok cfg sv \<and>
      (smtp_Username cfg = [] \<or> sv_auth sv = None) \<and> mail_ok sv msg) \<and>
   (fst (smtp_dial cfg sv addr msg) = None \<longrightarrow> (\<exists>pre. snd (smtp_dial cfg sv addr msg) = pre @ mail_steps cfg msg @ [CloseConn]))"
proof -
  obtain r st where S: "secure cfg sv msg = (r, st)" using prod.exhaust by blast
  have "\<exists>pre. [Dial addr] @ tls @ [Greet] @ (pre0 @ mail_steps cfg msg) @ [CloseConn] = pre @ mail_steps cfg msg @ [CloseConn]" for tls pre0
    by (intro exI [of _ "[Dial addr] @ tls @ [Greet] @ pre0"]) simp
  then show ?thesis using S secure_outcome [of cfg sv msg]
    by (cases "sv_dial sv"; cases "sv_greet sv") (auto simp: smtp_dial_def Let_def)
qed

text \<open>The steps that show the account, the addresses or the text, and those after which the connection is encrypted.\<close>

fun confidential :: "smtp_step \<Rightarrow> bool" where
  "confidential (Auth u p) = True"
| "confidential (MailFrom a) = True"
| "confidential (Rcpt a) = True"
| "confidential (Write s) = True"
| "confidential _ = False"

fun encrypts :: "smtp_step \<Rightarrow> bool" where
  "encrypts ImplicitTLS = True"
| "encrypts (StartTLS e) = (e = None)"
| "encrypts _ = False"

definition in_clear :: "smtp_step list \<Rightarrow> smtp_step list" where
  "in_clear steps = takeWhile (\<lambda>s. \<not> encrypts s) steps"

section \<open>Properties\<close>

definition sample_mail :: Message where
  "sample_mail = \<lparr>msg_To = [''a@x.io''], msg_CC = [''b@x.io''], msg_Subject = ''Hi'' @ CRLF @ ''Bcc: c@x.io'', msg_Body = ''Hello'' @ [LF] @ ''.'' @ CRLF @ ''World'', msg_IsHTML = False\<rparr>"

definition sample_smtp :: smtp_Config where
  "sample_smtp = \<lparr>smtp_Host = ''mail.x.io'', smtp_Port = 587, smtp_Username = ''me'', smtp_Password = ''pw'', smtp_From = ''me@x.io'', smtp_Timeout = 0\<rparr>"

definition good_server :: smtp_server where
  "good_server = \<lparr>sv_dial = None, sv_greet = None, sv_offers_tls = True, sv_starttls = None, sv_auth = None, sv_mail = None,
     sv_rcpt = (\<lambda>_. None), sv_data = None, sv_write = None, sv_accept = None\<rparr>"

text \<open>C36. Whatever the addresses, the subject and the body contain, a receiver reads the message that \<^verbatim>\<open>buildRaw\<close> builds and
  the client's writer sends as one message with exactly the six header lines, with carriage returns and line feeds removed from
  their values: no value can add a header, end the header section or end the message. A body whose lines end with LF or CRLF
  arrives line by line.\<close>

theorem email_headers_roundtrip:
  "\<exists>ls. receive (dot_write DwBegin (buildRaw cfg msg)) = Some (ls, []) \<and>
     (let clean = filter (\<lambda>c. c \<noteq> CHR 0x0D \<and> c \<noteq> CHR 0x0A) in
      header_lines ls = [''From: '' @ clean (smtp_From cfg), ''To: '' @ clean (Join (msg_To msg) '', ''),
        ''Cc: '' @ clean (Join (msg_CC msg) '', ''), ''Subject: '' @ clean (msg_Subject msg), ''MIME-Version: 1.0'',
        ''Content-Type: '' @ (if msg_IsHTML msg then ''text/html'' else ''text/plain'') @ ''; charset='' @
          [CHR 0x22] @ ''utf-8'' @ [CHR 0x22]]) \<and>
     (no_lone_CR (msg_Body msg) \<longrightarrow> body_lines ls = text_lines (msg_Body msg))"
proof -
  let ?hs = "[''From: '' @ sanitizeHeader (smtp_From cfg), ''To: '' @ sanitizeHeader (Join (msg_To msg) '', ''),
       ''Cc: '' @ sanitizeHeader (Join (msg_CC msg) '', ''), ''Subject: '' @ sanitizeHeader (msg_Subject msg),
       ''MIME-Version: 1.0'',
       ''Content-Type: '' @ (if msg_IsHTML msg then ''text/html'' else ''text/plain'') @ ''; charset='' @
         [CHR 0x22] @ ''utf-8'' @ [CHR 0x22]]"
  have raw: "buildRaw cfg msg = concat (map (\<lambda>l. l @ CRLF) ?hs) @ CRLF @ msg_Body msg" by (simp add: buildRaw_def Let_def)
  have "list_all (\<lambda>l. l \<noteq> [] \<and> CR \<notin> set l \<and> LF \<notin> set l) ?hs" by simp
  from receive_message [OF this raw] obtain ls where
    "receive (dot_write DwBegin (buildRaw cfg msg)) = Some (?hs @ [] # ls, [])" "no_lone_CR (msg_Body msg) \<longrightarrow> ls = text_lines (msg_Body msg)"
    by blast
  then show ?thesis by (intro exI [of _ "?hs @ [] # ls"]) (simp add: header_lines_def body_lines_def sanitizeHeader_def)
qed

theorem email_headers_roundtrip_witness:
  "\<exists>ls. receive (dot_write DwBegin (buildRaw sample_smtp sample_mail)) = Some (ls, []) \<and>
     header_lines ls ! 3 = ''Subject: HiBcc: c@x.io'' \<and> length (header_lines ls) = 6 \<and> body_lines ls = [''Hello'', ''.'', ''World'']"
  using email_headers_roundtrip [of sample_smtp sample_mail]
  by (auto simp: sample_mail_def CRLF_def HasPrefix_def Let_def)

text \<open>C37. On ports 465 and 587 the mailer sends neither credentials nor addresses nor the text of a message unless the
  connection is encrypted by then, whatever the server answers; a STARTTLS that fails does not count as encryption.\<close>

theorem smtp_tls_first:
  assumes "smtp_Port cfg = 465 \<or> smtp_Port cfg = 587"
  shows "\<not> list_ex confidential (in_clear (snd (smtp_dial cfg sv addr msg)))"
  using assms by (auto simp: smtp_dial_def secure_def in_clear_def Let_def split: option.split prod.split)

text \<open>\<^verbatim>\<open>Send\<close> reports success exactly when there is a recipient and the server has accepted every command up to
  the text; then every recipient and every copy has been announced, in order, before the text, and the
  journal has an entry with status 250. The server's answer to the end of the text plays no part.\<close>

lemma email_send_outcome:
  assumes "Send cfg sv start stop j file msg = (r, steps, (j', file'), lines)" and "msg_To msg \<noteq> []"
  shows "(r = None \<longleftrightarrow> sv_dial sv = None \<and> sv_greet sv = None \<and> tls_ok cfg sv \<and>
      (smtp_Username cfg = [] \<or> sv_auth sv = None) \<and> mail_ok sv msg) \<and>
    (r = None \<longrightarrow> (\<exists>pre. steps = pre @ mail_steps cfg msg @ [CloseConn])) \<and>
    (\<forall>j0. j = Some j0 \<longrightarrow> (\<exists>tp. j' = Some (j0\<lparr>j_thirdParty := j_thirdParty j0 @ [tp]\<rparr>) \<and>
      tp_Status tp = (if r = None then 250 else 0)))"
proof -
  let ?addr = "smtp_Host cfg @ '':'' @ Itoa (smtp_Port cfg)"
  have "r = fst (smtp_dial cfg sv ?addr msg)" "steps = snd (smtp_dial cfg sv ?addr msg)"
    using assms by (simp_all add: Send_def Let_def)
  moreover have "\<exists>tp. j' = Some (j0\<lparr>j_thirdParty := j_thirdParty j0 @ [tp]\<rparr>) \<and> tp_Status tp = (if r = None then 250 else 0)"
    if "j = Some j0" for j0
    using assms that by (auto simp: Send_def Let_def AddThirdParty_def)
  ultimately show ?thesis using dial_outcome [of cfg sv ?addr msg] by simp
qed

lemma accept_update:
  "sv_dial (sv\<lparr>sv_accept := x\<rparr>) = sv_dial sv"
  "sv_greet (sv\<lparr>sv_accept := x\<rparr>) = sv_greet sv"
  "sv_offers_tls (sv\<lparr>sv_accept := x\<rparr>) = sv_offers_tls sv"
  "sv_starttls (sv\<lparr>sv_accept := x\<rparr>) = sv_starttls sv"
  "sv_auth (sv\<lparr>sv_accept := x\<rparr>) = sv_auth sv"
  "sv_mail (sv\<lparr>sv_accept := x\<rparr>) = sv_mail sv"
  "sv_data (sv\<lparr>sv_accept := x\<rparr>) = sv_data sv"
  "sv_write (sv\<lparr>sv_accept := x\<rparr>) = sv_write sv"
  by simp_all

text \<open>A server that takes the whole text and then refuses the message does not make \<^verbatim>\<open>Send\<close> fail.\<close>

lemma refused_mail_is_reported_sent:
  "Send cfg (sv\<lparr>sv_accept := Some err\<rparr>) start stop j file msg = Send cfg (sv\<lparr>sv_accept := None\<rparr>) start stop j file msg"
proof -
  have "rcpt_loop (sv\<lparr>sv_accept := Some err\<rparr>) rs = rcpt_loop (sv\<lparr>sv_accept := None\<rparr>) rs" for rs
    by (induction rs) (auto split: option.split)
  then have "send_mail cfg (sv\<lparr>sv_accept := Some err\<rparr>) msg = send_mail cfg (sv\<lparr>sv_accept := None\<rparr>) msg"
    by (simp only: send_mail_def send_data_def accept_update)
  then have "authenticate cfg (sv\<lparr>sv_accept := Some err\<rparr>) msg = authenticate cfg (sv\<lparr>sv_accept := None\<rparr>) msg"
    by (simp only: authenticate_def accept_update)
  then have "secure cfg (sv\<lparr>sv_accept := Some err\<rparr>) msg = secure cfg (sv\<lparr>sv_accept := None\<rparr>) msg"
    by (simp only: secure_def accept_update)
  then have "smtp_dial cfg (sv\<lparr>sv_accept := Some err\<rparr>) addr msg = smtp_dial cfg (sv\<lparr>sv_accept := None\<rparr>) addr msg" for addr
    by (simp only: smtp_dial_def accept_update)
  then show ?thesis by (simp only: Send_def)
qed

theorem smtp_tls_first_witness:
  "\<not> list_ex confidential (in_clear (snd (smtp_dial sample_smtp (good_server\<lparr>sv_starttls := Some ''bad''\<rparr>) ''mail.x.io:587'' sample_mail))) \<and>
   list_ex confidential (in_clear [StartTLS (Some ''bad''), Auth ''me'' ''pw''])"
  using smtp_tls_first [of sample_smtp] by (simp add: sample_smtp_def in_clear_def)

end
