(* ===== verification/Spec2Isabelle.thy ===== *)
theory Spec2Isabelle
  imports Service Auth_Race Auth_Backends Logging Validation Google_Auth Query_Timeout Migrate Firebase Http_Client Cli_Root Crypto Email
begin

text \<open>
  \<^bold>\<open>wapgo\<close> is a platform for web services in Go: a service template with user management and token authentication
  (\<^verbatim>\<open>cmd\<close>, \<^verbatim>\<open>config\<close>, \<^verbatim>\<open>internal\<close>), the packages it is built from (\<^verbatim>\<open>pkg\<close>), and a code generator that creates and extends
  such services (\<^verbatim>\<open>cli\<close>). This development models these parts and proves what makes them correct.

  \<^bold>\<open>How the parts interact.\<close> A request passes the middlewares (recovery, request id, rate limiter, access log) and the
  route's guards to a handler; the handler calls a use case; the use cases work on a user repository (a database), on a
  cache that holds refresh sessions, reset tokens and password versions, and on a token blacklist. Cache, blacklist
  and rate limiter each have an implementation in memory and one in Redis; the start of the service chooses between
  them. Consumers of Kafka and RabbitMQ run beside the HTTP server. Calls to other services go through an HTTP client
  with retries, a circuit breaker and a guard against requests to internal addresses. The generator works on files.

  \<^bold>\<open>Theories and code.\<close>
  \<^item> \<^verbatim>\<open>Prelude\<close>: Go's integers, durations, maps (association lists) and the functions of \<^verbatim>\<open>strings\<close> and \<^verbatim>\<open>strconv\<close> that
    the code uses, with the lemmas and simplification sets all theories share.
  \<^item> \<^verbatim>\<open>Cache\<close>: \<^verbatim>\<open>internal/domain/repository/cache.go\<close> and its two implementations. The locale of a cacher states what a
    client relies on; both implementations interpret it. \<^verbatim>\<open>mem_cache_refines_ttl_map\<close> refines the in-memory cache to a map with
    expiry times; \<^verbatim>\<open>redis_cacher_contract\<close> is the contract of the other one.
  \<^item> \<^verbatim>\<open>Auth_Token\<close>: \<^verbatim>\<open>pkg/auth\<close> (signing, verification, blacklists, middlewares).
  \<^item> \<^verbatim>\<open>Pagination\<close>: \<^verbatim>\<open>pkg/pagination\<close>; \<^verbatim>\<open>User_Repo\<close>: the entity and the queries; \<^verbatim>\<open>User_Usecase\<close>: user management over any
    repository that satisfies the repository locale.
  \<^item> \<^verbatim>\<open>Auth_Usecase\<close> and \<^verbatim>\<open>Auth_Properties\<close>: login, refresh, logout, forgotten and reset passwords, and their properties over
    whole traces of operations (single use of tokens, end of sessions, revocation, and the types of what the cache holds);
    \<^verbatim>\<open>Auth_Race\<close>: the refresh in the two steps between which other requests may run, the step relation of their
    interleavings, and what holds in each of them. \<^verbatim>\<open>Auth_Backends\<close>: as long as Redis
    does not fail, the service with Redis answers like the one without.
  \<^item> \<^verbatim>\<open>Rate_Limit\<close>: \<^verbatim>\<open>pkg/ratelimit\<close> and the middleware; quotas per window.
  \<^item> \<^verbatim>\<open>Handlers\<close>: responses, handlers, routes and their guards.
  \<^item> \<^verbatim>\<open>Trace_Carrier\<close>, \<^verbatim>\<open>Kafka\<close>, \<^verbatim>\<open>RabbitMQ\<close>: \<^verbatim>\<open>pkg/messaging\<close>. The consumer loops are step functions over an abstract world; runs
    are sequences of rounds. Shown are what a restarted Kafka consumer is given again, which includes that a failed message is lost once a
    later one is committed; that every RabbitMQ delivery is answered once and in order, as a protocol on the calls that the broker
    and the handler see; the dead-letter topology; and that the loops stop.
  \<^item> \<^verbatim>\<open>Health\<close>: the health endpoint with every probe. \<^verbatim>\<open>Journal\<close>: \<^verbatim>\<open>pkg/journal\<close> and the logging middlewares.
  \<^item> \<^verbatim>\<open>Ssrf_Guard\<close>, \<^verbatim>\<open>Http_Client\<close>: \<^verbatim>\<open>pkg/httpclient\<close>: the address guard, the transport chain, retries and redirects.
  \<^item> \<^verbatim>\<open>Validation\<close>: \<^verbatim>\<open>pkg/validator\<close>; \<^verbatim>\<open>Google_Auth\<close>: \<^verbatim>\<open>pkg/auth/google\<close>; \<^verbatim>\<open>Firebase\<close>: the push client with its cached access token.
  \<^item> \<^verbatim>\<open>Database\<close>: \<^verbatim>\<open>pkg/database/database.go\<close> and the connection string of \<^verbatim>\<open>cmd/migrate\<close>, with the escaping of URLs; \<^verbatim>\<open>Migrate\<close>: the
    migration command. \<^verbatim>\<open>Query_Timeout\<close>: the plugin that puts a deadline on each statement, run together with the tracing
    plugin and the two statements of a paged listing; the callbacks of a statement are derived from the registrations of the plugins.
  \<^item> \<^verbatim>\<open>Logging\<close>: \<^verbatim>\<open>pkg/logger\<close> and \<^verbatim>\<open>pkg/auditlog\<close>, with the calendar of the daily files; \<^verbatim>\<open>Observability\<close>: \<^verbatim>\<open>pkg/observability\<close>.
  \<^item> \<^verbatim>\<open>Service\<close>: the middlewares in the order of \<^verbatim>\<open>cmd/api/main.go\<close> around all routes: a request from the limiter to the error handler.
    Its properties put the limiter, the authentication, the routes, the log and the metrics together.
  \<^item> \<^verbatim>\<open>Crypto\<close>: \<^verbatim>\<open>pkg/crypto\<close>; \<^verbatim>\<open>Email\<close>: \<^verbatim>\<open>pkg/notification/email\<close> (the SMTP dialogue with the results of
    its steps, and the message text as it is written to the wire and read by a receiver).
  \<^item> \<^verbatim>\<open>Settings\<close>: \<^verbatim>\<open>config\<close> (all settings, their variables and defaults); \<^verbatim>\<open>App\<close>: the start and the shutdown of \<^verbatim>\<open>cmd/api/main.go\<close>.
  \<^item> \<^verbatim>\<open>Naming\<close>, \<^verbatim>\<open>Scaffold\<close>, \<^verbatim>\<open>Cli_Commands\<close>, \<^verbatim>\<open>Upgrade\<close>, \<^verbatim>\<open>Cli_Root\<close>: \<^verbatim>\<open>cli/generator\<close> and \<^verbatim>\<open>cli/commands\<close>: names and columns, files and
    templates on a model file system, every \<^verbatim>\<open>make\<close> command, \<^verbatim>\<open>add\<close>, \<^verbatim>\<open>new\<close>, \<^verbatim>\<open>list\<close> and \<^verbatim>\<open>upgrade\<close>, and the command line that runs them;
    the \<^verbatim>\<open>go\<close> tool, which two commands run, may change its own files only.

  \<^bold>\<open>Modelling choices.\<close> Definitions keep the names of the code. State is passed explicitly: an operation takes the state
  of its component and returns a result and the new state. Errors are values: a sum type or an option, with an error
  type per package and one branch for each return of the code. The time is an argument, one instant per call, in nanoseconds;
  so are random draws. Integers are unbounded except where the code depends on their width (offsets, counters and
  versions wrap at 64 bits by \<^verbatim>\<open>int64\<close>). Stored bytes are JSON documents where only their decoding matters. Upper and lower case
  are those of ASCII. Code outside the repository (the database mapper, Redis, the token, broker and hashing libraries,
  the template engine, the file system's failures, \<^verbatim>\<open>viper\<close>) is a record of functions that the definitions take as an argument;
  what the code relies on is a predicate on that record (\<^verbatim>\<open>reader_ok\<close>, \<^verbatim>\<open>viper_ok\<close>, \<^verbatim>\<open>aead_ok\<close> and the like), and for each such
  predicate there is a concrete instance that satisfies it, on which the properties are applied.

  \<^bold>\<open>Bounds.\<close> Loops of the code that end are recursive functions with a termination proof. The consumer loops, which may run
  forever, are run for a number of rounds; the theorems hold for every number. The loop of the duration parser takes the
  length of its input as a bound, which \<^verbatim>\<open>duration_fuel\<close> shows to be enough. Dates are computed for years of four digits, which is what
  the names of log files can hold. The search for \<^verbatim>\<open>go.mod\<close> has the code's own bound of
  five directories. Redis commands that fail may or may not have taken effect; those that succeed act at the instant of the call.

  \<^bold>\<open>Interleaving.\<close> Operations that hold a lock are one step. \<^verbatim>\<open>Get\<close> of the in-memory cache has two critical sections and is split
  into two steps, between which other operations may run, and so is the refresh of a session, which holds no lock from the lookup to
  the deletion: two requests may both pass the lookup, but none does after the first deletion, however refreshes and other
  operations interleave. Inside each of the two steps the cache calls are taken as one. The callbacks of a database statement run one after the other; the
  order of the plugins among themselves is left open.

  \<^bold>\<open>Not modelled.\<close> What third-party libraries do inside: the mapper of a path to a route, the tracing exporters, the logging
  library with its size-based rotation, the rules of the validation library. Changes of the zone offset, which the daily log files
  would see. Response headers of middlewares that Fiber
  provides. The generated API documentation and the examples have no logic of their own; an interface of the domain
  layer without code is modelled where it is implemented. Log messages are modelled only where they are records
  that others read (access log, request log, third-party calls, audit entries).
\<close>

end
